(* ===== verification/Prelude.thy ===== *)
theory Prelude
  imports Complex_Main "HOL-Library.Char_ord" "HOL-Library.List_Lexorder"
    "HOL-Library.Product_Lexorder" "HOL-Library.Signed_Division"
begin

text \<open>
  What every component shares: Go's instants and durations, rows of an SQL table as lists in
  insertion order (look-up by key, upsert, filtered deletion, \<open>ORDER BY\<close> and \<open>LIMIT\<close>),
  and the two relations the schema is made of, unique keys and references between tables.
\<close>

section \<open>Time\<close>

text \<open>
  A \<^verbatim>\<open>time.Time\<close> is its number of nanoseconds since the Unix epoch and a
  \<^verbatim>\<open>time.Duration\<close> a number of nanoseconds. \<^verbatim>\<open>t.Unix()\<close> rounds towards minus
  infinity, \<^verbatim>\<open>d/time.Second\<close> on durations towards zero. Both are unbounded here; the
  program's instants stay far inside the range of \<^verbatim>\<open>int64\<close>.
\<close>

type_synonym time = int
type_synonym duration = int

definition second :: duration where "second = 1000000000"

abbreviation millisecond :: duration where "millisecond \<equiv> 1000000"
abbreviation minute :: duration where "minute \<equiv> 60 * second"
abbreviation hour :: duration where "hour \<equiv> 3600 * second"

definition unix :: "time \<Rightarrow> int" where "unix t = t div second"

definition of_unix :: "int \<Rightarrow> time" where "of_unix s = s * second"

definition in_seconds :: "duration \<Rightarrow> int" where "in_seconds d = d sdiv second"

text \<open>The zero \<^verbatim>\<open>time.Time{}\<close> is the first instant of year 1.\<close>

definition zero_time :: time where "zero_time = - 62135596800 * second"

lemma second_pos [simp]: "0 < second" by (simp add: second_def)

lemma unix_of_unix [simp]: "unix (of_unix s) = s"
  by (simp add: unix_def of_unix_def second_def)

lemma unix_mono: "s \<le> t \<Longrightarrow> unix s \<le> unix t"
  by (simp add: unix_def zdiv_mono1)

lemma unix_add_seconds [simp]: "unix (t + s * second) = unix t + s"
  by (simp add: unix_def second_def)

lemma unix_add_ge: "unix t + d div second \<le> unix (t + d)"
proof -
  have "t div second + d div second = (t div second * second + d div second * second) div second"
    by (simp flip: distrib_right)
  also have "\<dots> \<le> (t + d) div second"
    by (rule zdiv_mono1) (simp_all add: add_mono minus_mod_eq_div_mult [symmetric] pos_mod_sign)
  finally show ?thesis by (simp add: unix_def)
qed

lemma in_seconds_nonneg: "0 \<le> d \<Longrightarrow> in_seconds d = d div second"
  by (cases "d = 0") (simp_all add: in_seconds_def signed_divide_int_def second_def)

lemma in_seconds_mult [simp]: "in_seconds (s * second) = s"
proof -
  have "s * second sdiv second = sgn s * (\<bar>s\<bar> * second div second)"
    by (simp add: signed_divide_int_def sgn_mult abs_mult second_def)
  also have "\<dots> = s"
    by (simp add: second_def mult.commute abs_mult_sgn)
  finally show ?thesis by (simp add: in_seconds_def)
qed

lemma unix_zero [simp]: "unix 0 = 0"
  by (simp add: unix_def)

lemma whole_time [simp]:
  "in_seconds second = 1" "in_seconds (numeral n * second) = numeral n"
  "unix second = 1" "unix (numeral n * second) = numeral n"
  using in_seconds_mult [of 1] in_seconds_mult [of "numeral n"]
    unix_add_seconds [of 0 1] unix_add_seconds [of 0 "numeral n"]
  by (simp_all del: in_seconds_mult unix_add_seconds)

section \<open>Rows of a table\<close>

text \<open>\<open>row_with key k rows\<close> is the row a query \<^verbatim>\<open>WHERE key = k\<close> reads first.\<close>

definition row_with :: "('r \<Rightarrow> 'k) \<Rightarrow> 'k \<Rightarrow> 'r list \<Rightarrow> 'r option" where
  "row_with key k rows = find (\<lambda>r. key r = k) rows"

text \<open>\<^verbatim>\<open>INSERT ... ON CONFLICT(key) DO UPDATE SET\<close> of every other column.\<close>

definition upsert :: "('r \<Rightarrow> 'k) \<Rightarrow> 'r \<Rightarrow> 'r list \<Rightarrow> 'r list" where
  "upsert key r rows =
     (if list_ex (\<lambda>x. key x = key r) rows
      then map (\<lambda>x. if key x = key r then r else x) rows
      else rows @ [r])"

text \<open>\<^verbatim>\<open>UPDATE t SET ... WHERE P\<close>.\<close>

definition update_where :: "('r \<Rightarrow> bool) \<Rightarrow> ('r \<Rightarrow> 'r) \<Rightarrow> 'r list \<Rightarrow> 'r list" where
  "update_where P f rows = map (\<lambda>r. if P r then f r else r) rows"

text \<open>\<^verbatim>\<open>LIMIT n\<close>: SQLite reads a negative limit as no limit.\<close>

definition limit_rows :: "int \<Rightarrow> 'r list \<Rightarrow> 'r list" where
  "limit_rows n rows = (if n < 0 then rows else take (nat n) rows)"

definition count_rows :: "('r \<Rightarrow> bool) \<Rightarrow> 'r list \<Rightarrow> int" where
  "count_rows P rows = int (length (filter P rows))"

lemma row_with_Nil [simp]: "row_with key k [] = None"
  by (simp add: row_with_def)

lemma row_with_Cons [simp]:
  "row_with key k (r # rows) = (if key r = k then Some r else row_with key k rows)"
  by (simp add: row_with_def)

lemma row_with_append [simp]:
  "row_with key k (xs @ ys) =
     (case row_with key k xs of None \<Rightarrow> row_with key k ys | Some r \<Rightarrow> Some r)"
  by (induction xs) auto

lemma row_with_None: "row_with key k rows = None \<longleftrightarrow> k \<notin> key ` set rows"
  by (induction rows) auto

lemma row_with_SomeD: "row_with key k rows = Some r \<Longrightarrow> r \<in> set rows \<and> key r = k"
  by (induction rows) (auto split: if_splits)

lemma row_with_Some:
  "distinct (map key rows) \<Longrightarrow> row_with key k rows = Some r \<longleftrightarrow> r \<in> set rows \<and> key r = k"
  by (induction rows) (auto dest: row_with_SomeD)

lemma row_with_filter:
  "distinct (map key rows) \<Longrightarrow> row_with key k (filter P rows) =
     (case row_with key k rows of None \<Rightarrow> None | Some r \<Rightarrow> if P r then Some r else None)"
proof (induction rows)
  case (Cons r rows)
  show ?case
  proof (cases "key r = k")
    case True
    with Cons.prems have "row_with key k rows = None" "row_with key k (filter P rows) = None"
      by (auto simp: row_with_None)
    with True show ?thesis by simp
  next
    case False
    with Cons show ?thesis by simp
  qed
qed simp

lemma row_with_map:
  "(\<And>r. key (f r) = key r) \<Longrightarrow> row_with key k (map f rows) = map_option f (row_with key k rows)"
  by (induction rows) auto

lemma distinct_map_same_key:
  "(\<And>r. key (f r) = key r) \<Longrightarrow> distinct (map key (map f rows)) = distinct (map key rows)"
  by (simp add: comp_def)

lemma distinct_map_filter_key [simp]:
  "distinct (map key rows) \<Longrightarrow> distinct (map key (filter P rows))"
  by (rule distinct_map_filter)

lemma map_upsert_keys:
  "map key (map (\<lambda>x. if key x = key r then r else x) rows) = map key rows"
  by (induction rows) auto

lemma distinct_upsert [simp]:
  "distinct (map key rows) \<Longrightarrow> distinct (map key (upsert key r rows))"
  by (auto simp: upsert_def map_upsert_keys list_ex_iff simp del: map_map)

lemma row_with_replace:
  "row_with key k (map (\<lambda>x. if key x = key r then r else x) rows) =
     (if k = key r then map_option (\<lambda>_. r) (row_with key k rows) else row_with key k rows)"
  by (induction rows) auto

lemma row_with_upsert [simp]:
  "row_with key k (upsert key r rows) = (if k = key r then Some r else row_with key k rows)"
proof (cases "row_with key (key r) rows")
  case None
  then have "\<not> list_ex (\<lambda>x. key x = key r) rows"
    by (force simp: row_with_None list_ex_iff image_iff)
  with None show ?thesis by (auto simp: upsert_def split: option.splits)
next
  case (Some x)
  then have "list_ex (\<lambda>x. key x = key r) rows"
    by (auto simp: list_ex_iff dest: row_with_SomeD)
  with Some show ?thesis by (simp add: upsert_def row_with_replace)
qed

lemma set_upsert: "set (upsert key r rows) \<subseteq> insert r (set rows)"
  by (auto simp: upsert_def)

lemma upsert_keys: "key ` set (upsert key r rows) = insert (key r) (key ` set rows)"
proof (cases "list_ex (\<lambda>x. key x = key r) rows")
  case True
  then have "key r \<in> key ` set rows"
    unfolding list_ex_iff by (metis imageI)
  moreover have "key ` set (upsert key r rows) = key ` set rows"
    using True map_upsert_keys [of key r rows] by (simp only: upsert_def if_True flip: list.set_map)
  ultimately show ?thesis by auto
qed (simp add: upsert_def)

lemma update_where_Nil [simp]: "update_where P f [] = []"
  by (simp add: update_where_def)

lemma update_where_Cons [simp]:
  "update_where P f (r # rows) = (if P r then f r else r) # update_where P f rows"
  by (simp add: update_where_def)

lemma update_where_append [simp]:
  "update_where P f (xs @ ys) = update_where P f xs @ update_where P f ys"
  by (simp add: update_where_def)

lemma length_update_where [simp]: "length (update_where P f rows) = length rows"
  by (simp add: update_where_def)

lemma update_where_same: "(\<And>r. r \<in> set rows \<Longrightarrow> \<not> P r) \<Longrightarrow> update_where P f rows = rows"
  by (simp add: update_where_def map_idI)

lemma update_where_keys [simp]:
  "(\<And>r. P r \<Longrightarrow> key (f r) = key r) \<Longrightarrow> map key (update_where P f rows) = map key rows"
  by (simp add: update_where_def)

lemma update_where_key_set:
  "(\<And>r. P r \<Longrightarrow> key (f r) = key r) \<Longrightarrow> key ` set (update_where P f rows) = key ` set rows"
  using update_where_keys [of P key f rows] by (metis list.set_map)

lemma in_update_where:
  "x \<in> set (update_where P f rows) \<longleftrightarrow> (\<exists>r \<in> set rows. x = (if P r then f r else r))"
  unfolding update_where_def by auto

lemma update_where_all:
  assumes "\<And>r. r \<in> set rows \<Longrightarrow> P r \<Longrightarrow> Q (f r)" "\<And>r. r \<in> set rows \<Longrightarrow> \<not> P r \<Longrightarrow> Q r"
  shows "\<forall>x \<in> set (update_where P f rows). Q x"
  using assms by (auto simp: update_where_def)

lemma row_with_update:
  "(\<And>r. key (f r) = key r) \<Longrightarrow>
   row_with key k (update_where P f rows) = map_option (\<lambda>r. if P r then f r else r) (row_with key k rows)"
  unfolding update_where_def by (rule row_with_map) simp

lemma set_limit_rows: "set (limit_rows n rows) \<subseteq> set rows"
  by (auto simp: limit_rows_def dest: in_set_takeD)

lemma length_limit_rows: "0 \<le> n \<Longrightarrow> int (length (limit_rows n rows)) \<le> n"
  by (simp add: limit_rows_def)

lemma count_rows_nonneg [simp]: "0 \<le> count_rows P rows"
  by (simp add: count_rows_def)

lemma count_rows_Nil [simp]: "count_rows P [] = 0"
  by (simp add: count_rows_def)

lemma count_rows_Cons [simp]:
  "count_rows P (r # rows) = (if P r then 1 else 0) + count_rows P rows"
  by (simp add: count_rows_def)

lemma count_rows_append [simp]: "count_rows P (xs @ ys) = count_rows P xs + count_rows P ys"
  by (simp add: count_rows_def)

lemma count_rows_0: "count_rows P rows = 0 \<longleftrightarrow> (\<forall>r \<in> set rows. \<not> P r)"
  by (auto simp: count_rows_def filter_empty_conv)

lemma count_rows_filter_le: "count_rows P (filter Q rows) \<le> count_rows P rows"
  by (induction rows) auto

section \<open>Unique keys and references\<close>

text \<open>
  \<open>refs f xs g ys\<close>: every row of \<open>xs\<close> refers, by its column \<open>f\<close>, to a row of
  \<open>ys\<close> through that table's column \<open>g\<close>.
\<close>

definition refs :: "('a \<Rightarrow> 'k) \<Rightarrow> 'a list \<Rightarrow> ('b \<Rightarrow> 'k) \<Rightarrow> 'b list \<Rightarrow> bool" where
  "refs f xs g ys \<longleftrightarrow> f ` set xs \<subseteq> g ` set ys"

named_theorems refs_rules \<open>how references survive the statements of the program\<close>

lemma refs_Nil [simp]: "refs f [] g ys"
  by (simp add: refs_def)

lemma refs_filter_child [refs_rules]: "refs f xs g ys \<Longrightarrow> refs f (filter P xs) g ys"
  by (auto simp: refs_def)

lemma refs_grow_parent [refs_rules]: "refs f xs g ys \<Longrightarrow> refs f xs g (ys @ zs)"
  by (auto simp: refs_def)

lemma refs_snoc: "refs f (xs @ [x]) g ys \<longleftrightarrow> refs f xs g ys \<and> f x \<in> g ` set ys"
  by (auto simp: refs_def)

lemma refs_append: "refs f (xs @ zs) g ys \<longleftrightarrow> refs f xs g ys \<and> refs f zs g ys"
  by (auto simp: refs_def)

lemma refs_map_child [refs_rules]:
  "refs f xs g ys \<Longrightarrow> (\<And>x. f (h x) = f x) \<Longrightarrow> refs f (map h xs) g ys"
  by (auto simp: refs_def)

lemma refs_map_parent [refs_rules]:
  "refs f xs g ys \<Longrightarrow> (\<And>y. g (h y) = g y) \<Longrightarrow> refs f xs g (map h ys)"
  by (auto simp: refs_def image_image)

lemma refs_update_child [refs_rules]:
  "refs g xs h ys \<Longrightarrow> (\<And>x. P x \<Longrightarrow> g (f x) = g x) \<Longrightarrow> refs g (update_where P f xs) h ys"
  by (simp add: refs_def update_where_key_set)

lemma refs_update_parent [refs_rules]:
  "refs g xs h ys \<Longrightarrow> (\<And>y. P y \<Longrightarrow> h (f y) = h y) \<Longrightarrow> refs g xs h (update_where P f ys)"
  by (simp add: refs_def update_where_key_set)

lemma refs_upsert_parent: "refs f xs g ys \<Longrightarrow> refs f xs g (upsert g y ys)"
  by (auto simp: refs_def upsert_keys)

lemma refs_upsert_child:
  "refs f xs g ys \<Longrightarrow> f x \<in> g ` set ys \<Longrightarrow> refs f (upsert key x xs) g ys"
  using set_upsert [of key x xs] by (auto simp: refs_def)

text \<open>
  \<open>gone P g ys\<close> holds of the keys whose row a deletion \<^verbatim>\<open>WHERE P\<close> removes; a cascade
  removes the children of exactly those keys.
\<close>

definition gone :: "('b \<Rightarrow> bool) \<Rightarrow> ('b \<Rightarrow> 'k) \<Rightarrow> 'b list \<Rightarrow> 'k \<Rightarrow> bool" where
  "gone P g ys k \<longleftrightarrow> list_ex (\<lambda>y. P y \<and> g y = k) ys"

lemma gone_iff: "gone P g ys k \<longleftrightarrow> (\<exists>y \<in> set ys. P y \<and> g y = k)"
  by (simp add: gone_def list_ex_iff)

lemma refs_cascade [refs_rules]:
  "refs f xs g ys \<Longrightarrow>
   refs f (filter (\<lambda>x. \<not> gone P g ys (f x)) xs) g (filter (\<lambda>y. \<not> P y) ys)"
  by (fastforce simp: refs_def gone_iff)

lemma refs_subset_child: "refs f xs g ys \<Longrightarrow> set zs \<subseteq> set xs \<Longrightarrow> refs f zs g ys"
  by (auto simp: refs_def)

end
