(* ===== verification/Schema.thy ===== *)
theory Schema
  imports Prelude
begin

text \<open>
  The tables of \<^verbatim>\<open>store/schema/migrations.go\<close> and \<^verbatim>\<open>migration14.go\<close> to
  \<^verbatim>\<open>migration17.go\<close> after the last migration (version 24): one record per table, a
  database as the record of all of them, the deletions with their \<^verbatim>\<open>ON DELETE\<close>
  clauses, the insertions with the constraints they check, and \<open>wf_db\<close>: keys are unique and
  every foreign key has its row. Instants are stored in Unix seconds, a nullable column is
  an option, a column of SQL type \<^verbatim>\<open>REAL\<close> is a rational number.
\<close>

section \<open>Rows\<close>

record user_row =
  u_id :: string
  u_email :: string
  u_display_name :: string
  u_avatar :: string
  u_password_hash :: string
  u_token_hash :: string
  u_created_at :: int
  u_last_seen_at :: int
  u_welcome_seen_at :: int

record session_row =
  ses_token_hash :: string
  ses_user_id :: string
  ses_created_at :: int
  ses_last_seen_at :: int
  ses_expires_at :: int
  ses_reviewed_at :: "int option"

record room_row =
  r_code :: string
  r_owner_id :: string
  r_created_at :: int
  r_expires_at :: int
  r_empty_since_at :: "int option"

record room_member_row =
  rm_room_code :: string
  rm_user_id :: string
  rm_joined_at :: int

record group_row =
  g_id :: string
  g_visibility :: string
  g_owner_id :: string
  g_name :: string
  g_avatar :: string
  g_invite_token :: string
  g_created_at :: int
  g_last_activity_at :: int
  g_scheduled_for_deletion_at :: "int option"
  g_protected_from_auto_delete :: int
  g_isolated_until :: int
  g_isolation_level :: int
  g_isolation_raised_at :: int

record group_member_row =
  gm_group_id :: string
  gm_user_id :: string
  gm_joined_at :: int
  gm_joined_at_nanos :: int

record message_row =
  m_id :: string
  m_group_id :: string
  m_author_id :: string
  m_body :: string
  m_created_at :: int
  m_reply_to_id :: "string option"
  m_kind :: string
  m_event :: string
  m_created_at_nanos :: int

record read_row =
  rd_message_id :: string
  rd_user_id :: string
  rd_read_at :: int

record voice_room_row =
  vr_id :: string
  vr_group_id :: string
  vr_name :: string
  vr_created_at :: int

record voice_member_row =
  vm_user_id :: string
  vm_voice_room_id :: string
  vm_joined_at :: int

record bucket_row =
  b_key :: string
  b_tokens :: rat
  b_updated_at :: int
  b_expires_at :: int

record idempotency_row =
  ik_scope :: string
  ik_user_id :: string
  ik_key :: string
  ik_response_id :: string
  ik_created_at :: int
  ik_expires_at :: int

record ban_row =
  ib_key :: string
  ib_violations :: int
  ib_window_start :: int
  ib_until :: int
  ib_updated_at :: int
  ib_ban_count :: int

record account_ban_row =
  ab_user_id :: string
  ab_created_at :: int

record account_block_row =
  bl_user_id :: string
  bl_until :: int

record spam_warning_row =
  sw_group_id :: string
  sw_reason :: string
  sw_message_count :: int
  sw_user_count :: int
  sw_created_at :: int

record join_event_row =
  je_group_id :: string
  je_user_id :: string
  je_ip :: string
  je_joined_at :: int
  je_successful :: bool

record cooldown_row =
  cd_group_id :: string
  cd_user_id :: string
  cd_level :: int
  cd_until :: int
  cd_last_violation :: int

record attachment_row =
  a_id :: string
  a_message_id :: string
  a_group_id :: string
  a_owner_id :: string
  a_kind :: string
  a_mime :: string
  a_name :: string
  a_size :: int
  a_path :: string
  a_created_at :: int
  a_expires_at :: int

record delete_request_row =
  dr_id :: string
  dr_user_id :: string
  dr_created_at :: int
  dr_execute_at :: int

record database =
  t_users :: "user_row list"
  t_sessions :: "session_row list"
  t_rooms :: "room_row list"
  t_room_members :: "room_member_row list"
  t_groups :: "group_row list"
  t_group_members :: "group_member_row list"
  t_messages :: "message_row list"
  t_reads :: "read_row list"
  t_voice_rooms :: "voice_room_row list"
  t_voice_members :: "voice_member_row list"
  t_buckets :: "bucket_row list"
  t_idempotency :: "idempotency_row list"
  t_bans :: "ban_row list"
  t_account_bans :: "account_ban_row list"
  t_account_blocks :: "account_block_row list"
  t_spam_warnings :: "spam_warning_row list"
  t_join_events :: "join_event_row list"
  t_cooldowns :: "cooldown_row list"
  t_attachments :: "attachment_row list"
  t_delete_requests :: "delete_request_row list"

definition empty_db :: database where
  "empty_db = \<lparr>t_users = [], t_sessions = [], t_rooms = [], t_room_members = [],
     t_groups = [], t_group_members = [], t_messages = [], t_reads = [],
     t_voice_rooms = [], t_voice_members = [], t_buckets = [], t_idempotency = [],
     t_bans = [], t_account_bans = [], t_account_blocks = [], t_spam_warnings = [],
     t_join_events = [], t_cooldowns = [], t_attachments = [], t_delete_requests = []\<rparr>"

section \<open>Keys of the tables with a primary key of two columns\<close>

abbreviation rm_key :: "room_member_row \<Rightarrow> string \<times> string" where
  "rm_key r \<equiv> (rm_room_code r, rm_user_id r)"

abbreviation gm_key :: "group_member_row \<Rightarrow> string \<times> string" where
  "gm_key r \<equiv> (gm_group_id r, gm_user_id r)"

abbreviation rd_key :: "read_row \<Rightarrow> string \<times> string" where
  "rd_key r \<equiv> (rd_message_id r, rd_user_id r)"

abbreviation ik_pkey :: "idempotency_row \<Rightarrow> string \<times> string \<times> string" where
  "ik_pkey r \<equiv> (ik_scope r, ik_user_id r, ik_key r)"

abbreviation cd_key :: "cooldown_row \<Rightarrow> string \<times> string" where
  "cd_key r \<equiv> (cd_group_id r, cd_user_id r)"

section \<open>Deletions with their cascades\<close>

text \<open>
  \<^verbatim>\<open>DELETE FROM t WHERE P\<close> with what the \<^verbatim>\<open>ON DELETE\<close> clauses of the referring
  tables do: \<^verbatim>\<open>CASCADE\<close> everywhere, \<^verbatim>\<open>SET NULL\<close> for a reply.
\<close>

definition delete_rooms :: "(room_row \<Rightarrow> bool) \<Rightarrow> database \<Rightarrow> database" where
  "delete_rooms P d =
     (let dead = gone P r_code (t_rooms d) in
      d\<lparr>t_rooms := filter (\<lambda>r. \<not> P r) (t_rooms d),
        t_room_members := filter (\<lambda>m. \<not> dead (rm_room_code m)) (t_room_members d)\<rparr>)"

definition clear_reply :: "(string \<Rightarrow> bool) \<Rightarrow> message_row \<Rightarrow> message_row" where
  "clear_reply dead m =
     (case m_reply_to_id m of
        None \<Rightarrow> m
      | Some i \<Rightarrow> if dead i then m\<lparr>m_reply_to_id := None\<rparr> else m)"

definition delete_messages :: "(message_row \<Rightarrow> bool) \<Rightarrow> database \<Rightarrow> database" where
  "delete_messages P d =
     (let dead = gone P m_id (t_messages d) in
      d\<lparr>t_messages := map (clear_reply dead) (filter (\<lambda>m. \<not> P m) (t_messages d)),
        t_reads := filter (\<lambda>r. \<not> dead (rd_message_id r)) (t_reads d),
        t_attachments := filter (\<lambda>a. \<not> dead (a_message_id a)) (t_attachments d)\<rparr>)"

definition delete_voice_rooms :: "(voice_room_row \<Rightarrow> bool) \<Rightarrow> database \<Rightarrow> database" where
  "delete_voice_rooms P d =
     (let dead = gone P vr_id (t_voice_rooms d) in
      d\<lparr>t_voice_rooms := filter (\<lambda>v. \<not> P v) (t_voice_rooms d),
        t_voice_members := filter (\<lambda>m. \<not> dead (vm_voice_room_id m)) (t_voice_members d)\<rparr>)"

definition delete_groups :: "(group_row \<Rightarrow> bool) \<Rightarrow> database \<Rightarrow> database" where
  "delete_groups P d =
     (let dead = gone P g_id (t_groups d);
          d1 = delete_messages (\<lambda>m. dead (m_group_id m)) d;
          d2 = delete_voice_rooms (\<lambda>v. dead (vr_group_id v)) d1 in
      d2\<lparr>t_groups := filter (\<lambda>g. \<not> P g) (t_groups d2),
         t_group_members := filter (\<lambda>m. \<not> dead (gm_group_id m)) (t_group_members d2),
         t_spam_warnings := filter (\<lambda>s. \<not> dead (sw_group_id s)) (t_spam_warnings d2),
         t_join_events := filter (\<lambda>j. \<not> dead (je_group_id j)) (t_join_events d2),
         t_cooldowns := filter (\<lambda>c. \<not> dead (cd_group_id c)) (t_cooldowns d2),
         t_attachments := filter (\<lambda>a. \<not> dead (a_group_id a)) (t_attachments d2)\<rparr>)"

definition delete_users :: "(user_row \<Rightarrow> bool) \<Rightarrow> database \<Rightarrow> database" where
  "delete_users P d =
     (let dead = gone P u_id (t_users d);
          d1 = delete_rooms (\<lambda>r. dead (r_owner_id r)) d;
          d2 = delete_groups (\<lambda>g. dead (g_owner_id g)) d1;
          d3 = delete_messages (\<lambda>m. dead (m_author_id m)) d2 in
      d3\<lparr>t_users := filter (\<lambda>u. \<not> P u) (t_users d3),
         t_sessions := filter (\<lambda>s. \<not> dead (ses_user_id s)) (t_sessions d3),
         t_room_members := filter (\<lambda>m. \<not> dead (rm_user_id m)) (t_room_members d3),
         t_group_members := filter (\<lambda>m. \<not> dead (gm_user_id m)) (t_group_members d3),
         t_reads := filter (\<lambda>r. \<not> dead (rd_user_id r)) (t_reads d3),
         t_voice_members := filter (\<lambda>m. \<not> dead (vm_user_id m)) (t_voice_members d3),
         t_account_bans := filter (\<lambda>b. \<not> dead (ab_user_id b)) (t_account_bans d3),
         t_account_blocks := filter (\<lambda>b. \<not> dead (bl_user_id b)) (t_account_blocks d3),
         t_join_events := filter (\<lambda>j. \<not> dead (je_user_id j)) (t_join_events d3),
         t_cooldowns := filter (\<lambda>c. \<not> dead (cd_user_id c)) (t_cooldowns d3),
         t_attachments := filter (\<lambda>a. \<not> dead (a_owner_id a)) (t_attachments d3),
         t_delete_requests := filter (\<lambda>r. \<not> dead (dr_user_id r)) (t_delete_requests d3)\<rparr>)"

section \<open>Insertions with the constraints they check\<close>

text \<open>
  \<^verbatim>\<open>INSERT\<close> into one table: \<open>None\<close> is SQLite's constraint failure (a duplicate key, a
  \<^verbatim>\<open>UNIQUE\<close> column, a missing parent row, a \<^verbatim>\<open>CHECK\<close>), which leaves the table as it
  was.
\<close>

definition guarded :: "bool \<Rightarrow> database \<Rightarrow> database option" where
  "guarded ok d = (if ok then Some d else None)"

definition has_user :: "database \<Rightarrow> string \<Rightarrow> bool" where
  "has_user d i \<longleftrightarrow> list_ex (\<lambda>u. u_id u = i) (t_users d)"

definition has_group :: "database \<Rightarrow> string \<Rightarrow> bool" where
  "has_group d i \<longleftrightarrow> list_ex (\<lambda>g. g_id g = i) (t_groups d)"

definition has_message :: "database \<Rightarrow> string \<Rightarrow> bool" where
  "has_message d i \<longleftrightarrow> list_ex (\<lambda>m. m_id m = i) (t_messages d)"

definition insert_user :: "user_row \<Rightarrow> database \<Rightarrow> database option" where
  "insert_user u d = guarded
     (list_all (\<lambda>x. u_id x \<noteq> u_id u \<and> u_email x \<noteq> u_email u \<and> u_token_hash x \<noteq> u_token_hash u)
        (t_users d))
     (d\<lparr>t_users := t_users d @ [u]\<rparr>)"

definition insert_session :: "session_row \<Rightarrow> database \<Rightarrow> database option" where
  "insert_session s d = guarded
     (list_all (\<lambda>x. ses_token_hash x \<noteq> ses_token_hash s) (t_sessions d)
      \<and> has_user d (ses_user_id s))
     (d\<lparr>t_sessions := t_sessions d @ [s]\<rparr>)"

definition insert_room_row :: "room_row \<Rightarrow> database \<Rightarrow> database option" where
  "insert_room_row r d = guarded
     (list_all (\<lambda>x. r_code x \<noteq> r_code r) (t_rooms d) \<and> has_user d (r_owner_id r))
     (d\<lparr>t_rooms := t_rooms d @ [r]\<rparr>)"

definition insert_room_member :: "room_member_row \<Rightarrow> database \<Rightarrow> database option" where
  "insert_room_member m d = guarded
     (list_all (\<lambda>x. rm_key x \<noteq> rm_key m) (t_room_members d)
      \<and> list_ex (\<lambda>r. r_code r = rm_room_code m) (t_rooms d) \<and> has_user d (rm_user_id m))
     (d\<lparr>t_room_members := t_room_members d @ [m]\<rparr>)"

definition insert_group :: "group_row \<Rightarrow> database \<Rightarrow> database option" where
  "insert_group g d = guarded
     (list_all (\<lambda>x. g_id x \<noteq> g_id g \<and> g_invite_token x \<noteq> g_invite_token g) (t_groups d)
      \<and> (g_visibility g = ''public'' \<or> g_visibility g = ''private'')
      \<and> has_user d (g_owner_id g))
     (d\<lparr>t_groups := t_groups d @ [g]\<rparr>)"

definition insert_group_member :: "group_member_row \<Rightarrow> database \<Rightarrow> database option" where
  "insert_group_member m d = guarded
     (list_all (\<lambda>x. gm_key x \<noteq> gm_key m) (t_group_members d)
      \<and> has_group d (gm_group_id m) \<and> has_user d (gm_user_id m))
     (d\<lparr>t_group_members := t_group_members d @ [m]\<rparr>)"

definition insert_message :: "message_row \<Rightarrow> database \<Rightarrow> database option" where
  "insert_message m d = guarded
     (list_all (\<lambda>x. m_id x \<noteq> m_id m) (t_messages d)
      \<and> has_group d (m_group_id m) \<and> has_user d (m_author_id m)
      \<and> (case m_reply_to_id m of None \<Rightarrow> True | Some i \<Rightarrow> i = m_id m \<or> has_message d i))
     (d\<lparr>t_messages := t_messages d @ [m]\<rparr>)"

definition insert_voice_room :: "voice_room_row \<Rightarrow> database \<Rightarrow> database option" where
  "insert_voice_room v d = guarded
     (list_all (\<lambda>x. vr_id x \<noteq> vr_id v) (t_voice_rooms d) \<and> has_group d (vr_group_id v))
     (d\<lparr>t_voice_rooms := t_voice_rooms d @ [v]\<rparr>)"

definition upsert_voice_member :: "voice_member_row \<Rightarrow> database \<Rightarrow> database option" where
  "upsert_voice_member m d = guarded
     (has_user d (vm_user_id m)
      \<and> list_ex (\<lambda>v. vr_id v = vm_voice_room_id m) (t_voice_rooms d))
     (d\<lparr>t_voice_members := upsert vm_user_id m (t_voice_members d)\<rparr>)"

definition insert_account_ban :: "account_ban_row \<Rightarrow> database \<Rightarrow> database option" where
  "insert_account_ban b d = guarded (has_user d (ab_user_id b))
     (d\<lparr>t_account_bans := t_account_bans d @ [b]\<rparr>)"

definition upsert_account_block :: "account_block_row \<Rightarrow> database \<Rightarrow> database option" where
  "upsert_account_block b d = guarded (has_user d (bl_user_id b))
     (d\<lparr>t_account_blocks := upsert bl_user_id b (t_account_blocks d)\<rparr>)"

definition insert_spam_warning :: "spam_warning_row \<Rightarrow> database \<Rightarrow> database option" where
  "insert_spam_warning s d = guarded (has_group d (sw_group_id s))
     (d\<lparr>t_spam_warnings := t_spam_warnings d @ [s]\<rparr>)"

definition insert_join_event :: "join_event_row \<Rightarrow> database \<Rightarrow> database option" where
  "insert_join_event j d = guarded (has_group d (je_group_id j) \<and> has_user d (je_user_id j))
     (d\<lparr>t_join_events := t_join_events d @ [j]\<rparr>)"

definition upsert_cooldown :: "cooldown_row \<Rightarrow> database \<Rightarrow> database option" where
  "upsert_cooldown c d = guarded (has_group d (cd_group_id c) \<and> has_user d (cd_user_id c))
     (d\<lparr>t_cooldowns := upsert cd_key c (t_cooldowns d)\<rparr>)"

definition insert_idempotency :: "idempotency_row \<Rightarrow> database \<Rightarrow> database option" where
  "insert_idempotency i d = guarded
     (list_all (\<lambda>x. ik_pkey x \<noteq> ik_pkey i) (t_idempotency d))
     (d\<lparr>t_idempotency := t_idempotency d @ [i]\<rparr>)"

definition attachment_kinds :: "string list" where
  "attachment_kinds = [''image'', ''video'', ''audio'', ''file'', ''archive'']"

definition insert_attachment :: "attachment_row \<Rightarrow> database \<Rightarrow> database option" where
  "insert_attachment a d = guarded
     (list_all (\<lambda>x. a_id x \<noteq> a_id a \<and> a_path x \<noteq> a_path a) (t_attachments d)
      \<and> has_message d (a_message_id a) \<and> has_group d (a_group_id a) \<and> has_user d (a_owner_id a)
      \<and> List.member attachment_kinds (a_kind a) \<and> 0 < a_size a)
     (d\<lparr>t_attachments := t_attachments d @ [a]\<rparr>)"

section \<open>Integrity of a database\<close>

definition keys_unique :: "database \<Rightarrow> bool" where
  "keys_unique d \<longleftrightarrow>
     distinct (map u_id (t_users d)) \<and> distinct (map u_email (t_users d)) \<and>
     distinct (map u_token_hash (t_users d)) \<and>
     distinct (map ses_token_hash (t_sessions d)) \<and>
     distinct (map r_code (t_rooms d)) \<and> distinct (map rm_key (t_room_members d)) \<and>
     distinct (map g_id (t_groups d)) \<and> distinct (map g_invite_token (t_groups d)) \<and>
     distinct (map gm_key (t_group_members d)) \<and>
     distinct (map m_id (t_messages d)) \<and> distinct (map rd_key (t_reads d)) \<and>
     distinct (map vr_id (t_voice_rooms d)) \<and> distinct (map vm_user_id (t_voice_members d)) \<and>
     distinct (map b_key (t_buckets d)) \<and> distinct (map ik_pkey (t_idempotency d)) \<and>
     distinct (map ib_key (t_bans d)) \<and> distinct (map bl_user_id (t_account_blocks d)) \<and>
     distinct (map cd_key (t_cooldowns d)) \<and>
     distinct (map a_id (t_attachments d)) \<and> distinct (map a_path (t_attachments d)) \<and>
     distinct (map dr_id (t_delete_requests d)) \<and>
     distinct (map dr_user_id (t_delete_requests d))"

definition references_ok :: "database \<Rightarrow> bool" where
  "references_ok d \<longleftrightarrow>
     refs ses_user_id (t_sessions d) u_id (t_users d) \<and>
     refs r_owner_id (t_rooms d) u_id (t_users d) \<and>
     refs rm_room_code (t_room_members d) r_code (t_rooms d) \<and>
     refs rm_user_id (t_room_members d) u_id (t_users d) \<and>
     refs g_owner_id (t_groups d) u_id (t_users d) \<and>
     refs gm_group_id (t_group_members d) g_id (t_groups d) \<and>
     refs gm_user_id (t_group_members d) u_id (t_users d) \<and>
     refs m_group_id (t_messages d) g_id (t_groups d) \<and>
     refs m_author_id (t_messages d) u_id (t_users d) \<and>
     refs rd_message_id (t_reads d) m_id (t_messages d) \<and>
     refs rd_user_id (t_reads d) u_id (t_users d) \<and>
     refs vr_group_id (t_voice_rooms d) g_id (t_groups d) \<and>
     refs vm_voice_room_id (t_voice_members d) vr_id (t_voice_rooms d) \<and>
     refs vm_user_id (t_voice_members d) u_id (t_users d) \<and>
     refs ab_user_id (t_account_bans d) u_id (t_users d) \<and>
     refs bl_user_id (t_account_blocks d) u_id (t_users d) \<and>
     refs sw_group_id (t_spam_warnings d) g_id (t_groups d) \<and>
     refs je_group_id (t_join_events d) g_id (t_groups d) \<and>
     refs je_user_id (t_join_events d) u_id (t_users d) \<and>
     refs cd_group_id (t_cooldowns d) g_id (t_groups d) \<and>
     refs cd_user_id (t_cooldowns d) u_id (t_users d) \<and>
     refs a_message_id (t_attachments d) m_id (t_messages d) \<and>
     refs a_group_id (t_attachments d) g_id (t_groups d) \<and>
     refs a_owner_id (t_attachments d) u_id (t_users d) \<and>
     refs dr_user_id (t_delete_requests d) u_id (t_users d)"

definition replies_ok :: "message_row list \<Rightarrow> bool" where
  "replies_ok ms \<longleftrightarrow>
     list_all (\<lambda>m. case m_reply_to_id m of None \<Rightarrow> True | Some i \<Rightarrow> i \<in> m_id ` set ms) ms"

definition wf_db :: "database \<Rightarrow> bool" where
  "wf_db d \<longleftrightarrow> keys_unique d \<and> references_ok d \<and> replies_ok (t_messages d)"

end
