(* ===== verification/Integrity.thy ===== *)
theory Integrity
  imports Schema
begin

text \<open>
  The deletions and insertions of the schema keep the integrity of the database: \<open>wf_db\<close> is
  an invariant of every statement. A cascade is checked bottom up, each deletion relying on
  the facts that the tables it cascades to hold no row of a removed parent any more.
\<close>

section \<open>Tables a deletion leaves alone\<close>

lemma delete_rooms_other [simp]:
  "t_users (delete_rooms P d) = t_users d"
  "t_sessions (delete_rooms P d) = t_sessions d"
  "t_groups (delete_rooms P d) = t_groups d"
  "t_group_members (delete_rooms P d) = t_group_members d"
  "t_messages (delete_rooms P d) = t_messages d"
  "t_reads (delete_rooms P d) = t_reads d"
  "t_voice_rooms (delete_rooms P d) = t_voice_rooms d"
  "t_voice_members (delete_rooms P d) = t_voice_members d"
  "t_buckets (delete_rooms P d) = t_buckets d"
  "t_idempotency (delete_rooms P d) = t_idempotency d"
  "t_bans (delete_rooms P d) = t_bans d"
  "t_account_bans (delete_rooms P d) = t_account_bans d"
  "t_account_blocks (delete_rooms P d) = t_account_blocks d"
  "t_spam_warnings (delete_rooms P d) = t_spam_warnings d"
  "t_join_events (delete_rooms P d) = t_join_events d"
  "t_cooldowns (delete_rooms P d) = t_cooldowns d"
  "t_attachments (delete_rooms P d) = t_attachments d"
  "t_delete_requests (delete_rooms P d) = t_delete_requests d"
  by (simp_all add: delete_rooms_def Let_def)

lemma delete_messages_other [simp]:
  "t_users (delete_messages P d) = t_users d"
  "t_sessions (delete_messages P d) = t_sessions d"
  "t_rooms (delete_messages P d) = t_rooms d"
  "t_room_members (delete_messages P d) = t_room_members d"
  "t_groups (delete_messages P d) = t_groups d"
  "t_group_members (delete_messages P d) = t_group_members d"
  "t_voice_rooms (delete_messages P d) = t_voice_rooms d"
  "t_voice_members (delete_messages P d) = t_voice_members d"
  "t_buckets (delete_messages P d) = t_buckets d"
  "t_idempotency (delete_messages P d) = t_idempotency d"
  "t_bans (delete_messages P d) = t_bans d"
  "t_account_bans (delete_messages P d) = t_account_bans d"
  "t_account_blocks (delete_messages P d) = t_account_blocks d"
  "t_spam_warnings (delete_messages P d) = t_spam_warnings d"
  "t_join_events (delete_messages P d) = t_join_events d"
  "t_cooldowns (delete_messages P d) = t_cooldowns d"
  "t_delete_requests (delete_messages P d) = t_delete_requests d"
  by (simp_all add: delete_messages_def Let_def)

lemma delete_voice_rooms_other [simp]:
  "t_users (delete_voice_rooms P d) = t_users d"
  "t_sessions (delete_voice_rooms P d) = t_sessions d"
  "t_rooms (delete_voice_rooms P d) = t_rooms d"
  "t_room_members (delete_voice_rooms P d) = t_room_members d"
  "t_groups (delete_voice_rooms P d) = t_groups d"
  "t_group_members (delete_voice_rooms P d) = t_group_members d"
  "t_messages (delete_voice_rooms P d) = t_messages d"
  "t_reads (delete_voice_rooms P d) = t_reads d"
  "t_buckets (delete_voice_rooms P d) = t_buckets d"
  "t_idempotency (delete_voice_rooms P d) = t_idempotency d"
  "t_bans (delete_voice_rooms P d) = t_bans d"
  "t_account_bans (delete_voice_rooms P d) = t_account_bans d"
  "t_account_blocks (delete_voice_rooms P d) = t_account_blocks d"
  "t_spam_warnings (delete_voice_rooms P d) = t_spam_warnings d"
  "t_join_events (delete_voice_rooms P d) = t_join_events d"
  "t_cooldowns (delete_voice_rooms P d) = t_cooldowns d"
  "t_attachments (delete_voice_rooms P d) = t_attachments d"
  "t_delete_requests (delete_voice_rooms P d) = t_delete_requests d"
  by (simp_all add: delete_voice_rooms_def Let_def)

lemma delete_groups_other [simp]:
  "t_users (delete_groups P d) = t_users d"
  "t_sessions (delete_groups P d) = t_sessions d"
  "t_rooms (delete_groups P d) = t_rooms d"
  "t_room_members (delete_groups P d) = t_room_members d"
  "t_buckets (delete_groups P d) = t_buckets d"
  "t_idempotency (delete_groups P d) = t_idempotency d"
  "t_bans (delete_groups P d) = t_bans d"
  "t_account_bans (delete_groups P d) = t_account_bans d"
  "t_account_blocks (delete_groups P d) = t_account_blocks d"
  "t_delete_requests (delete_groups P d) = t_delete_requests d"
  by (simp_all add: delete_groups_def Let_def)

lemma delete_users_other [simp]:
  "t_buckets (delete_users P d) = t_buckets d"
  "t_idempotency (delete_users P d) = t_idempotency d"
  "t_bans (delete_users P d) = t_bans d"
  by (simp_all add: delete_users_def Let_def)

section \<open>References after a deletion\<close>

lemma refs_live_parent [refs_rules]:
  "refs f xs g ys \<Longrightarrow> (\<And>x. x \<in> set xs \<Longrightarrow> \<not> gone P g ys (f x)) \<Longrightarrow>
   refs f xs g (filter (\<lambda>y. \<not> P y) ys)"
  by (fastforce simp: refs_def gone_iff)

lemma clear_reply_simps [simp]:
  "m_id (clear_reply dead m) = m_id m"
  "m_group_id (clear_reply dead m) = m_group_id m"
  "m_author_id (clear_reply dead m) = m_author_id m"
  "m_created_at (clear_reply dead m) = m_created_at m"
  "m_body (clear_reply dead m) = m_body m"
  "m_created_at_nanos (clear_reply dead m) = m_created_at_nanos m"
  by (simp_all add: clear_reply_def split: option.splits)

lemma replies_ok_delete:
  assumes "replies_ok ms" and dead: "dead = gone P m_id ms"
  shows "replies_ok (map (clear_reply dead) (filter (\<lambda>m. \<not> P m) ms))"
proof -
  have keep: "i \<in> m_id ` {m \<in> set ms. \<not> P m}"
    if "i \<in> m_id ` set ms" and "\<not> dead i" for i
    using that by (auto simp: dead gone_iff)
  have "case m_reply_to_id (clear_reply dead m) of None \<Rightarrow> True
      | Some i \<Rightarrow> i \<in> m_id ` {m \<in> set ms. \<not> P m}" if "m \<in> set ms" for m
    using assms(1) that keep
    by (fastforce simp: replies_ok_def list_all_iff clear_reply_def split: option.splits)
  moreover have "m_id ` set (map (clear_reply dead) (filter (\<lambda>m. \<not> P m) ms)) =
      m_id ` {m \<in> set ms. \<not> P m}"
    by (simp add: image_image)
  ultimately show ?thesis
    unfolding replies_ok_def by (simp only: list_all_iff) auto
qed

text \<open>The two halves of \<open>wf_db\<close> as introduction rules, one goal per table.\<close>

lemmas keys_uniqueI = keys_unique_def [THEN iffD2]
lemmas references_okI = references_ok_def [THEN iffD2]
lemmas keys_uniqueD = keys_unique_def [THEN iffD1]
lemmas references_okD = references_ok_def [THEN iffD1]

lemma distinct_map_comp_key: "distinct (map (key \<circ> f) rows) = distinct (map key (map f rows))"
  by simp

lemma m_id_clear_reply [simp]: "m_id \<circ> clear_reply dead = m_id"
  by auto

lemma delete_rooms_wf: assumes "wf_db d" shows "wf_db (delete_rooms P d)"
proof -
  have "keys_unique (delete_rooms P d)"
    using assms by (auto simp: wf_db_def delete_rooms_def Let_def keys_unique_def)
  moreover have "references_ok (delete_rooms P d)"
    using assms unfolding wf_db_def references_ok_def delete_rooms_def Let_def
    by (simp add: refs_rules)
  ultimately show ?thesis
    using assms by (simp add: wf_db_def)
qed

lemma delete_voice_rooms_wf: assumes "wf_db d" shows "wf_db (delete_voice_rooms P d)"
proof -
  have "keys_unique (delete_voice_rooms P d)"
    using assms by (auto simp: wf_db_def delete_voice_rooms_def Let_def keys_unique_def)
  moreover have "references_ok (delete_voice_rooms P d)"
    using assms unfolding wf_db_def references_ok_def delete_voice_rooms_def Let_def
    by (simp add: refs_rules)
  ultimately show ?thesis
    using assms by (simp add: wf_db_def)
qed

lemma delete_messages_wf: assumes "wf_db d" shows "wf_db (delete_messages P d)"
proof -
  have "keys_unique (delete_messages P d)"
    using assms by (auto simp: wf_db_def delete_messages_def Let_def keys_unique_def)
  moreover have "references_ok (delete_messages P d)"
    using assms unfolding wf_db_def references_ok_def delete_messages_def Let_def
    by (simp add: refs_rules)
  moreover have "replies_ok (t_messages (delete_messages P d))"
    using assms by (simp add: wf_db_def delete_messages_def Let_def replies_ok_delete)
  ultimately show ?thesis
    by (simp add: wf_db_def)
qed

section \<open>Deleting groups and users\<close>

text \<open>
  After the inner deletions of \<open>delete_groups\<close> no message and no voice room of a removed
  group is left, so removing the group rows leaves no reference dangling. The same for the
  rooms, groups and messages of a removed user.
\<close>

lemma t_messages_delete_messages:
  "t_messages (delete_messages P d) =
     map (clear_reply (gone P m_id (t_messages d))) (filter (\<lambda>m. \<not> P m) (t_messages d))"
  by (simp add: delete_messages_def Let_def)

lemma t_voice_rooms_delete_voice_rooms:
  "t_voice_rooms (delete_voice_rooms P d) = filter (\<lambda>v. \<not> P v) (t_voice_rooms d)"
  by (simp add: delete_voice_rooms_def Let_def)

lemma t_groups_delete_groups:
  "t_groups (delete_groups P d) = filter (\<lambda>g. \<not> P g) (t_groups d)"
  by (simp add: delete_groups_def Let_def)

lemma t_rooms_delete_rooms:
  "t_rooms (delete_rooms P d) = filter (\<lambda>r. \<not> P r) (t_rooms d)"
  by (simp add: delete_rooms_def Let_def)

lemma t_users_delete_users:
  "t_users (delete_users P d) = filter (\<lambda>u. \<not> P u) (t_users d)"
  by (simp add: delete_users_def Let_def)

lemma messages_delete_groups_subset:
  "m \<in> set (t_messages (delete_groups P d)) \<Longrightarrow>
   \<exists>m' \<in> set (t_messages d). m_id m = m_id m' \<and> m_author_id m = m_author_id m'
      \<and> m_group_id m = m_group_id m'"
  by (auto simp: delete_groups_def Let_def t_messages_delete_messages)

lemma delete_groups_wf: assumes "wf_db d" shows "wf_db (delete_groups P d)"
proof -
  define dead where "dead = gone P g_id (t_groups d)"
  define e where "e = delete_voice_rooms (\<lambda>v. dead (vr_group_id v))
      (delete_messages (\<lambda>m. dead (m_group_id m)) d)"
  have e: "wf_db e" "t_groups e = t_groups d"
    using assms by (simp_all add: e_def delete_voice_rooms_wf delete_messages_wf)
  have msgs: "\<not> gone P g_id (t_groups e) (m_group_id m)" if "m \<in> set (t_messages e)" for m
    using that by (auto simp: e_def e(2) t_messages_delete_messages dead_def)
  have vrs: "\<not> gone P g_id (t_groups e) (vr_group_id v)" if "v \<in> set (t_voice_rooms e)" for v
    using that by (auto simp: e_def e(2) t_voice_rooms_delete_voice_rooms dead_def)
  have step: "delete_groups P d = e\<lparr>t_groups := filter (\<lambda>g. \<not> P g) (t_groups e),
      t_group_members := filter (\<lambda>m. \<not> gone P g_id (t_groups e) (gm_group_id m)) (t_group_members e),
      t_spam_warnings := filter (\<lambda>s. \<not> gone P g_id (t_groups e) (sw_group_id s)) (t_spam_warnings e),
      t_join_events := filter (\<lambda>j. \<not> gone P g_id (t_groups e) (je_group_id j)) (t_join_events e),
      t_cooldowns := filter (\<lambda>c. \<not> gone P g_id (t_groups e) (cd_group_id c)) (t_cooldowns e),
      t_attachments := filter (\<lambda>a. \<not> gone P g_id (t_groups e) (a_group_id a)) (t_attachments e)\<rparr>"
    by (simp add: delete_groups_def e_def e(2) dead_def Let_def)
  have "keys_unique (delete_groups P d)"
    using e(1) by (auto simp: step wf_db_def keys_unique_def)
  moreover have "references_ok (delete_groups P d)"
    using e(1) msgs vrs unfolding step wf_db_def references_ok_def
    by (simp add: refs_rules)
  ultimately show ?thesis
    using e(1) by (simp add: step wf_db_def)
qed

lemma delete_users_wf: assumes "wf_db d" shows "wf_db (delete_users P d)"
proof -
  define dead where "dead = gone P u_id (t_users d)"
  define e1 where "e1 = delete_rooms (\<lambda>r. dead (r_owner_id r)) d"
  define e2 where "e2 = delete_groups (\<lambda>g. dead (g_owner_id g)) e1"
  define e where "e = delete_messages (\<lambda>m. dead (m_author_id m)) e2"
  have e: "wf_db e" "t_users e = t_users d"
    using assms by (simp_all add: e_def e1_def e2_def delete_rooms_wf delete_groups_wf
        delete_messages_wf)
  let ?dead = "gone P u_id (t_users e)"
  have msgs: "\<not> ?dead (m_author_id m)" if "m \<in> set (t_messages e)" for m
    using that by (auto simp: e_def e1_def e2_def t_messages_delete_messages dead_def)
  have groups: "\<not> ?dead (g_owner_id g)" if "g \<in> set (t_groups e)" for g
    using that by (auto simp: e_def e1_def e2_def t_groups_delete_groups dead_def)
  have rooms: "\<not> ?dead (r_owner_id r)" if "r \<in> set (t_rooms e)" for r
    using that by (auto simp: e_def e1_def e2_def t_rooms_delete_rooms dead_def)
  have step: "delete_users P d = e\<lparr>t_users := filter (\<lambda>u. \<not> P u) (t_users e),
      t_sessions := filter (\<lambda>s. \<not> ?dead (ses_user_id s)) (t_sessions e),
      t_room_members := filter (\<lambda>m. \<not> ?dead (rm_user_id m)) (t_room_members e),
      t_group_members := filter (\<lambda>m. \<not> ?dead (gm_user_id m)) (t_group_members e),
      t_reads := filter (\<lambda>r. \<not> ?dead (rd_user_id r)) (t_reads e),
      t_voice_members := filter (\<lambda>m. \<not> ?dead (vm_user_id m)) (t_voice_members e),
      t_account_bans := filter (\<lambda>b. \<not> ?dead (ab_user_id b)) (t_account_bans e),
      t_account_blocks := filter (\<lambda>b. \<not> ?dead (bl_user_id b)) (t_account_blocks e),
      t_join_events := filter (\<lambda>j. \<not> ?dead (je_user_id j)) (t_join_events e),
      t_cooldowns := filter (\<lambda>c. \<not> ?dead (cd_user_id c)) (t_cooldowns e),
      t_attachments := filter (\<lambda>a. \<not> ?dead (a_owner_id a)) (t_attachments e),
      t_delete_requests := filter (\<lambda>r. \<not> ?dead (dr_user_id r)) (t_delete_requests e)\<rparr>"
    by (simp add: delete_users_def e(2)) (simp add: e_def e1_def e2_def dead_def Let_def)
  have "keys_unique (delete_users P d)"
    using e(1) by (auto simp: step wf_db_def keys_unique_def)
  moreover have "references_ok (delete_users P d)"
    using e(1) msgs groups rooms unfolding step wf_db_def references_ok_def
    by (simp add: refs_rules)
  ultimately show ?thesis
    using e(1) by (simp add: step wf_db_def)
qed

section \<open>Insertions\<close>

lemma guarded_Some [simp]: "guarded ok d = Some d' \<longleftrightarrow> ok \<and> d' = d"
  by (auto simp: guarded_def)

lemma guarded_None [simp]: "guarded ok d = None \<longleftrightarrow> \<not> ok"
  by (auto simp: guarded_def)

lemma guarded_run [simp]: "guarded True d = Some d" "guarded False d = None"
  by (simp_all add: guarded_def)

lemma has_user_iff: "has_user d i \<longleftrightarrow> i \<in> u_id ` set (t_users d)"
  unfolding has_user_def list_ex_iff by (metis image_iff)

lemma has_group_iff: "has_group d i \<longleftrightarrow> i \<in> g_id ` set (t_groups d)"
  unfolding has_group_def list_ex_iff by (metis image_iff)

lemma has_message_iff: "has_message d i \<longleftrightarrow> i \<in> m_id ` set (t_messages d)"
  unfolding has_message_def list_ex_iff by (metis image_iff)

lemma list_ex_key_iff: "list_ex (\<lambda>x. key x = k) xs \<longleftrightarrow> k \<in> key ` set xs"
  unfolding list_ex_iff by (metis image_iff)

lemma list_all_fresh: "list_all (\<lambda>x. key x \<noteq> k) xs \<longleftrightarrow> k \<notin> key ` set xs"
  unfolding list_all_iff by (metis image_iff)

lemma distinct_snoc_key:
  "distinct (map key (xs @ [x])) \<longleftrightarrow> distinct (map key xs) \<and> key x \<notin> key ` set xs"
  by auto

lemma replies_ok_snoc:
  "replies_ok ms \<Longrightarrow>
   (case m_reply_to_id m of None \<Rightarrow> True | Some i \<Rightarrow> i = m_id m \<or> i \<in> m_id ` set ms) \<Longrightarrow>
   replies_ok (ms @ [m])"
  by (auto simp: replies_ok_def list_all_iff split: option.splits)

lemmas insert_simps = has_user_iff has_group_iff has_message_iff list_ex_key_iff list_all_iff
  refs_snoc refs_grow_parent refs_upsert_child refs_upsert_parent

lemma insert_user_wf: "wf_db d \<Longrightarrow> insert_user u d = Some d' \<Longrightarrow> wf_db d'"
  by (auto simp: insert_user_def wf_db_def keys_unique_def references_ok_def insert_simps)

lemma insert_session_wf: "wf_db d \<Longrightarrow> insert_session s d = Some d' \<Longrightarrow> wf_db d'"
  by (auto simp: insert_session_def wf_db_def keys_unique_def references_ok_def insert_simps)

lemma insert_room_row_wf: "wf_db d \<Longrightarrow> insert_room_row r d = Some d' \<Longrightarrow> wf_db d'"
  by (auto simp: insert_room_row_def wf_db_def keys_unique_def references_ok_def insert_simps)

lemma insert_room_member_wf: "wf_db d \<Longrightarrow> insert_room_member m d = Some d' \<Longrightarrow> wf_db d'"
  by (auto simp: insert_room_member_def wf_db_def keys_unique_def references_ok_def insert_simps)

lemma insert_group_wf: "wf_db d \<Longrightarrow> insert_group g d = Some d' \<Longrightarrow> wf_db d'"
  by (auto simp: insert_group_def wf_db_def keys_unique_def references_ok_def insert_simps)

lemma insert_group_member_wf: "wf_db d \<Longrightarrow> insert_group_member m d = Some d' \<Longrightarrow> wf_db d'"
  by (auto simp: insert_group_member_def wf_db_def keys_unique_def references_ok_def insert_simps)

lemma insert_message_wf:
  assumes "wf_db d" and ins: "insert_message m d = Some d'"
  shows "wf_db d'"
proof -
  have "keys_unique d'" "references_ok d'"
    using assms by (auto simp: insert_message_def wf_db_def keys_unique_def references_ok_def
        insert_simps)
  moreover have "replies_ok (t_messages d')"
    using assms by (auto simp: insert_message_def wf_db_def has_message_iff
        intro!: replies_ok_snoc split: option.splits)
  ultimately show ?thesis by (simp add: wf_db_def)
qed

lemma insert_voice_room_wf: "wf_db d \<Longrightarrow> insert_voice_room v d = Some d' \<Longrightarrow> wf_db d'"
  by (auto simp: insert_voice_room_def wf_db_def keys_unique_def references_ok_def insert_simps)

lemma upsert_voice_member_wf: "wf_db d \<Longrightarrow> upsert_voice_member m d = Some d' \<Longrightarrow> wf_db d'"
  by (auto simp: upsert_voice_member_def wf_db_def keys_unique_def references_ok_def insert_simps)

lemma insert_account_ban_wf: "wf_db d \<Longrightarrow> insert_account_ban b d = Some d' \<Longrightarrow> wf_db d'"
  by (auto simp: insert_account_ban_def wf_db_def keys_unique_def references_ok_def insert_simps)

lemma upsert_account_block_wf: "wf_db d \<Longrightarrow> upsert_account_block b d = Some d' \<Longrightarrow> wf_db d'"
  by (auto simp: upsert_account_block_def wf_db_def keys_unique_def references_ok_def insert_simps)

lemma insert_spam_warning_wf: "wf_db d \<Longrightarrow> insert_spam_warning s d = Some d' \<Longrightarrow> wf_db d'"
  by (auto simp: insert_spam_warning_def wf_db_def keys_unique_def references_ok_def insert_simps)

lemma insert_join_event_wf: "wf_db d \<Longrightarrow> insert_join_event j d = Some d' \<Longrightarrow> wf_db d'"
  by (auto simp: insert_join_event_def wf_db_def keys_unique_def references_ok_def insert_simps)

lemma upsert_cooldown_wf: "wf_db d \<Longrightarrow> upsert_cooldown c d = Some d' \<Longrightarrow> wf_db d'"
  by (auto simp: upsert_cooldown_def wf_db_def keys_unique_def references_ok_def insert_simps)

lemma insert_idempotency_wf: "wf_db d \<Longrightarrow> insert_idempotency i d = Some d' \<Longrightarrow> wf_db d'"
  by (auto simp: insert_idempotency_def wf_db_def keys_unique_def references_ok_def insert_simps)

lemma insert_attachment_wf: "wf_db d \<Longrightarrow> insert_attachment a d = Some d' \<Longrightarrow> wf_db d'"
  by (auto simp: insert_attachment_def wf_db_def keys_unique_def references_ok_def insert_simps)

section \<open>Deleting rows nothing refers to\<close>

lemma filter_leaf_wf:
  "wf_db d \<Longrightarrow> wf_db (d\<lparr>t_sessions := filter P1 (t_sessions d)\<rparr>)"
  "wf_db d \<Longrightarrow> wf_db (d\<lparr>t_room_members := filter P2 (t_room_members d)\<rparr>)"
  "wf_db d \<Longrightarrow> wf_db (d\<lparr>t_group_members := filter P3 (t_group_members d)\<rparr>)"
  "wf_db d \<Longrightarrow> wf_db (d\<lparr>t_reads := filter P4 (t_reads d)\<rparr>)"
  "wf_db d \<Longrightarrow> wf_db (d\<lparr>t_voice_members := filter P5 (t_voice_members d)\<rparr>)"
  "wf_db d \<Longrightarrow> wf_db (d\<lparr>t_buckets := filter P6 (t_buckets d)\<rparr>)"
  "wf_db d \<Longrightarrow> wf_db (d\<lparr>t_idempotency := filter P7 (t_idempotency d)\<rparr>)"
  "wf_db d \<Longrightarrow> wf_db (d\<lparr>t_bans := filter P8 (t_bans d)\<rparr>)"
  "wf_db d \<Longrightarrow> wf_db (d\<lparr>t_account_bans := filter P9 (t_account_bans d)\<rparr>)"
  "wf_db d \<Longrightarrow> wf_db (d\<lparr>t_account_blocks := filter P10 (t_account_blocks d)\<rparr>)"
  "wf_db d \<Longrightarrow> wf_db (d\<lparr>t_spam_warnings := filter P11 (t_spam_warnings d)\<rparr>)"
  "wf_db d \<Longrightarrow> wf_db (d\<lparr>t_join_events := filter P12 (t_join_events d)\<rparr>)"
  "wf_db d \<Longrightarrow> wf_db (d\<lparr>t_cooldowns := filter P13 (t_cooldowns d)\<rparr>)"
  "wf_db d \<Longrightarrow> wf_db (d\<lparr>t_attachments := filter P14 (t_attachments d)\<rparr>)"
  "wf_db d \<Longrightarrow> wf_db (d\<lparr>t_delete_requests := filter P15 (t_delete_requests d)\<rparr>)"
  by (auto simp: wf_db_def keys_unique_def references_ok_def refs_rules)

section \<open>Updates that leave keys and references alone\<close>

lemma update_users_wf:
  "wf_db d \<Longrightarrow> (\<And>u. u_id (f u) = u_id u) \<Longrightarrow> (\<And>u. u_email (f u) = u_email u) \<Longrightarrow>
   distinct (map u_token_hash (update_where P f (t_users d))) \<Longrightarrow>
   wf_db (d\<lparr>t_users := update_where P f (t_users d)\<rparr>)"
  by (simp add: wf_db_def keys_unique_def references_ok_def refs_rules)

lemma update_sessions_wf:
  "wf_db d \<Longrightarrow> (\<And>s. ses_token_hash (f s) = ses_token_hash s) \<Longrightarrow>
   (\<And>s. ses_user_id (f s) = ses_user_id s) \<Longrightarrow>
   wf_db (d\<lparr>t_sessions := update_where P f (t_sessions d)\<rparr>)"
  by (simp add: wf_db_def keys_unique_def references_ok_def refs_rules)

lemma update_rooms_wf:
  "wf_db d \<Longrightarrow> (\<And>r. r_code (f r) = r_code r) \<Longrightarrow> (\<And>r. r_owner_id (f r) = r_owner_id r) \<Longrightarrow>
   wf_db (d\<lparr>t_rooms := update_where P f (t_rooms d)\<rparr>)"
  by (simp add: wf_db_def keys_unique_def references_ok_def refs_rules)

lemma update_groups_wf:
  "wf_db d \<Longrightarrow> (\<And>g. g_id (f g) = g_id g) \<Longrightarrow> (\<And>g. g_owner_id (f g) = g_owner_id g) \<Longrightarrow>
   (\<And>g. g_invite_token (f g) = g_invite_token g) \<Longrightarrow>
   wf_db (d\<lparr>t_groups := update_where P f (t_groups d)\<rparr>)"
  by (simp add: wf_db_def keys_unique_def references_ok_def refs_rules)

lemma upsert_bucket_wf: "wf_db d \<Longrightarrow> wf_db (d\<lparr>t_buckets := upsert b_key b (t_buckets d)\<rparr>)"
  by (simp add: wf_db_def keys_unique_def references_ok_def)

lemma upsert_ban_wf: "wf_db d \<Longrightarrow> wf_db (d\<lparr>t_bans := upsert ib_key b (t_bans d)\<rparr>)"
  by (simp add: wf_db_def keys_unique_def references_ok_def)

lemma empty_db_wf [simp]: "wf_db empty_db"
  by (simp add: wf_db_def empty_db_def keys_unique_def references_ok_def replies_ok_def)

text \<open>What a component cites when it shows that its operations keep a database well formed.\<close>

lemmas wf_inserts = insert_user_wf insert_session_wf insert_room_row_wf insert_room_member_wf
  insert_group_wf insert_group_member_wf insert_message_wf insert_voice_room_wf
  upsert_voice_member_wf insert_account_ban_wf upsert_account_block_wf insert_spam_warning_wf
  insert_join_event_wf upsert_cooldown_wf insert_idempotency_wf insert_attachment_wf

lemmas wf_updates = filter_leaf_wf delete_rooms_wf delete_messages_wf delete_voice_rooms_wf
  delete_groups_wf delete_users_wf upsert_bucket_wf upsert_ban_wf

lemma wf_keys:
  assumes "wf_db d"
  shows "distinct (map b_key (t_buckets d))" "distinct (map ib_key (t_bans d))"
    "distinct (map r_code (t_rooms d))" "distinct (map rm_key (t_room_members d))"
    "distinct (map u_id (t_users d))" "distinct (map u_token_hash (t_users d))"
    "distinct (map u_email (t_users d))" "distinct (map ses_token_hash (t_sessions d))"
    "distinct (map g_id (t_groups d))" "distinct (map gm_key (t_group_members d))"
    "distinct (map m_id (t_messages d))" "distinct (map vr_id (t_voice_rooms d))"
    "distinct (map vm_user_id (t_voice_members d))" "distinct (map bl_user_id (t_account_blocks d))"
    "distinct (map ik_pkey (t_idempotency d))" "distinct (map cd_key (t_cooldowns d))"
  using assms by (auto simp: wf_db_def keys_unique_def)

end
