(* ===== verification/Sql.thy ===== *)
theory Sql
  imports Integrity
begin

text \<open>
  How the store talks to SQLite through \<^verbatim>\<open>database/sql\<close>: a state and error monad over a
  world that holds the database and a schedule of driver failures, the four kinds of
  statement the code issues, and the pattern of every transaction of the store,
  \<^verbatim>\<open>BeginTx\<close>, \<^verbatim>\<open>defer tx.Rollback()\<close>, \<^verbatim>\<open>tx.Commit()\<close>.

  The failure schedule makes the error paths of the code part of the model: each
  \<^verbatim>\<open>BeginTx\<close>, statement or \<^verbatim>\<open>Commit\<close> takes one entry, \<open>True\<close> makes that call return an
  error (a closed or busy database, a full disk, a cancelled context), and the empty
  schedule is a driver that never fails. A failed statement leaves the database as it was and a failed
  commit rolls back.
\<close>

section \<open>Worlds and errors\<close>

record world =
  w_db :: database
  w_faults :: "bool list"

datatype sql_error = SqlFault | SqlConstraint

text \<open>
  The sentinel errors of \<^verbatim>\<open>store.go\<close> and of the packages below it; \<open>ErrDB\<close> is an error
  of the driver, wrapped (\<^verbatim>\<open>fmt.Errorf("...: %w", err)\<close>) or not, \<open>ErrNoRows\<close> a bare
  \<^verbatim>\<open>sql.ErrNoRows\<close>, \<open>ErrRandom\<close> a failure of the random source, \<open>ErrCallback\<close> the
  error of the function \<^verbatim>\<open>DeleteRoom\<close> is given, and \<open>ErrPanic\<close> a run-time panic, on
  which deferred rollbacks run too.
\<close>

datatype store_error =
    ErrNotFound
  | ErrConflict
  | ErrForbidden
  | ErrRoomFull
  | ErrGroupLimit
  | ErrReceiptNotFound
  | ErrDeleteRequestNotFound
  | ErrInvalidBlock
  | ErrNoRows
  | ErrRandom
  | ErrCallback
  | ErrPanic
  | ErrDB sql_error

type_synonym ('w, 'e, 'a) action = "'w \<Rightarrow> ('e + 'a) \<times> 'w"
type_synonym ('z, 'a) dbm = "('z world_scheme, store_error, 'a) action"

section \<open>Sequencing\<close>

named_theorems run_simps \<open>how the combinators run on a world\<close>

definition ret :: "'a \<Rightarrow> ('w, 'e, 'a) action" where
  "ret x w = (Inr x, w)"

definition raise :: "'e \<Rightarrow> ('w, 'e, 'a) action" where
  "raise e w = (Inl e, w)"

text \<open>\<open>andThen m f\<close> is \<^verbatim>\<open>x, err := m; if err != nil { return err }; f(x)\<close>.\<close>

definition andThen ::
  "('w, 'e, 'a) action \<Rightarrow> ('a \<Rightarrow> ('w, 'e, 'b) action) \<Rightarrow> ('w, 'e, 'b) action" where
  "andThen m f w = (case m w of (Inl e, w1) \<Rightarrow> (Inl e, w1) | (Inr x, w1) \<Rightarrow> f x w1)"

text \<open>\<open>attempt m\<close> hands the error to the caller as a value: \<^verbatim>\<open>x, err := m\<close>.\<close>

definition attempt :: "('w, 'e, 'a) action \<Rightarrow> ('w, 'f, 'e + 'a) action" where
  "attempt m w = (case m w of (r, w1) \<Rightarrow> (Inr r, w1))"

text \<open>\<open>ignoring m\<close> is \<^verbatim>\<open>_, _ = m\<close>.\<close>

definition ignoring :: "('w, 'e, 'a) action \<Rightarrow> ('w, 'f, unit) action" where
  "ignoring m w = (case m w of (r, w1) \<Rightarrow> (Inr (), w1))"

definition map_error :: "('e \<Rightarrow> 'f) \<Rightarrow> ('w, 'e, 'a) action \<Rightarrow> ('w, 'f, 'a) action" where
  "map_error h m w = (case m w of (Inl e, w1) \<Rightarrow> (Inl (h e), w1) | (Inr x, w1) \<Rightarrow> (Inr x, w1))"

fun for_each :: "('a \<Rightarrow> ('w, 'e, unit) action) \<Rightarrow> 'a list \<Rightarrow> ('w, 'e, unit) action" where
  "for_each f [] = ret ()"
| "for_each f (x # xs) = andThen (f x) (\<lambda>_. for_each f xs)"

text \<open>A loop that builds a slice: \<^verbatim>\<open>for i := range out { out[i], err = f(out[i]); ... }\<close>.\<close>

fun collect :: "('a \<Rightarrow> ('w, 'e, 'b) action) \<Rightarrow> 'a list \<Rightarrow> ('w, 'e, 'b list) action" where
  "collect f [] = ret []"
| "collect f (x # xs) = andThen (f x) (\<lambda>y. andThen (collect f xs) (\<lambda>ys. ret (y # ys)))"

lemma ret_run [run_simps]: "ret x w = (Inr x, w)"
  by (simp add: ret_def)

lemma raise_run [run_simps]: "raise e w = (Inl e, w)"
  by (simp add: raise_def)

lemma andThen_run [run_simps]:
  "andThen m f w = (case m w of (Inl e, w1) \<Rightarrow> (Inl e, w1) | (Inr x, w1) \<Rightarrow> f x w1)"
  by (simp add: andThen_def)

lemma attempt_run [run_simps]: "attempt m w = (Inr (fst (m w)), snd (m w))"
  by (simp add: attempt_def split_beta)

lemma ignoring_run [run_simps]: "ignoring m w = (Inr (), snd (m w))"
  by (simp add: ignoring_def split_beta)

lemma map_error_run [run_simps]:
  "map_error h m w = (case m w of (Inl e, w1) \<Rightarrow> (Inl (h e), w1) | (Inr x, w1) \<Rightarrow> (Inr x, w1))"
  by (simp add: map_error_def)

lemma andThen_ret [simp]: "andThen (ret x) f = f x"
  by (rule ext) (simp add: run_simps)

lemma andThen_raise [simp]: "andThen (raise e) f = raise e"
  by (rule ext) (simp add: run_simps)

section \<open>Statements\<close>

definition draw_fault :: "'z world_scheme \<Rightarrow> bool \<times> 'z world_scheme" where
  "draw_fault w =
     (case w_faults w of [] \<Rightarrow> (False, w) | b # bs \<Rightarrow> (b, w\<lparr>w_faults := bs\<rparr>))"

definition stmt :: "(database \<Rightarrow> sql_error + 'a \<times> database) \<Rightarrow> ('z, 'a) dbm" where
  "stmt f w =
     (case draw_fault w of
        (True, w1) \<Rightarrow> (Inl (ErrDB SqlFault), w1)
      | (False, w1) \<Rightarrow>
          (case f (w_db w1) of
             Inl e \<Rightarrow> (Inl (ErrDB e), w1)
           | Inr (x, d) \<Rightarrow> (Inr x, w1\<lparr>w_db := d\<rparr>)))"

text \<open>A \<^verbatim>\<open>SELECT\<close> with the iteration over its rows, an \<^verbatim>\<open>UPDATE\<close> or \<^verbatim>\<open>DELETE\<close> without and
  with \<^verbatim>\<open>RowsAffected\<close>, an \<^verbatim>\<open>INSERT\<close> that checks constraints.\<close>

definition select :: "(database \<Rightarrow> 'a) \<Rightarrow> ('z, 'a) dbm" where
  "select f = stmt (\<lambda>d. Inr (f d, d))"

definition exec :: "(database \<Rightarrow> database) \<Rightarrow> ('z, unit) dbm" where
  "exec f = stmt (\<lambda>d. Inr ((), f d))"

definition exec_count :: "(database \<Rightarrow> int \<times> database) \<Rightarrow> ('z, int) dbm" where
  "exec_count f = stmt (\<lambda>d. Inr (f d))"

definition insert_into :: "(database \<Rightarrow> database option) \<Rightarrow> ('z, unit) dbm" where
  "insert_into f = stmt (\<lambda>d. case f d of None \<Rightarrow> Inl SqlConstraint | Some d' \<Rightarrow> Inr ((), d'))"

text \<open>\<^verbatim>\<open>isConstraint\<close> of the store: the primary code of the SQLite error is 19.\<close>

definition isConstraint :: "store_error \<Rightarrow> bool" where
  "isConstraint e \<longleftrightarrow> e = ErrDB SqlConstraint"

text \<open>An insertion that reports a constraint failure as \<^verbatim>\<open>ErrConflict\<close>.\<close>

definition conflict_error :: "store_error \<Rightarrow> store_error" where
  "conflict_error e = (if isConstraint e then ErrConflict else e)"

section \<open>Transactions\<close>

text \<open>
  A transaction body ends by committing its value or by returning without a commit, which
  the deferred rollback undoes, error or not.
\<close>

datatype 'a tx_end = Commit 'a | Rollback 'a

definition transaction :: "('z, 'a tx_end) dbm \<Rightarrow> ('z, 'a) dbm" where
  "transaction body w =
     (case draw_fault w of
        (True, w1) \<Rightarrow> (Inl (ErrDB SqlFault), w1)
      | (False, w1) \<Rightarrow>
          (case body w1 of
             (Inl e, w2) \<Rightarrow> (Inl e, w2\<lparr>w_db := w_db w1\<rparr>)
           | (Inr (Rollback x), w2) \<Rightarrow> (Inr x, w2\<lparr>w_db := w_db w1\<rparr>)
           | (Inr (Commit x), w2) \<Rightarrow>
               (case draw_fault w2 of
                  (True, w3) \<Rightarrow> (Inl (ErrDB SqlFault), w3\<lparr>w_db := w_db w1\<rparr>)
                | (False, w3) \<Rightarrow> (Inr x, w3))))"

text \<open>A transaction that returns its value even when the commit fails.\<close>

definition transaction_value :: "('z, 'a tx_end) dbm \<Rightarrow> ('z, 'a) dbm" where
  "transaction_value body w =
     (case draw_fault w of
        (True, w1) \<Rightarrow> (Inl (ErrDB SqlFault), w1)
      | (False, w1) \<Rightarrow>
          (case body w1 of
             (Inl e, w2) \<Rightarrow> (Inl e, w2\<lparr>w_db := w_db w1\<rparr>)
           | (Inr (Rollback x), w2) \<Rightarrow> (Inr x, w2\<lparr>w_db := w_db w1\<rparr>)
           | (Inr (Commit x), w2) \<Rightarrow>
               (case draw_fault w2 of
                  (True, w3) \<Rightarrow> (Inr x, w3\<lparr>w_db := w_db w1\<rparr>)
                | (False, w3) \<Rightarrow> (Inr x, w3))))"

section \<open>Running without failures\<close>

definition quiet :: "'z world_scheme \<Rightarrow> bool" where
  "quiet w \<longleftrightarrow> w_faults w = []"

lemma quiet_update [simp]: "quiet (w\<lparr>w_db := d\<rparr>) = quiet w"
  by (simp add: quiet_def)

lemma draw_fault_quiet [simp]: "quiet w \<Longrightarrow> draw_fault w = (False, w)"
  by (simp add: quiet_def draw_fault_def)

lemma draw_fault_db [simp]: "w_db (snd (draw_fault w)) = w_db w"
  by (simp add: draw_fault_def split: list.split)

lemma draw_fault_dbD: "draw_fault w = (b, w1) \<Longrightarrow> w_db w1 = w_db w"
  using draw_fault_db [of w] by simp

lemma select_quiet [run_simps]: "quiet w \<Longrightarrow> select f w = (Inr (f (w_db w)), w)"
  by (simp add: select_def stmt_def)

lemma exec_quiet [run_simps]: "quiet w \<Longrightarrow> exec f w = (Inr (), w\<lparr>w_db := f (w_db w)\<rparr>)"
  by (simp add: exec_def stmt_def)

lemma exec_count_quiet [run_simps]:
  "quiet w \<Longrightarrow> exec_count f w = (Inr (fst (f (w_db w))), w\<lparr>w_db := snd (f (w_db w))\<rparr>)"
  by (simp add: exec_count_def stmt_def split_beta)

lemma insert_into_quiet [run_simps]:
  "quiet w \<Longrightarrow> insert_into f w =
     (case f (w_db w) of
        None \<Rightarrow> (Inl (ErrDB SqlConstraint), w)
      | Some d \<Rightarrow> (Inr (), w\<lparr>w_db := d\<rparr>))"
  by (simp add: insert_into_def stmt_def split: option.split)

text \<open>A body that keeps the failure schedule empty runs as it stands inside a transaction.\<close>

definition keeps_quiet :: "('z, 'a) dbm \<Rightarrow> bool" where
  "keeps_quiet m \<longleftrightarrow> (\<forall>w. quiet w \<longrightarrow> quiet (snd (m w)))"

lemma transaction_quiet:
  "quiet w \<Longrightarrow> quiet (snd (body w)) \<Longrightarrow> transaction body w =
     (case body w of
        (Inl e, w2) \<Rightarrow> (Inl e, w2\<lparr>w_db := w_db w\<rparr>)
      | (Inr (Rollback x), w2) \<Rightarrow> (Inr x, w2\<lparr>w_db := w_db w\<rparr>)
      | (Inr (Commit x), w2) \<Rightarrow> (Inr x, w2))"
  by (auto simp: transaction_def split: prod.splits sum.splits tx_end.splits)

section \<open>What an action keeps, whatever fails\<close>

text \<open>
  \<open>keeps I m\<close>: \<open>m\<close> preserves the predicate \<open>I\<close> of the database under every failure
  schedule. The rules follow the combinators, so that a component shows what its operations
  keep from what its statements do. With \<open>I\<close> the equation \<open>t d = c\<close> the same rules state
  which tables an operation leaves alone.
\<close>

definition keeps :: "(database \<Rightarrow> bool) \<Rightarrow> ('z world_scheme, 'e, 'a) action \<Rightarrow> bool" where
  "keeps I m \<longleftrightarrow> (\<forall>w. I (w_db w) \<longrightarrow> I (w_db (snd (m w))))"

named_theorems keeps_intros \<open>what the combinators and the operations keep\<close>

lemma keepsD: "keeps I m \<Longrightarrow> I (w_db w) \<Longrightarrow> I (w_db (snd (m w)))"
  by (simp add: keeps_def)

lemma keeps_resultD: "keeps I m \<Longrightarrow> m w = (r, w') \<Longrightarrow> I (w_db w) \<Longrightarrow> I (w_db w')"
  using keepsD [of I m w] by simp

lemma keeps_ret [keeps_intros]: "keeps I (ret x)"
  by (simp add: keeps_def run_simps)

lemma keeps_raise [keeps_intros]: "keeps I (raise e)"
  by (simp add: keeps_def run_simps)

lemma keeps_andThen [keeps_intros]: "keeps I m \<Longrightarrow> (\<And>x. keeps I (f x)) \<Longrightarrow> keeps I (andThen m f)"
  by (fastforce simp: keeps_def run_simps split: prod.split sum.split)

lemma keeps_attempt [keeps_intros]: "keeps I m \<Longrightarrow> keeps I (attempt m)"
  by (simp add: keeps_def run_simps)

lemma keeps_ignoring [keeps_intros]: "keeps I m \<Longrightarrow> keeps I (ignoring m)"
  by (simp add: keeps_def run_simps)

lemma keeps_map_error [keeps_intros]: "keeps I m \<Longrightarrow> keeps I (map_error h m)"
  by (fastforce simp: keeps_def run_simps split: prod.split sum.split)

lemma keeps_for_each [keeps_intros]:
  "(\<And>x. x \<in> set xs \<Longrightarrow> keeps I (f x)) \<Longrightarrow> keeps I (for_each f xs)"
proof (induction xs)
  case (Cons x xs)
  then show ?case by (simp add: keeps_andThen)
qed (simp add: keeps_ret)

lemma keeps_collect [keeps_intros]:
  "(\<And>x. keeps I (f x)) \<Longrightarrow> keeps I (collect f xs)"
  by (induction xs) (simp_all add: keeps_andThen keeps_ret)

lemma keeps_if [keeps_intros]:
  "(b \<Longrightarrow> keeps I m) \<Longrightarrow> (\<not> b \<Longrightarrow> keeps I m') \<Longrightarrow> keeps I (if b then m else m')"
  by simp

lemma keeps_option [keeps_intros]:
  "(x = None \<Longrightarrow> keeps I m) \<Longrightarrow> (\<And>y. x = Some y \<Longrightarrow> keeps I (f y)) \<Longrightarrow>
   keeps I (case x of None \<Rightarrow> m | Some y \<Rightarrow> f y)"
  by (cases x) simp_all

lemma keeps_sum [keeps_intros]:
  "(\<And>e. x = Inl e \<Longrightarrow> keeps I (g e)) \<Longrightarrow> (\<And>y. x = Inr y \<Longrightarrow> keeps I (f y)) \<Longrightarrow>
   keeps I (case x of Inl e \<Rightarrow> g e | Inr y \<Rightarrow> f y)"
  by (cases x) simp_all

lemma keeps_prod [keeps_intros]:
  "(\<And>a b. p = (a, b) \<Longrightarrow> keeps I (f a b)) \<Longrightarrow> keeps I (case p of (a, b) \<Rightarrow> f a b)"
  by (cases p) simp

lemma keeps_list [keeps_intros]:
  "(x = [] \<Longrightarrow> keeps I m) \<Longrightarrow> (\<And>y ys. x = y # ys \<Longrightarrow> keeps I (f y ys)) \<Longrightarrow>
   keeps I (case x of [] \<Rightarrow> m | y # ys \<Rightarrow> f y ys)"
  by (cases x) simp_all

lemma keeps_let [keeps_intros]: "(\<And>x. keeps I (f x)) \<Longrightarrow> keeps I (let x = e in f x)"
  by (simp add: Let_def)

lemma keeps_stmt:
  "(\<And>d x d'. I d \<Longrightarrow> f d = Inr (x, d') \<Longrightarrow> I d') \<Longrightarrow> keeps I (stmt f)"
  unfolding keeps_def stmt_def
  by (auto simp: draw_fault_dbD split: prod.split sum.split bool.split)

lemma keeps_select [keeps_intros]: "keeps I (select f)"
  unfolding select_def by (rule keeps_stmt) simp

lemma keeps_exec [keeps_intros]: "(\<And>d. I d \<Longrightarrow> I (f d)) \<Longrightarrow> keeps I (exec f)"
  unfolding exec_def by (rule keeps_stmt) auto

lemma keeps_exec_count [keeps_intros]: "(\<And>d. I d \<Longrightarrow> I (snd (f d))) \<Longrightarrow> keeps I (exec_count f)"
  unfolding exec_count_def by (rule keeps_stmt) (metis Inr_inject snd_conv)

lemma keeps_insert_into [keeps_intros]:
  "(\<And>d d'. I d \<Longrightarrow> f d = Some d' \<Longrightarrow> I d') \<Longrightarrow> keeps I (insert_into f)"
  unfolding insert_into_def by (rule keeps_stmt) (auto split: option.splits)

lemma keeps_transaction [keeps_intros]: "keeps I body \<Longrightarrow> keeps I (transaction body)"
  unfolding keeps_def transaction_def
  by (auto split: prod.split sum.split tx_end.split bool.split)
    (metis draw_fault_dbD snd_conv)+

lemma keeps_transaction_value [keeps_intros]: "keeps I body \<Longrightarrow> keeps I (transaction_value body)"
  unfolding keeps_def transaction_value_def
  by (auto split: prod.split sum.split tx_end.split bool.split)
    (metis draw_fault_dbD snd_conv)+

section \<open>Atomicity\<close>

text \<open>An action that fails leaves the database as it found it.\<close>

definition atomic :: "('z world_scheme, 'e, 'a) action \<Rightarrow> bool" where
  "atomic m \<longleftrightarrow> (\<forall>w e. fst (m w) = Inl e \<longrightarrow> w_db (snd (m w)) = w_db w)"

lemma atomicD: "atomic m \<Longrightarrow> m w = (Inl e, w') \<Longrightarrow> w_db w' = w_db w"
  unfolding atomic_def by (metis fst_conv snd_conv)

lemma atomic_ret: "atomic (ret x)"
  by (simp add: atomic_def run_simps)

lemma atomic_raise: "atomic (raise e)"
  by (simp add: atomic_def run_simps)

lemma atomic_stmt: "atomic (stmt f)"
  unfolding atomic_def stmt_def
  by (auto simp: draw_fault_dbD split: prod.split sum.split bool.split dest: draw_fault_dbD)

lemma atomic_select: "atomic (select f)"
  by (simp add: select_def atomic_stmt)

lemma atomic_exec: "atomic (exec f)"
  by (simp add: exec_def atomic_stmt)

lemma atomic_exec_count: "atomic (exec_count f)"
  by (simp add: exec_count_def atomic_stmt)

lemma atomic_insert_into: "atomic (insert_into f)"
  by (simp add: insert_into_def atomic_stmt)

lemma atomic_map_error: "atomic m \<Longrightarrow> atomic (map_error h m)"
  unfolding atomic_def by (auto simp: run_simps split: prod.splits sum.splits) (metis fst_conv snd_conv)

lemma atomic_transaction: "atomic (transaction body)"
  unfolding atomic_def transaction_def
  by (auto split: prod.splits sum.splits tx_end.splits bool.splits dest: draw_fault_dbD)

text \<open>Reads before an atomic action, or pure code after it, keep it atomic.\<close>

lemma atomic_after_read:
  "(\<And>w. w_db (snd (m w)) = w_db w) \<Longrightarrow> (\<And>x. atomic (f x)) \<Longrightarrow> atomic (andThen m f)"
  unfolding atomic_def
  by (auto simp: run_simps split: prod.splits sum.splits) (metis snd_conv)+

lemma atomic_then_ret: "atomic m \<Longrightarrow> atomic (andThen m (\<lambda>x. ret (g x)))"
  unfolding atomic_def
  by (auto simp: run_simps split: prod.splits sum.splits) (metis fst_conv snd_conv)

lemmas atomic_intros = atomic_ret atomic_raise atomic_select atomic_exec atomic_exec_count
  atomic_insert_into atomic_map_error atomic_transaction

lemma select_db [simp]: "w_db (snd (select f w)) = w_db w"
  using keepsD [OF keeps_select [of "\<lambda>d. d = w_db w" f], of w] by simp

section \<open>Inverting a successful run\<close>

text \<open>What a run that returned a value went through, whatever the failure schedule.\<close>

lemma andThen_InrE:
  assumes "andThen m f w = (Inr y, w')"
  obtains x w1 where "m w = (Inr x, w1)" "f x w1 = (Inr y, w')"
  using assms by (auto simp: run_simps split: prod.splits sum.splits)

lemma ret_InrE:
  assumes "ret x w = (Inr y, w')"
  obtains "y = x" "w' = w"
  using assms by (simp add: run_simps)

lemma stmt_InrD: "stmt f w = (Inr x, w') \<Longrightarrow> f (w_db w) = Inr (x, w_db w')"
  by (auto simp: stmt_def draw_fault_dbD split: prod.splits bool.splits sum.splits)

lemma select_InrE:
  assumes "select f w = (Inr x, w')"
  obtains "x = f (w_db w)" "w_db w' = w_db w"
proof -
  have "f (w_db w) = x \<and> w_db w = w_db w'"
    using stmt_InrD [OF assms [unfolded select_def]] unfolding sum.inject prod.inject .
  then show thesis by (metis that)
qed

lemma exec_InrE:
  assumes "exec f w = (Inr x, w')"
  obtains "w_db w' = f (w_db w)"
  by (rule that) (use stmt_InrD [OF assms [unfolded exec_def]] in simp_all)

lemma exec_count_InrE:
  assumes "exec_count f w = (Inr x, w')"
  obtains "f (w_db w) = (x, w_db w')"
  by (rule that) (use stmt_InrD [OF assms [unfolded exec_count_def]] in simp_all)

lemma insert_into_InrE:
  assumes "insert_into f w = (Inr x, w')"
  obtains "f (w_db w) = Some (w_db w')"
  by (rule that) (use stmt_InrD [OF assms [unfolded insert_into_def]] in \<open>simp split: option.splits\<close>)

lemma map_error_InrE:
  assumes "map_error h m w = (Inr x, w')"
  obtains "m w = (Inr x, w')"
  using assms by (auto simp: run_simps split: prod.splits sum.splits)

lemma ignoring_exec_E:
  assumes "ignoring (exec f) w = (r, w')"
  obtains (skipped) "r = Inr ()" "w_db w' = w_db w" | (ran) "r = Inr ()" "w_db w' = f (w_db w)"
  using assms
  by (auto simp: run_simps exec_def stmt_def draw_fault_dbD split: prod.splits bool.splits)

lemma attempt_select_E:
  assumes "attempt (select f) w = (r, w')"
  obtains (failed) "r = Inr (Inl (ErrDB SqlFault))" "w_db w' = w_db w"
    | (read) "r = Inr (Inr (f (w_db w)))" "w_db w' = w_db w"
  using assms
  by (auto simp: run_simps select_def stmt_def draw_fault_dbD split: prod.splits bool.splits)

lemma raise_InrE:
  assumes "raise e w = (Inr x, w')"
  obtains "False"
  using assms by (simp add: run_simps)

lemma transaction_InrE:
  assumes "transaction body w = (Inr x, w')"
  obtains (commit) w1 w2 where "w_db w1 = w_db w" "body w1 = (Inr (Commit x), w2)"
      "w_db w' = w_db w2"
    | (rollback) w1 w2 where "w_db w1 = w_db w" "body w1 = (Inr (Rollback x), w2)"
      "w_db w' = w_db w"
proof -
  obtain b w1 where w1: "draw_fault w = (b, w1)" by (cases "draw_fault w")
  obtain r w2 where w2: "body w1 = (r, w2)" by (cases "body w1")
  obtain c w3 where w3: "draw_fault w2 = (c, w3)" by (cases "draw_fault w2")
  have dbs: "w_db w1 = w_db w" "w_db w3 = w_db w2"
    using w1 w3 by (auto dest: draw_fault_dbD)
  have r: "\<not> b" "(r = Inr (Commit x) \<and> \<not> c \<and> w' = w3) \<or> (r = Inr (Rollback x) \<and> w' = w2\<lparr>w_db := w_db w1\<rparr>)"
    using assms w1 w2 w3
    by (auto simp: transaction_def split: bool.splits sum.splits tx_end.splits)
  then show thesis
    using dbs w2 commit [of w1 w2] rollback [of w1 w2] by auto
qed

lemma transaction_InlD: "transaction body w = (Inl e, w') \<Longrightarrow> w_db w' = w_db w"
  using atomic_transaction by (rule atomicD)

lemmas run_elims = andThen_InrE ret_InrE select_InrE exec_InrE exec_count_InrE
  insert_into_InrE map_error_InrE raise_InrE

section \<open>Purge, read, decide, write\<close>

text \<open>
  The shape of the transactions that keep a counter per key: an ignored purge, one read, a
  decision that is a function of the row (a panic, a return without commit, or a row to
  write and a result).
\<close>

definition read_decide_write ::
  "(database \<Rightarrow> database) \<Rightarrow> (database \<Rightarrow> 'r) \<Rightarrow> ('r \<Rightarrow> ('a \<times> 'b option) option)
    \<Rightarrow> ('b \<Rightarrow> database \<Rightarrow> database) \<Rightarrow> ('z, 'a) dbm" where
  "read_decide_write purge read decide put = transaction
     (andThen (ignoring (exec purge)) (\<lambda>_.
      andThen (select read) (\<lambda>row.
      case decide row of
        None \<Rightarrow> raise ErrPanic
      | Some (x, None) \<Rightarrow> ret (Rollback x)
      | Some (x, Some b) \<Rightarrow> andThen (exec (put b)) (\<lambda>_. ret (Commit x)))))"

lemma read_decide_write_outcome:
  assumes "read_decide_write purge read decide put w = (Inr x, w')"
  obtains d b where "d \<in> {w_db w, purge (w_db w)}" "decide (read d) = Some (x, b)"
    "w_db w' = (case b of None \<Rightarrow> w_db w | Some r \<Rightarrow> put r d)"
proof -
  have "\<exists>d \<in> {w_db w, purge (w_db w)}. \<exists>b. decide (read d) = Some (x, b) \<and>
      w_db w' = (case b of None \<Rightarrow> w_db w | Some r \<Rightarrow> put r d)"
    using assms unfolding read_decide_write_def
    by (elim transaction_InrE andThen_InrE ignoring_exec_E select_InrE;
        simp split: option.splits prod.splits; elim run_elims; auto simp: run_simps)
  then show thesis using that by blast
qed

lemma read_decide_write_quiet:
  assumes "quiet w"
  shows "read_decide_write purge read decide put w =
    (case decide (read (purge (w_db w))) of
       None \<Rightarrow> (Inl ErrPanic, w)
     | Some (x, None) \<Rightarrow> (Inr x, w)
     | Some (x, Some b) \<Rightarrow> (Inr x, w\<lparr>w_db := put b (purge (w_db w))\<rparr>))"
  using assms
  by (simp add: read_decide_write_def transaction_quiet run_simps split: option.split prod.split)

lemma read_decide_write_InlD:
  "read_decide_write purge read decide put w = (Inl e, w') \<Longrightarrow> w_db w' = w_db w"
  unfolding read_decide_write_def by (rule transaction_InlD)

lemma keeps_read_decide_write:
  assumes "\<And>d. I d \<Longrightarrow> I (purge d)"
    and "\<And>d x b. I d \<Longrightarrow> decide (read d) = Some (x, Some b) \<Longrightarrow> I (put b d)"
  shows "keeps I (read_decide_write purge read decide put)"
  unfolding keeps_def
proof (intro allI impI)
  fix w :: "'z world_scheme"
  assume I: "I (w_db w)"
  obtain r w' where run: "read_decide_write purge read decide put w = (r, w')" by fastforce
  show "I (w_db (snd (read_decide_write purge read decide put w)))"
  proof (cases r)
    case (Inl e)
    with run I show ?thesis by (auto dest: read_decide_write_InlD)
  next
    case (Inr x)
    with run obtain d b where "d \<in> {w_db w, purge (w_db w)}" "decide (read d) = Some (x, b)"
      "w_db w' = (case b of None \<Rightarrow> w_db w | Some r \<Rightarrow> put r d)"
      using read_decide_write_outcome by metis
    with run I assms show ?thesis by (auto split: option.splits)
  qed
qed

section \<open>Sequences of calls\<close>

text \<open>The calls of several requests one after the other, each with its own outcome.\<close>

fun run_all :: "('w, 'e, 'a) action list \<Rightarrow> 'w \<Rightarrow> ('e + 'a) list \<times> 'w" where
  "run_all [] w = ([], w)"
| "run_all (m # ms) w =
     (case m w of (r, w1) \<Rightarrow> case run_all ms w1 of (rs, w2) \<Rightarrow> (r # rs, w2))"

lemma keeps_run_all:
  "(\<And>m. m \<in> set ms \<Longrightarrow> keeps I m) \<Longrightarrow> I (w_db w) \<Longrightarrow> I (w_db (snd (run_all ms w)))"
proof (induction ms arbitrary: w)
  case (Cons m ms)
  have "I (w_db (snd (m w)))" using Cons.prems by (auto intro: keepsD)
  with Cons show ?case by (simp add: split_beta)
qed simp

lemma fst_run_all_Cons:
  "fst (run_all (m # ms) w) = fst (m w) # fst (run_all ms (snd (m w)))"
  "snd (run_all (m # ms) w) = snd (run_all ms (snd (m w)))"
  by (simp_all add: split_beta)

section \<open>Success does not depend on the failures\<close>

text \<open>
  \<open>strict m\<close>: when \<open>m\<close> returns a value under some failure schedule, it returns the same
  value and leaves the same database without failures. It holds of code that gives every
  error back to its caller, so that a lemma about runs without failures speaks about every
  successful run.
\<close>

definition strict :: "('z world_scheme, 'e, 'a) action \<Rightarrow> bool" where
  "strict m \<longleftrightarrow> (\<forall>w x w1. m w = (Inr x, w1) \<longrightarrow>
     m (w\<lparr>w_faults := []\<rparr>) = (Inr x, w1\<lparr>w_faults := []\<rparr>))"

named_theorems strict_intros \<open>code that gives every error back\<close>

lemma strictD:
  "strict m \<Longrightarrow> m w = (Inr x, w1) \<Longrightarrow> m (w\<lparr>w_faults := []\<rparr>) = (Inr x, w1\<lparr>w_faults := []\<rparr>)"
  by (simp add: strict_def)

lemma quiet_calm [simp]: "quiet (w\<lparr>w_faults := []\<rparr>)"
  by (simp add: quiet_def)

lemma strict_ret [strict_intros]: "strict (ret x)"
  by (simp add: strict_def run_simps)

lemma strict_raise [strict_intros]: "strict (raise e)"
  by (simp add: strict_def run_simps)

lemma strict_andThen [strict_intros]: "strict m \<Longrightarrow> (\<And>x. strict (f x)) \<Longrightarrow> strict (andThen m f)"
  unfolding strict_def by (auto simp: run_simps split: prod.splits sum.splits)

lemma strict_map_error [strict_intros]: "strict m \<Longrightarrow> strict (map_error h m)"
  unfolding strict_def by (auto simp: run_simps split: prod.splits sum.splits)

lemma strict_if [strict_intros]:
  "(b \<Longrightarrow> strict m) \<Longrightarrow> (\<not> b \<Longrightarrow> strict m') \<Longrightarrow> strict (if b then m else m')"
  by simp

lemma strict_option [strict_intros]:
  "(x = None \<Longrightarrow> strict m) \<Longrightarrow> (\<And>y. x = Some y \<Longrightarrow> strict (f y)) \<Longrightarrow>
   strict (case x of None \<Rightarrow> m | Some y \<Rightarrow> f y)"
  by (cases x) simp_all

lemma strict_prod [strict_intros]:
  "(\<And>a b. p = (a, b) \<Longrightarrow> strict (f a b)) \<Longrightarrow> strict (case p of (a, b) \<Rightarrow> f a b)"
  by (cases p) simp

lemma strict_let [strict_intros]: "(\<And>x. strict (f x)) \<Longrightarrow> strict (let x = e in f x)"
  by (simp add: Let_def)

lemma strict_for_each [strict_intros]: "(\<And>x. strict (f x)) \<Longrightarrow> strict (for_each f xs)"
  by (induction xs) (simp_all add: strict_ret strict_andThen)

lemma strict_collect [strict_intros]: "(\<And>x. strict (f x)) \<Longrightarrow> strict (collect f xs)"
  by (induction xs) (simp_all add: strict_ret strict_andThen)

lemma draw_fault_False:
  "draw_fault w = (False, w1) \<Longrightarrow> w1\<lparr>w_faults := []\<rparr> = w\<lparr>w_faults := []\<rparr>"
  by (auto simp: draw_fault_def split: list.splits)

lemma draw_fault_calm: "draw_fault (w\<lparr>w_faults := []\<rparr>) = (False, w\<lparr>w_faults := []\<rparr>)"
  by simp

lemma strict_stmt: "strict (stmt f)"
  unfolding strict_def
proof (intro allI impI)
  fix w x w1
  assume run: "stmt f w = (Inr x, w1)"
  obtain w0 where w0: "draw_fault w = (False, w0)" and f: "f (w_db w0) = Inr (x, w_db w1)"
    and w1: "w1 = w0\<lparr>w_db := w_db w1\<rparr>"
    using run by (auto simp: stmt_def split: prod.splits bool.splits sum.splits)
  have "w_db w0 = w_db w" "w0\<lparr>w_faults := []\<rparr> = w\<lparr>w_faults := []\<rparr>"
    using w0 draw_fault_dbD draw_fault_False by blast+
  moreover have "w1\<lparr>w_faults := []\<rparr> = (w0\<lparr>w_faults := []\<rparr>)\<lparr>w_db := w_db w1\<rparr>"
    by (subst w1) simp
  ultimately show "stmt f (w\<lparr>w_faults := []\<rparr>) = (Inr x, w1\<lparr>w_faults := []\<rparr>)"
    using f by (simp add: stmt_def)
qed

lemma strict_statements [strict_intros]:
  "strict (select g)" "strict (exec h)" "strict (exec_count k)" "strict (insert_into i)"
  by (simp_all add: select_def exec_def exec_count_def insert_into_def strict_stmt)

lemma strict_transaction [strict_intros]:
  assumes "strict body"
  shows "strict (transaction body)"
  unfolding strict_def
proof (intro allI impI)
  fix w x w'
  assume run: "transaction body w = (Inr x, w')"
  obtain w1 where w1: "draw_fault w = (False, w1)"
    using run by (cases "draw_fault w") (auto simp: transaction_def split: bool.splits)
  have calm: "w1\<lparr>w_faults := []\<rparr> = w\<lparr>w_faults := []\<rparr>" using draw_fault_False [OF w1] .
  obtain e w2 where body: "body w1 = (Inr e, w2)"
    using run w1 by (cases "body w1") (auto simp: transaction_def split: sum.splits)
  from strictD [OF assms body] have calm_body: "body (w\<lparr>w_faults := []\<rparr>) = (Inr e, w2\<lparr>w_faults := []\<rparr>)"
    by (simp add: calm)
  have quiet_run: "transaction body (w\<lparr>w_faults := []\<rparr>) =
      (case e of Rollback y \<Rightarrow> (Inr y, w2\<lparr>w_faults := [], w_db := w_db w\<rparr>)
       | Commit y \<Rightarrow> (Inr y, w2\<lparr>w_faults := []\<rparr>))"
    by (simp add: transaction_def calm_body split: tx_end.split)
  show "transaction body (w\<lparr>w_faults := []\<rparr>) = (Inr x, w'\<lparr>w_faults := []\<rparr>)"
  proof (cases e)
    case (Commit y)
    then obtain w3 where w3: "draw_fault w2 = (False, w3)" "x = y" "w' = w3"
      using run w1 body by (auto simp: transaction_def split: prod.splits bool.splits)
    then show ?thesis using quiet_run Commit draw_fault_False [OF w3(1)] by simp
  next
    case (Rollback y)
    then have "x = y" "w' = w2\<lparr>w_db := w_db w1\<rparr>"
      using run w1 body by (auto simp: transaction_def)
    then show ?thesis using quiet_run Rollback draw_fault_dbD [OF w1] by simp
  qed
qed

text \<open>A loop of reads returns what each read returns.\<close>

lemma collect_select_quiet:
  "quiet w \<Longrightarrow> collect (\<lambda>x. andThen (select (g x)) (\<lambda>y. ret (h x y))) xs w =
     (Inr (map (\<lambda>x. h x (g x (w_db w))) xs), w)"
  by (induction xs) (simp_all add: run_simps)

section \<open>Implementations of a specification\<close>

text \<open>
  The contract between an operation of the store and its callers: a specification, a function
  of the database that gives an error or a result and the new database. An implementation
  runs as specified when the driver does not fail; when the driver fails it either still
  succeeds as specified or returns an error and leaves the database alone.
\<close>

definition as_specified :: "(database \<Rightarrow> 'e + 'a \<times> database) \<Rightarrow> ('z world_scheme, 'e, 'a) action" where
  "as_specified spec w =
     (case spec (w_db w) of
        Inl e \<Rightarrow> (Inl e, w)
      | Inr (x, d) \<Rightarrow> (Inr x, w\<lparr>w_db := d\<rparr>))"

locale implementation =
  fixes op :: "('z world_scheme, 'e, 'a) action" and spec :: "database \<Rightarrow> 'e + 'a \<times> database"
  assumes strict: "strict op" and atomic: "atomic op"
    and quiet_run: "quiet w \<Longrightarrow> op w = as_specified spec w"
begin

lemma outcome: "op w = (Inr x, w1) \<Longrightarrow> spec (w_db w) = Inr (x, w_db w1)"
proof -
  assume "op w = (Inr x, w1)"
  then have "op (w\<lparr>w_faults := []\<rparr>) = (Inr x, w1\<lparr>w_faults := []\<rparr>)"
    by (rule strictD [OF strict])
  then have "as_specified spec (w\<lparr>w_faults := []\<rparr>) = (Inr x, w1\<lparr>w_faults := []\<rparr>)"
    by (simp add: quiet_run)
  then have "fst (as_specified spec (w\<lparr>w_faults := []\<rparr>)) = Inr x"
    "w_db (snd (as_specified spec (w\<lparr>w_faults := []\<rparr>))) = w_db w1"
    by simp_all
  then show ?thesis
    by (auto simp: as_specified_def split: sum.splits prod.splits)
qed

lemma failure: "op w = (Inl e, w1) \<Longrightarrow> w_db w1 = w_db w"
  by (rule atomicD [OF atomic])

lemma preserves: "(\<And>d x d'. I d \<Longrightarrow> spec d = Inr (x, d') \<Longrightarrow> I d') \<Longrightarrow> keeps I op"
proof -
  assume spec: "\<And>d x d'. I d \<Longrightarrow> spec d = Inr (x, d') \<Longrightarrow> I d'"
  show "keeps I op"
    unfolding keeps_def
  proof (intro allI impI)
    fix w :: "'z world_scheme"
    assume "I (w_db w)"
    obtain r w1 where run: "op w = (r, w1)" by fastforce
    show "I (w_db (snd (op w)))"
      using \<open>I (w_db w)\<close> run spec outcome failure by (cases r) auto
  qed
qed

lemma result_spec: "quiet w \<Longrightarrow> fst (op w) = map_sum id fst (spec (w_db w))"
  by (auto simp: quiet_run as_specified_def split: sum.split prod.split)

lemma db_spec:
  "quiet w \<Longrightarrow> w_db (snd (op w)) = (case spec (w_db w) of Inl e \<Rightarrow> w_db w | Inr (x, d) \<Rightarrow> d)"
  by (auto simp: quiet_run as_specified_def split: sum.split prod.split)

lemma quiet_kept: "quiet w \<Longrightarrow> quiet (snd (op w))"
  by (auto simp: quiet_run as_specified_def split: sum.split prod.split)

end

lemma run_result: "fst p = r \<Longrightarrow> p = (r, snd p)"
  by (simp add: prod_eq_iff)

text \<open>A world that runs on a database without failures.\<close>

definition running :: "database \<Rightarrow> world" where
  "running d = \<lparr>w_db = d, w_faults = []\<rparr>"

lemma running_simps [simp]: "w_db (running d) = d" "quiet (running d)"
  "(running d)\<lparr>w_db := e\<rparr> = running e"
  by (simp_all add: running_def quiet_def)

end
