(* ===== verification/Rate.thy ===== *)
theory Rate
  imports Sql
begin

text \<open>
  \<^verbatim>\<open>store/rate\<close>: the persistent token buckets (\<^verbatim>\<open>TakeRateLimit\<close>), the escalating bans
  (\<^verbatim>\<open>NoteViolation\<close>, \<^verbatim>\<open>IPBanActive\<close>), the account bans (\<^verbatim>\<open>RecordAccountBan\<close>)
  and the account blocks. Tokens, \<^verbatim>\<open>float64\<close> in the code, are rational numbers: the
  rounding of the 53-bit mantissa is not modelled, the truncation to a
  \<^verbatim>\<open>time.Duration\<close> is.
\<close>

section \<open>Token buckets\<close>

text \<open>\<^verbatim>\<open>time.Duration(f)\<close> of a float truncates towards zero.\<close>

definition truncated :: "rat \<Rightarrow> int" where
  "truncated x = (if x < 0 then \<lceil>x\<rceil> else \<lfloor>x\<rfloor>)"

definition upsertRateBucket :: "string \<Rightarrow> rat \<Rightarrow> int \<Rightarrow> int \<Rightarrow> ('z, unit) dbm" where
  "upsertRateBucket key tokens updated expires =
     exec (\<lambda>d. d\<lparr>t_buckets := upsert b_key
       \<lparr>b_key = key, b_tokens = tokens, b_updated_at = updated, b_expires_at = expires\<rparr>
       (t_buckets d)\<rparr>)"

definition TakeRateLimit ::
  "string \<Rightarrow> time \<Rightarrow> int \<Rightarrow> rat \<Rightarrow> duration \<Rightarrow> ('z, bool \<times> duration) dbm" where
  "TakeRateLimit key now capacity refillPerSecond ttl = transaction
     (let nowUnix = unix now in
      andThen (ignoring (exec (\<lambda>d.
        d\<lparr>t_buckets := filter (\<lambda>b. \<not> b_expires_at b \<le> nowUnix) (t_buckets d)\<rparr>))) (\<lambda>_.
      andThen (select (\<lambda>d. row_with b_key key (t_buckets d))) (\<lambda>row.
      let tokens0 = (case row of None \<Rightarrow> of_int capacity | Some b \<Rightarrow> b_tokens b);
          updated = (case row of None \<Rightarrow> nowUnix | Some b \<Rightarrow> b_updated_at b);
          elapsed = nowUnix - updated;
          tokens = (if 0 < elapsed
                    then min (of_int capacity) (tokens0 + of_int elapsed * refillPerSecond)
                    else tokens0) in
      if tokens < 1 then
        let wait0 = truncated ((1 - tokens) / refillPerSecond) * second;
            wait = (if wait0 < second then second else wait0) in
        andThen (upsertRateBucket key tokens nowUnix (unix (now + ttl))) (\<lambda>_.
        ret (Commit (False, wait)))
      else
        andThen (upsertRateBucket key (tokens - 1) nowUnix (unix (now + ttl))) (\<lambda>_.
        ret (Commit (True, 0))))))"

section \<open>Bans\<close>

definition NoteViolation ::
  "string \<Rightarrow> time \<Rightarrow> duration \<Rightarrow> int \<Rightarrow> duration list \<Rightarrow> duration \<Rightarrow> ('z, int \<times> time) dbm" where
  "NoteViolation key now window threshold steps escalationForget =
     (if threshold \<le> 0 \<or> steps = [] then ret (0, zero_time)
      else
      let nowUnix = unix now;
          windowSeconds = max 1 (in_seconds window);
          forgetSeconds = max 1 (in_seconds escalationForget) in
      transaction
       (andThen (ignoring (exec (\<lambda>d.
          d\<lparr>t_bans := filter (\<lambda>b. \<not> ib_updated_at b \<le> nowUnix - forgetSeconds) (t_bans d)\<rparr>))) (\<lambda>_.
        andThen (select (\<lambda>d. row_with ib_key key (t_bans d))) (\<lambda>row.
        let violations0 = (case row of None \<Rightarrow> 0 | Some b \<Rightarrow> ib_violations b);
            windowStart0 = (case row of None \<Rightarrow> nowUnix | Some b \<Rightarrow> ib_window_start b);
            until = (case row of None \<Rightarrow> 0 | Some b \<Rightarrow> ib_until b);
            updatedAt = (case row of None \<Rightarrow> 0 | Some b \<Rightarrow> ib_updated_at b);
            banCount0 = (case row of None \<Rightarrow> 0 | Some b \<Rightarrow> ib_ban_count b) in
        if until > nowUnix then ret (Rollback (0, zero_time))
        else
        let fresh = (nowUnix - windowStart0 > windowSeconds);
            violations = (if fresh then 0 else violations0) + 1;
            windowStart = (if fresh then nowUnix else windowStart0);
            ban = (violations \<ge> threshold);
            banCount = (if ban
                        then (if nowUnix - updatedAt \<le> forgetSeconds then banCount0 + 1 else 1)
                        else banCount0);
            level = (if ban then min banCount (int (length steps)) else 0) in
        if ban \<and> level < 1 then raise ErrPanic
        else
        let untilAt = (if ban then nowUnix + in_seconds (steps ! nat (level - 1)) else 0) in
        andThen (exec (\<lambda>d. d\<lparr>t_bans := upsert ib_key
          \<lparr>ib_key = key, ib_violations = violations, ib_window_start = windowStart,
           ib_until = untilAt, ib_updated_at = nowUnix, ib_ban_count = banCount\<rparr>
          (t_bans d)\<rparr>)) (\<lambda>_.
        ret (Commit (if level = 0 then (0, zero_time) else (level, of_unix untilAt))))))))"

definition RecordAccountBan :: "string \<Rightarrow> time \<Rightarrow> duration \<Rightarrow> ('z, int) dbm" where
  "RecordAccountBan userID now window =
     (let cutoff = unix (now - window) in
      transaction
       (andThen (ignoring (exec (\<lambda>d.
          d\<lparr>t_account_bans := filter (\<lambda>b. \<not> ab_created_at b < cutoff) (t_account_bans d)\<rparr>))) (\<lambda>_.
        andThen (insert_into (insert_account_ban
          \<lparr>ab_user_id = userID, ab_created_at = unix now\<rparr>)) (\<lambda>_.
        andThen (select (\<lambda>d.
          count_rows (\<lambda>b. ab_user_id b = userID \<and> ab_created_at b \<ge> cutoff) (t_account_bans d))) (\<lambda>count.
        ret (Commit count))))))"

definition IPBanActive :: "string \<Rightarrow> time \<Rightarrow> ('z, bool \<times> time) dbm" where
  "IPBanActive key now =
     andThen (select (\<lambda>d. map_option ib_until (row_with ib_key key (t_bans d)))) (\<lambda>row.
     case row of
       None \<Rightarrow> ret (False, zero_time)
     | Some until \<Rightarrow>
         if until \<le> unix now then ret (False, zero_time)
         else ret (True, of_unix until))"

section \<open>Account blocks\<close>

definition SetAccountBlock :: "string \<Rightarrow> time \<Rightarrow> ('z, unit) dbm" where
  "SetAccountBlock userID until =
     (if userID = [] \<or> \<not> zero_time < until then raise ErrInvalidBlock
      else insert_into (upsert_account_block \<lparr>bl_user_id = userID, bl_until = unix until\<rparr>))"

definition AccountBlockActive :: "string \<Rightarrow> time \<Rightarrow> ('z, bool \<times> time) dbm" where
  "AccountBlockActive userID now =
     (if userID = [] then ret (False, zero_time)
      else
      andThen (select (\<lambda>d. map_option bl_until (row_with bl_user_id userID (t_account_blocks d)))) (\<lambda>row.
      case row of
        None \<Rightarrow> ret (False, zero_time)
      | Some until \<Rightarrow>
          if until \<le> unix now then
            andThen (exec (\<lambda>d. d\<lparr>t_account_blocks :=
              filter (\<lambda>b. \<not> (bl_user_id b = userID \<and> bl_until b \<le> unix now)) (t_account_blocks d)\<rparr>)) (\<lambda>_.
            ret (False, zero_time))
          else ret (True, of_unix until)))"

section \<open>What a bucket holds\<close>

text \<open>
  The tokens key \<open>k\<close> could spend at second \<open>t\<close>: a full bucket when it has no row, what
  its row holds plus what has flowed in since otherwise.
\<close>

definition refilled :: "int \<Rightarrow> rat \<Rightarrow> int \<Rightarrow> bucket_row option \<Rightarrow> rat" where
  "refilled cap rps t row =
     (case row of
        None \<Rightarrow> of_int cap
      | Some b \<Rightarrow>
          if b_updated_at b < t
          then min (of_int cap) (b_tokens b + of_int (t - b_updated_at b) * rps)
          else b_tokens b)"

definition available :: "string \<Rightarrow> int \<Rightarrow> rat \<Rightarrow> database \<Rightarrow> int \<Rightarrow> rat" where
  "available k cap rps d t = refilled cap rps t (row_with b_key k (t_buckets d))"

text \<open>A row a bucket of these parameters can have at second \<open>t\<close>: it does not expire before
  it would be full.\<close>

definition sane_bucket :: "int \<Rightarrow> rat \<Rightarrow> int \<Rightarrow> bucket_row \<Rightarrow> bool" where
  "sane_bucket cap rps t b \<longleftrightarrow>
     0 \<le> b_tokens b \<and> b_tokens b \<le> of_int cap \<and> b_updated_at b \<le> t
     \<and> of_int cap \<le> of_int (b_expires_at b - b_updated_at b) * rps"

definition sane :: "string \<Rightarrow> int \<Rightarrow> rat \<Rightarrow> database \<Rightarrow> int \<Rightarrow> bool" where
  "sane k cap rps d t \<longleftrightarrow>
     distinct (map b_key (t_buckets d)) \<and>
     (case row_with b_key k (t_buckets d) of None \<Rightarrow> True | Some b \<Rightarrow> sane_bucket cap rps t b)"

definition purge_buckets :: "int \<Rightarrow> database \<Rightarrow> database" where
  "purge_buckets t d = d\<lparr>t_buckets := filter (\<lambda>b. \<not> b_expires_at b \<le> t) (t_buckets d)\<rparr>"

definition put_bucket :: "string \<Rightarrow> rat \<Rightarrow> int \<Rightarrow> int \<Rightarrow> database \<Rightarrow> database" where
  "put_bucket key tokens updated expires d = d\<lparr>t_buckets := upsert b_key
     \<lparr>b_key = key, b_tokens = tokens, b_updated_at = updated, b_expires_at = expires\<rparr>
     (t_buckets d)\<rparr>"

definition retry_wait :: "rat \<Rightarrow> rat \<Rightarrow> duration" where
  "retry_wait tokens rps = max second (truncated ((1 - tokens) / rps) * second)"

text \<open>The statements of one take on a database.\<close>

definition taken :: "string \<Rightarrow> time \<Rightarrow> int \<Rightarrow> rat \<Rightarrow> duration \<Rightarrow> database \<Rightarrow>
    (bool \<times> duration) \<times> database" where
  "taken key now cap rps ttl d =
     (let t = unix now; a = available key cap rps d t in
      if a < 1 then ((False, retry_wait a rps), put_bucket key a t (unix (now + ttl)) d)
      else ((True, 0), put_bucket key (a - 1) t (unix (now + ttl)) d))"

lemma TakeRateLimit_body:
  "(let tokens0 = (case row of None \<Rightarrow> of_int cap | Some b \<Rightarrow> b_tokens b);
        updated = (case row of None \<Rightarrow> t | Some b \<Rightarrow> b_updated_at b);
        elapsed = t - updated in
    if 0 < elapsed then min (of_int cap) (tokens0 + of_int elapsed * rps) else tokens0)
   = refilled cap rps t row"
  by (simp add: refilled_def Let_def split: option.split)

lemma raise_to_max: "(if x < c then c else x) = max c (x :: int)"
  by simp

lemma TakeRateLimit_alt:
  "TakeRateLimit key now cap rps ttl = transaction
     (andThen (ignoring (exec (purge_buckets (unix now)))) (\<lambda>_.
      andThen (select (\<lambda>d. row_with b_key key (t_buckets d))) (\<lambda>row.
      let a = refilled cap rps (unix now) row in
      if a < 1 then
        andThen (exec (put_bucket key a (unix now) (unix (now + ttl)))) (\<lambda>_.
        ret (Commit (False, retry_wait a rps)))
      else
        andThen (exec (put_bucket key (a - 1) (unix now) (unix (now + ttl)))) (\<lambda>_.
        ret (Commit (True, 0))))))"
  unfolding TakeRateLimit_def upsertRateBucket_def Let_def raise_to_max
    TakeRateLimit_body [unfolded Let_def] purge_buckets_def put_bucket_def retry_wait_def
  by (rule refl)

text \<open>Whatever fails, a take that returns ran on the database or on the purged database.\<close>

lemma TakeRateLimit_outcome:
  assumes "TakeRateLimit key now cap rps ttl w = (Inr x, w')"
  shows "\<exists>d \<in> {w_db w, purge_buckets (unix now) (w_db w)}.
    taken key now cap rps ttl d = (x, w_db w')"
  using assms unfolding TakeRateLimit_alt Let_def
  by (elim transaction_InrE andThen_InrE ignoring_exec_E select_InrE;
      simp split: if_splits; elim run_elims;
      simp add: taken_def available_def Let_def)

lemma TakeRateLimit_quiet:
  assumes "quiet w"
  shows "TakeRateLimit key now cap rps ttl w =
    (case taken key now cap rps ttl (purge_buckets (unix now) (w_db w)) of
       (x, d) \<Rightarrow> (Inr x, w\<lparr>w_db := d\<rparr>))"
  using assms
  by (simp add: TakeRateLimit_alt transaction_quiet run_simps taken_def available_def Let_def)

section \<open>Laws of one bucket\<close>

lemma refilled_le: "sane_bucket cap rps t b \<Longrightarrow> refilled cap rps t' (Some b) \<le> of_int cap"
  by (auto simp: refilled_def sane_bucket_def)

lemma refilled_nonneg:
  "sane_bucket cap rps t b \<Longrightarrow> 0 \<le> cap \<Longrightarrow> 0 \<le> rps \<Longrightarrow> 0 \<le> refilled cap rps t' (Some b)"
  by (auto simp: refilled_def sane_bucket_def)

lemma refilled_None [simp]: "refilled cap rps t None = of_int cap"
  by (simp add: refilled_def)

lemma refilled_closed:
  "sane_bucket cap rps t b \<Longrightarrow> t \<le> t' \<Longrightarrow>
   refilled cap rps t' (Some b) = min (of_int cap) (b_tokens b + of_int (t' - b_updated_at b) * rps)"
  by (cases "b_updated_at b = t'") (auto simp: refilled_def sane_bucket_def)

lemma refilled_flow:
  assumes "sane_bucket cap rps t b" "0 \<le> rps" "t \<le> t'"
  shows "refilled cap rps t' (Some b) \<le> refilled cap rps t (Some b) + of_int (t' - t) * rps"
proof -
  have "of_int (t' - b_updated_at b) * rps = of_int (t - b_updated_at b) * rps + of_int (t' - t) * rps"
    by (simp add: algebra_simps)
  moreover have "0 \<le> of_int (t' - t) * rps" using assms by simp
  ultimately show ?thesis
    unfolding refilled_closed [OF assms(1,3)] refilled_closed [OF assms(1) order_refl]
    by linarith
qed

lemma refilled_expired:
  assumes "sane_bucket cap rps t b" "0 \<le> rps" "b_expires_at b \<le> t"
  shows "refilled cap rps t (Some b) = of_int cap"
proof -
  have "of_int (b_expires_at b - b_updated_at b) * rps \<le> of_int (t - b_updated_at b) * rps"
    using assms by (intro mult_right_mono) simp_all
  then have "of_int cap \<le> b_tokens b + of_int (t - b_updated_at b) * rps"
    using assms by (simp add: sane_bucket_def)
  then show ?thesis
    using assms by (auto simp: refilled_def sane_bucket_def)
qed

lemma sane_bucket_later: "sane_bucket cap rps t b \<Longrightarrow> t \<le> t' \<Longrightarrow> sane_bucket cap rps t' b"
  by (auto simp: sane_bucket_def)

lemma sane_later: "sane k cap rps d t \<Longrightarrow> t \<le> t' \<Longrightarrow> sane k cap rps d t'"
  by (auto simp: sane_def intro: sane_bucket_later split: option.splits)

lemma available_bounds:
  assumes "sane k cap rps d t" "0 \<le> cap" "0 \<le> rps"
  shows "0 \<le> available k cap rps d t" "available k cap rps d t \<le> of_int cap"
  using assms by (auto simp: sane_def available_def split: option.splits
      intro: refilled_nonneg refilled_le)

lemma available_flow:
  assumes "sane k cap rps d t" "0 \<le> rps" "t \<le> t'"
  shows "available k cap rps d t' \<le> available k cap rps d t + of_int (t' - t) * rps"
  using assms by (auto simp: sane_def available_def simp del: of_int_diff split: option.splits
      intro: refilled_flow)

lemma purge_buckets_row:
  "distinct (map b_key (t_buckets d)) \<Longrightarrow>
   row_with b_key k (t_buckets (purge_buckets t d)) =
     (case row_with b_key k (t_buckets d) of None \<Rightarrow> None
      | Some b \<Rightarrow> if b_expires_at b \<le> t then None else Some b)"
  by (auto simp: purge_buckets_def row_with_filter split: option.split)

lemma purge_buckets_sane:
  "sane k cap rps d t \<Longrightarrow> sane k cap rps (purge_buckets t' d) t"
  by (auto simp: sane_def purge_buckets_row split: option.splits)
    (simp_all add: purge_buckets_def)

lemma purge_buckets_available:
  "sane k cap rps d t \<Longrightarrow> 0 \<le> rps \<Longrightarrow>
   available k cap rps (purge_buckets t d) t = available k cap rps d t"
  by (auto simp: sane_def available_def purge_buckets_row refilled_expired split: option.splits)

lemma put_bucket_row [simp]:
  "row_with b_key k (t_buckets (put_bucket k' tokens t e d)) =
     (if k = k' then Some \<lparr>b_key = k', b_tokens = tokens, b_updated_at = t, b_expires_at = e\<rparr>
      else row_with b_key k (t_buckets d))"
  by (simp add: put_bucket_def)

lemma put_bucket_distinct [simp]:
  "distinct (map b_key (t_buckets d)) \<Longrightarrow>
   distinct (map b_key (t_buckets (put_bucket k' tokens t e d)))"
  by (simp add: put_bucket_def)

lemma taken_granted: "fst (fst (taken k now cap rps ttl d)) \<longleftrightarrow> 1 \<le> available k cap rps d (unix now)"
  by (auto simp: taken_def Let_def)

lemma taken_available:
  "available k cap rps (snd (taken k now cap rps ttl d)) (unix now) =
   available k cap rps d (unix now) - (if 1 \<le> available k cap rps d (unix now) then 1 else 0)"
  by (auto simp: taken_def Let_def available_def refilled_def)

lemma taken_sane:
  assumes "sane k cap rps d (unix now)" "0 \<le> cap" "0 \<le> rps"
    "of_int cap \<le> of_int (ttl div second) * rps"
  shows "sane k cap rps (snd (taken k now cap rps ttl d)) (unix now)"
proof -
  have "of_int (ttl div second) * rps \<le> of_int (unix (now + ttl) - unix now) * rps"
    using assms unix_add_ge [of now ttl] by (intro mult_right_mono) simp_all
  then have "of_int cap \<le> of_int (unix (now + ttl) - unix now) * rps"
    using assms by linarith
  then show ?thesis
    using assms available_bounds [OF assms(1-3)]
    by (auto simp: taken_def Let_def sane_def sane_bucket_def)
qed

lemma taken_other:
  "k \<noteq> k' \<Longrightarrow> available k cap rps (snd (taken k' now c r ttl d)) t = available k cap rps d t"
  "k \<noteq> k' \<Longrightarrow> sane k cap rps d t \<Longrightarrow> sane k cap rps (snd (taken k' now c r ttl d)) t"
  by (auto simp: taken_def Let_def available_def sane_def)

section \<open>Metered operations\<close>

text \<open>
  What a rate limit promises its clients, as an interface: a level that flows in at a fixed
  rate, is never negative, and pays for every granted operation. Its bound holds for any
  sequence of operations in the order of their instants.
\<close>

fun grants_in :: "('op \<Rightarrow> 's \<Rightarrow> 's) \<Rightarrow> ('op \<Rightarrow> 's \<Rightarrow> bool) \<Rightarrow> 'op list \<Rightarrow> 's \<Rightarrow> int" where
  "grants_in step grants [] s = 0"
| "grants_in step grants (c # cs) s =
     (if grants c s then 1 else 0) + grants_in step grants cs (step c s)"

text \<open>The instants at which the operations of a run happen.\<close>

fun moments :: "('op \<Rightarrow> 's \<Rightarrow> 's) \<Rightarrow> ('op \<Rightarrow> 's \<Rightarrow> int) \<Rightarrow> 'op list \<Rightarrow> 's \<Rightarrow> int list" where
  "moments step moment [] s = []"
| "moments step moment (c # cs) s = moment c s # moments step moment cs (step c s)"

lemma moments_given [simp]: "moments step (\<lambda>c s. f c) cs s = map f cs"
  by (induction cs arbitrary: s) simp_all

locale metered =
  fixes good :: "'s \<Rightarrow> int \<Rightarrow> bool" and level :: "'s \<Rightarrow> int \<Rightarrow> rat"
    and step :: "'op \<Rightarrow> 's \<Rightarrow> 's" and grants :: "'op \<Rightarrow> 's \<Rightarrow> bool"
    and moment :: "'op \<Rightarrow> 's \<Rightarrow> int" and fits :: "'op \<Rightarrow> bool" and rate :: rat
  assumes later: "good s t \<Longrightarrow> t \<le> t' \<Longrightarrow> good s t'"
    and flow: "good s t \<Longrightarrow> t \<le> t' \<Longrightarrow> level s t' \<le> level s t + of_int (t' - t) * rate"
    and nonneg: "good s t \<Longrightarrow> 0 \<le> level s t"
    and step_good: "good s (moment c s) \<Longrightarrow> fits c \<Longrightarrow> good (step c s) (moment c s)"
    and pays: "good s (moment c s) \<Longrightarrow> fits c \<Longrightarrow>
      level (step c s) (moment c s) + (if grants c s then 1 else 0) \<le> level s (moment c s)"
begin

lemma spent_bound:
  "good s t \<Longrightarrow> sorted (t # moments step moment cs s) \<Longrightarrow> list_all fits cs \<Longrightarrow>
   of_int (grants_in step grants cs s)
     \<le> level s t + of_int (last (t # moments step moment cs s) - t) * rate"
proof (induction cs arbitrary: s t)
  case Nil
  then show ?case by (simp add: nonneg)
next
  case (Cons c cs)
  let ?g = "if grants c s then 1 else 0"
  let ?m = "moment c s"
  let ?stop = "last (?m # moments step moment cs (step c s))"
  have le: "t \<le> ?m" and fit: "fits c" and good: "good s ?m"
    using Cons.prems later by auto
  have "of_int (grants_in step grants cs (step c s))
      \<le> level (step c s) ?m + of_int (?stop - ?m) * rate"
    using Cons.IH [OF step_good [OF good fit]] Cons.prems by simp
  also have "\<dots> \<le> level s ?m - ?g + of_int (?stop - ?m) * rate"
    using pays [OF good fit] by linarith
  also have "\<dots> \<le> level s t + of_int (?m - t) * rate - ?g + of_int (?stop - ?m) * rate"
    using flow [OF Cons.prems(1) le] by linarith
  also have "\<dots> = level s t + of_int (?stop - t) * rate - ?g"
    by (simp add: algebra_simps)
  finally show ?case by auto
qed

end

text \<open>
  The calls a limiter makes, of any key and in any order, as values; \<open>fits\<close> asks of a call
  on key \<open>k\<close> that its parameters are those of the bucket and that the time to live covers a
  refill.
\<close>

record rate_call =
  rc_key :: string
  rc_now :: time
  rc_capacity :: int
  rc_rps :: rat
  rc_ttl :: duration

definition take_call :: "rate_call \<Rightarrow> ('z, bool \<times> duration) dbm" where
  "take_call c = TakeRateLimit (rc_key c) (rc_now c) (rc_capacity c) (rc_rps c) (rc_ttl c)"

definition call_fits :: "string \<Rightarrow> int \<Rightarrow> rat \<Rightarrow> rate_call \<Rightarrow> bool" where
  "call_fits k cap rps c \<longleftrightarrow>
     (if rc_key c = k
      then rc_capacity c = cap \<and> rc_rps c = rps \<and> of_int cap \<le> of_int (rc_ttl c div second) * rps
      else True)"

definition call_grants :: "string \<Rightarrow> rate_call \<Rightarrow> 'z world_scheme \<Rightarrow> bool" where
  "call_grants k c w \<longleftrightarrow> rc_key c = k \<and> fst (take_call c w) = Inr (True, 0)"

lemma take_call_pays:
  assumes w: "sane k cap rps (w_db w) (unix (rc_now c))" "0 \<le> cap" "0 \<le> rps"
    and fits: "call_fits k cap rps c"
  shows "sane k cap rps (w_db (snd (take_call c w))) (unix (rc_now c)) \<and>
    available k cap rps (w_db (snd (take_call c w))) (unix (rc_now c))
      + (if call_grants k c w then 1 else 0)
    \<le> available k cap rps (w_db w) (unix (rc_now c))"
proof (cases "take_call c w")
  case (Pair r w')
  show ?thesis
  proof (cases r)
    case (Inl e)
    then have "w_db w' = w_db w"
      using Pair unfolding take_call_def TakeRateLimit_alt by (auto dest: transaction_InlD)
    with Inl Pair w show ?thesis by (simp add: call_grants_def)
  next
    case (Inr x)
    let ?t = "unix (rc_now c)"
    obtain d where d: "d \<in> {w_db w, purge_buckets ?t (w_db w)}"
      and run: "taken (rc_key c) (rc_now c) (rc_capacity c) (rc_rps c) (rc_ttl c) d = (x, w_db w')"
      using TakeRateLimit_outcome Pair Inr unfolding take_call_def by metis
    have same: "sane k cap rps d ?t" "available k cap rps d ?t = available k cap rps (w_db w) ?t"
      using d w by (auto simp: purge_buckets_sane purge_buckets_available)
    show ?thesis
    proof (cases "rc_key c = k")
      case True
      then have "taken k (rc_now c) cap rps (rc_ttl c) d = (x, w_db w')"
        and ttl: "of_int cap \<le> of_int (rc_ttl c div second) * rps"
        using fits run by (simp_all add: call_fits_def)
      then show ?thesis
        using taken_sane [OF same(1) w(2,3) ttl] taken_available [of k cap rps "rc_now c" "rc_ttl c" d]
          taken_granted [of k "rc_now c" cap rps "rc_ttl c" d] Pair Inr same
        by (auto simp: call_grants_def)
    next
      case False
      then show ?thesis
        using taken_other [of k "rc_key c"] run same Pair
        by (simp add: call_grants_def) (metis order_refl snd_conv)
    qed
  qed
qed

definition funded :: "string \<Rightarrow> int \<Rightarrow> rat \<Rightarrow> 'z world_scheme \<Rightarrow> int \<Rightarrow> bool" where
  "funded k cap rps w t \<longleftrightarrow> 0 \<le> cap \<and> 0 \<le> rps \<and> sane k cap rps (w_db w) t"

interpretation bucket: metered "funded k cap rps" "\<lambda>w. available k cap rps (w_db w)"
    "\<lambda>c w. snd (take_call c w)" "call_grants k" "\<lambda>c w. unix (rc_now c)" "call_fits k cap rps" rps
  for k cap rps
proof unfold_locales
  fix w :: "'z world_scheme" and c :: rate_call
  assume fits: "call_fits k cap rps c"
    and funded: "funded k cap rps w (unix (rc_now c))"
  then have "sane k cap rps (w_db w) (unix (rc_now c))" "0 \<le> cap" "0 \<le> rps"
    by (simp_all add: funded_def)
  note pays = take_call_pays [OF this fits]
  show "funded k cap rps (snd (take_call c w)) (unix (rc_now c))"
    using pays funded by (simp add: funded_def)
  show "available k cap rps (w_db (snd (take_call c w))) (unix (rc_now c))
      + (if call_grants k c w then 1 else 0)
    \<le> available k cap rps (w_db w) (unix (rc_now c))"
    using pays by (rule conjunct2)
qed (use sane_later available_flow available_bounds(1) in
    \<open>auto simp: funded_def simp del: of_int_diff\<close>)

text \<open>
  C31: the rate limit holds. Over any interleaving of takes on any keys, with any driver
  failures, the takes granted to a key are at most its capacity plus what flows in between
  the start and the last take, as long as its bucket outlives a refill. With no row for the
  key at the start, that is the advertised limit of a window.
\<close>

theorem TakeRateLimit_bound:
  assumes "distinct (map b_key (t_buckets (w_db w)))" "row_with b_key k (t_buckets (w_db w)) = None"
    and "0 \<le> cap" "0 \<le> rps"
    and "list_all (call_fits k cap rps) cs"
    and "sorted (t # map (\<lambda>c. unix (rc_now c)) cs)"
  shows "of_int (grants_in (\<lambda>c w. snd (take_call c w)) (call_grants k) cs w)
    \<le> of_int cap + of_int (last (t # map (\<lambda>c. unix (rc_now c)) cs) - t) * rps"
  using bucket.spent_bound [of k cap rps w t cs] assms
  by (simp add: funded_def sane_def available_def)

lemma TakeRateLimit_bound_witness:
  "of_int (grants_in (\<lambda>c w. snd (take_call c w)) (call_grants ''user:a'')
      [\<lparr>rc_key = ''user:a'', rc_now = second, rc_capacity = 2, rc_rps = 1 / 10, rc_ttl = hour\<rparr>,
       \<lparr>rc_key = ''user:b'', rc_now = second, rc_capacity = 9, rc_rps = 3, rc_ttl = 0\<rparr>]
      \<lparr>w_db = empty_db, w_faults = [False, True]\<rparr>)
    \<le> of_int 2 + of_int (1 - 0) * (1 / 10 :: rat)"
proof -
  let ?cs = "[\<lparr>rc_key = ''user:a'', rc_now = second, rc_capacity = 2, rc_rps = 1 / 10, rc_ttl = hour\<rparr>,
       \<lparr>rc_key = ''user:b'', rc_now = second, rc_capacity = 9, rc_rps = 3, rc_ttl = 0\<rparr>]"
  have "last (0 # map (\<lambda>c. unix (rc_now c)) ?cs) = 1" by (simp add: unix_def second_def)
  then show ?thesis
    using TakeRateLimit_bound [of "\<lparr>w_db = empty_db, w_faults = [False, True]\<rparr>" "''user:a''" 2
        "1 / 10" ?cs 0]
    by (simp add: call_fits_def empty_db_def unix_def second_def)
qed

lemma truncated_floor: "0 \<le> x \<Longrightarrow> truncated x = \<lfloor>x\<rfloor>"
  by (simp add: truncated_def)

text \<open>A denied take leaves what the bucket holds, and names the wait.\<close>

lemma TakeRateLimit_denied:
  assumes "TakeRateLimit k now cap rps ttl w = (Inr (False, wait), w1)"
  obtains a e where "a < 1" "wait = retry_wait a rps"
    "row_with b_key k (t_buckets (w_db w1)) =
       Some \<lparr>b_key = k, b_tokens = a, b_updated_at = unix now, b_expires_at = e\<rparr>"
proof -
  obtain d where "taken k now cap rps ttl d = ((False, wait), w_db w1)"
    using TakeRateLimit_outcome [OF assms] by blast
  then have "available k cap rps d (unix now) < 1 \<and>
      wait = retry_wait (available k cap rps d (unix now)) rps \<and>
      w_db w1 = put_bucket k (available k cap rps d (unix now)) (unix now) (unix (now + ttl)) d"
    by (auto simp: taken_def Let_def split: if_splits)
  then show thesis using that by auto
qed

text \<open>
  waiting one second more than the advertised \<^verbatim>\<open>Retry-After\<close> is enough: unless another
  take on the key comes in between, the next one is granted.
\<close>

theorem TakeRateLimit_retry:
  assumes denied: "TakeRateLimit k now cap rps ttl w = (Inr (False, wait), w1)"
    and "1 \<le> cap" "0 < rps"
    and keys: "distinct (map b_key (t_buckets (w_db w2)))"
    and same: "row_with b_key k (t_buckets (w_db w2)) = row_with b_key k (t_buckets (w_db w1))"
    and "quiet w2" and later: "now + wait + second \<le> now2"
  shows "fst (TakeRateLimit k now2 cap rps ttl w2) = Inr (True, 0)"
proof -
  obtain a e where a: "a < 1" and wait: "wait = retry_wait a rps"
    and row: "row_with b_key k (t_buckets (w_db w1)) =
      Some \<lparr>b_key = k, b_tokens = a, b_updated_at = unix now, b_expires_at = e\<rparr>"
    using TakeRateLimit_denied [OF denied] by blast
  define n where "n = \<lfloor>(1 - a) / rps\<rfloor>"
  have "0 \<le> (1 - a) / rps" using a \<open>0 < rps\<close> by simp
  then have n: "truncated ((1 - a) / rps) = n" by (simp add: truncated_floor n_def)
  have "n * second \<le> wait" by (simp add: wait retry_wait_def n)
  then have "now + (n + 1) * second \<le> now2"
    using later by (simp add: algebra_simps)
  then have elapsed: "n + 1 \<le> unix now2 - unix now"
    using unix_mono [of "now + (n + 1) * second" now2] unix_add_seconds [of now "n + 1"] by linarith
  have "(1 - a) / rps < of_int (n + 1)" unfolding n_def by linarith
  then have "(1 - a) / rps < of_int (unix now2 - unix now)" using elapsed by linarith
  then have "1 - a < of_int (unix now2 - unix now) * rps"
    using \<open>0 < rps\<close> by (simp add: pos_divide_less_eq)
  moreover have "unix now < unix now2"
    using elapsed \<open>0 \<le> (1 - a) / rps\<close> unfolding n_def by linarith
  ultimately have "1 \<le> refilled cap rps (unix now2) (row_with b_key k (t_buckets (w_db w2)))"
    using \<open>1 \<le> cap\<close> by (simp add: same row refilled_def)
  then have "1 \<le> available k cap rps (purge_buckets (unix now2) (w_db w2)) (unix now2)"
    using \<open>1 \<le> cap\<close> by (cases "row_with b_key k (t_buckets (w_db w2))")
      (simp_all add: available_def purge_buckets_row [OF keys])
  then show ?thesis
    using \<open>quiet w2\<close> by (simp add: TakeRateLimit_quiet taken_def Let_def)
qed

definition drained :: database where
  "drained = empty_db\<lparr>t_buckets :=
     [\<lparr>b_key = ''message:user:a'', b_tokens = 0, b_updated_at = 0, b_expires_at = 21600\<rparr>]\<rparr>"

lemma drained_take:
  "TakeRateLimit ''message:user:a'' 0 8 (8 / 60) (6 * hour) (running drained) =
   (Inr (False, 7 * second), running drained)"
  by (simp add: TakeRateLimit_quiet taken_def Let_def available_def refilled_def drained_def
      purge_buckets_def put_bucket_def retry_wait_def truncated_def upsert_def unix_def second_def floor_eq_iff)

lemma TakeRateLimit_retry_witness:
  "fst (TakeRateLimit ''message:user:a'' (8 * second) 8 (8 / 60) (6 * hour) (running drained))
   = Inr (True, 0)"
  by (rule TakeRateLimit_retry [OF drained_take]) (simp_all add: drained_def empty_db_def)

text \<open>
  waiting exactly the advertised time is not enough: the float is truncated to whole
  seconds before it is used, so the retry of a client that obeys \<^verbatim>\<open>Retry-After\<close> is denied
  again (a bucket of eight messages a minute, empty: the wait is 7.5 s, the answer 7 s).
\<close>

theorem TakeRateLimit_retry_truncated:
  "fst (TakeRateLimit ''message:user:a'' 0 8 (8 / 60) (6 * hour) (running drained))
     = Inr (False, 7 * second) \<and>
   fst (TakeRateLimit ''message:user:a'' (7 * second) 8 (8 / 60) (6 * hour)
     (snd (TakeRateLimit ''message:user:a'' 0 8 (8 / 60) (6 * hour) (running drained))))
     = Inr (False, second)"
  unfolding drained_take
  by (simp add: TakeRateLimit_quiet taken_def Let_def available_def refilled_def drained_def
      purge_buckets_def put_bucket_def retry_wait_def truncated_def upsert_def unix_def second_def floor_eq_iff)

section \<open>What a violation does\<close>

definition purge_bans :: "int \<Rightarrow> database \<Rightarrow> database" where
  "purge_bans t d = d\<lparr>t_bans := filter (\<lambda>b. \<not> ib_updated_at b \<le> t) (t_bans d)\<rparr>"

definition put_ban :: "ban_row \<Rightarrow> database \<Rightarrow> database" where
  "put_ban b d = d\<lparr>t_bans := upsert ib_key b (t_bans d)\<rparr>"

text \<open>The row a key that is not banned has after a violation, and what is reported.\<close>

definition counted :: "string \<Rightarrow> int \<Rightarrow> int \<Rightarrow> int \<Rightarrow> duration list \<Rightarrow> int \<Rightarrow> ban_row option
    \<Rightarrow> ban_row \<times> int" where
  "counted key t window threshold steps forget row =
     (let b = (case row of
                 None \<Rightarrow> \<lparr>ib_key = key, ib_violations = 0, ib_window_start = t, ib_until = 0,
                          ib_updated_at = 0, ib_ban_count = 0\<rparr>
               | Some b \<Rightarrow> b);
          fresh = (t - ib_window_start b > window);
          n = (if fresh then 0 else ib_violations b) + 1;
          ban = (n \<ge> threshold);
          count = (if ban then (if t - ib_updated_at b \<le> forget then ib_ban_count b + 1 else 1)
                   else ib_ban_count b);
          level = (if ban then min count (int (length steps)) else 0) in
      (\<lparr>ib_key = key, ib_violations = n,
        ib_window_start = (if fresh then t else ib_window_start b),
        ib_until = (if ban then t + in_seconds (steps ! nat (level - 1)) else 0),
        ib_updated_at = t, ib_ban_count = count\<rparr>, level))"

text \<open>The statements of one violation on a database; \<open>None\<close> is the index out of range.\<close>

definition violated :: "string \<Rightarrow> int \<Rightarrow> int \<Rightarrow> int \<Rightarrow> duration list \<Rightarrow> int \<Rightarrow> ban_row option
    \<Rightarrow> ((int \<times> time) \<times> ban_row option) option" where
  "violated key t window threshold steps forget row =
     (if (case row of None \<Rightarrow> 0 | Some b \<Rightarrow> ib_until b) > t then Some ((0, zero_time), None)
      else
        (case counted key t window threshold steps forget row of (b, level) \<Rightarrow>
           if ib_violations b \<ge> threshold \<and> level < 1 then None
           else Some (if level = 0 then (0, zero_time) else (level, of_unix (ib_until b)), Some b)))"

definition whole_seconds :: "duration \<Rightarrow> int" where
  "whole_seconds d = max 1 (in_seconds d)"

lemma NoteViolation_alt:
  assumes "0 < threshold" "steps \<noteq> []"
  shows "NoteViolation key now window threshold steps forget =
    read_decide_write (purge_bans (unix now - whole_seconds forget))
      (\<lambda>d. row_with ib_key key (t_bans d))
      (violated key (unix now) (whole_seconds window) threshold steps (whole_seconds forget))
      put_ban"
proof -
  have "\<not> (threshold \<le> 0 \<or> steps = [])" using assms by simp
  then show ?thesis
    unfolding NoteViolation_def Let_def violated_def counted_def purge_bans_def put_ban_def
      read_decide_write_def whole_seconds_def
    apply (simp only: if_False prod.case)
    apply (rule arg_cong [where f = transaction])
    apply (rule arg_cong2 [where f = andThen, OF refl], rule ext)
    apply (rule arg_cong2 [where f = andThen, OF refl], rule ext)
    subgoal for u row
      by (cases row) (simp_all only: option.case ban_row.simps prod.case if_distrib
          [where f = "case_option _ _"] if_distrib [where f = "case_prod _"])
    done
qed

lemma put_ban_row [simp]:
  "row_with ib_key k (t_bans (put_ban b d)) =
     (if k = ib_key b then Some b else row_with ib_key k (t_bans d))"
  by (simp add: put_ban_def)

lemma purge_bans_row:
  "distinct (map ib_key (t_bans d)) \<Longrightarrow>
   row_with ib_key k (t_bans (purge_bans t d)) =
     (case row_with ib_key k (t_bans d) of None \<Rightarrow> None
      | Some b \<Rightarrow> if ib_updated_at b \<le> t then None else Some b)"
  by (auto simp: purge_bans_def row_with_filter split: option.split)

lemma bans_distinct [simp]:
  "distinct (map ib_key (t_bans d)) \<Longrightarrow> distinct (map ib_key (t_bans (put_ban b d)))"
  "distinct (map ib_key (t_bans d)) \<Longrightarrow> distinct (map ib_key (t_bans (purge_bans t d)))"
  by (simp_all add: put_ban_def purge_bans_def)

lemma counted_simps [simp]:
  "ib_key (fst (counted key t window threshold steps forget row)) = key"
  "ib_updated_at (fst (counted key t window threshold steps forget row)) = t"
  by (simp_all add: counted_def Let_def)

lemma IPBanActive_quiet:
  "quiet w \<Longrightarrow> IPBanActive key now w =
     (case row_with ib_key key (t_bans (w_db w)) of
        None \<Rightarrow> (Inr (False, zero_time), w)
      | Some b \<Rightarrow> (Inr (if ib_until b \<le> unix now then (False, zero_time)
                         else (True, of_unix (ib_until b))), w))"
  by (simp add: IPBanActive_def run_simps split: option.split)

text \<open>What a violation that creates a ban writes, under every failure schedule.\<close>

lemma violated_created:
  assumes "violated key t window threshold steps forget row = Some ((level, until), r)" "level \<noteq> 0"
  shows "\<exists>b. counted key t window threshold steps forget row = (b, level) \<and> r = Some b \<and>
    until = of_unix (ib_until b) \<and> \<not> (threshold \<le> ib_violations b \<and> level < 1)"
  using assms by (auto simp: violated_def split: if_splits prod.splits)

lemma counted_level:
  "counted key t window threshold steps forget row = (b, level) \<Longrightarrow> level \<noteq> 0 \<Longrightarrow>
   threshold \<le> ib_violations b \<and> level = min (ib_ban_count b) (int (length steps)) \<and>
   ib_until b = t + in_seconds (steps ! nat (level - 1)) \<and> ib_updated_at b = t \<and> ib_key b = key"
  by (auto simp: counted_def Let_def split: if_splits)

lemma NoteViolation_on:
  "NoteViolation key now window threshold steps forget w = (Inr (level, until), w1) \<Longrightarrow>
   level \<noteq> 0 \<Longrightarrow> 0 < threshold \<and> steps \<noteq> []"
  by (auto simp: NoteViolation_def run_simps split: if_splits)

lemma NoteViolation_created:
  assumes run: "NoteViolation key now window threshold steps forget w = (Inr (level, until), w1)"
    and "level \<noteq> 0"
  shows "\<exists>b. row_with ib_key key (t_bans (w_db w1)) = Some b \<and>
    1 \<le> level \<and> level = min (ib_ban_count b) (int (length steps)) \<and>
    threshold \<le> ib_violations b \<and> ib_updated_at b = unix now \<and>
    ib_until b = unix now + in_seconds (steps ! nat (level - 1)) \<and> until = of_unix (ib_until b)"
proof -
  have on: "0 < threshold" "steps \<noteq> []"
    using NoteViolation_on [OF assms] by auto
  obtain d row where v: "violated key (unix now) (whole_seconds window) threshold steps
      (whole_seconds forget) (row_with ib_key key (t_bans d)) = Some ((level, until), row)"
    and put: "w_db w1 = (case row of None \<Rightarrow> w_db w | Some b \<Rightarrow> put_ban b d)"
    using run unfolding NoteViolation_alt [OF on]
    by (elim read_decide_write_outcome) blast
  obtain b where b: "counted key (unix now) (whole_seconds window) threshold steps
      (whole_seconds forget) (row_with ib_key key (t_bans d)) = (b, level)"
    "row = Some b" "until = of_unix (ib_until b)" "\<not> (threshold \<le> ib_violations b \<and> level < 1)"
    using violated_created [OF v \<open>level \<noteq> 0\<close>] by blast
  with counted_level [OF b(1) \<open>level \<noteq> 0\<close>] put show ?thesis by auto
qed

text \<open>
  a violation that creates a ban reports a level between one and the number of steps and
  the instant the step of that level ends; from then on the key is reported banned until
  exactly that instant, and not after it.
\<close>

theorem NoteViolation_bans:
  assumes run: "NoteViolation key now window threshold steps forget w = (Inr (level, until), w1)"
    and level: "level \<noteq> 0"
    and after: "quiet w2" "t_bans (w_db w2) = t_bans (w_db w1)"
  shows "1 \<le> level \<and> level \<le> int (length steps) \<and>
    until = of_unix (unix now + in_seconds (steps ! nat (level - 1))) \<and>
    fst (IPBanActive key now2 w2) =
      Inr (if unix now2 < unix until then (True, until) else (False, zero_time))"
  using NoteViolation_created [OF run level] after
  by (auto simp: IPBanActive_quiet)

text \<open>
  escalation. When a ban has run out and its window has not, the next violation bans
  again at once, one level higher up to the last step.
\<close>

theorem NoteViolation_escalates:
  assumes run: "NoteViolation key now window threshold steps forget w = (Inr (level, until), w1)"
    and level: "level \<noteq> 0"
    and after: "quiet w2" "t_bans (w_db w2) = t_bans (w_db w1)" "distinct (map ib_key (t_bans (w_db w2)))"
    and row: "row_with ib_key key (t_bans (w_db w2)) = Some b"
    and over: "unix until \<le> unix now2"
    and inside: "unix now2 - ib_window_start b \<le> whole_seconds window"
      "unix now2 - unix now < whole_seconds forget"
  shows "\<exists>until2. fst (NoteViolation key now2 window threshold steps forget w2) =
    Inr (if level < int (length steps) then level + 1 else level, until2)"
proof -
  have on: "0 < threshold" "steps \<noteq> []"
    using NoteViolation_on [OF run level] by auto
  obtain c where c: "row_with ib_key key (t_bans (w_db w1)) = Some c" "1 \<le> level"
    "level = min (ib_ban_count c) (int (length steps))" "threshold \<le> ib_violations c"
    "ib_updated_at c = unix now" "until = of_unix (ib_until c)"
    using NoteViolation_created [OF run level] by metis
  then have "b = c" using row after by simp
  have "1 \<le> min (ib_ban_count c + 1) (int (length steps))" using c by auto
  moreover have kept: "row_with ib_key key (t_bans (purge_bans (unix now2 - whole_seconds forget) (w_db w2)))
      = Some b"
    using inside c row \<open>b = c\<close> by (simp add: purge_bans_row [OF after(3)])
  ultimately have "violated key (unix now2) (whole_seconds window) threshold steps (whole_seconds forget) (Some b)
      = Some ((min (ib_ban_count b + 1) (int (length steps)),
               of_unix (ib_until (fst (counted key (unix now2) (whole_seconds window) threshold steps
                 (whole_seconds forget) (Some b))))),
              Some (fst (counted key (unix now2) (whole_seconds window) threshold steps
                 (whole_seconds forget) (Some b))))"
    using c over inside on \<open>b = c\<close> by (simp add: violated_def counted_def Let_def)
  then show ?thesis
    using c \<open>b = c\<close> by (auto simp: NoteViolation_alt [OF on] read_decide_write_quiet [OF after(1)] kept)
qed

text \<open>
  A ban at the last step forgets. When the last step lasts at least as long as the
  memory of the escalation, the first violation after it has run out finds no row: the key
  starts from the first step again.
\<close>

lemma violation_forgotten:
  assumes run: "NoteViolation key now window threshold steps forget w = (Inr (int (length steps), until), w1)"
    and last: "whole_seconds forget \<le> in_seconds (last steps)"
    and on: "1 < threshold" "steps \<noteq> []" "0 \<le> unix now2"
    and after: "quiet w2" "t_bans (w_db w2) = t_bans (w_db w1)" "distinct (map ib_key (t_bans (w_db w2)))"
    and over: "unix until \<le> unix now2"
  shows "fst (NoteViolation key now2 window threshold steps forget w2) = Inr (0, zero_time) \<and>
    (\<exists>b. row_with ib_key key (t_bans (w_db (snd (NoteViolation key now2 window threshold steps forget w2))))
       = Some b \<and> ib_violations b = 1 \<and> ib_ban_count b = 0)"
proof -
  have on': "0 < threshold" using on by simp
  have "int (length steps) \<noteq> 0" using on by simp
  from NoteViolation_created [OF run this] obtain c where
    c: "row_with ib_key key (t_bans (w_db w1)) = Some c" "ib_updated_at c = unix now"
      "ib_until c = unix now + in_seconds (steps ! nat (int (length steps) - 1))"
      "until = of_unix (ib_until c)" by metis
  have "steps ! nat (int (length steps) - 1) = last steps"
    using on by (simp add: last_conv_nth nat_diff_distrib')
  then have "unix now + whole_seconds forget \<le> unix now2"
    using c over last by simp
  then have "row_with ib_key key (t_bans (purge_bans (unix now2 - whole_seconds forget) (w_db w2))) = None"
    using c after by (simp add: purge_bans_row)
  then show ?thesis
    using on by (simp add: NoteViolation_alt [OF on' on(2)] read_decide_write_quiet [OF after(1)]
        violated_def counted_def Let_def)
qed

text \<open>Counting up to the threshold.\<close>

lemma NoteViolation_counts:
  assumes w: "quiet w" "distinct (map ib_key (t_bans (w_db w)))"
    and row: "row_with ib_key key (t_bans (w_db w)) = Some b"
    and b: "ib_until b = 0" "ib_ban_count b = 0" "0 \<le> ib_violations b" "ib_violations b < threshold"
    and t: "0 \<le> unix now" "unix now - ib_window_start b \<le> whole_seconds window"
      "unix now - ib_updated_at b < whole_seconds forget"
    and on: "steps \<noteq> []"
  defines "b' \<equiv> fst (counted key (unix now) (whole_seconds window) threshold steps (whole_seconds forget) (Some b))"
  shows "NoteViolation key now window threshold steps forget w =
    (Inr (if ib_violations b + 1 = threshold then (1, of_unix (unix now + in_seconds (hd steps)))
          else (0, zero_time)),
     w\<lparr>w_db := put_ban b' (purge_bans (unix now - whole_seconds forget) (w_db w))\<rparr>)"
proof -
  have pos: "0 < threshold" using b by linarith
  have "min 1 (int (length steps)) = 1" using on by (cases steps) simp_all
  moreover have "row_with ib_key key (t_bans (purge_bans (unix now - whole_seconds forget) (w_db w))) = Some b"
    using t row by (simp add: purge_bans_row [OF w(2)])
  ultimately show ?thesis
    using b t on hd_conv_nth [OF on]
    by (auto simp: NoteViolation_alt [OF pos on] read_decide_write_quiet [OF w(1)] violated_def
        counted_def Let_def b'_def)
qed

lemma counted_below:
  assumes "ib_violations b + 1 < threshold" "t - ib_window_start b \<le> window"
  shows "fst (counted key t window threshold steps forget (Some b)) =
    \<lparr>ib_key = key, ib_violations = ib_violations b + 1, ib_window_start = ib_window_start b,
     ib_until = 0, ib_updated_at = t, ib_ban_count = ib_ban_count b\<rparr>"
  using assms by (simp add: counted_def Let_def)

lemma violations_reach_threshold:
  assumes "quiet w" "distinct (map ib_key (t_bans (w_db w)))"
    and "row_with ib_key key (t_bans (w_db w)) = Some b"
    and "ib_until b = 0" "ib_ban_count b = 0" "0 \<le> ib_violations b"
    and "int (length ts) = threshold - ib_violations b" "ts \<noteq> []"
    and "0 \<le> ib_window_start b" "ib_window_start b \<le> ib_updated_at b"
    and "sorted (ib_updated_at b # map unix ts)"
    and "unix (last ts) - ib_window_start b \<le> whole_seconds window"
    and "whole_seconds window < whole_seconds forget" "steps \<noteq> []"
  shows "fst (run_all (map (\<lambda>now. NoteViolation key now window threshold steps forget) ts) w) =
    replicate (length ts - 1) (Inr (0, zero_time)) @
      [Inr (1, of_unix (unix (last ts) + in_seconds (hd steps)))]"
  using assms
proof (induction ts arbitrary: w b)
  case (Cons now ts)
  let ?note = "\<lambda>now. NoteViolation key now window threshold steps forget"
  have le: "unix now \<le> unix (last (now # ts))"
    using Cons.prems(11) by (cases ts rule: rev_cases) auto
  have run: "?note now w = (Inr (if ib_violations b + 1 = threshold
        then (1, of_unix (unix now + in_seconds (hd steps))) else (0, zero_time)),
      w\<lparr>w_db := put_ban (fst (counted key (unix now) (whole_seconds window) threshold steps
          (whole_seconds forget) (Some b))) (purge_bans (unix now - whole_seconds forget) (w_db w))\<rparr>)"
    using Cons.prems le by (intro NoteViolation_counts) auto
  show ?case
  proof (cases ts)
    case Nil
    with Cons.prems run show ?thesis by simp
  next
    case (Cons now' ts')
    let ?b = "\<lparr>ib_key = key, ib_violations = ib_violations b + 1, ib_window_start = ib_window_start b,
     ib_until = 0, ib_updated_at = unix now, ib_ban_count = ib_ban_count b\<rparr>"
    let ?w = "w\<lparr>w_db := put_ban ?b (purge_bans (unix now - whole_seconds forget) (w_db w))\<rparr>"
    have below: "ib_violations b + 1 < threshold" using Cons Cons.prems(7) by simp
    have run': "?note now w = (Inr (0, zero_time), ?w)"
      using run counted_below [OF below] le Cons.prems(12) below by simp
    have "fst (run_all (map ?note ts) ?w) = replicate (length ts - 1) (Inr (0, zero_time)) @
      [Inr (1, of_unix (unix (last ts) + in_seconds (hd steps)))]"
      using Cons.prems Cons by (intro Cons.IH [of ?w ?b]) auto
    with run' Cons show ?thesis by (simp add: split_beta)
  qed
qed simp

lemma NoteViolation_first:
  assumes w: "quiet w" "distinct (map ib_key (t_bans (w_db w)))"
    and row: "row_with ib_key key (t_bans (w_db w)) = None"
    and on: "0 < threshold" "steps \<noteq> []" "0 \<le> unix now"
  shows "NoteViolation key now window threshold steps forget w =
    (Inr (if threshold = 1 then (1, of_unix (unix now + in_seconds (hd steps))) else (0, zero_time)),
     w\<lparr>w_db := put_ban (fst (counted key (unix now) (whole_seconds window) threshold steps
          (whole_seconds forget) None)) (purge_bans (unix now - whole_seconds forget) (w_db w))\<rparr>)"
proof -
  have "min 1 (int (length steps)) = 1" using on by (cases steps) simp_all
  moreover have "row_with ib_key key (t_bans (purge_bans (unix now - whole_seconds forget) (w_db w))) = None"
    using row by (simp add: purge_bans_row [OF w(2)])
  moreover have "\<not> 1 < whole_seconds window \<or> 1 \<le> whole_seconds window" by auto
  moreover have "0 < whole_seconds window" by (simp add: whole_seconds_def)
  ultimately show ?thesis
    using on hd_conv_nth [OF on(2)]
    by (auto simp: NoteViolation_alt [OF on(1,2)] read_decide_write_quiet [OF w(1)] violated_def
        counted_def Let_def)
qed

text \<open>
  the threshold. The first violations of a key inside one window report nothing, and the
  one whose number is the threshold creates the first ban, for the first step.
\<close>

theorem NoteViolation_threshold:
  assumes "quiet w" "distinct (map ib_key (t_bans (w_db w)))"
    and "row_with ib_key key (t_bans (w_db w)) = None"
    and "0 < threshold" "steps \<noteq> []" "whole_seconds window < whole_seconds forget"
    and "int (length ts) = threshold" "sorted (0 # map unix ts)"
    and "unix (last ts) - unix (hd ts) \<le> whole_seconds window"
  shows "fst (run_all (map (\<lambda>now. NoteViolation key now window threshold steps forget) ts) w) =
    replicate (length ts - 1) (Inr (0, zero_time)) @
      [Inr (1, of_unix (unix (last ts) + in_seconds (hd steps)))]"
proof (cases ts)
  case Nil
  with assms show ?thesis by simp
next
  case (Cons now ts')
  let ?note = "\<lambda>now. NoteViolation key now window threshold steps forget"
  have run: "?note now w = (Inr (if threshold = 1 then (1, of_unix (unix now + in_seconds (hd steps)))
        else (0, zero_time)),
      w\<lparr>w_db := put_ban (fst (counted key (unix now) (whole_seconds window) threshold steps
          (whole_seconds forget) None)) (purge_bans (unix now - whole_seconds forget) (w_db w))\<rparr>)"
    using assms Cons by (intro NoteViolation_first) auto
  show ?thesis
  proof (cases ts')
    case Nil
    with assms Cons run show ?thesis by simp
  next
    case (Cons now' ts'')
    let ?b = "\<lparr>ib_key = key, ib_violations = 1, ib_window_start = unix now, ib_until = 0,
      ib_updated_at = unix now, ib_ban_count = 0\<rparr>"
    let ?w = "w\<lparr>w_db := put_ban ?b (purge_bans (unix now - whole_seconds forget) (w_db w))\<rparr>"
    have more: "1 < threshold" using assms \<open>ts = now # ts'\<close> Cons by simp
    then have "?note now w = (Inr (0, zero_time), ?w)"
      using run by (simp add: counted_def Let_def whole_seconds_def)
    moreover have "fst (run_all (map ?note ts') ?w) = replicate (length ts' - 1) (Inr (0, zero_time)) @
      [Inr (1, of_unix (unix (last ts') + in_seconds (hd steps)))]"
      using assms more Cons \<open>ts = now # ts'\<close> by (intro violations_reach_threshold [of ?w key ?b]) auto
    ultimately show ?thesis
      using Cons \<open>ts = now # ts'\<close> by (simp add: split_beta)
  qed
qed

text \<open>The violations other requests report while a key is banned, of any key and any settings.\<close>

record violation_call =
  vc_key :: string
  vc_now :: time
  vc_window :: duration
  vc_threshold :: int
  vc_steps :: "duration list"
  vc_forget :: duration

definition note_call :: "violation_call \<Rightarrow> ('z, int \<times> time) dbm" where
  "note_call c = NoteViolation (vc_key c) (vc_now c) (vc_window c) (vc_threshold c) (vc_steps c)
     (vc_forget c)"

lemma violated_writes:
  assumes "violated key t window threshold steps forget row = Some (x, Some b)"
  shows "ib_key b = key \<and> (case row of None \<Rightarrow> 0 | Some c \<Rightarrow> ib_until c) \<le> t"
  using assms counted_simps(1) [of key t window threshold steps forget row]
  by (auto simp: violated_def split: if_splits prod.splits simp del: counted_simps)

lemma note_call_keeps_ban:
  assumes "unix (vc_now c) < ib_until b" "ib_until b - ib_updated_at b \<le> whole_seconds (vc_forget c)"
  shows "keeps (\<lambda>d. distinct (map ib_key (t_bans d)) \<and> row_with ib_key key (t_bans d) = Some b)
    (note_call c)"
proof (cases "0 < vc_threshold c \<and> vc_steps c \<noteq> []")
  case True
  then show ?thesis
    unfolding note_call_def
    using assms by (subst NoteViolation_alt; (intro keeps_read_decide_write)?)
      (auto simp: purge_bans_row dest: violated_writes)
next
  case False
  then show ?thesis by (auto simp: note_call_def NoteViolation_def intro: keeps_ret)
qed

text \<open>
  a ban stands. No violation reported before it runs out, of this key or another, in any
  order and with any driver failures, lifts, shortens or extends a ban that lasts no longer
  than the memory of the escalation.
\<close>

theorem NoteViolation_ban_stands:
  assumes "distinct (map ib_key (t_bans (w_db w)))"
    and "row_with ib_key key (t_bans (w_db w)) = Some b"
    and "list_all (\<lambda>c. unix (vc_now c) < ib_until b
      \<and> ib_until b - ib_updated_at b \<le> whole_seconds (vc_forget c)) cs"
  shows "row_with ib_key key (t_bans (w_db (snd (run_all (map note_call cs) w)))) = Some b"
proof -
  have "keeps (\<lambda>d. distinct (map ib_key (t_bans d)) \<and> row_with ib_key key (t_bans d) = Some b) m"
    if "m \<in> set (map note_call cs)" for m
    using that assms(3) by (auto simp: list_all_iff intro: note_call_keeps_ban)
  from keeps_run_all [where ms = "map note_call cs" and w = w, OF this] assms(1,2)
  show ?thesis by simp
qed

section \<open>A ban, concretely\<close>

definition ban_db :: "ban_row list \<Rightarrow> database" where
  "ban_db bs = empty_db\<lparr>t_bans := bs\<rparr>"

lemma ban_db_simps [simp]: "t_bans (ban_db bs) = bs"
  "purge_bans t (ban_db bs) = ban_db (filter (\<lambda>b. \<not> ib_updated_at b \<le> t) bs)"
  "put_ban b (ban_db bs) = ban_db (upsert ib_key b bs)"
  by (simp_all add: ban_db_def purge_bans_def put_ban_def)

definition ninth :: "ban_row list" where
  "ninth = [\<lparr>ib_key = ''ip:1'', ib_violations = 9, ib_window_start = 0, ib_until = 0,
     ib_updated_at = 5, ib_ban_count = 0\<rparr>]"

definition tenth :: "ban_row list" where
  "tenth = [\<lparr>ib_key = ''ip:1'', ib_violations = 10, ib_window_start = 0, ib_until = 20,
     ib_updated_at = 10, ib_ban_count = 1\<rparr>]"

lemmas ban_eval = NoteViolation_alt read_decide_write_quiet violated_def counted_def Let_def
  whole_seconds_def upsert_def

lemma tenth_violation:
  "NoteViolation ''ip:1'' (10 * second) (15 * minute) 10 [10 * second, minute] (24 * hour) (running (ban_db ninth))
   = (Inr (1, of_unix 20), running (ban_db tenth))"
  by (simp add: ban_eval ninth_def tenth_def)

lemma NoteViolation_bans_witness:
  "1 \<le> (1 :: int) \<and> 1 \<le> int (length [10 * second, minute]) \<and>
   of_unix 20 = of_unix (unix (10 * second) + in_seconds ([10 * second, minute] ! nat (1 - 1))) \<and>
   fst (IPBanActive ''ip:1'' (19 * second) (running (ban_db tenth))) =
     Inr (if unix (19 * second) < unix (of_unix 20) then (True, of_unix 20) else (False, zero_time))"
  by (rule NoteViolation_bans [OF tenth_violation]) simp_all

lemma NoteViolation_escalates_witness:
  "\<exists>until2. fst (NoteViolation ''ip:1'' (30 * second) (15 * minute) 10 [10 * second, minute] (24 * hour)
      (running (ban_db tenth))) = Inr (2, until2)"
  using NoteViolation_escalates [OF tenth_violation, of "running (ban_db tenth)" "hd tenth" "30 * second"]
  by (simp add: tenth_def whole_seconds_def)

lemma NoteViolation_threshold_witness:
  "fst (run_all (map (\<lambda>now. NoteViolation ''ip:1'' now minute 2 [10 * second] hour) [second, 3 * second])
     (running (ban_db []))) = [Inr (0, zero_time), Inr (1, of_unix 13)]"
  using NoteViolation_threshold [of "running (ban_db [])" "''ip:1''" 2 "[10 * second]" minute hour
      "[second, 3 * second]"]
  by (simp add: whole_seconds_def)

lemma NoteViolation_ban_stands_witness:
  "row_with ib_key ''ip:1'' (t_bans (w_db (snd (run_all (map note_call
     [\<lparr>vc_key = ''ip:1'', vc_now = 19 * second, vc_window = 0, vc_threshold = 1, vc_steps = [0],
       vc_forget = minute\<rparr>]) \<lparr>w_db = ban_db tenth, w_faults = [True]\<rparr>)))) = Some (hd tenth)"
  by (rule NoteViolation_ban_stands) (simp_all add: tenth_def whole_seconds_def)

section \<open>Account bans and account blocks\<close>

text \<open>
  the number reported with an account ban is the number of bans of that account inside
  the window, the new one included; an account that does not exist gets none.
\<close>

theorem RecordAccountBan_counts:
  assumes "RecordAccountBan userID now window w = (Inr n, w1)"
  shows "has_user (w_db w) userID \<and>
    n = count_rows (\<lambda>b. ab_user_id b = userID \<and> unix (now - window) \<le> ab_created_at b)
          (t_account_bans (w_db w)) + (if unix (now - window) \<le> unix now then 1 else 0)"
proof -
  have keep: "count_rows (\<lambda>b. ab_user_id b = userID \<and> c \<le> ab_created_at b)
      (filter (\<lambda>b. \<not> ab_created_at b < c) bs) =
    count_rows (\<lambda>b. ab_user_id b = userID \<and> c \<le> ab_created_at b) bs" for c bs
    by (induction bs) auto
  show ?thesis
    using assms unfolding RecordAccountBan_def Let_def
    by (elim transaction_InrE andThen_InrE ignoring_exec_E;
        elim run_elims;
        auto simp: insert_account_ban_def keep has_user_def)
qed

definition someone :: user_row where
  "someone = \<lparr>u_id = ''u1'', u_email = ''a@b'', u_display_name = ''A'', u_avatar = [],
     u_password_hash = ''h'', u_token_hash = ''t'', u_created_at = 0, u_last_seen_at = 0,
     u_welcome_seen_at = 0\<rparr>"

definition one_user :: database where
  "one_user = empty_db\<lparr>t_users := [someone]\<rparr>"

lemma RecordAccountBan_counts_witness:
  "has_user one_user ''u1'' \<and>
   1 = count_rows (\<lambda>b. ab_user_id b = ''u1'' \<and> unix (hour - minute) \<le> ab_created_at b)
         (t_account_bans one_user) + (if unix (hour - minute) \<le> unix hour then 1 else 0)"
proof -
  have "\<exists>w1. RecordAccountBan ''u1'' hour minute (running one_user) = (Inr 1, w1)"
    by (simp add: RecordAccountBan_def transaction_quiet run_simps Let_def insert_account_ban_def
        has_user_def one_user_def someone_def empty_db_def unix_mono)
  then show ?thesis using RecordAccountBan_counts [of "''u1''" hour minute "running one_user" 1] by auto
qed

lemma AccountBlockActive_quiet:
  assumes "quiet w" "userID \<noteq> []"
  shows "fst (AccountBlockActive userID now w) =
    (case row_with bl_user_id userID (t_account_blocks (w_db w)) of
       None \<Rightarrow> Inr (False, zero_time)
     | Some b \<Rightarrow> Inr (if unix now < bl_until b then (True, of_unix (bl_until b)) else (False, zero_time)))"
  using assms by (simp add: AccountBlockActive_def run_simps not_le split: option.split)

text \<open>
  a block of an account is in force until its instant, replaces an earlier one, and
  leaves the blocks of other accounts as they were.
\<close>

theorem SetAccountBlock_active:
  assumes set: "SetAccountBlock userID until w = (Inr (), w1)" and "quiet w1"
  shows "fst (AccountBlockActive other now w1) =
    (if other = userID
     then Inr (if unix now < unix until then (True, of_unix (unix until)) else (False, zero_time))
     else fst (AccountBlockActive other now (running (w_db w))))"
proof -
  have id: "userID \<noteq> []"
    using set by (auto simp: SetAccountBlock_def run_simps split: if_splits)
  have "w_db w1 = (w_db w)\<lparr>t_account_blocks := upsert bl_user_id
      \<lparr>bl_user_id = userID, bl_until = unix until\<rparr> (t_account_blocks (w_db w))\<rparr>"
    using set unfolding SetAccountBlock_def
    by (auto simp: run_simps upsert_account_block_def split: if_splits elim!: insert_into_InrE)
  then show ?thesis
    using id AccountBlockActive_quiet [OF \<open>quiet w1\<close>, of other now]
      AccountBlockActive_quiet [of "running (w_db w)" other now]
    by (cases "other = []") (auto simp: AccountBlockActive_def run_simps)
qed

lemma SetAccountBlock_active_witness:
  "fst (AccountBlockActive ''u1'' minute (snd (SetAccountBlock ''u1'' hour (running one_user)))) =
    Inr (True, of_unix 3600)"
proof -
  obtain w1 where w1: "SetAccountBlock ''u1'' hour (running one_user) = (Inr (), w1)" "quiet w1"
    by (simp add: SetAccountBlock_def run_simps upsert_account_block_def has_user_def one_user_def
        someone_def zero_time_def)
  show ?thesis using SetAccountBlock_active [OF w1, of "''u1''" minute] w1 by simp
qed

section \<open>Integrity\<close>

lemma rate_keeps_wf [keeps_intros]:
  "keeps wf_db (TakeRateLimit key now cap rps ttl)"
  "keeps wf_db (NoteViolation key now window threshold steps forget)"
  "keeps wf_db (RecordAccountBan userID now window)"
  "keeps wf_db (IPBanActive key now)"
  "keeps wf_db (SetAccountBlock userID until)"
  "keeps wf_db (AccountBlockActive userID now)"
  unfolding TakeRateLimit_def NoteViolation_def RecordAccountBan_def IPBanActive_def
    SetAccountBlock_def AccountBlockActive_def upsertRateBucket_def
  by (intro keeps_intros; (erule (1) wf_inserts | simp add: wf_updates))+

end
