(* ===== verification/Runtime.thy ===== *)
theory Runtime
  imports Sql "HOL-Library.Word"
begin

text \<open>
  What a service sees beside the store: the clock (\<^verbatim>\<open>now func() time.Time\<close>), the random
  source (\<^verbatim>\<open>random io.Reader\<close>) and the voice gateway. The clock shows an instant and moves by
  the next entry of a list of durations after each reading. The random source is a tape of
  bytes, of which \<^verbatim>\<open>io.ReadFull\<close> takes a block or fails at its end. The gateway is LiveKit,
  outside the repository: each call takes one entry of a failure schedule and is logged, so
  that a property can say which calls were made; what a join token contains is a parameter.
\<close>

section \<open>The world of a service\<close>

datatype voice_call =
    GatewayDeleteRoom string
  | GatewayRemoveParticipant string string
  | GatewayJoinToken string string duration

record runtime = world +
  x_now :: time
  x_ticks :: "duration list"
  x_tape :: "8 word list"
  x_voice_faults :: "bool list"
  x_voice_calls :: "voice_call list"

text \<open>One reading of the clock, after which it has moved.\<close>

definition ticked :: "'z runtime_scheme \<Rightarrow> 'z runtime_scheme" where
  "ticked w =
     (case x_ticks w of
        [] \<Rightarrow> w
      | t # ts \<Rightarrow> w\<lparr>x_now := x_now w + t, x_ticks := ts\<rparr>)"

definition clock :: "('z runtime_scheme, 'e, time) action" where
  "clock w = (Inr (x_now w), ticked w)"

text \<open>\<^verbatim>\<open>io.ReadFull(s.random, make([]byte, n))\<close>; \<open>None\<close> is its error.\<close>

definition read_full :: "nat \<Rightarrow> ('z runtime_scheme, 'e, 8 word list option) action" where
  "read_full n w =
     (if length (x_tape w) < n then (Inr None, w\<lparr>x_tape := []\<rparr>)
      else (Inr (Some (take n (x_tape w))), w\<lparr>x_tape := drop n (x_tape w)\<rparr>))"

text \<open>A call of the gateway: whether it succeeded.\<close>

definition gateway :: "voice_call \<Rightarrow> ('z runtime_scheme, 'e, bool) action" where
  "gateway c w =
     (let w1 = w\<lparr>x_voice_calls := x_voice_calls w @ [c]\<rparr> in
      case x_voice_faults w of
        [] \<Rightarrow> (Inr True, w1)
      | b # bs \<Rightarrow> (Inr (\<not> b), w1\<lparr>x_voice_faults := bs\<rparr>))"

section \<open>Encodings of the standard library\<close>

definition hex_digits :: string where "hex_digits = ''0123456789abcdef''"

text \<open>\<^verbatim>\<open>hex.EncodeToString\<close>\<close>

fun hex_encode :: "8 word list \<Rightarrow> string" where
  "hex_encode [] = []"
| "hex_encode (b # bs) =
     hex_digits ! (unat b div 16) # hex_digits ! (unat b mod 16) # hex_encode bs"

definition base64_digits :: string where
  "base64_digits = ''ABCDEFGHIJKLMNOPQRSTUVWXYZabcdefghijklmnopqrstuvwxyz0123456789-_''"

text \<open>\<^verbatim>\<open>base64.RawURLEncoding.EncodeToString\<close>: no padding.\<close>

fun base64_url :: "8 word list \<Rightarrow> string" where
  "base64_url (a # b # c # bs) =
     (let n = unat a * 65536 + unat b * 256 + unat c in
      base64_digits ! (n div 262144) # base64_digits ! (n div 4096 mod 64)
        # base64_digits ! (n div 64 mod 64) # base64_digits ! (n mod 64) # base64_url bs)"
| "base64_url [a, b] =
     (let n = unat a * 65536 + unat b * 256 in
      [base64_digits ! (n div 262144), base64_digits ! (n div 4096 mod 64),
       base64_digits ! (n div 64 mod 64)])"
| "base64_url [a] =
     (let n = unat a * 65536 in
      [base64_digits ! (n div 262144), base64_digits ! (n div 4096 mod 64)])"
| "base64_url [] = []"

section \<open>Laws\<close>

lemma clock_run [run_simps]: "clock w = (Inr (x_now w), ticked w)"
  by (simp add: clock_def)

lemma ticked_simps [simp]:
  "w_db (ticked w) = w_db w" "w_faults (ticked w) = w_faults w" "x_tape (ticked w) = x_tape w"
  "x_voice_calls (ticked w) = x_voice_calls w" "x_voice_faults (ticked w) = x_voice_faults w"
  "x_ticks w = [] \<Longrightarrow> ticked w = w"
  by (simp_all add: ticked_def split: list.split)

lemma quiet_ticked [simp]: "quiet (ticked w) = quiet w"
  by (simp add: quiet_def)

lemma clock_Inr: "clock w = (r, w1) \<Longrightarrow> r = Inr (x_now w) \<and> w_db w1 = w_db w"
  by (auto simp: clock_def)

text \<open>A statement does not move the clock.\<close>

lemma stmt_clock [simp]:
  "x_now (snd (stmt f w)) = x_now w" "x_ticks (snd (stmt f w)) = x_ticks w"
  by (auto simp: stmt_def draw_fault_def split: list.split sum.split prod.split bool.split)

lemma exec_clock [simp]:
  "x_now (snd (exec h w)) = x_now w" "x_ticks (snd (exec h w)) = x_ticks w"
  "x_now (snd (exec_count k w)) = x_now w" "x_ticks (snd (exec_count k w)) = x_ticks w"
  by (simp_all add: exec_def exec_count_def)

lemma exec_db: "w_db (snd (exec h w)) = w_db w \<or> w_db (snd (exec h w)) = h (w_db w)"
  by (auto simp: exec_def stmt_def draw_fault_dbD split: prod.split bool.split)

lemma draw_fault_clock:
  "draw_fault w = (b, w1) \<Longrightarrow> x_now w1 = x_now w \<and> x_ticks w1 = x_ticks w"
  by (auto simp: draw_fault_def split: list.splits)

text \<open>Inversion rules that remember the clock.\<close>

lemma select_clock_InrE:
  assumes "select f w = (Inr x, w')"
  obtains "x = f (w_db w)" "w_db w' = w_db w" "x_now w' = x_now w" "x_ticks w' = x_ticks w"
proof -
  have "w' = snd (select f w)" using assms by simp
  then have "x_now w' = x_now w \<and> x_ticks w' = x_ticks w" by (simp add: select_def)
  with assms that show thesis by (elim select_InrE) auto
qed

lemma exec_clock_InrE:
  assumes "exec f w = (Inr x, w')"
  obtains "w_db w' = f (w_db w)" "x_now w' = x_now w" "x_ticks w' = x_ticks w"
proof -
  have "w' = snd (exec f w)" using assms by simp
  then have "x_now w' = x_now w \<and> x_ticks w' = x_ticks w" by simp
  with assms that show thesis by (elim exec_InrE) auto
qed

lemma transaction_clock_InrE:
  assumes "transaction body w = (Inr x, w')"
  obtains (commit) w1 w2 where "w_db w1 = w_db w" "x_now w1 = x_now w" "x_ticks w1 = x_ticks w"
      "body w1 = (Inr (Commit x), w2)" "w_db w' = w_db w2"
    | (rollback) w1 w2 where "w_db w1 = w_db w" "x_now w1 = x_now w" "x_ticks w1 = x_ticks w"
      "body w1 = (Inr (Rollback x), w2)" "w_db w' = w_db w"
proof -
  obtain b w1 where w1: "draw_fault w = (b, w1)" by (cases "draw_fault w")
  obtain r w2 where w2: "body w1 = (r, w2)" by (cases "body w1")
  obtain c w3 where w3: "draw_fault w2 = (c, w3)" by (cases "draw_fault w2")
  have "(r = Inr (Commit x) \<and> w' = w3) \<or> (r = Inr (Rollback x) \<and> w' = w2\<lparr>w_db := w_db w1\<rparr>)"
    using assms w1 w2 w3 by (auto simp: transaction_def split: bool.splits sum.splits tx_end.splits)
  then show thesis
    using w2 draw_fault_dbD [OF w1] draw_fault_dbD [OF w3] draw_fault_clock [OF w1]
      commit [of w1 w2] rollback [of w1 w2] by auto
qed

lemma read_transaction_result:
  assumes "transaction (andThen (select f) g) w = (Inr y, w')"
  shows "\<exists>s1 s2 e. w_db s1 = w_db w \<and> x_now s1 = x_now w \<and> x_ticks s1 = x_ticks w \<and>
    g (f (w_db w)) s1 = (Inr e, s2) \<and> (e = Commit y \<and> w_db w' = w_db s2 \<or> e = Rollback y \<and> w_db w' = w_db w)"
  using assms
proof (cases rule: transaction_clock_InrE)
  case (commit w1 w2)
  from commit(4) show ?thesis
  proof (rule andThen_InrE)
    fix x s1 assume read: "select f w1 = (Inr x, s1)" and "g x s1 = (Inr (Commit y), w2)"
    then show ?thesis using commit by (elim select_clock_InrE) (metis (no_types))
  qed
next
  case (rollback w1 w2)
  from rollback(4) show ?thesis
  proof (rule andThen_InrE)
    fix x s1 assume read: "select f w1 = (Inr x, s1)" and "g x s1 = (Inr (Rollback y), w2)"
    then show ?thesis using rollback by (elim select_clock_InrE) (metis (no_types))
  qed
qed

lemma keeps_clock [keeps_intros]: "keeps I clock"
  by (simp add: keeps_def run_simps)

lemma keeps_read_full [keeps_intros]: "keeps I (read_full n)"
  by (simp add: keeps_def read_full_def)

lemma keeps_gateway [keeps_intros]: "keeps I (gateway c)"
  by (simp add: keeps_def gateway_def Let_def split: list.split)

lemma gateway_calls [simp]: "x_voice_calls (snd (gateway c w)) = x_voice_calls w @ [c]"
  by (simp add: gateway_def Let_def split: list.split)

lemma gateway_db [simp]: "w_db (snd (gateway c w)) = w_db w"
  by (simp add: gateway_def Let_def split: list.split)

lemma hex_encode_length [simp]: "length (hex_encode bs) = 2 * length bs"
  by (induction bs) simp_all

lemma byte_less: "unat (b :: 8 word) < 256"
proof -
  have "unat b < 2 ^ LENGTH(8)" by (rule unsigned_less)
  then show ?thesis by simp
qed

lemma div_lt_of_byte: "unat (b :: 8 word) div 16 < 16" "unat (b :: 8 word) mod 16 < 16"
  using byte_less [of b] by simp_all

text \<open>Two identifiers are equal only when the bytes they encode are.\<close>

lemma hex_digit_inj: "i < 16 \<Longrightarrow> j < 16 \<Longrightarrow> hex_digits ! i = hex_digits ! j \<longleftrightarrow> i = j"
  by (rule nth_eq_iff_index_eq) (simp_all add: hex_digits_def)

lemma byte_parts: "unat (a :: 8 word) div 16 = unat b div 16 \<Longrightarrow> unat a mod 16 = unat b mod 16 \<Longrightarrow> a = b"
  by (metis div_mult_mod_eq word_unat_eq_iff)

lemma hex_encode_inj: "hex_encode xs = hex_encode ys \<longleftrightarrow> xs = ys"
proof (induction xs arbitrary: ys)
  case Nil
  show ?case by (cases ys) simp_all
next
  case (Cons x xs)
  show ?case
    by (cases ys) (auto simp: hex_digit_inj div_lt_of_byte Cons.IH dest: byte_parts)
qed

section \<open>A world to start from\<close>

definition started :: "database \<Rightarrow> time \<Rightarrow> duration list \<Rightarrow> runtime" where
  "started d now ticks = \<lparr>w_db = d, w_faults = [], x_now = now, x_ticks = ticks, x_tape = [],
     x_voice_faults = [], x_voice_calls = []\<rparr>"

lemma started_simps [simp]:
  "w_db (started d now ticks) = d" "quiet (started d now ticks)" "x_now (started d now ticks) = now"
  "x_ticks (started d now ticks) = ticks" "w_faults (started d now ticks) = []"
  "(started d now ticks)\<lparr>w_db := e\<rparr> = started e now ticks"
  by (simp_all add: started_def quiet_def)

end
