(* ===== verification/Limiter.thy ===== *)
theory Limiter
  imports Rate Runtime
begin

text \<open>
  \<^verbatim>\<open>abuse\<close>: the configuration of the limits, the \<^verbatim>\<open>Limiter\<close> that turns a scope and a
  subject into a bucket of \<^verbatim>\<open>store/rate\<close>, and the table of limits per route. A
  \<^verbatim>\<open>float64\<close> of refill per second is a rational number.
\<close>

section \<open>Configuration\<close>

record limit =
  l_capacity :: int
  l_refill :: duration

record abuse_config =
  TrustedProxies :: "string list"
  GlobalLimit :: limit
  RegisterLimit :: limit
  LoginLimit :: limit
  GroupCreateLimit :: limit
  ProfileUpdateLimit :: limit
  GroupJoinLimit :: limit
  MessageLimit :: limit
  SearchLimit :: limit
  HeavyLimit :: limit
  MaxMessageRunes :: int
  MaxLinks :: int
  MaxMentions :: int
  MinMessageInterval :: duration
  NewAccountAge :: duration
  NewAccountMessageCap :: int
  IdempotencyTTL :: duration
  BucketTTL :: duration
  IPBanThreshold :: int
  IPBanWindow :: duration
  IPBanSteps :: "duration list"
  IPBanEscalationForget :: duration
  AccountBanWindow :: duration
  AccountBanDeletionCount :: int

definition DefaultConfig :: abuse_config where
  "DefaultConfig = \<lparr>
     TrustedProxies = [],
     GlobalLimit = \<lparr>l_capacity = 900, l_refill = minute\<rparr>,
     RegisterLimit = \<lparr>l_capacity = 30, l_refill = hour\<rparr>,
     LoginLimit = \<lparr>l_capacity = 12, l_refill = 15 * minute\<rparr>,
     GroupCreateLimit = \<lparr>l_capacity = 1, l_refill = 3 * minute\<rparr>,
     ProfileUpdateLimit = \<lparr>l_capacity = 1, l_refill = 3 * minute\<rparr>,
     GroupJoinLimit = \<lparr>l_capacity = 60, l_refill = hour\<rparr>,
     MessageLimit = \<lparr>l_capacity = 20, l_refill = minute\<rparr>,
     SearchLimit = \<lparr>l_capacity = 60, l_refill = minute\<rparr>,
     HeavyLimit = \<lparr>l_capacity = 30, l_refill = minute\<rparr>,
     MaxMessageRunes = 2000,
     MaxLinks = 4,
     MaxMentions = 12,
     MinMessageInterval = 900 * millisecond,
     NewAccountAge = 24 * hour,
     NewAccountMessageCap = 8,
     IdempotencyTTL = 10 * minute,
     BucketTTL = 6 * hour,
     IPBanThreshold = 10,
     IPBanWindow = 15 * minute,
     IPBanSteps = [10 * second, minute, 5 * minute, 24 * hour],
     IPBanEscalationForget = 24 * hour,
     AccountBanWindow = 30 * (24 * hour),
     AccountBanDeletionCount = 5\<rparr>"

text \<open>\<^verbatim>\<open>limit.Refill.Seconds()\<close> is the duration in seconds as a fraction.\<close>

definition Seconds :: "duration \<Rightarrow> rat" where
  "Seconds d = of_int d / of_int second"

definition RefillPerSecond :: "limit \<Rightarrow> rat" where
  "RefillPerSecond limit =
     (if l_capacity limit \<le> 0 \<or> l_refill limit \<le> 0 then 1
      else of_int (l_capacity limit) / Seconds (l_refill limit))"

section \<open>The limiter\<close>

record decision =
  Allowed :: bool
  RetryAfter :: duration
  decision_Key :: string

record ban_result =
  Level :: int
  Until :: time

definition Allow ::
  "abuse_config \<Rightarrow> string \<Rightarrow> string \<Rightarrow> limit \<Rightarrow> ('z runtime_scheme, store_error, decision) action" where
  "Allow cfg scope subject limit =
     (let key = scope @ '':'' @ subject in
      andThen clock (\<lambda>now.
      andThen (TakeRateLimit key now (l_capacity limit) (RefillPerSecond limit) (BucketTTL cfg)) (\<lambda>(ok, retry).
      ret \<lparr>Allowed = ok, RetryAfter = retry, decision_Key = key\<rparr>)))"

definition noteViolation ::
  "abuse_config \<Rightarrow> string \<Rightarrow> ('z runtime_scheme, store_error, ban_result) action" where
  "noteViolation cfg key =
     andThen clock (\<lambda>now.
     andThen (NoteViolation key now (IPBanWindow cfg) (IPBanThreshold cfg) (IPBanSteps cfg)
       (IPBanEscalationForget cfg)) (\<lambda>(level, until).
     ret \<lparr>Level = level, Until = until\<rparr>))"

definition banKey :: "string \<Rightarrow> string" where
  "banKey ip = ''ip:'' @ ip"

definition Limiter_NoteViolation ::
  "abuse_config \<Rightarrow> string \<Rightarrow> ('z runtime_scheme, store_error, ban_result) action" where
  "Limiter_NoteViolation cfg ip = noteViolation cfg (banKey ip)"

definition NoteAccountViolation ::
  "abuse_config \<Rightarrow> string \<Rightarrow> ('z runtime_scheme, store_error, ban_result) action" where
  "NoteAccountViolation cfg userID = noteViolation cfg (''account:'' @ userID)"

definition Banned :: "string \<Rightarrow> ('z runtime_scheme, store_error, bool \<times> time) action" where
  "Banned ip = andThen clock (\<lambda>now. IPBanActive (banKey ip) now)"

definition EndpointLimit :: "abuse_config \<Rightarrow> string \<Rightarrow> limit" where
  "EndpointLimit cfg route =
     (if route = ''POST /v1/auth/register'' then RegisterLimit cfg
      else if route = ''POST /v1/auth/login'' then LoginLimit cfg
      else if route = ''POST /v1/groups'' then GroupCreateLimit cfg
      else if List.member [''POST /v1/groups/{id}/members'', ''POST /v1/invites/{token}/join'',
          ''POST /v1/rooms/{code}/join'', ''POST /v1/group-voice-rooms/{id}/join''] route
        then GroupJoinLimit cfg
      else if route = ''POST /v1/groups/{id}/messages'' then MessageLimit cfg
      else if route = ''PATCH /v1/me'' then ProfileUpdateLimit cfg
      else if route = ''DELETE /v1/me/avatar'' then ProfileUpdateLimit cfg
      else if route = ''GET /v1/discover/groups'' then SearchLimit cfg
      else if route = ''GET /v1/welcome'' then HeavyLimit cfg
      else if List.member [''GET /readyz'', ''GET /v1/events''] route then HeavyLimit cfg
      else GlobalLimit cfg)"

definition Subject :: "string \<Rightarrow> string \<Rightarrow> string" where
  "Subject kind value = kind @ '':'' @ (if value = [] then ''anonymous'' else value)"

section \<open>Keys\<close>

text \<open>Bans of addresses and of accounts never share a row.\<close>

lemma ban_keys_distinct [simp]: "banKey ip \<noteq> ''account:'' @ userID"
  by (simp add: banKey_def)

lemma banKey_inj [simp]: "banKey a = banKey b \<longleftrightarrow> a = b"
  by (simp add: banKey_def)

section \<open>The limiter as a metered interface\<close>

lemma RefillPerSecond_pos: "0 < RefillPerSecond limit"
  by (simp add: RefillPerSecond_def Seconds_def)

text \<open>A bucket that lives at least as long as a refill is full again before it is forgotten.\<close>

lemma refill_within_ttl:
  assumes "0 < l_refill limit" "0 < l_capacity limit" "l_refill limit \<le> (ttl div second) * second"
  shows "of_int (l_capacity limit) \<le> of_int (ttl div second) * RefillPerSecond limit"
proof -
  have "(of_int (l_refill limit) :: rat) \<le> of_int ((ttl div second) * second)"
    using assms(3) by (simp only: of_int_le_iff)
  then have "1 \<le> of_int (ttl div second) * (of_int second / (of_int (l_refill limit) :: rat))"
    using assms(1) by (simp add: field_simps)
  then have "of_int (l_capacity limit) * 1 \<le>
      of_int (l_capacity limit) * (of_int (ttl div second) * (of_int second / (of_int (l_refill limit) :: rat)))"
    using assms(2) by (intro mult_left_mono) simp_all
  then show ?thesis
    using assms by (simp add: RefillPerSecond_def Seconds_def mult.commute mult.left_commute)
qed

text \<open>A request for a scope and a subject, as a value.\<close>

record allow_call =
  ac_scope :: string
  ac_subject :: string
  ac_limit :: limit

definition allow_call :: "abuse_config \<Rightarrow> allow_call \<Rightarrow> ('z runtime_scheme, store_error, decision) action" where
  "allow_call cfg c = Allow cfg (ac_scope c) (ac_subject c) (ac_limit c)"

definition allow_key :: "allow_call \<Rightarrow> string" where
  "allow_key c = ac_scope c @ '':'' @ ac_subject c"

definition allows :: "abuse_config \<Rightarrow> string \<Rightarrow> allow_call \<Rightarrow> 'z runtime_scheme \<Rightarrow> bool" where
  "allows cfg k c w \<longleftrightarrow> allow_key c = k \<and>
     (case fst (allow_call cfg c w) of Inl _ \<Rightarrow> False | Inr d \<Rightarrow> Allowed d)"

definition allow_fits :: "abuse_config \<Rightarrow> string \<Rightarrow> limit \<Rightarrow> allow_call \<Rightarrow> bool" where
  "allow_fits cfg k limit c \<longleftrightarrow>
     (if allow_key c = k
      then ac_limit c = limit
        \<and> of_int (l_capacity limit) \<le> of_int (BucketTTL cfg div second) * RefillPerSecond limit
      else True)"

definition as_rate_call :: "abuse_config \<Rightarrow> time \<Rightarrow> allow_call \<Rightarrow> rate_call" where
  "as_rate_call cfg now c = \<lparr>rc_key = allow_key c, rc_now = now,
     rc_capacity = l_capacity (ac_limit c), rc_rps = RefillPerSecond (ac_limit c),
     rc_ttl = BucketTTL cfg\<rparr>"

lemma allow_call_db:
  "w_db (snd (allow_call cfg c w)) = w_db (snd (take_call (as_rate_call cfg (x_now w) c) (ticked w)))"
  by (auto simp: allow_call_def Allow_def Let_def andThen_def take_call_def as_rate_call_def
      allow_key_def clock_def ret_run split: prod.splits sum.splits)

lemma take_call_granted_wait:
  "TakeRateLimit k now cap rps ttl w = (Inr (True, wait), w1) \<Longrightarrow> wait = 0"
  by (drule TakeRateLimit_outcome) (auto simp: taken_def Let_def split: if_splits)

lemma allows_grants:
  "allows cfg k c w = call_grants k (as_rate_call cfg (x_now w) c) (ticked w)"
  by (auto simp: allows_def call_grants_def allow_call_def Allow_def Let_def andThen_def take_call_def
      as_rate_call_def allow_key_def clock_def ret_run dest: take_call_granted_wait
      split: prod.splits sum.splits)

interpretation allow: metered
  "\<lambda>w. funded k (l_capacity limit) (RefillPerSecond limit) w"
  "\<lambda>w. available k (l_capacity limit) (RefillPerSecond limit) (w_db w)"
  "\<lambda>c w. snd (allow_call cfg c w)" "allows cfg k" "\<lambda>c w. unix (x_now w)"
  "allow_fits cfg k limit" "RefillPerSecond limit"
  for k limit cfg
proof unfold_locales
  fix w :: "'z runtime_scheme" and c :: allow_call
  let ?c = "as_rate_call cfg (x_now w) c"
  let ?funded = "funded k (l_capacity limit) (RefillPerSecond limit)"
  assume "?funded w (unix (x_now w))" and "allow_fits cfg k limit c"
  then have good: "?funded (ticked w) (unix (rc_now ?c))"
    and fits: "call_fits k (l_capacity limit) (RefillPerSecond limit) ?c"
    by (simp_all add: funded_def run_simps as_rate_call_def call_fits_def allow_fits_def)
  show "?funded (snd (allow_call cfg c w)) (unix (x_now w))"
    using bucket.step_good [OF good fits]
    unfolding funded_def allow_call_db by (simp add: as_rate_call_def)
  show "available k (l_capacity limit) (RefillPerSecond limit) (w_db (snd (allow_call cfg c w))) (unix (x_now w))
      + (if allows cfg k c w then 1 else 0)
    \<le> available k (l_capacity limit) (RefillPerSecond limit) (w_db w) (unix (x_now w))"
    using bucket.pays [OF good fits]
    by (simp add: allow_call_db allows_grants as_rate_call_def run_simps)
qed (rule bucket.later bucket.flow bucket.nonneg; assumption)+

section \<open>The limits of the default configuration\<close>

lemma either_in: "x \<in> S \<Longrightarrow> y \<in> S \<Longrightarrow> (if b then x else y) \<in> S"
  by simp

lemma EndpointLimit_default:
  "EndpointLimit DefaultConfig route \<in> set [GlobalLimit DefaultConfig, RegisterLimit DefaultConfig,
     LoginLimit DefaultConfig, GroupCreateLimit DefaultConfig, ProfileUpdateLimit DefaultConfig,
     GroupJoinLimit DefaultConfig, MessageLimit DefaultConfig, SearchLimit DefaultConfig,
     HeavyLimit DefaultConfig]"
  unfolding EndpointLimit_def by (intro either_in) simp_all

lemma default_limits_fit:
  assumes "limit = EndpointLimit DefaultConfig route"
  shows "0 \<le> l_capacity limit" "0 < l_refill limit"
    "of_int (l_capacity limit) \<le> of_int (BucketTTL DefaultConfig div second) * RefillPerSecond limit"
proof -
  have "0 < l_refill limit \<and> 0 < l_capacity limit
      \<and> l_refill limit \<le> (BucketTTL DefaultConfig div second) * second"
    using EndpointLimit_default [of route] unfolding assms
    by (auto simp: DefaultConfig_def second_def)
  then show "0 \<le> l_capacity limit" "0 < l_refill limit"
    "of_int (l_capacity limit) \<le> of_int (BucketTTL DefaultConfig div second) * RefillPerSecond limit"
    using refill_within_ttl [of limit "BucketTTL DefaultConfig"] by simp_all
qed

text \<open>
  the limits of the routes hold end to end. Whatever requests reach the limiter, for any
  scopes and subjects, at any instants of a clock that does not run backwards and with any
  driver failures, a subject that is always checked against the limit of a route of the
  default configuration is allowed at most the capacity of that limit plus its share of the
  elapsed time.
\<close>

theorem Allow_bound:
  assumes "limit = EndpointLimit DefaultConfig route"
    and "distinct (map b_key (t_buckets (w_db w)))"
    and "row_with b_key (scope @ '':'' @ subject) (t_buckets (w_db w)) = None"
    and "list_all (\<lambda>c. if allow_key c = scope @ '':'' @ subject then ac_limit c = limit else True) cs"
    and "sorted (t # moments (\<lambda>c w. snd (allow_call DefaultConfig c w)) (\<lambda>c w. unix (x_now w)) cs w)"
  shows "of_int (grants_in (\<lambda>c w. snd (allow_call DefaultConfig c w))
           (allows DefaultConfig (scope @ '':'' @ subject)) cs w)
    \<le> of_int (l_capacity limit)
      + of_int (last (t # moments (\<lambda>c w. snd (allow_call DefaultConfig c w)) (\<lambda>c w. unix (x_now w)) cs w) - t)
        * (of_int (l_capacity limit) / Seconds (l_refill limit))"
proof -
  let ?k = "scope @ '':'' @ subject"
  have fits: "list_all (allow_fits DefaultConfig ?k limit) cs"
    using assms(4) default_limits_fit(3) [OF assms(1)] by (auto simp: list_all_iff allow_fits_def)
  have "funded ?k (l_capacity limit) (RefillPerSecond limit) w t"
    using default_limits_fit(1) [OF assms(1)] RefillPerSecond_pos [of limit] assms(2,3)
    by (simp add: funded_def sane_def)
  from allow.spent_bound [OF this assms(5) fits]
  have "of_int (grants_in (\<lambda>c w. snd (allow_call DefaultConfig c w)) (allows DefaultConfig ?k) cs w)
    \<le> of_int (l_capacity limit)
      + of_int (last (t # moments (\<lambda>c w. snd (allow_call DefaultConfig c w)) (\<lambda>c w. unix (x_now w)) cs w) - t)
        * RefillPerSecond limit"
    using assms(3) by (simp add: available_def)
  moreover have "l_capacity limit \<noteq> 0"
    using EndpointLimit_default [of route] unfolding assms(1) by (auto simp: DefaultConfig_def)
  ultimately show ?thesis
    using default_limits_fit(1,2) [OF assms(1)] by (simp add: RefillPerSecond_def)
qed

lemma Allow_bound_witness:
  "of_int (grants_in (\<lambda>c w. snd (allow_call DefaultConfig c w)) (allows DefaultConfig ''login:ip:1'')
      [\<lparr>ac_scope = ''login'', ac_subject = ''ip:1'', ac_limit = LoginLimit DefaultConfig\<rparr>]
      (started empty_db (5 * second) [])) \<le> (of_int 12 + of_int (5 - 0) * (of_int 12 / 900) :: rat)"
proof -
  let ?c = "\<lparr>ac_scope = ''login'', ac_subject = ''ip:1'', ac_limit = LoginLimit DefaultConfig\<rparr>"
  have "LoginLimit DefaultConfig = EndpointLimit DefaultConfig ''POST /v1/auth/login''"
    by (simp add: EndpointLimit_def)
  from Allow_bound [OF this, of "started empty_db (5 * second) []" "''login''" "''ip:1''" "[?c]" 0]
  show ?thesis
    by (simp add: started_def empty_db_def DefaultConfig_def Seconds_def)
qed

text \<open>
  with the default configuration the last step of the escalation forgets the key: a ban
  of the fourth level is never followed by another of that level before the key has climbed
  through the first three again.
\<close>

theorem DefaultConfig_forgets:
  assumes run: "NoteViolation key now (IPBanWindow DefaultConfig) (IPBanThreshold DefaultConfig)
      (IPBanSteps DefaultConfig) (IPBanEscalationForget DefaultConfig) w = (Inr (4, until), w1)"
    and "0 \<le> unix now2" "quiet w2" "t_bans (w_db w2) = t_bans (w_db w1)"
      "distinct (map ib_key (t_bans (w_db w2)))"
    and "unix until \<le> unix now2"
  shows "fst (NoteViolation key now2 (IPBanWindow DefaultConfig) (IPBanThreshold DefaultConfig)
      (IPBanSteps DefaultConfig) (IPBanEscalationForget DefaultConfig) w2) = Inr (0, zero_time)"
proof -
  have "in_seconds (24 * hour) = 86400" by simp
  then show ?thesis
    using violation_forgotten [of key now _ _ _ _ w until w1 now2 w2] assms
    by (simp add: DefaultConfig_def whole_seconds_def)
qed

lemma DefaultConfig_forgets_witness:
  "fst (NoteViolation ''ip:1'' (10 * second + 24 * hour) (IPBanWindow DefaultConfig)
     (IPBanThreshold DefaultConfig) (IPBanSteps DefaultConfig) (IPBanEscalationForget DefaultConfig)
     (running (ban_db [\<lparr>ib_key = ''ip:1'', ib_violations = 10, ib_window_start = 0,
       ib_until = 86410, ib_updated_at = 10, ib_ban_count = 4\<rparr>]))) = Inr (0, zero_time)"
proof -
  have "NoteViolation ''ip:1'' (10 * second) (IPBanWindow DefaultConfig)
     (IPBanThreshold DefaultConfig) (IPBanSteps DefaultConfig) (IPBanEscalationForget DefaultConfig)
     (running (ban_db [(hd ninth)\<lparr>ib_ban_count := 3\<rparr>])) =
   (Inr (4, of_unix 86410), running (ban_db [\<lparr>ib_key = ''ip:1'', ib_violations = 10,
     ib_window_start = 0, ib_until = 86410, ib_updated_at = 10, ib_ban_count = 4\<rparr>]))"
    by (simp add: ban_eval ninth_def DefaultConfig_def)
  then show ?thesis by (rule DefaultConfig_forgets) simp_all
qed

section \<open>Integrity\<close>

lemma limiter_keeps_wf [keeps_intros]:
  "keeps wf_db (Allow cfg scope subject limit)"
  "keeps wf_db (Limiter_NoteViolation cfg ip)"
  "keeps wf_db (NoteAccountViolation cfg userID)"
  "keeps wf_db (Banned ip)"
  unfolding Allow_def Limiter_NoteViolation_def NoteAccountViolation_def noteViolation_def
    Banned_def by (intro keeps_intros)+

end
