(* ===== verification/Model.thy ===== *)
theory Model
  imports Sql
begin

text \<open>
  \<^verbatim>\<open>model/model.go\<close>: the values the store hands to the services, one record per struct. A
  pointer field is an option; JSON tags are left out. With them the projections the queries
  of several components share: the public part of a user row and the members of a table.
\<close>

record security_state =
  CanManage :: bool
  Alert :: bool

record user =
  user_ID :: string
  Email :: string
  DisplayName :: string
  Avatar :: string
  user_CreatedAt :: time
  Security :: "security_state option"

record welcome_stats =
  Messages_count :: int
  NewUsers :: int
  NewGroups :: int

record session =
  session_ID :: string
  session_CreatedAt :: time
  LastSeenAt :: time
  Current :: bool

record member =
  member_ID :: string
  member_DisplayName :: string
  member_Avatar :: string
  JoinedAt :: time

record room =
  Code :: string
  room_Owner :: user
  room_CreatedAt :: time
  ExpiresAt :: time
  ParticipantCount :: int
  MaxParticipants :: int
  Members :: "member list"

record attachment =
  att_ID :: string
  MessageID :: string
  att_GroupID :: string
  OwnerID :: string
  att_Kind :: string
  Mime :: string
  att_Name :: string
  Size :: int
  Path :: string
  att_CreatedAt :: time
  att_ExpiresAt :: time

record message_reference =
  ref_ID :: string
  ref_Kind :: string
  ref_Event :: string
  ref_Author :: user
  ref_Body :: string

record group_message =
  msg_ID :: string
  msg_GroupID :: string
  Kind :: string
  Event :: string
  Author :: user
  Body :: string
  msg_CreatedAt :: time
  ReplyTo :: "message_reference option"
  Read :: bool
  Attachments :: "attachment list"

record group_voice_room =
  voice_ID :: string
  voice_GroupID :: string
  voice_Name :: string
  voice_CreatedAt :: time
  voice_ParticipantCount :: int

record group =
  group_ID :: string
  Visibility :: string
  Owner :: user
  Name :: string
  group_Avatar :: string
  InviteToken :: string
  group_CreatedAt :: time
  LastActivityAt :: time
  MemberCount :: int
  OnlineCount :: int
  LastMessage :: "group_message option"
  VoiceRooms :: "group_voice_room list"
  JoinBlocked :: bool
  JoinBlockedUntil :: "time option"
  HistoryVisibleFrom :: "time option"

record group_member =
  gmember :: member
  Role :: string

record attachment_delete_request =
  request_ID :: string
  request_UserID :: string
  request_CreatedAt :: time
  ExecuteAt :: time

record group_spam_warning =
  Reason :: string
  MessageCount :: int
  UserCount :: int
  warning_CreatedAt :: time

section \<open>Projections\<close>

definition no_user :: user where
  "no_user = \<lparr>user_ID = [], Email = [], DisplayName = [], Avatar = [], user_CreatedAt = zero_time,
     Security = None\<rparr>"

text \<open>The columns \<^verbatim>\<open>u.id, u.display_name, u.avatar\<close>, and with \<^verbatim>\<open>u.created_at\<close>.\<close>

definition named_user :: "user_row \<Rightarrow> user" where
  "named_user u = no_user\<lparr>user_ID := u_id u, DisplayName := u_display_name u, Avatar := u_avatar u\<rparr>"

definition dated_user :: "user_row \<Rightarrow> user" where
  "dated_user u = (named_user u)\<lparr>user_CreatedAt := of_unix (u_created_at u)\<rparr>"

definition full_user :: "user_row \<Rightarrow> user" where
  "full_user u = (dated_user u)\<lparr>Email := u_email u\<rparr>"

definition user_row_of :: "database \<Rightarrow> string \<Rightarrow> user_row option" where
  "user_row_of d i = row_with u_id i (t_users d)"

lemma user_fields [simp]:
  "user_ID (named_user u) = u_id u" "user_ID (dated_user u) = u_id u" "user_ID (full_user u) = u_id u"
  by (simp_all add: named_user_def dated_user_def full_user_def)

text \<open>\<^verbatim>\<open>ORDER BY\<close> with several keys: a stable sort by the tuple of keys.\<close>

definition order_by :: "('r \<Rightarrow> 'k :: linorder) \<Rightarrow> 'r list \<Rightarrow> 'r list" where
  "order_by key rows = sort_key key rows"

lemma set_order_by [simp]: "set (order_by key rows) = set rows"
  by (simp add: order_by_def)

lemma length_order_by [simp]: "length (order_by key rows) = length rows"
  by (simp add: order_by_def)

lemma sorted_order_by: "sorted (map key (order_by key rows))"
  by (simp add: order_by_def)

text \<open>\<^verbatim>\<open>ORDER BY ... LIMIT n\<close>: what is left out is no smaller than what is taken.\<close>

lemma limit_order_by:
  assumes "x \<in> set rows" "x \<notin> set (limit_rows n (order_by key rows))"
  shows "int (length (limit_rows n (order_by key rows))) = n"
    and "y \<in> set (limit_rows n (order_by key rows)) \<Longrightarrow> key y \<le> key x"
proof -
  let ?xs = "order_by key rows"
  have n: "0 \<le> n" and out: "x \<notin> set (take (nat n) ?xs)" and mem: "x \<in> set ?xs"
    using assms by (auto simp: limit_rows_def split: if_splits)
  have split: "?xs = take (nat n) ?xs @ drop (nat n) ?xs" by simp
  have inx: "x \<in> set (drop (nat n) ?xs)"
    using out mem set_append [of "take (nat n) ?xs" "drop (nat n) ?xs"] by simp
  then have "nat n < length ?xs" by (cases "nat n < length ?xs") auto
  then show "int (length (limit_rows n ?xs)) = n"
    using n by (simp add: limit_rows_def)
  have "sorted (map key (take (nat n) ?xs @ drop (nat n) ?xs))"
    using sorted_order_by [of key rows] split by simp
  then show "key y \<le> key x" if "y \<in> set (limit_rows n ?xs)"
    using that inx n unfolding map_append sorted_append by (auto simp: limit_rows_def)
qed

lemma distinct_limit_order_by:
  "distinct (map f rows) \<Longrightarrow> distinct (map f (limit_rows n (order_by key rows)))"
proof -
  assume "distinct (map f rows)"
  then have "distinct (map f (order_by key rows))"
    unfolding order_by_def by (simp add: distinct_map)
  then show ?thesis by (simp add: limit_rows_def take_map [symmetric])
qed

lemma sorted_limit_order_by: "sorted (map key (limit_rows n (order_by key rows)))"
  by (simp add: limit_rows_def order_by_def take_map [symmetric] sorted_wrt_take)

lemma in_limit_order_by: "y \<in> set (limit_rows n (order_by key rows)) \<Longrightarrow> y \<in> set rows"
  using set_limit_rows [of n "order_by key rows"] by auto

text \<open>An author, owner or member of a well-formed database has its row.\<close>

lemma user_row_exists:
  assumes "u \<in> u_id ` set (t_users d)"
  obtains r where "user_row_of d u = Some r" "u_id r = u"
  using assms row_with_None [of u_id u "t_users d"] row_with_SomeD [of u_id u "t_users d"]
  unfolding user_row_of_def by (cases "row_with u_id u (t_users d)") auto

lemma has_user_row: "has_user d i \<Longrightarrow> \<exists>r. user_row_of d i = Some r \<and> u_id r = i"
  unfolding has_user_iff by (metis user_row_exists)

end
