(* ===== verification/Rooms.thy ===== *)
theory Rooms
  imports Model
begin

text \<open>
  \<^verbatim>\<open>store/rooms/rooms.go\<close>: the temporary voice rooms. One definition per method of
  \<^verbatim>\<open>Repository\<close>; then the capacity, the owner's membership, the conditions of a deletion and
  the bookkeeping of empty rooms.
\<close>

section \<open>Operations\<close>

definition InsertRoom :: "string \<Rightarrow> string \<Rightarrow> time \<Rightarrow> duration \<Rightarrow> ('z, unit) dbm" where
  "InsertRoom code ownerID now ttl = transaction
     (andThen (map_error conflict_error (insert_into (insert_room_row
        \<lparr>r_code = code, r_owner_id = ownerID, r_created_at = unix now,
         r_expires_at = unix (now + ttl), r_empty_since_at = None\<rparr>))) (\<lambda>_.
      andThen (insert_into (insert_room_member
        \<lparr>rm_room_code = code, rm_user_id = ownerID, rm_joined_at = unix now\<rparr>)) (\<lambda>_.
      ret (Commit ()))))"

text \<open>The row \<^verbatim>\<open>rooms r JOIN users u ON u.id = r.owner_id WHERE r.code = ? AND r.expires_at > ?\<close>.\<close>

definition live_room :: "string \<Rightarrow> int \<Rightarrow> database \<Rightarrow> (room_row \<times> user_row) option" where
  "live_room code now d =
     (case row_with r_code code (t_rooms d) of
        None \<Rightarrow> None
      | Some r \<Rightarrow>
          if r_expires_at r > now
          then map_option (\<lambda>u. (r, u)) (user_row_of d (r_owner_id r))
          else None)"

definition room_member_rows :: "string \<Rightarrow> database \<Rightarrow> (room_member_row \<times> user_row) list" where
  "room_member_rows code d = List.map_filter
     (\<lambda>m. map_option (\<lambda>u. (m, u)) (user_row_of d (rm_user_id m)))
     (filter (\<lambda>m. rm_room_code m = code) (t_room_members d))"

definition as_member :: "room_member_row \<times> user_row \<Rightarrow> member" where
  "as_member p = (case p of (m, u) \<Rightarrow>
     \<lparr>member_ID = u_id u, member_DisplayName = u_display_name u, member_Avatar = u_avatar u,
      JoinedAt = of_unix (rm_joined_at m)\<rparr>)"

definition GetRoom :: "string \<Rightarrow> string \<Rightarrow> time \<Rightarrow> int \<Rightarrow> ('z, room) dbm" where
  "GetRoom code userID now maxMembers =
     andThen (select (\<lambda>d.
       case live_room code (unix now) d of
         None \<Rightarrow> None
       | Some (r, u) \<Rightarrow>
           if list_ex (\<lambda>m. rm_key m = (code, userID)) (t_room_members d)
           then Some (r, u, int (length (room_member_rows code d)))
           else None)) (\<lambda>found.
     case found of
       None \<Rightarrow> raise ErrNotFound
     | Some (r, u, n) \<Rightarrow>
         andThen (select (\<lambda>d.
           map as_member (order_by (\<lambda>p. (rm_joined_at (fst p), u_id (snd p))) (room_member_rows code d)))) (\<lambda>members.
         ret \<lparr>Code = r_code r, room_Owner = dated_user u, room_CreatedAt = of_unix (r_created_at r),
              ExpiresAt = of_unix (r_expires_at r), ParticipantCount = n, MaxParticipants = maxMembers,
              Members = members\<rparr>))"

definition mark_occupied :: "string \<Rightarrow> database \<Rightarrow> database" where
  "mark_occupied code d = d\<lparr>t_rooms :=
     update_where (\<lambda>r. r_code r = code) (\<lambda>r. r\<lparr>r_empty_since_at := None\<rparr>) (t_rooms d)\<rparr>"

definition mark_empty :: "string \<Rightarrow> int \<Rightarrow> database \<Rightarrow> database" where
  "mark_empty code now d = d\<lparr>t_rooms :=
     update_where (\<lambda>r. r_code r = code) (\<lambda>r. r\<lparr>r_empty_since_at := Some now\<rparr>) (t_rooms d)\<rparr>"

definition in_room :: "string \<Rightarrow> database \<Rightarrow> int" where
  "in_room code d = count_rows (\<lambda>m. rm_room_code m = code) (t_room_members d)"

definition JoinRoom :: "string \<Rightarrow> string \<Rightarrow> time \<Rightarrow> int \<Rightarrow> ('z, room) dbm" where
  "JoinRoom code userID now maxMembers =
     andThen (transaction
      (andThen (select (live_room code (unix now))) (\<lambda>found.
       if found = None then raise ErrNotFound
       else
       andThen (select (\<lambda>d. count_rows (\<lambda>m. rm_key m = (code, userID)) (t_room_members d))) (\<lambda>memberExists.
       andThen
         (if memberExists = 0 then
            andThen (select (in_room code)) (\<lambda>count.
            if count \<ge> maxMembers then raise ErrRoomFull
            else map_error conflict_error (insert_into (insert_room_member
              \<lparr>rm_room_code = code, rm_user_id = userID, rm_joined_at = unix now\<rparr>)))
          else ret ()) (\<lambda>_.
       andThen (exec (mark_occupied code)) (\<lambda>_.
       ret (Commit ())))))))
     (\<lambda>_. GetRoom code userID now maxMembers)"

definition leave_rows :: "string \<Rightarrow> string \<Rightarrow> int \<Rightarrow> database \<Rightarrow> int \<times> database" where
  "leave_rows code userID now d =
     (let live = list_ex (\<lambda>r. r_code r = code \<and> r_expires_at r > now) (t_rooms d);
          leaving = (\<lambda>m. rm_key m = (code, userID) \<and> live) in
      (count_rows leaving (t_room_members d),
       d\<lparr>t_room_members := filter (\<lambda>m. \<not> leaving m) (t_room_members d)\<rparr>))"

definition LeaveRoom :: "string \<Rightarrow> string \<Rightarrow> time \<Rightarrow> ('z, unit) dbm" where
  "LeaveRoom code userID now = transaction
     (andThen (exec_count (leave_rows code userID (unix now))) (\<lambda>affected.
      andThen
        (if affected = 0 then
           andThen (select (\<lambda>d.
             count_rows (\<lambda>r. r_code r = code \<and> r_expires_at r > unix now) (t_rooms d))) (\<lambda>live.
           if live = 0 then raise ErrNotFound else ret ())
         else ret ()) (\<lambda>_.
      andThen (select (in_room code)) (\<lambda>members.
      andThen (if members = 0 then exec (mark_empty code (unix now)) else ret ()) (\<lambda>_.
      ret (Commit ()))))))"

text \<open>\<open>terminate\<close> is the callback that ends the call at the gateway; it runs inside the transaction.\<close>

definition DeleteRoom ::
  "string \<Rightarrow> string \<Rightarrow> time \<Rightarrow> ('z, unit) dbm \<Rightarrow> ('z, unit) dbm" where
  "DeleteRoom code userID now terminate = transaction
     (andThen (select (\<lambda>d. map_option r_owner_id
        (find (\<lambda>r. r_code r = code \<and> r_expires_at r > unix now) (t_rooms d)))) (\<lambda>found.
      case found of
        None \<Rightarrow> raise ErrNotFound
      | Some ownerID \<Rightarrow>
          if ownerID \<noteq> userID then raise ErrForbidden
          else
          andThen terminate (\<lambda>_.
          andThen (exec (delete_rooms (\<lambda>r. r_code r = code))) (\<lambda>_.
          ret (Commit ())))))"

definition ExpiredRoomCodes :: "time \<Rightarrow> ('z, string list) dbm" where
  "ExpiredRoomCodes now =
     select (\<lambda>d. map r_code (filter (\<lambda>r. r_expires_at r \<le> unix now) (t_rooms d)))"

definition empty_since :: "int \<Rightarrow> room_row \<Rightarrow> bool" where
  "empty_since cutoff r = (case r_empty_since_at r of None \<Rightarrow> False | Some t \<Rightarrow> t \<le> cutoff)"

definition EmptyRoomCodes :: "time \<Rightarrow> ('z, string list) dbm" where
  "EmptyRoomCodes cutoff =
     select (\<lambda>d. map r_code (filter (empty_since (unix cutoff)) (t_rooms d)))"

definition DeleteEmptyRoom :: "string \<Rightarrow> time \<Rightarrow> ('z, unit) dbm" where
  "DeleteEmptyRoom code cutoff =
     exec (delete_rooms (\<lambda>r. r_code r = code \<and> empty_since (unix cutoff) r))"

definition DeleteExpiredRoom :: "string \<Rightarrow> time \<Rightarrow> ('z, unit) dbm" where
  "DeleteExpiredRoom code now =
     exec (delete_rooms (\<lambda>r. r_code r = code \<and> r_expires_at r \<le> unix now))"

section \<open>Specifications\<close>

text \<open>What each operation does to the tables: an error, or a result and the new tables.\<close>

definition create_room :: "string \<Rightarrow> string \<Rightarrow> time \<Rightarrow> duration \<Rightarrow> database \<Rightarrow> store_error + unit \<times> database" where
  "create_room code ownerID now ttl d =
     (case insert_room_row \<lparr>r_code = code, r_owner_id = ownerID, r_created_at = unix now,
             r_expires_at = unix (now + ttl), r_empty_since_at = None\<rparr> d of
        None \<Rightarrow> Inl ErrConflict
      | Some d1 \<Rightarrow>
          (case insert_room_member \<lparr>rm_room_code = code, rm_user_id = ownerID, rm_joined_at = unix now\<rparr> d1 of
             None \<Rightarrow> Inl (ErrDB SqlConstraint)
           | Some d2 \<Rightarrow> Inr ((), d2)))"

definition member_of :: "string \<Rightarrow> string \<Rightarrow> database \<Rightarrow> bool" where
  "member_of code userID d \<longleftrightarrow> list_ex (\<lambda>m. rm_key m = (code, userID)) (t_room_members d)"

definition enter_room :: "string \<Rightarrow> string \<Rightarrow> time \<Rightarrow> int \<Rightarrow> database \<Rightarrow> store_error + unit \<times> database" where
  "enter_room code userID now maxMembers d =
     (if live_room code (unix now) d = None then Inl ErrNotFound
      else if member_of code userID d then Inr ((), mark_occupied code d)
      else if in_room code d \<ge> maxMembers then Inl ErrRoomFull
      else
        (case insert_room_member
            \<lparr>rm_room_code = code, rm_user_id = userID, rm_joined_at = unix now\<rparr> d of
           None \<Rightarrow> Inl ErrConflict
         | Some d' \<Rightarrow> Inr ((), mark_occupied code d')))"

definition without_member :: "string \<Rightarrow> string \<Rightarrow> database \<Rightarrow> database" where
  "without_member code userID d =
     d\<lparr>t_room_members := filter (\<lambda>m. rm_key m \<noteq> (code, userID)) (t_room_members d)\<rparr>"

definition quit_room :: "string \<Rightarrow> string \<Rightarrow> time \<Rightarrow> database \<Rightarrow> store_error + unit \<times> database" where
  "quit_room code userID now d =
     (if \<not> list_ex (\<lambda>r. r_code r = code \<and> r_expires_at r > unix now) (t_rooms d) then Inl ErrNotFound
      else
        let d1 = without_member code userID d in
        Inr ((), if in_room code d1 = 0 then mark_empty code (unix now) d1 else d1))"

section \<open>The operations implement them\<close>

lemma member_of_count:
  "count_rows (\<lambda>m. rm_room_code m = code \<and> rm_user_id m = userID) (t_room_members d) = 0
   \<longleftrightarrow> \<not> member_of code userID d"
  by (auto simp: count_rows_0 member_of_def list_ex_iff)

text \<open>The transaction of \<^verbatim>\<open>JoinRoom\<close>, which reads the room back after it.\<close>

definition enter_tx :: "string \<Rightarrow> string \<Rightarrow> time \<Rightarrow> int \<Rightarrow> ('z, unit) dbm" where
  "enter_tx code userID now maxMembers = transaction
      (andThen (select (live_room code (unix now))) (\<lambda>found.
       if found = None then raise ErrNotFound
       else
       andThen (select (\<lambda>d. count_rows (\<lambda>m. rm_key m = (code, userID)) (t_room_members d))) (\<lambda>memberExists.
       andThen
         (if memberExists = 0 then
            andThen (select (in_room code)) (\<lambda>count.
            if count \<ge> maxMembers then raise ErrRoomFull
            else map_error conflict_error (insert_into (insert_room_member
              \<lparr>rm_room_code = code, rm_user_id = userID, rm_joined_at = unix now\<rparr>)))
          else ret ()) (\<lambda>_.
       andThen (exec (mark_occupied code)) (\<lambda>_.
       ret (Commit ()))))))"

lemma JoinRoom_alt:
  "JoinRoom code userID now maxMembers =
     andThen (enter_tx code userID now maxMembers) (\<lambda>_. GetRoom code userID now maxMembers)"
  by (simp add: JoinRoom_def enter_tx_def)

interpretation InsertRoom: implementation "InsertRoom code ownerID now ttl" "create_room code ownerID now ttl"
  for code ownerID now ttl
proof
  show "strict (InsertRoom code ownerID now ttl)"
    unfolding InsertRoom_def by (intro strict_intros)
  show "atomic (InsertRoom code ownerID now ttl)"
    unfolding InsertRoom_def by (rule atomic_transaction)
  show "InsertRoom code ownerID now ttl w = as_specified (create_room code ownerID now ttl) w"
    if "quiet w" for w :: "'z world_scheme"
    using that by (simp add: InsertRoom_def create_room_def as_specified_def transaction_quiet
        run_simps conflict_error_def isConstraint_def split: option.split)
qed

interpretation enter: implementation "enter_tx code userID now maxMembers" "enter_room code userID now maxMembers"
  for code userID now maxMembers
proof
  show "strict (enter_tx code userID now maxMembers)"
    unfolding enter_tx_def by (intro strict_intros)
  show "atomic (enter_tx code userID now maxMembers)"
    unfolding enter_tx_def by (rule atomic_transaction)
  show "enter_tx code userID now maxMembers w = as_specified (enter_room code userID now maxMembers) w"
    if "quiet w" for w :: "'z world_scheme"
    using that by (cases "insert_room_member \<lparr>rm_room_code = code, rm_user_id = userID,
        rm_joined_at = unix now\<rparr> (w_db w)")
      (auto simp: enter_tx_def enter_room_def as_specified_def transaction_quiet run_simps
        member_of_count conflict_error_def isConstraint_def)
qed

lemma leave_rows_live:
  "list_ex (\<lambda>r. r_code r = code \<and> r_expires_at r > now) (t_rooms d) \<Longrightarrow>
   snd (leave_rows code userID now d) = without_member code userID d"
  by (simp only: leave_rows_def Let_def snd_conv simp_thms without_member_def)

lemma leave_rows_dead:
  "\<not> list_ex (\<lambda>r. r_code r = code \<and> r_expires_at r > now) (t_rooms d) \<Longrightarrow>
   leave_rows code userID now d = (0, d)"
  by (simp add: leave_rows_def Let_def count_rows_def)

lemma live_count:
  "count_rows (\<lambda>r. r_code r = code \<and> now < r_expires_at r) rs = 0 \<longleftrightarrow>
   \<not> list_ex (\<lambda>r. r_code r = code \<and> now < r_expires_at r) rs"
  by (auto simp: count_rows_0 list_ex_iff)

interpretation LeaveRoom: implementation "LeaveRoom code userID now" "quit_room code userID now"
  for code userID now
proof
  show "strict (LeaveRoom code userID now)"
    unfolding LeaveRoom_def by (intro strict_intros)
  show "atomic (LeaveRoom code userID now)"
    unfolding LeaveRoom_def by (rule atomic_transaction)
  show "LeaveRoom code userID now w = as_specified (quit_room code userID now) w"
    if "quiet w" for w :: "'z world_scheme"
  proof (cases "list_ex (\<lambda>r. r_code r = code \<and> r_expires_at r > unix now) (t_rooms (w_db w))")
    case True
    have rows: "t_rooms (without_member code userID d) = t_rooms d" for d
      by (simp add: without_member_def)
    from that True show ?thesis
      by (simp add: LeaveRoom_def quit_room_def as_specified_def Let_def transaction_quiet run_simps
          leave_rows_live rows live_count)
  next
    case False
    with that show ?thesis
      by (simp add: LeaveRoom_def quit_room_def as_specified_def Let_def transaction_quiet run_simps
          leave_rows_dead live_count)
  qed
qed

section \<open>Counting members\<close>

lemma in_room_simps [simp]:
  "in_room c (mark_occupied code d) = in_room c d"
  "in_room c (mark_empty code now d) = in_room c d"
  "in_room c (d\<lparr>t_rooms := rs\<rparr>) = in_room c d"
  by (simp_all add: in_room_def mark_occupied_def mark_empty_def)

lemma insert_room_member_Some:
  "insert_room_member m d = Some d' \<longleftrightarrow>
     \<not> member_of (rm_room_code m) (rm_user_id m) d \<and> list_ex (\<lambda>r. r_code r = rm_room_code m) (t_rooms d)
     \<and> has_user d (rm_user_id m) \<and> d' = d\<lparr>t_room_members := t_room_members d @ [m]\<rparr>"
  by (auto simp: insert_room_member_def member_of_def list_all_iff list_ex_iff)

lemma insert_room_row_Some:
  "insert_room_row r d = Some d' \<longleftrightarrow>
     r_code r \<notin> r_code ` set (t_rooms d) \<and> has_user d (r_owner_id r)
     \<and> d' = d\<lparr>t_rooms := t_rooms d @ [r]\<rparr>"
  by (auto simp: insert_room_row_def list_all_fresh)

lemma in_room_insert:
  "in_room c (d\<lparr>t_room_members := t_room_members d @ [m]\<rparr>) =
     in_room c d + (if rm_room_code m = c then 1 else 0)"
  by (simp add: in_room_def)

lemma in_room_le_without: "in_room c (without_member code userID d) \<le> in_room c d"
  by (simp add: in_room_def without_member_def count_rows_filter_le)

lemma in_room_le_delete: "in_room c (delete_rooms P d) \<le> in_room c d"
  by (simp add: in_room_def delete_rooms_def Let_def count_rows_filter_le)

lemma in_room_nonneg [simp]: "0 \<le> in_room c d"
  by (simp add: in_room_def)

lemma in_room_no_room:
  assumes "wf_db d" "code \<notin> r_code ` set (t_rooms d)"
  shows "in_room code d = 0"
  using assms by (auto simp: in_room_def count_rows_0 wf_db_def references_ok_def refs_def)

lemma live_room_Some:
  "live_room code now d = Some (r, u) \<Longrightarrow>
     r \<in> set (t_rooms d) \<and> r_code r = code \<and> now < r_expires_at r \<and>
     u \<in> set (t_users d) \<and> u_id u = r_owner_id r"
  by (auto simp: live_room_def user_row_of_def dest!: row_with_SomeD split: option.splits if_splits)

section \<open>Invariants of the rooms\<close>

text \<open>
  No room holds more members than the limit, and a room that is marked empty has none: the
  cleanup of empty rooms never ends a call somebody is in.
\<close>

definition rooms_ok :: "int \<Rightarrow> database \<Rightarrow> bool" where
  "rooms_ok maxMembers d \<longleftrightarrow>
     (\<forall>r \<in> set (t_rooms d). in_room (r_code r) d \<le> maxMembers
        \<and> (r_empty_since_at r \<noteq> None \<longrightarrow> in_room (r_code r) d = 0))"

lemma mark_occupied_ok:
  assumes "\<forall>r \<in> set (t_rooms d). in_room (r_code r) d \<le> maxMembers
        \<and> (r_code r \<noteq> code \<longrightarrow> r_empty_since_at r \<noteq> None \<longrightarrow> in_room (r_code r) d = 0)"
  shows "rooms_ok maxMembers (mark_occupied code d)"
proof -
  have "rooms_ok maxMembers (mark_occupied code d) \<longleftrightarrow>
    (\<forall>r \<in> set (t_rooms (mark_occupied code d)). in_room (r_code r) d \<le> maxMembers
        \<and> (r_empty_since_at r \<noteq> None \<longrightarrow> in_room (r_code r) d = 0))"
    by (simp add: rooms_ok_def)
  also have "\<dots>"
    using assms unfolding mark_occupied_def by simp (rule update_where_all; force)
  finally show ?thesis .
qed

lemma create_room_ok:
  assumes "wf_db d" "rooms_ok maxMembers d" "1 \<le> maxMembers"
    and run: "create_room code ownerID now ttl d = Inr (x, d')"
  shows "wf_db d' \<and> rooms_ok maxMembers d'"
proof -
  let ?r = "\<lparr>r_code = code, r_owner_id = ownerID, r_created_at = unix now,
             r_expires_at = unix (now + ttl), r_empty_since_at = None\<rparr>"
  let ?m = "\<lparr>rm_room_code = code, rm_user_id = ownerID, rm_joined_at = unix now\<rparr>"
  obtain d1 where d1: "insert_room_row ?r d = Some d1" and d2: "insert_room_member ?m d1 = Some d'"
    using run by (auto simp: create_room_def split: option.splits)
  have "wf_db d'" using insert_room_member_wf [OF insert_room_row_wf [OF assms(1) d1] d2] .
  moreover have fresh: "code \<notin> r_code ` set (t_rooms d)" and
    d': "d' = d\<lparr>t_rooms := t_rooms d @ [?r], t_room_members := t_room_members d @ [?m]\<rparr>"
    using d1 d2 by (auto simp: insert_room_row_Some insert_room_member_Some)
  have "in_room c d' = in_room c d + (if c = code then 1 else 0)" for c
    by (simp add: d' in_room_def)
  then have "rooms_ok maxMembers d'"
    using assms(2,3) in_room_no_room [OF assms(1) fresh] fresh
    by (auto simp: rooms_ok_def d' image_iff)
  ultimately show ?thesis by simp
qed

lemma enter_room_ok:
  assumes "wf_db d" "rooms_ok maxMembers d"
    and run: "enter_room code userID now maxMembers d = Inr (x, d')"
  shows "wf_db d' \<and> rooms_ok maxMembers d'"
proof -
  have wf: "wf_db (mark_occupied code e)" if "wf_db e" for e
    using that unfolding mark_occupied_def by (rule update_rooms_wf) auto
  consider (inside) "d' = mark_occupied code d"
    | (fresh) d1 where "in_room code d < maxMembers" "d' = mark_occupied code d1"
      "insert_room_member \<lparr>rm_room_code = code, rm_user_id = userID, rm_joined_at = unix now\<rparr> d = Some d1"
    using run by (auto simp: enter_room_def split: if_splits option.splits)
  then show ?thesis
  proof cases
    case inside
    then show ?thesis using assms wf mark_occupied_ok [of d maxMembers code] by (auto simp: rooms_ok_def)
  next
    case fresh
    then have d1: "t_rooms d1 = t_rooms d" "in_room c d1 = in_room c d + (if code = c then 1 else 0)" for c
      by (auto simp: insert_room_member_Some in_room_insert)
    have "wf_db d1" using fresh assms insert_room_member_wf by blast
    moreover have "rooms_ok maxMembers (mark_occupied code d1)"
      using assms(2) fresh by (intro mark_occupied_ok) (auto simp: d1 rooms_ok_def)
    ultimately show ?thesis using wf fresh by simp
  qed
qed

lemma quit_room_ok:
  assumes "wf_db d" "rooms_ok maxMembers d"
    and run: "quit_room code userID now d = Inr (x, d')"
  shows "wf_db d' \<and> rooms_ok maxMembers d'"
proof -
  let ?d1 = "without_member code userID d"
  have wf1: "wf_db ?d1" unfolding without_member_def using assms(1) by (rule filter_leaf_wf)
  have le: "in_room c ?d1 \<le> in_room c d" "0 \<le> in_room c ?d1" for c
    by (simp_all add: in_room_le_without)
  have rooms: "t_rooms ?d1 = t_rooms d" by (simp add: without_member_def)
  have ok1: "rooms_ok maxMembers ?d1"
    unfolding rooms_ok_def rooms
  proof (intro ballI conjI impI)
    fix r assume r: "r \<in> set (t_rooms d)"
    then show "in_room (r_code r) ?d1 \<le> maxMembers"
      using assms(2) le [of "r_code r"] by (force simp: rooms_ok_def)
    show "in_room (r_code r) ?d1 = 0" if "r_empty_since_at r \<noteq> None"
      using assms(2) r that le [of "r_code r"] by (force simp: rooms_ok_def)
  qed
  have "rooms_ok maxMembers (mark_empty code (unix now) ?d1)" if "in_room code ?d1 = 0"
  proof -
    have "\<forall>r \<in> set (t_rooms (mark_empty code (unix now) ?d1)). in_room (r_code r) ?d1 \<le> maxMembers
        \<and> (r_empty_since_at r \<noteq> None \<longrightarrow> in_room (r_code r) ?d1 = 0)"
      using ok1 that unfolding rooms_ok_def mark_empty_def
      by simp (rule update_where_all; force)
    then show ?thesis by (simp add: rooms_ok_def)
  qed
  moreover have "wf_db (mark_empty code (unix now) ?d1)"
    unfolding mark_empty_def using wf1 by (rule update_rooms_wf) auto
  ultimately show ?thesis
    using run wf1 ok1 by (auto simp: quit_room_def Let_def split: if_splits)
qed

lemma delete_rooms_ok:
  assumes "rooms_ok maxMembers d"
  shows "rooms_ok maxMembers (delete_rooms P d)"
  unfolding rooms_ok_def t_rooms_delete_rooms
proof (intro ballI conjI impI)
  fix r assume r: "r \<in> set (filter (\<lambda>r. \<not> P r) (t_rooms d))"
  have le: "in_room (r_code r) (delete_rooms P d) \<le> in_room (r_code r) d"
    "0 \<le> in_room (r_code r) (delete_rooms P d)"
    by (simp_all add: in_room_le_delete)
  then show "in_room (r_code r) (delete_rooms P d) \<le> maxMembers"
    using assms r by (force simp: rooms_ok_def)
  show "in_room (r_code r) (delete_rooms P d) = 0" if "r_empty_since_at r \<noteq> None"
    using assms r that le by (force simp: rooms_ok_def)
qed

lemma GetRoom_keeps [keeps_intros]: "keeps I (GetRoom code userID now maxMembers)"
  unfolding GetRoom_def by (intro keeps_intros)

lemma rooms_keep [keeps_intros]:
  fixes maxMembers :: int
  defines "I \<equiv> \<lambda>d. wf_db d \<and> rooms_ok maxMembers d"
  shows "1 \<le> maxMembers \<Longrightarrow> keeps I (InsertRoom code userID now ttl)"
    and "keeps I (JoinRoom code userID now maxMembers)"
    and "keeps I (LeaveRoom code userID now)"
    and "keeps I terminate \<Longrightarrow> keeps I (DeleteRoom code userID now terminate)"
    and "keeps I (DeleteEmptyRoom code cutoff)"
    and "keeps I (DeleteExpiredRoom code now)"
proof -
  show "1 \<le> maxMembers \<Longrightarrow> keeps I (InsertRoom code userID now ttl)"
    unfolding I_def by (rule InsertRoom.preserves) (rule create_room_ok; simp)
  have "keeps I (enter_tx code userID now maxMembers)"
    unfolding I_def by (rule enter.preserves) (rule enter_room_ok; simp)
  then show "keeps I (JoinRoom code userID now maxMembers)"
    unfolding JoinRoom_alt by (intro keeps_intros)
  show "keeps I (LeaveRoom code userID now)"
    unfolding I_def by (rule LeaveRoom.preserves) (rule quit_room_ok; simp)
  show "keeps I (DeleteRoom code userID now terminate)" if "keeps I terminate"
    using that unfolding DeleteRoom_def I_def
    by (intro keeps_intros) (auto intro: delete_rooms_wf delete_rooms_ok)
  show "keeps I (DeleteEmptyRoom code cutoff)" "keeps I (DeleteExpiredRoom code now)"
    unfolding DeleteEmptyRoom_def DeleteExpiredRoom_def I_def
    by (intro keeps_intros; auto intro: delete_rooms_wf delete_rooms_ok)+
qed

section \<open>Creating, joining, leaving, deleting\<close>

lemma GetRoom_quiet:
  assumes "quiet w"
  shows "GetRoom code userID now maxMembers w =
    (case live_room code (unix now) (w_db w) of
       None \<Rightarrow> (Inl ErrNotFound, w)
     | Some (r, u) \<Rightarrow>
         if member_of code userID (w_db w)
         then (Inr \<lparr>Code = r_code r, room_Owner = dated_user u, room_CreatedAt = of_unix (r_created_at r),
                ExpiresAt = of_unix (r_expires_at r),
                ParticipantCount = int (length (room_member_rows code (w_db w))),
                MaxParticipants = maxMembers,
                Members = map as_member (order_by (\<lambda>p. (rm_joined_at (fst p), u_id (snd p)))
                  (room_member_rows code (w_db w)))\<rparr>, w)
         else (Inl ErrNotFound, w))"
  using assms by (auto simp: GetRoom_def run_simps member_of_def split: option.split prod.split)

lemma room_member_rows_snoc:
  "row_with u_id (rm_user_id m) us = Some u \<Longrightarrow> t_users d = us \<Longrightarrow>
   room_member_rows code (d\<lparr>t_room_members := ms @ [m]\<rparr>) =
     room_member_rows code (d\<lparr>t_room_members := ms\<rparr>) @ (if rm_room_code m = code then [(m, u)] else [])"
  by (simp add: room_member_rows_def map_filter_def user_row_of_def)

lemma room_member_rows_none:
  "in_room code d = 0 \<Longrightarrow> room_member_rows code d = []"
  by (auto simp: in_room_def count_rows_0 room_member_rows_def map_filter_def filter_empty_conv)

text \<open>
  a room that was created is there for its owner: until it expires, \<^verbatim>\<open>GetRoom\<close> returns
  it with the code, the owner, the expiry, and the owner as its only participant.
\<close>

theorem InsertRoom_GetRoom:
  assumes wf: "wf_db (w_db w)" and run: "InsertRoom code ownerID now ttl w = (Inr (), w1)"
    and "quiet w1" and live: "unix now2 < unix (now + ttl)"
  shows "\<exists>r. fst (GetRoom code ownerID now2 maxMembers w1) = Inr r \<and> Code r = code \<and>
    user_ID (room_Owner r) = ownerID \<and> ExpiresAt r = of_unix (unix (now + ttl)) \<and>
    ParticipantCount r = 1 \<and> map member_ID (Members r) = [ownerID]"
proof -
  let ?r = "\<lparr>r_code = code, r_owner_id = ownerID, r_created_at = unix now,
             r_expires_at = unix (now + ttl), r_empty_since_at = None\<rparr>"
  let ?m = "\<lparr>rm_room_code = code, rm_user_id = ownerID, rm_joined_at = unix now\<rparr>"
  let ?d = "w_db w"
  have "create_room code ownerID now ttl ?d = Inr ((), w_db w1)"
    by (rule InsertRoom.outcome [OF run])
  then obtain d1 where d1: "insert_room_row ?r ?d = Some d1" and d2: "insert_room_member ?m d1 = Some (w_db w1)"
    by (auto simp: create_room_def split: option.splits)
  then have fresh: "code \<notin> r_code ` set (t_rooms ?d)" and owner: "has_user ?d ownerID"
    and d': "w_db w1 = ?d\<lparr>t_rooms := t_rooms ?d @ [?r], t_room_members := t_room_members ?d @ [?m]\<rparr>"
    by (auto simp: insert_room_row_Some insert_room_member_Some)
  obtain u where u: "row_with u_id ownerID (t_users ?d) = Some u" "u_id u = ownerID"
    using owner row_with_None [of u_id ownerID "t_users ?d"]
    by (cases "row_with u_id ownerID (t_users ?d)") (auto simp: has_user_iff dest: row_with_SomeD)
  have "row_with r_code code (t_rooms ?d) = None" using fresh by (simp add: row_with_None)
  then have live_row: "live_room code (unix now2) (w_db w1) = Some (?r, u)"
    using live u by (simp add: d' live_room_def user_row_of_def)
  have mem: "member_of code ownerID (w_db w1)" by (simp add: d' member_of_def)
  have "in_room code (?d\<lparr>t_rooms := t_rooms ?d @ [?r]\<rparr>) = 0"
    using in_room_no_room [OF wf fresh] by simp
  then have "room_member_rows code (w_db w1) = [(?m, u)]"
    using room_member_rows_none [of code "?d\<lparr>t_rooms := t_rooms ?d @ [?r]\<rparr>"] u
    by (simp add: d' room_member_rows_snoc [where us = "t_users ?d"])
  then show ?thesis
    using GetRoom_quiet [OF \<open>quiet w1\<close>] live_row mem u by (simp add: as_member_def order_by_def)
qed

lemma mark_occupied_clears:
  "\<forall>row \<in> set (t_rooms (mark_occupied code d)). r_code row = code \<longrightarrow> r_empty_since_at row = None"
  unfolding mark_occupied_def by simp (rule update_where_all; simp)

lemma mark_occupied_fields:
  "t_room_members (mark_occupied code d) = t_room_members d"
  "member_of c u (mark_occupied code d) = member_of c u d"
  by (simp_all add: mark_occupied_def member_of_def)

text \<open>
  C32: whoever \<^verbatim>\<open>JoinRoom\<close> lets in is a member, of a room that has not expired, had a place
  left for a new member and is no longer marked empty; nobody else's membership changes.
\<close>

theorem JoinRoom_admits:
  assumes run: "JoinRoom code userID now maxMembers w = (Inr r, w1)"
  shows "member_of code userID (w_db w1) \<and>
    live_room code (unix now) (w_db w) \<noteq> None \<and>
    (member_of code userID (w_db w) \<or> in_room code (w_db w) < maxMembers) \<and>
    (\<forall>row \<in> set (t_rooms (w_db w1)). r_code row = code \<longrightarrow> r_empty_since_at row = None) \<and>
    filter (\<lambda>m. rm_key m \<noteq> (code, userID)) (t_room_members (w_db w1)) =
      filter (\<lambda>m. rm_key m \<noteq> (code, userID)) (t_room_members (w_db w))"
proof -
  obtain w0 where enter: "enter_tx code userID now maxMembers w = (Inr (), w0)"
    and get: "GetRoom code userID now maxMembers w0 = (Inr r, w1)"
    using run unfolding JoinRoom_alt by (elim andThen_InrE) simp
  have "w_db w1 = w_db w0"
    using keeps_resultD [OF GetRoom_keeps [where I = "\<lambda>d. d = w_db w0"] get] by simp
  then have spec: "enter_room code userID now maxMembers (w_db w) = Inr ((), w_db w1)"
    using enter.outcome [OF enter] by simp
  then have live: "live_room code (unix now) (w_db w) \<noteq> None"
    by (auto simp only: enter_room_def if_True sum.distinct split: if_splits)
  show ?thesis
  proof (cases "member_of code userID (w_db w)")
    case True
    then have "enter_room code userID now maxMembers (w_db w) = Inr ((), mark_occupied code (w_db w))"
      using live by (simp add: enter_room_def)
    then have db: "w_db w1 = mark_occupied code (w_db w)"
      unfolding spec by simp
    show ?thesis unfolding db using True live by (simp add: mark_occupied_fields mark_occupied_clears)
  next
    case False
    let ?m = "\<lparr>rm_room_code = code, rm_user_id = userID, rm_joined_at = unix now\<rparr>"
    from False have place: "in_room code (w_db w) < maxMembers"
      using spec live by (auto simp: enter_room_def split: if_splits)
    then obtain d1 where "insert_room_member ?m (w_db w) = Some d1" and d1: "w_db w1 = mark_occupied code d1"
      using spec live False by (cases "insert_room_member ?m (w_db w)") (simp_all add: enter_room_def)
    then have d1': "t_room_members d1 = t_room_members (w_db w) @ [?m]"
      by (simp add: insert_room_member_Some)
    show ?thesis unfolding d1 using live place
      by (simp add: mark_occupied_fields mark_occupied_clears d1' member_of_def [of _ _ d1])
  qed
qed

text \<open>
  the errors of \<^verbatim>\<open>JoinRoom\<close>: without failures of the driver a room that is missing or has
  expired is reported as not found, and a full one as full to everyone who is not in it yet.
\<close>

theorem JoinRoom_refuses:
  assumes "quiet w"
  shows "(live_room code (unix now) (w_db w) = None \<longrightarrow>
      JoinRoom code userID now maxMembers w = (Inl ErrNotFound, w)) \<and>
    (live_room code (unix now) (w_db w) \<noteq> None \<and> \<not> member_of code userID (w_db w) \<and>
       maxMembers \<le> in_room code (w_db w) \<longrightarrow>
      JoinRoom code userID now maxMembers w = (Inl ErrRoomFull, w))"
  using assms by (auto simp: JoinRoom_alt run_simps enter.quiet_run as_specified_def enter_room_def)

text \<open>
  \<^verbatim>\<open>LeaveRoom\<close> removes exactly the caller's membership and marks the room empty exactly
  when nobody is left.
\<close>

theorem LeaveRoom_removes:
  assumes run: "LeaveRoom code userID now w = (Inr (), w1)"
  shows "t_room_members (w_db w1) = filter (\<lambda>m. rm_key m \<noteq> (code, userID)) (t_room_members (w_db w)) \<and>
    t_rooms (w_db w1) =
      (if in_room code (w_db w1) = 0
       then update_where (\<lambda>r. r_code r = code) (\<lambda>r. r\<lparr>r_empty_since_at := Some (unix now)\<rparr>) (t_rooms (w_db w))
       else t_rooms (w_db w))"
proof -
  have "quit_room code userID now (w_db w) = Inr ((), w_db w1)"
    by (rule LeaveRoom.outcome [OF run])
  then have "w_db w1 = (let d1 = without_member code userID (w_db w) in
      if in_room code d1 = 0 then mark_empty code (unix now) d1 else d1)"
    by (auto simp: quit_room_def Let_def split: if_splits)
  then show ?thesis
    by (simp add: Let_def mark_empty_def without_member_def split: if_splits)
qed

text \<open>
  C33: a room is deleted only by its owner, only while it is live, and only after the call at
  the gateway was ended: a successful \<^verbatim>\<open>DeleteRoom\<close> ran the callback successfully on the
  unchanged tables, then removed the room with all its memberships; a failed one changed
  nothing.
\<close>

theorem DeleteRoom_authorised:
  assumes terminate: "\<And>I. keeps I terminate" and wf: "wf_db (w_db w)"
    and run: "DeleteRoom code userID now terminate w = (res, w1)"
  shows "case res of
      Inl e \<Rightarrow> w_db w1 = w_db w
    | Inr _ \<Rightarrow> (\<exists>r \<in> set (t_rooms (w_db w)). r_code r = code \<and> r_owner_id r = userID \<and> unix now < r_expires_at r)
        \<and> (\<exists>w2 w3. w_db w2 = w_db w \<and> terminate w2 = (Inr (), w3))
        \<and> w_db w1 = delete_rooms (\<lambda>r. r_code r = code) (w_db w)"
proof (cases res)
  case (Inl e)
  then show ?thesis using run unfolding DeleteRoom_def by (auto dest: transaction_InlD)
next
  case (Inr x)
  obtain w2 w3 w4 ownerID where run': "w_db w2 = w_db w"
    "find (\<lambda>r. r_code r = code \<and> r_expires_at r > unix now) (t_rooms (w_db w)) = Some ownerID"
    "r_owner_id ownerID = userID" "terminate w2 = (Inr (), w3)"
    "w_db w1 = delete_rooms (\<lambda>r. r_code r = code) (w_db w3)"
    using run [unfolded Inr] unfolding DeleteRoom_def
    by (elim transaction_InrE andThen_InrE select_InrE; simp split: option.splits if_splits; elim run_elims;
        simp add: run_simps)
  moreover have "w_db w3 = w_db w2"
    using keeps_resultD [OF terminate [of "\<lambda>d. d = w_db w2"] run'(4)] by simp
  moreover have "ownerID \<in> set (t_rooms (w_db w)) \<and> r_code ownerID = code \<and> unix now < r_expires_at ownerID"
    using run'(2) by (auto simp: find_Some_iff)
  ultimately show ?thesis using Inr by auto
qed

section \<open>A room, concretely\<close>

definition two_users :: database where
  "two_users = empty_db\<lparr>t_users := [
     \<lparr>u_id = ''u1'', u_email = ''a@b'', u_display_name = ''A'', u_avatar = [], u_password_hash = ''h'',
      u_token_hash = ''t1'', u_created_at = 0, u_last_seen_at = 0, u_welcome_seen_at = 0\<rparr>,
     \<lparr>u_id = ''u2'', u_email = ''c@d'', u_display_name = ''C'', u_avatar = [], u_password_hash = ''h'',
      u_token_hash = ''t2'', u_created_at = 0, u_last_seen_at = 0, u_welcome_seen_at = 0\<rparr>]\<rparr>"

definition the_room :: room_row where
  "the_room = \<lparr>r_code = ''R'', r_owner_id = ''u1'', r_created_at = 0, r_expires_at = 3600,
     r_empty_since_at = None\<rparr>"

definition one_room :: database where
  "one_room = two_users\<lparr>t_rooms := [the_room],
     t_room_members := [\<lparr>rm_room_code = ''R'', rm_user_id = ''u1'', rm_joined_at = 0\<rparr>]\<rparr>"

lemmas room_example = two_users_def one_room_def the_room_def empty_db_def has_user_def

lemma two_users_wf [simp]: "wf_db two_users"
  by (simp add: two_users_def wf_db_def keys_unique_def references_ok_def replies_ok_def empty_db_def)

lemma one_room_wf [simp]: "wf_db one_room"
  by (simp add: room_example wf_db_def keys_unique_def references_ok_def replies_ok_def refs_def)

lemma create_one_room: "InsertRoom ''R'' ''u1'' 0 hour (running two_users) = (Inr (), running one_room)"
  by (simp add: InsertRoom.quiet_run as_specified_def create_room_def insert_room_row_def
      insert_room_member_def room_example)

lemma InsertRoom_GetRoom_witness:
  "\<exists>r. fst (GetRoom ''R'' ''u1'' (59 * minute) 10 (running one_room)) = Inr r \<and> Code r = ''R'' \<and>
    user_ID (room_Owner r) = ''u1'' \<and> ExpiresAt r = of_unix (unix (0 + hour)) \<and>
    ParticipantCount r = 1 \<and> map member_ID (Members r) = [''u1'']"
  by (rule InsertRoom_GetRoom [OF _ create_one_room]) simp_all

lemma JoinRoom_admits_witness:
  "member_of ''R'' ''u2'' (w_db (snd (JoinRoom ''R'' ''u2'' minute 2 (running one_room))))"
proof -
  obtain r w1 where "JoinRoom ''R'' ''u2'' minute 2 (running one_room) = (Inr r, w1)"
    by (simp add: JoinRoom_alt run_simps enter.quiet_run as_specified_def enter_room_def GetRoom_quiet
        insert_room_member_def live_room_def user_row_of_def member_of_def in_room_def
        mark_occupied_def room_example)
  from JoinRoom_admits [OF this] this show ?thesis by simp
qed

lemma JoinRoom_refuses_witness:
  "JoinRoom ''R'' ''u2'' minute 1 (running one_room) = (Inl ErrRoomFull, running one_room)"
  using JoinRoom_refuses [of "running one_room" "''R''" minute "''u2''" 1]
  by (simp add: live_room_def user_row_of_def member_of_def in_room_def room_example)

lemma LeaveRoom_removes_witness:
  "t_room_members (w_db (snd (LeaveRoom ''R'' ''u1'' minute (running one_room)))) = []"
proof -
  obtain w1 where "LeaveRoom ''R'' ''u1'' minute (running one_room) = (Inr (), w1)"
    by (simp add: LeaveRoom.quiet_run as_specified_def quit_room_def Let_def room_example)
  from LeaveRoom_removes [OF this] this show ?thesis by (simp add: room_example)
qed

lemma DeleteRoom_authorised_witness:
  "w_db (snd (DeleteRoom ''R'' ''u2'' minute (ret ()) (running one_room))) = one_room"
proof -
  obtain w1 where "DeleteRoom ''R'' ''u2'' minute (ret ()) (running one_room) = (Inl ErrForbidden, w1)"
    by (simp add: DeleteRoom_def transaction_quiet run_simps room_example)
  from DeleteRoom_authorised [OF keeps_ret _ this] this show ?thesis by simp
qed

text \<open>
  two oddities. A stranger's \<^verbatim>\<open>LeaveRoom\<close> on a room everybody has left restarts the
  clock of its cleanup; and \<^verbatim>\<open>JoinRoom\<close> is not atomic: when reading the room back fails after
  the commit, the caller gets the error of the driver and is a member all the same.
\<close>

theorem rooms_oddities:
  "(let left = snd (LeaveRoom ''R'' ''u1'' 0 (running one_room)) in
      map r_empty_since_at (t_rooms (w_db left)) = [Some 0] \<and>
      fst (LeaveRoom ''R'' ''u2'' minute left) = Inr () \<and>
      map r_empty_since_at (t_rooms (w_db (snd (LeaveRoom ''R'' ''u2'' minute left)))) = [Some 60]) \<and>
   (let w = \<lparr>w_db = one_room, w_faults = [False, False, False, False, False, False, False, True]\<rparr>;
        joined = JoinRoom ''R'' ''u2'' minute 10 w in
      fst joined = Inl (ErrDB SqlFault) \<and> member_of ''R'' ''u2'' (w_db (snd joined)))"
  by (simp add: Let_def LeaveRoom.quiet_run as_specified_def quit_room_def without_member_def in_room_def
      mark_empty_def JoinRoom_def GetRoom_def transaction_def run_simps select_def exec_def insert_into_def
      stmt_def draw_fault_def insert_room_member_def live_room_def user_row_of_def member_of_def
      mark_occupied_def room_example)

end
