(* ===== verification/Users.thy ===== *)
theory Users
  imports Rooms Runtime
begin

text \<open>
  \<^verbatim>\<open>store/users.go\<close> and the user part of \<^verbatim>\<open>store/store.go\<close>: accounts, sessions and what is
  left of an account that is deleted. Hashes are byte strings.
\<close>

section \<open>Accounts and sessions\<close>

definition legacySessionTTL :: duration where
  "legacySessionTTL = 7 * (24 * hour)"

definition CreateUserWithSession :: "user \<Rightarrow> string \<Rightarrow> string \<Rightarrow> time \<Rightarrow> ('z, unit) dbm" where
  "CreateUserWithSession user passwordHash tokenHash expiresAt =
     (let created = unix (user_CreatedAt user) in
      transaction
       (andThen (map_error conflict_error (insert_into (insert_user
          \<lparr>u_id = user_ID user, u_email = Email user, u_display_name = DisplayName user,
           u_avatar = Avatar user, u_password_hash = passwordHash, u_token_hash = tokenHash,
           u_created_at = created, u_last_seen_at = created, u_welcome_seen_at = created\<rparr>))) (\<lambda>_.
        andThen (map_error conflict_error (insert_into (insert_session
          \<lparr>ses_token_hash = tokenHash, ses_user_id = user_ID user, ses_created_at = created,
           ses_last_seen_at = created, ses_expires_at = unix expiresAt,
           ses_reviewed_at = Some created\<rparr>))) (\<lambda>_.
        ret (Commit ())))))"

definition CreateUser :: "user \<Rightarrow> string \<Rightarrow> string \<Rightarrow> ('z, unit) dbm" where
  "CreateUser user passwordHash tokenHash =
     CreateUserWithSession user passwordHash tokenHash (user_CreatedAt user + legacySessionTTL)"

definition UserByEmail :: "string \<Rightarrow> ('z, user \<times> string) dbm" where
  "UserByEmail email =
     andThen (select (\<lambda>d. row_with u_email email (t_users d))) (\<lambda>row.
     case row of
       None \<Rightarrow> raise ErrNotFound
     | Some u \<Rightarrow> ret (full_user u, u_password_hash u))"

definition userBySessionQuery :: "string \<Rightarrow> (session_row \<Rightarrow> bool) \<Rightarrow> ('z, user) dbm" where
  "userBySessionQuery hash condition =
     andThen (select (\<lambda>d.
       case row_with ses_token_hash hash (t_sessions d) of
         None \<Rightarrow> None
       | Some s \<Rightarrow> if condition s then user_row_of d (ses_user_id s) else None)) (\<lambda>row.
     case row of None \<Rightarrow> raise ErrNotFound | Some u \<Rightarrow> ret (full_user u))"

definition UserByTokenHash :: "string \<Rightarrow> ('z, user) dbm" where
  "UserByTokenHash hash = userBySessionQuery hash (\<lambda>_. True)"

definition UserBySessionHash :: "string \<Rightarrow> time \<Rightarrow> time \<Rightarrow> ('z, user) dbm" where
  "UserBySessionHash hash now idleCutoff =
     userBySessionQuery hash (\<lambda>s. ses_expires_at s > unix now \<and> ses_last_seen_at s > unix idleCutoff)"

text \<open>\<^verbatim>\<open>UPDATE users SET token_hash = ?, last_seen_at = ? WHERE id = ?\<close>: the column is unique.\<close>

definition mark_token :: "string \<Rightarrow> string \<Rightarrow> int \<Rightarrow> database \<Rightarrow> sql_error + int \<times> database" where
  "mark_token userID tokenHash now d =
     (if has_user d userID \<and> list_ex (\<lambda>u. u_token_hash u = tokenHash \<and> u_id u \<noteq> userID) (t_users d)
      then Inl SqlConstraint
      else Inr (count_rows (\<lambda>u. u_id u = userID) (t_users d),
        d\<lparr>t_users := update_where (\<lambda>u. u_id u = userID)
          (\<lambda>u. u\<lparr>u_token_hash := tokenHash, u_last_seen_at := now\<rparr>) (t_users d)\<rparr>))"

definition CreateSession :: "string \<Rightarrow> string \<Rightarrow> time \<Rightarrow> time \<Rightarrow> ('z, unit) dbm" where
  "CreateSession userID tokenHash now expiresAt = transaction
     (andThen (stmt (mark_token userID tokenHash (unix now))) (\<lambda>affected.
      if affected = 0 then raise ErrNotFound
      else
      andThen (map_error conflict_error (insert_into (insert_session
        \<lparr>ses_token_hash = tokenHash, ses_user_id = userID, ses_created_at = unix now,
         ses_last_seen_at = unix now, ses_expires_at = unix expiresAt, ses_reviewed_at = None\<rparr>))) (\<lambda>_.
      ret (Commit ()))))"

definition UpdateSessionToken :: "string \<Rightarrow> string \<Rightarrow> time \<Rightarrow> ('z, unit) dbm" where
  "UpdateSessionToken userID tokenHash now =
     CreateSession userID tokenHash now (now + legacySessionTTL)"

definition see_session :: "string \<Rightarrow> string \<Rightarrow> int \<Rightarrow> database \<Rightarrow> int \<times> database" where
  "see_session hash userID now d =
     (let mine = (\<lambda>s. ses_token_hash s = hash \<and> ses_user_id s = userID) in
      (count_rows mine (t_sessions d),
       d\<lparr>t_sessions := update_where mine (\<lambda>s. s\<lparr>ses_last_seen_at := now\<rparr>) (t_sessions d)\<rparr>))"

definition see_user :: "string \<Rightarrow> int \<Rightarrow> database \<Rightarrow> database" where
  "see_user userID now d = d\<lparr>t_users :=
     update_where (\<lambda>u. u_id u = userID) (\<lambda>u. u\<lparr>u_last_seen_at := now\<rparr>) (t_users d)\<rparr>"

definition TouchSession :: "string \<Rightarrow> string \<Rightarrow> time \<Rightarrow> ('z, unit) dbm" where
  "TouchSession hash userID now = transaction
     (andThen (exec_count (see_session hash userID (unix now))) (\<lambda>affected.
      if affected = 0 then raise ErrNotFound
      else
      andThen (exec (see_user userID (unix now))) (\<lambda>_.
      ret (Commit ()))))"

definition RevokeSession :: "string \<Rightarrow> ('z, unit) dbm" where
  "RevokeSession hash = exec (\<lambda>d. d\<lparr>t_sessions :=
     filter (\<lambda>s. \<not> ses_token_hash s = hash) (t_sessions d)\<rparr>)"

section \<open>The security page\<close>

definition SecurityState :: "string \<Rightarrow> string \<Rightarrow> time \<Rightarrow> ('z, security_state) dbm" where
  "SecurityState userID hash now =
     andThen (select (\<lambda>d. map_option ses_created_at
       (find (\<lambda>s. ses_user_id s = userID \<and> ses_token_hash s = hash) (t_sessions d)))) (\<lambda>row.
     case row of
       None \<Rightarrow> raise ErrNotFound
     | Some created \<Rightarrow>
         let canManage = (now - of_unix created \<ge> 24 * hour) in
         if \<not> canManage then ret \<lparr>CanManage = False, Alert = False\<rparr>
         else
         andThen (select (\<lambda>d. list_ex (\<lambda>s. ses_user_id s = userID \<and> ses_created_at s > created
           \<and> ses_reviewed_at s = None) (t_sessions d))) (\<lambda>alert.
         ret \<lparr>CanManage = True, Alert = alert\<rparr>))"

text \<open>\<^verbatim>\<open>lower(substr(hex(token_hash), 1, 16))\<close>\<close>

definition bytes_of :: "string \<Rightarrow> 8 word list" where
  "bytes_of s = map (\<lambda>c. word_of_nat (of_char c)) s"

definition public_id :: "string \<Rightarrow> string" where
  "public_id tokenHash = take 16 (hex_encode (bytes_of tokenHash))"

definition SecuritySessions :: "string \<Rightarrow> string \<Rightarrow> time \<Rightarrow> duration \<Rightarrow> ('z, session list) dbm" where
  "SecuritySessions userID hash now idleTTL = select (\<lambda>d.
     map (\<lambda>s. \<lparr>session_ID = public_id (ses_token_hash s), session_CreatedAt = of_unix (ses_created_at s),
               LastSeenAt = of_unix (ses_last_seen_at s), Current = (ses_token_hash s = hash)\<rparr>)
       (order_by (\<lambda>s. - ses_created_at s)
         (filter (\<lambda>s. ses_user_id s = userID \<and> ses_expires_at s > unix now
            \<and> ses_last_seen_at s > unix (now - idleTTL)) (t_sessions d))))"

definition review_sessions :: "string \<Rightarrow> string \<Rightarrow> database \<Rightarrow> database" where
  "review_sessions userID hash d =
     (case row_with ses_token_hash hash (t_sessions d) of
        None \<Rightarrow> d
      | Some cur \<Rightarrow> d\<lparr>t_sessions :=
          update_where (\<lambda>s. ses_user_id s = userID \<and> ses_created_at s > ses_created_at cur)
            (\<lambda>s. s\<lparr>ses_reviewed_at := Some (ses_created_at s)\<rparr>) (t_sessions d)\<rparr>)"

definition ReviewNewSessions :: "string \<Rightarrow> string \<Rightarrow> ('z, unit) dbm" where
  "ReviewNewSessions userID hash = exec (review_sessions userID hash)"

definition RevokeSecuritySession :: "string \<Rightarrow> string \<Rightarrow> ('z, unit) dbm" where
  "RevokeSecuritySession userID sid =
     (let doomed = (\<lambda>s. ses_user_id s = userID \<and> public_id (ses_token_hash s) = sid) in
      andThen (exec_count (\<lambda>d. (count_rows doomed (t_sessions d),
        d\<lparr>t_sessions := filter (\<lambda>s. \<not> doomed s) (t_sessions d)\<rparr>))) (\<lambda>count.
      if count = 0 then raise ErrNotFound else ret ()))"

definition set_password :: "string \<Rightarrow> string \<Rightarrow> database \<Rightarrow> database" where
  "set_password userID passwordHash d = d\<lparr>t_users :=
     update_where (\<lambda>u. u_id u = userID) (\<lambda>u. u\<lparr>u_password_hash := passwordHash\<rparr>) (t_users d)\<rparr>"

definition Store_ChangePassword :: "string \<Rightarrow> string \<Rightarrow> ('z, unit) dbm" where
  "Store_ChangePassword userID passwordHash =
     andThen (exec_count (\<lambda>d. (count_rows (\<lambda>u. u_id u = userID) (t_users d),
       set_password userID passwordHash d))) (\<lambda>count.
     if count = 0 then raise ErrNotFound else ret ())"

definition DeleteExpiredSessions :: "time \<Rightarrow> ('z, unit) dbm" where
  "DeleteExpiredSessions now = exec (\<lambda>d. d\<lparr>t_sessions :=
     filter (\<lambda>s. \<not> ses_expires_at s \<le> unix now) (t_sessions d)\<rparr>)"

text \<open>\<^verbatim>\<open>UPDATE ... RETURNING\<close>: the updated row, if there is one.\<close>

definition set_profile :: "string \<Rightarrow> string \<Rightarrow> string \<Rightarrow> database \<Rightarrow> database" where
  "set_profile userID displayName avatar d = d\<lparr>t_users :=
     update_where (\<lambda>u. u_id u = userID) (\<lambda>u. u\<lparr>u_display_name := displayName, u_avatar := avatar\<rparr>)
       (t_users d)\<rparr>"

definition Store_UpdateProfile :: "string \<Rightarrow> string \<Rightarrow> string \<Rightarrow> ('z, user) dbm" where
  "Store_UpdateProfile userID displayName avatar =
     andThen (stmt (\<lambda>d. let d' = set_profile userID displayName avatar d in
       Inr (user_row_of d' userID, d'))) (\<lambda>row.
     case row of None \<Rightarrow> raise ErrNotFound | Some u \<Rightarrow> ret (full_user u))"

section \<open>The end of an account\<close>

definition OwnedRoomCodes :: "string \<Rightarrow> ('z, string list) dbm" where
  "OwnedRoomCodes userID =
     select (\<lambda>d. map r_code (filter (\<lambda>r. r_owner_id r = userID) (t_rooms d)))"

definition Store_DeleteUser :: "string \<Rightarrow> ('z, unit) dbm" where
  "Store_DeleteUser userID =
     andThen (exec_count (\<lambda>d. (count_rows (\<lambda>u. u_id u = userID) (t_users d),
       delete_users (\<lambda>u. u_id u = userID) d))) (\<lambda>affected.
     if affected = 0 then raise ErrNotFound else ret ())"

definition TouchUser :: "string \<Rightarrow> time \<Rightarrow> ('z, unit) dbm" where
  "TouchUser userID now = exec (see_user userID (unix now))"

definition DeleteInactiveUsers :: "time \<Rightarrow> ('z, unit) dbm" where
  "DeleteInactiveUsers cutoff = exec (delete_users (\<lambda>u. u_last_seen_at u < unix cutoff))"

definition inactive_batch :: "int \<Rightarrow> int \<Rightarrow> database \<Rightarrow> string list" where
  "inactive_batch cutoff n d = map u_id (limit_rows n
     (order_by (\<lambda>u. (u_last_seen_at u, u_created_at u))
       (filter (\<lambda>u. u_last_seen_at u < cutoff) (t_users d))))"

definition DeleteInactiveUsersBatch :: "time \<Rightarrow> int \<Rightarrow> ('z, int) dbm" where
  "DeleteInactiveUsersBatch cutoff n = exec_count (\<lambda>d.
     let ids = inactive_batch (unix cutoff) n d;
         doomed = (\<lambda>u. List.member ids (u_id u)) in
     (count_rows doomed (t_users d), delete_users doomed d))"

text \<open>
  \<^verbatim>\<open>CleanupBannedUser\<close>: takes an account out of every call and deletes its latest messages; the
  gateway rooms it was in are returned.
\<close>

definition voice_room_names :: "string \<Rightarrow> database \<Rightarrow> string list" where
  "voice_room_names userID d = List.map_filter
     (\<lambda>m. map_option (\<lambda>v. ''group:'' @ vr_group_id v @ '':'' @ vr_id v)
       (row_with vr_id (vm_voice_room_id m) (t_voice_rooms d)))
     (filter (\<lambda>m. vm_user_id m = userID) (t_voice_members d))"

definition mark_rooms_empty :: "string list \<Rightarrow> int \<Rightarrow> database \<Rightarrow> database" where
  "mark_rooms_empty codes now d = d\<lparr>t_rooms :=
     update_where (\<lambda>r. List.member codes (r_code r) \<and> in_room (r_code r) d = 0)
       (\<lambda>r. r\<lparr>r_empty_since_at := Some now\<rparr>) (t_rooms d)\<rparr>"

definition latest_messages :: "(message_row \<Rightarrow> bool) \<Rightarrow> int \<Rightarrow> database \<Rightarrow> string list" where
  "latest_messages P n d = map m_id (limit_rows n
     (order_by (\<lambda>m. - m_created_at m) (filter P (t_messages d))))"

definition Store_CleanupBannedUser :: "string \<Rightarrow> time \<Rightarrow> int \<Rightarrow> ('z, string list) dbm" where
  "Store_CleanupBannedUser userID now messageLimit = transaction
     (andThen (select (\<lambda>d. map rm_room_code (filter (\<lambda>m. rm_user_id m = userID) (t_room_members d)))) (\<lambda>roomNames.
      andThen (select (voice_room_names userID)) (\<lambda>groupVoiceNames.
      andThen (exec (\<lambda>d. d\<lparr>t_room_members :=
        filter (\<lambda>m. \<not> rm_user_id m = userID) (t_room_members d)\<rparr>)) (\<lambda>_.
      andThen (if roomNames \<noteq> [] then exec (mark_rooms_empty roomNames (unix now)) else ret ()) (\<lambda>_.
      andThen (exec (\<lambda>d. d\<lparr>t_voice_members :=
        filter (\<lambda>m. \<not> vm_user_id m = userID) (t_voice_members d)\<rparr>)) (\<lambda>_.
      andThen (exec (\<lambda>d. delete_messages (\<lambda>m. List.member
        (latest_messages (\<lambda>m. m_author_id m = userID) messageLimit d) (m_id m)) d)) (\<lambda>_.
      ret (Commit (roomNames @ groupVoiceNames)))))))))"

section \<open>Integrity\<close>

lemma distinct_new_token:
  "distinct (map u_id us) \<Longrightarrow> distinct (map u_token_hash us) \<Longrightarrow>
   \<not> list_ex (\<lambda>u. u_token_hash u = h \<and> u_id u \<noteq> i) us \<Longrightarrow> (\<And>u. u_token_hash (f u) = h) \<Longrightarrow>
   distinct (map u_token_hash (update_where (\<lambda>u. u_id u = i) f us))"
proof (induction us)
  case (Cons u us)
  have rest: "distinct (map u_token_hash (update_where (\<lambda>u. u_id u = i) f us))"
    using Cons by simp
  show ?case
  proof (cases "u_id u = i")
    case True
    then have same: "update_where (\<lambda>u. u_id u = i) f us = us"
      using Cons.prems(1) by (intro update_where_same) (auto simp: image_iff)
    have "h \<notin> u_token_hash ` set us"
      using Cons.prems(1,3) True by (auto simp: list_ex_iff image_iff)
    then show ?thesis
      using Cons.prems True rest by (simp add: same)
  next
    case False
    have "u_token_hash u \<notin> u_token_hash ` set (update_where (\<lambda>u. u_id u = i) f us)"
      using Cons.prems(2,3,4) False by (auto simp: in_update_where split: if_splits)
    then show ?thesis using rest False by simp
  qed
qed simp

lemma mark_token_wf:
  assumes "wf_db d" "mark_token userID tokenHash now d = Inr (n, d')"
  shows "wf_db d'"
proof -
  have d': "d' = d\<lparr>t_users := update_where (\<lambda>u. u_id u = userID)
      (\<lambda>u. u\<lparr>u_token_hash := tokenHash, u_last_seen_at := now\<rparr>) (t_users d)\<rparr>"
    using assms(2) by (auto simp: mark_token_def split: if_splits)
  show ?thesis
  proof (cases "has_user d userID")
    case True
    then show ?thesis
      unfolding d' using assms(2) wf_keys(5,6) [OF assms(1)]
      by (intro update_users_wf [OF assms(1)] distinct_new_token)
        (auto simp: mark_token_def split: if_splits)
  next
    case False
    then have "update_where (\<lambda>u. u_id u = userID)
      (\<lambda>u. u\<lparr>u_token_hash := tokenHash, u_last_seen_at := now\<rparr>) (t_users d) = t_users d"
      by (intro update_where_same) (auto simp: has_user_def list_ex_iff)
    then show ?thesis using assms(1) by (simp add: d')
  qed
qed

lemma see_wf:
  "wf_db d \<Longrightarrow> wf_db (see_user userID now d)"
  "wf_db d \<Longrightarrow> wf_db (snd (see_session hash userID now d))"
  "wf_db d \<Longrightarrow> wf_db (set_password userID h d)"
  "wf_db d \<Longrightarrow> wf_db (set_profile userID name avatar d)"
  "wf_db d \<Longrightarrow> wf_db (review_sessions userID hash d)"
  "wf_db d \<Longrightarrow> wf_db (mark_rooms_empty codes now d)"
  by (auto simp: see_user_def see_session_def Let_def set_password_def set_profile_def
      review_sessions_def mark_rooms_empty_def wf_keys split: option.split
      intro!: update_users_wf update_sessions_wf update_rooms_wf)

lemma users_keep_wf [keeps_intros]:
  "keeps wf_db (CreateUserWithSession user passwordHash tokenHash expiresAt)"
  "keeps wf_db (UserByEmail email)"
  "keeps wf_db (UserBySessionHash hash now idleCutoff)"
  "keeps wf_db (CreateSession userID tokenHash now expiresAt)"
  "keeps wf_db (TouchSession hash userID now)"
  "keeps wf_db (RevokeSession hash)"
  "keeps wf_db (SecurityState userID hash now)"
  "keeps wf_db (SecuritySessions userID hash now idleTTL)"
  "keeps wf_db (ReviewNewSessions userID hash)"
  "keeps wf_db (RevokeSecuritySession userID sid)"
  "keeps wf_db (Store_ChangePassword userID passwordHash)"
  "keeps wf_db (DeleteExpiredSessions now)"
  "keeps wf_db (Store_UpdateProfile userID displayName avatar)"
  "keeps wf_db (OwnedRoomCodes userID)"
  "keeps wf_db (Store_DeleteUser userID)"
  "keeps wf_db (TouchUser userID now)"
  "keeps wf_db (DeleteInactiveUsers cutoff)"
  "keeps wf_db (DeleteInactiveUsersBatch cutoff n)"
  "keeps wf_db (Store_CleanupBannedUser userID now messageLimit)"
  unfolding CreateUserWithSession_def UserByEmail_def UserBySessionHash_def userBySessionQuery_def
    CreateSession_def TouchSession_def RevokeSession_def SecurityState_def SecuritySessions_def
    ReviewNewSessions_def RevokeSecuritySession_def Store_ChangePassword_def
    DeleteExpiredSessions_def Store_UpdateProfile_def OwnedRoomCodes_def Store_DeleteUser_def
    TouchUser_def DeleteInactiveUsers_def DeleteInactiveUsersBatch_def Store_CleanupBannedUser_def
    Let_def
  by (intro keeps_intros keeps_stmt; (erule (1) wf_inserts mark_token_wf | simp add: wf_updates see_wf | auto simp: see_wf))+

section \<open>Sessions\<close>

definition session_of :: "string \<Rightarrow> database \<Rightarrow> session_row option" where
  "session_of hash d = row_with ses_token_hash hash (t_sessions d)"

text \<open>
  authentication. Without failures a token is accepted exactly when it has a session that
  is neither expired nor idle at that moment, and the user returned is the owner of that
  session.
\<close>

theorem UserBySessionHash_valid:
  assumes "quiet w" "wf_db (w_db w)"
  shows "fst (UserBySessionHash hash now idleCutoff w) =
    (case session_of hash (w_db w) of
       None \<Rightarrow> Inl ErrNotFound
     | Some s \<Rightarrow>
         if unix now < ses_expires_at s \<and> unix idleCutoff < ses_last_seen_at s
         then Inr (full_user (the (user_row_of (w_db w) (ses_user_id s))))
         else Inl ErrNotFound)"
proof (cases "session_of hash (w_db w)")
  case (Some s)
  then have "s \<in> set (t_sessions (w_db w))" by (auto simp: session_of_def dest: row_with_SomeD)
  then have "ses_user_id s \<in> u_id ` set (t_users (w_db w))"
    using assms(2) by (auto simp: wf_db_def references_ok_def refs_def)
  then obtain u where "user_row_of (w_db w) (ses_user_id s) = Some u"
    using row_with_None [of u_id "ses_user_id s" "t_users (w_db w)"]
    unfolding user_row_of_def by (cases "row_with u_id (ses_user_id s) (t_users (w_db w))") auto
  with Some assms(1) show ?thesis
    by (simp add: UserBySessionHash_def userBySessionQuery_def run_simps session_of_def [symmetric])
qed (use assms(1) in \<open>simp add: UserBySessionHash_def userBySessionQuery_def run_simps
    session_of_def [symmetric]\<close>)

text \<open>What every successful call did to the sessions.\<close>

lemma CreateSession_result:
  assumes "CreateSession userID tokenHash now expiresAt w = (Inr (), w1)"
  shows "\<exists>n d. mark_token userID tokenHash (unix now) (w_db w) = Inr (n, d) \<and> n \<noteq> 0 \<and>
    insert_session \<lparr>ses_token_hash = tokenHash, ses_user_id = userID, ses_created_at = unix now,
         ses_last_seen_at = unix now, ses_expires_at = unix expiresAt, ses_reviewed_at = None\<rparr> d
      = Some (w_db w1)"
  using assms unfolding CreateSession_def
  by (elim transaction_InrE andThen_InrE; simp split: if_splits; elim run_elims;
      auto simp: run_simps dest!: stmt_InrD)

text \<open>
  a new session works at once and until its limits: after \<^verbatim>\<open>CreateSession\<close> the token
  authenticates its user at every instant before the expiry, as long as the idle limit has
  not passed, and at no other; the sessions there were before still do what they did.
\<close>

theorem CreateSession_authenticates:
  assumes wf: "wf_db (w_db w)" and run: "CreateSession userID tokenHash now expiresAt w = (Inr (), w1)"
    and "quiet w1"
  shows "(fst (UserBySessionHash tokenHash now2 idleCutoff w1) =
      (if unix now2 < unix expiresAt \<and> unix idleCutoff < unix now
       then Inr (full_user (the (user_row_of (w_db w1) userID)))
       else Inl ErrNotFound)) \<and>
    session_of tokenHash (w_db w) = None \<and>
    (\<forall>other. other \<noteq> tokenHash \<longrightarrow> session_of other (w_db w1) = session_of other (w_db w))"
proof -
  let ?s = "\<lparr>ses_token_hash = tokenHash, ses_user_id = userID, ses_created_at = unix now,
         ses_last_seen_at = unix now, ses_expires_at = unix expiresAt, ses_reviewed_at = None\<rparr>"
  obtain n d where mark: "mark_token userID tokenHash (unix now) (w_db w) = Inr (n, d)"
    and ins: "insert_session ?s d = Some (w_db w1)"
    using CreateSession_result [OF run] by blast
  have same: "t_sessions d = t_sessions (w_db w)"
    using mark by (auto simp: mark_token_def split: if_splits)
  have fresh: "tokenHash \<notin> ses_token_hash ` set (t_sessions (w_db w))"
    and new: "t_sessions (w_db w1) = t_sessions (w_db w) @ [?s]"
    using ins same by (auto simp: insert_session_def list_all_fresh dest: sym)
  have none: "session_of tokenHash (w_db w) = None"
    using fresh by (simp add: session_of_def row_with_None)
  then have at: "session_of tokenHash (w_db w1) = Some ?s"
    by (simp add: session_of_def new)
  have others: "session_of other (w_db w1) = session_of other (w_db w)" if "other \<noteq> tokenHash" for other
    using that by (simp add: session_of_def new split: option.split)
  have "wf_db (w_db w1)" using insert_session_wf [OF mark_token_wf [OF wf mark] ins] .
  from UserBySessionHash_valid [OF \<open>quiet w1\<close> this, of tokenHash now2 idleCutoff] at none others
  show ?thesis by simp
qed

text \<open>
  revocation. After \<^verbatim>\<open>RevokeSession\<close> the token authenticates nobody, whatever the clock
  says, and every other session is untouched.
\<close>

theorem RevokeSession_revokes:
  assumes wf: "wf_db (w_db w)" and run: "RevokeSession hash w = (Inr (), w1)" and "quiet w1"
  shows "fst (UserBySessionHash hash now idleCutoff w1) = Inl ErrNotFound \<and>
    fst (UserByTokenHash hash w1) = Inl ErrNotFound \<and>
    (\<forall>other. other \<noteq> hash \<longrightarrow> session_of other (w_db w1) = session_of other (w_db w))"
proof -
  have db: "w_db w1 = (w_db w)\<lparr>t_sessions := filter (\<lambda>s. \<not> ses_token_hash s = hash) (t_sessions (w_db w))\<rparr>"
    using run unfolding RevokeSession_def by (elim exec_InrE)
  have sessions: "session_of other (w_db w1) = (if other = hash then None else session_of other (w_db w))" for other
    using wf_keys(8) [OF wf] by (auto simp: session_of_def db row_with_filter dest: row_with_SomeD split: option.split)
  then have "row_with ses_token_hash hash (t_sessions (w_db w1)) = None"
    by (simp add: session_of_def)
  then have "fst (UserBySessionHash hash now idleCutoff w1) = Inl ErrNotFound"
    "fst (UserByTokenHash hash w1) = Inl ErrNotFound"
    using \<open>quiet w1\<close> by (simp_all add: UserBySessionHash_def UserByTokenHash_def userBySessionQuery_def run_simps)
  with sessions show ?thesis by simp
qed

text \<open>
  the security page opens 24 hours after the session began: \<^verbatim>\<open>SecurityState\<close> lets a
  session manage the account exactly when it is at least that old, and warns about a younger
  session of the account that nobody has reviewed.
\<close>

theorem SecurityState_after_a_day:
  assumes "quiet w" "wf_db (w_db w)"
  shows "fst (SecurityState userID hash now w) =
    (case session_of hash (w_db w) of
       None \<Rightarrow> Inl ErrNotFound
     | Some s \<Rightarrow>
         if ses_user_id s \<noteq> userID then Inl ErrNotFound
         else
           let old = (of_unix (ses_created_at s) + 24 * hour \<le> now) in
           Inr \<lparr>CanManage = old,
             Alert = old \<and> (\<exists>t \<in> set (t_sessions (w_db w)). ses_user_id t = userID
               \<and> ses_created_at s < ses_created_at t \<and> ses_reviewed_at t = None)\<rparr>)"
proof -
  have find: "find (\<lambda>s. ses_user_id s = userID \<and> ses_token_hash s = hash) ss =
      (case row_with ses_token_hash hash ss of
         None \<Rightarrow> None | Some s \<Rightarrow> if ses_user_id s = userID then Some s else None)"
    if "distinct (map ses_token_hash ss)" for ss
    using that
  proof (induction ss)
    case (Cons s ss)
    have "row_with ses_token_hash hash ss = None" if "ses_token_hash s = hash"
      using Cons.prems that by (auto simp: row_with_None)
    with Cons show ?case by auto
  qed simp
  show ?thesis
    using assms(1) find [OF wf_keys(8) [OF assms(2)]]
    by (auto simp: SecurityState_def run_simps session_of_def Let_def list_ex_iff algebra_simps split: option.splits)
qed


section \<open>A session, concretely\<close>

lemma CreateSession_example:
  "CreateSession ''u1'' ''new'' minute hour (running two_users) =
     (Inr (), snd (CreateSession ''u1'' ''new'' minute hour (running two_users)))
   \<and> quiet (snd (CreateSession ''u1'' ''new'' minute hour (running two_users)))"
proof -
  have "fst (CreateSession ''u1'' ''new'' minute hour (running two_users)) = Inr ()"
    "quiet (snd (CreateSession ''u1'' ''new'' minute hour (running two_users)))"
    by (simp_all add: CreateSession_def transaction_quiet run_simps stmt_def mark_token_def has_user_def
        insert_session_def two_users_def empty_db_def)
  then show ?thesis using run_result by metis
qed

lemma CreateSession_authenticates_witness:
  "fst (UserBySessionHash ''new'' (59 * minute) 0
      (snd (CreateSession ''u1'' ''new'' minute hour (running two_users)))) =
    Inr (full_user (the (user_row_of (w_db (snd (CreateSession ''u1'' ''new'' minute hour
      (running two_users)))) ''u1'')))"
  using CreateSession_authenticates [OF _ CreateSession_example [THEN conjunct1]
      CreateSession_example [THEN conjunct2], of "59 * minute" 0]
  by simp

definition one_session :: database where
  "one_session = two_users\<lparr>t_sessions := [\<lparr>ses_token_hash = ''t1'', ses_user_id = ''u1'',
     ses_created_at = 0, ses_last_seen_at = 0, ses_expires_at = 600, ses_reviewed_at = Some 0\<rparr>]\<rparr>"

lemma one_session_wf [simp]: "wf_db one_session"
  by (simp add: one_session_def two_users_def empty_db_def wf_db_def keys_unique_def references_ok_def
      replies_ok_def refs_def)

lemma one_session_rows:
  "t_sessions one_session = [\<lparr>ses_token_hash = ''t1'', ses_user_id = ''u1'',
     ses_created_at = 0, ses_last_seen_at = 0, ses_expires_at = 600, ses_reviewed_at = Some 0\<rparr>]"
  by (simp add: one_session_def)

lemma UserBySessionHash_valid_witness:
  "fst (UserBySessionHash ''t1'' (10 * minute) (- second) (running one_session)) = Inl ErrNotFound"
  using UserBySessionHash_valid [of "running one_session" "''t1''" "10 * minute" "- second"]
  by (simp add: one_session_rows session_of_def)

lemma RevokeSession_revokes_witness:
  "fst (UserBySessionHash ''t1'' minute 0 (snd (RevokeSession ''t1'' (running one_session)))) = Inl ErrNotFound"
proof -
  have "RevokeSession ''t1'' (running one_session) = (Inr (), running two_users\<lparr>w_db := one_session\<lparr>t_sessions := []\<rparr>\<rparr>)"
    by (simp add: RevokeSession_def run_simps one_session_def)
  from RevokeSession_revokes [OF _ this, of minute 0] this show ?thesis by simp
qed

lemma SecurityState_after_a_day_witness:
  "fst (SecurityState ''u1'' ''t1'' (24 * hour) (running one_session)) = Inr \<lparr>CanManage = True, Alert = False\<rparr>"
  using SecurityState_after_a_day [of "running one_session" "''u1''" "''t1''" "24 * hour"]
  by (simp add: one_session_rows session_of_def of_unix_def)


end
