(* ===== verification/VoiceRooms.thy ===== *)
theory VoiceRooms
  imports Rooms
begin

text \<open>
  \<^verbatim>\<open>store/voicerooms/store.go\<close>: the voice rooms of the groups. A user is in at most one of
  them, entering one leaves the other, and a group has no more of them than the limit.
\<close>

section \<open>Operations\<close>

definition voice_rooms_of :: "string \<Rightarrow> database \<Rightarrow> int" where
  "voice_rooms_of groupID d = count_rows (\<lambda>v. vr_group_id v = groupID) (t_voice_rooms d)"

definition CreateVoiceRoom :: "string \<Rightarrow> string \<Rightarrow> string \<Rightarrow> time \<Rightarrow> int \<Rightarrow> ('z, unit) dbm" where
  "CreateVoiceRoom vid groupID name now maxRooms = transaction
     (andThen (select (voice_rooms_of groupID)) (\<lambda>count.
      if count \<ge> maxRooms then raise ErrRoomFull
      else
      andThen (insert_into (insert_voice_room
        \<lparr>vr_id = vid, vr_group_id = groupID, vr_name = name, vr_created_at = unix now\<rparr>)) (\<lambda>_.
      ret (Commit ()))))"

definition in_voice :: "string \<Rightarrow> database \<Rightarrow> int" where
  "in_voice roomID d = count_rows (\<lambda>m. vm_voice_room_id m = roomID) (t_voice_members d)"

definition as_voice_room :: "database \<Rightarrow> voice_room_row \<Rightarrow> group_voice_room" where
  "as_voice_room d v =
     \<lparr>voice_ID = vr_id v, voice_GroupID = vr_group_id v, voice_Name = vr_name v,
      voice_CreatedAt = of_unix (vr_created_at v), voice_ParticipantCount = in_voice (vr_id v) d\<rparr>"

definition VoiceRoom :: "string \<Rightarrow> ('z, group_voice_room) dbm" where
  "VoiceRoom vid =
     andThen (select (\<lambda>d. map_option (as_voice_room d) (row_with vr_id vid (t_voice_rooms d)))) (\<lambda>r.
     case r of None \<Rightarrow> raise ErrNotFound | Some v \<Rightarrow> ret v)"

definition DeleteVoiceRoom :: "string \<Rightarrow> ('z, unit) dbm" where
  "DeleteVoiceRoom vid =
     andThen (exec_count (\<lambda>d. (count_rows (\<lambda>v. vr_id v = vid) (t_voice_rooms d),
                                delete_voice_rooms (\<lambda>v. vr_id v = vid) d))) (\<lambda>n.
     if n = 0 then raise ErrNotFound else ret ())"

text \<open>The previous room, \<open>[]\<close> when there is none or reading it fails.\<close>

definition EnterVoice :: "string \<Rightarrow> string \<Rightarrow> time \<Rightarrow> ('z, string) dbm" where
  "EnterVoice roomID userID now = transaction
     (andThen (attempt (select (\<lambda>d. map_option vm_voice_room_id
        (row_with vm_user_id userID (t_voice_members d))))) (\<lambda>r.
      let old = (case r of Inl (_ :: store_error) \<Rightarrow> [] | Inr None \<Rightarrow> [] | Inr (Some room) \<Rightarrow> room) in
      andThen (insert_into (upsert_voice_member
        \<lparr>vm_user_id = userID, vm_voice_room_id = roomID, vm_joined_at = unix now\<rparr>)) (\<lambda>_.
      ret (Commit old))))"

definition LeaveVoice :: "string \<Rightarrow> string \<Rightarrow> ('z, unit) dbm" where
  "LeaveVoice roomID userID =
     exec (\<lambda>d. d\<lparr>t_voice_members :=
       filter (\<lambda>m. \<not> (vm_voice_room_id m = roomID \<and> vm_user_id m = userID)) (t_voice_members d)\<rparr>)"

section \<open>Specifications\<close>

definition create_voice :: "string \<Rightarrow> string \<Rightarrow> string \<Rightarrow> time \<Rightarrow> int \<Rightarrow> database \<Rightarrow> store_error + unit \<times> database" where
  "create_voice vid groupID name now maxRooms d =
     (if voice_rooms_of groupID d \<ge> maxRooms then Inl ErrRoomFull
      else
        (case insert_voice_room
            \<lparr>vr_id = vid, vr_group_id = groupID, vr_name = name, vr_created_at = unix now\<rparr> d of
           None \<Rightarrow> Inl (ErrDB SqlConstraint)
         | Some d' \<Rightarrow> Inr ((), d')))"

interpretation CreateVoiceRoom: implementation
  "CreateVoiceRoom vid groupID name now maxRooms" "create_voice vid groupID name now maxRooms"
  for vid groupID name now maxRooms
proof
  show "strict (CreateVoiceRoom vid groupID name now maxRooms)"
    unfolding CreateVoiceRoom_def by (intro strict_intros)
  show "atomic (CreateVoiceRoom vid groupID name now maxRooms)"
    unfolding CreateVoiceRoom_def by (rule atomic_transaction)
  show "CreateVoiceRoom vid groupID name now maxRooms w = as_specified (create_voice vid groupID name now maxRooms) w"
    if "quiet w" for w :: "'z world_scheme"
    using that by (simp add: CreateVoiceRoom_def create_voice_def as_specified_def transaction_quiet
        run_simps split: option.split)
qed

section \<open>The limit of rooms per group\<close>

definition voice_ok :: "int \<Rightarrow> database \<Rightarrow> bool" where
  "voice_ok maxRooms d \<longleftrightarrow> (\<forall>g \<in> set (t_groups d). voice_rooms_of (g_id g) d \<le> maxRooms)"

lemma voice_rooms_of_filter:
  "voice_rooms_of g (d\<lparr>t_voice_rooms := filter P (t_voice_rooms d)\<rparr>) \<le> voice_rooms_of g d"
  by (simp add: voice_rooms_of_def count_rows_filter_le)

lemma delete_voice_rooms_ok: "voice_ok n d \<Longrightarrow> voice_ok n (delete_voice_rooms P d)"
  unfolding voice_ok_def voice_rooms_of_def t_voice_rooms_delete_voice_rooms
  using count_rows_filter_le by (fastforce simp: delete_voice_rooms_def Let_def intro: order_trans)

lemma upsert_voice_member_ok:
  "voice_ok n d \<Longrightarrow> upsert_voice_member m d = Some d' \<Longrightarrow> voice_ok n d'"
  by (auto simp: upsert_voice_member_def voice_ok_def voice_rooms_of_def)

lemma voice_keep [keeps_intros]:
  fixes maxRooms :: int
  defines "I \<equiv> \<lambda>d. wf_db d \<and> voice_ok maxRooms d"
  shows "keeps I (CreateVoiceRoom vid groupID name now maxRooms)"
    and "keeps I (DeleteVoiceRoom vid)"
    and "keeps I (EnterVoice roomID userID now)"
    and "keeps I (LeaveVoice roomID userID)"
proof -
  show "keeps I (CreateVoiceRoom vid groupID name now maxRooms)"
    unfolding I_def
  proof (rule CreateVoiceRoom.preserves)
    fix d x d'
    assume I: "wf_db d \<and> voice_ok maxRooms d" and run: "create_voice vid groupID name now maxRooms d = Inr (x, d')"
    let ?v = "\<lparr>vr_id = vid, vr_group_id = groupID, vr_name = name, vr_created_at = unix now\<rparr>"
    have ins: "insert_voice_room ?v d = Some d'" and less: "voice_rooms_of groupID d < maxRooms"
      using run by (auto simp: create_voice_def split: if_splits option.splits)
    have "wf_db d'" using I ins insert_voice_room_wf by blast
    moreover have d': "d' = d\<lparr>t_voice_rooms := t_voice_rooms d @ [?v]\<rparr>"
      using ins by (simp add: insert_voice_room_def)
    have "voice_ok maxRooms d'"
      using I less by (auto simp: d' voice_ok_def voice_rooms_of_def)
    ultimately show "wf_db d' \<and> voice_ok maxRooms d'" by simp
  qed
  show "keeps I (DeleteVoiceRoom vid)"
    unfolding DeleteVoiceRoom_def I_def
    by (intro keeps_intros) (auto intro: delete_voice_rooms_wf delete_voice_rooms_ok)
  show "keeps I (EnterVoice roomID userID now)"
    unfolding EnterVoice_def I_def
    by (intro keeps_intros) (auto intro: upsert_voice_member_wf upsert_voice_member_ok)
  show "keeps I (LeaveVoice roomID userID)"
    unfolding LeaveVoice_def I_def
    by (intro keeps_intros) (auto simp: filter_leaf_wf voice_ok_def voice_rooms_of_def)
qed

section \<open>Entering and leaving\<close>

definition voice_of :: "string \<Rightarrow> database \<Rightarrow> string option" where
  "voice_of userID d = map_option vm_voice_room_id (row_with vm_user_id userID (t_voice_members d))"

text \<open>
  entering a voice room puts the caller in that room and in no other, keeps everybody
  else where they are, and reports the room that was left, unless reading it failed; leaving
  a room takes the caller out of that room only.
\<close>

theorem EnterVoice_moves:
  assumes run: "EnterVoice roomID userID now w = (Inr old, w1)"
  shows "voice_of userID (w_db w1) = Some roomID \<and>
    (\<forall>other. other \<noteq> userID \<longrightarrow> voice_of other (w_db w1) = voice_of other (w_db w)) \<and>
    (old = [] \<or> voice_of userID (w_db w) = Some old) \<and>
    (quiet w \<longrightarrow> old = (case voice_of userID (w_db w) of None \<Rightarrow> [] | Some r \<Rightarrow> r))"
proof -
  let ?m = "\<lparr>vm_user_id = userID, vm_voice_room_id = roomID, vm_joined_at = unix now\<rparr>"
  have ins: "upsert_voice_member ?m (w_db w) = Some (w_db w1)"
    and old: "old = [] \<or> voice_of userID (w_db w) = Some old"
    using run unfolding EnterVoice_def Let_def voice_of_def [symmetric]
    by (elim transaction_InrE andThen_InrE attempt_select_E; elim run_elims;
        auto split: option.splits)+
  have after: "voice_of other (w_db w1) = (if other = userID then Some roomID else voice_of other (w_db w))" for other
  proof -
    have "t_voice_members (w_db w1) = upsert vm_user_id ?m (t_voice_members (w_db w))"
      using ins by (auto simp: upsert_voice_member_def dest: sym)
    then show ?thesis by (simp add: voice_of_def)
  qed
  have "old = (case voice_of userID (w_db w) of None \<Rightarrow> [] | Some r \<Rightarrow> r)" if "quiet w"
    using run that ins by (auto simp: EnterVoice_def voice_of_def transaction_quiet run_simps Let_def)
  then show ?thesis using after old by auto
qed

definition voice_db :: database where
  "voice_db = two_users\<lparr>
     t_groups := [\<lparr>g_id = ''g'', g_visibility = ''public'', g_owner_id = ''u1'', g_name = ''G'',
       g_avatar = [], g_invite_token = ''i'', g_created_at = 0, g_last_activity_at = 0,
       g_scheduled_for_deletion_at = None, g_protected_from_auto_delete = 0, g_isolated_until = 0,
       g_isolation_level = 0, g_isolation_raised_at = 0\<rparr>],
     t_voice_rooms := [\<lparr>vr_id = ''v1'', vr_group_id = ''g'', vr_name = ''A'', vr_created_at = 0\<rparr>,
       \<lparr>vr_id = ''v2'', vr_group_id = ''g'', vr_name = ''B'', vr_created_at = 0\<rparr>],
     t_voice_members := [\<lparr>vm_user_id = ''u1'', vm_voice_room_id = ''v1'', vm_joined_at = 0\<rparr>]\<rparr>"

lemma voice_db_wf [simp]: "wf_db voice_db"
  by (simp add: voice_db_def room_example wf_db_def keys_unique_def references_ok_def replies_ok_def refs_def)

lemma EnterVoice_moves_witness:
  "voice_of ''u1'' (w_db (snd (EnterVoice ''v2'' ''u1'' minute (running voice_db)))) = Some ''v2''"
proof -
  have "fst (EnterVoice ''v2'' ''u1'' minute (running voice_db)) = Inr ''v1''"
    by (simp add: EnterVoice_def transaction_quiet run_simps Let_def upsert_voice_member_def
        voice_db_def two_users_def has_user_def)
  from EnterVoice_moves [OF run_result [OF this]] show ?thesis by simp
qed

end
