(* ===== verification/Messages.thy ===== *)
theory Messages
  imports Users VoiceRooms
begin

text \<open>
  The messages of the groups: \<^verbatim>\<open>store/groupmessages\<close>, \<^verbatim>\<open>store/readreceipts\<close>, the queries
  of \<^verbatim>\<open>store/attachments/metadata.go\<close> that belong to a message, and the message operations of
  \<^verbatim>\<open>store/groups.go\<close>, \<^verbatim>\<open>store/store.go\<close>, \<^verbatim>\<open>store/group_profiles.go\<close> (idempotency
  keys) and \<^verbatim>\<open>store/group_security.go\<close> (cooldowns).
\<close>

section \<open>Attachments of a message\<close>

definition as_attachment :: "attachment_row \<Rightarrow> attachment" where
  "as_attachment a =
     \<lparr>att_ID = a_id a, MessageID = a_message_id a, att_GroupID = a_group_id a, OwnerID = a_owner_id a,
      att_Kind = a_kind a, Mime = a_mime a, att_Name = a_name a, Size = a_size a, Path = a_path a,
      att_CreatedAt = of_unix (a_created_at a), att_ExpiresAt = of_unix (a_expires_at a)\<rparr>"

definition attachment_row_of :: "attachment \<Rightarrow> attachment_row" where
  "attachment_row_of a =
     \<lparr>a_id = att_ID a, a_message_id = MessageID a, a_group_id = att_GroupID a, a_owner_id = OwnerID a,
      a_kind = att_Kind a, a_mime = Mime a, a_name = att_Name a, a_size = Size a, a_path = Path a,
      a_created_at = unix (att_CreatedAt a), a_expires_at = unix (att_ExpiresAt a)\<rparr>"

definition attachments_Add :: "attachment \<Rightarrow> ('z, unit) dbm" where
  "attachments_Add item = insert_into (insert_attachment (attachment_row_of item))"

definition message_attachments :: "string \<Rightarrow> database \<Rightarrow> attachment list" where
  "message_attachments messageID d =
     map as_attachment (order_by (\<lambda>a. (a_created_at a, a_id a))
       (filter (\<lambda>a. a_message_id a = messageID) (t_attachments d)))"

definition ListForMessage :: "string \<Rightarrow> ('z, attachment list) dbm" where
  "ListForMessage messageID = select (message_attachments messageID)"

section \<open>Reading messages\<close>

text \<open>The columns of \<^verbatim>\<open>selectMessage\<close> as \<^verbatim>\<open>scan\<close> puts them into the struct.\<close>

definition reference_of :: "database \<Rightarrow> message_row \<Rightarrow> message_reference" where
  "reference_of d rm =
     \<lparr>ref_ID = m_id rm, ref_Kind = m_kind rm, ref_Event = m_event rm,
      ref_Author = (case user_row_of d (m_author_id rm) of None \<Rightarrow> no_user | Some u \<Rightarrow> dated_user u),
      ref_Body = m_body rm\<rparr>"

definition scan_message :: "database \<Rightarrow> message_row \<Rightarrow> group_message option" where
  "scan_message d m =
     (case user_row_of d (m_author_id m) of
        None \<Rightarrow> None
      | Some u \<Rightarrow> Some
          \<lparr>msg_ID = m_id m, msg_GroupID = m_group_id m,
           Kind = (if m_kind m \<noteq> ''system'' then ''chat'' else m_kind m), Event = m_event m,
           Author = dated_user u, Body = m_body m,
           msg_CreatedAt = (if m_created_at_nanos m > 0 then m_created_at_nanos m
                            else of_unix (m_created_at m)),
           ReplyTo = (case m_reply_to_id m of
               None \<Rightarrow> None
             | Some i \<Rightarrow> map_option (reference_of d) (row_with m_id i (t_messages d))),
           Read = False, Attachments = []\<rparr>)"

definition visible_rows :: "string \<Rightarrow> time \<Rightarrow> int \<Rightarrow> database \<Rightarrow> message_row list" where
  "visible_rows groupID cutoff n d =
     limit_rows n (order_by (\<lambda>m. (- m_created_at_nanos m, - m_created_at m))
       (filter (\<lambda>m. m_group_id m = groupID \<and> m_created_at_nanos m \<ge> cutoff
          \<and> user_row_of d (m_author_id m) \<noteq> None) (t_messages d)))"

definition groupmessages_List :: "string \<Rightarrow> time \<Rightarrow> int \<Rightarrow> ('z, group_message list) dbm" where
  "groupmessages_List groupID cutoff n =
     andThen (select (\<lambda>d. List.map_filter (scan_message d) (visible_rows groupID cutoff n d))) (\<lambda>out.
     andThen (collect (\<lambda>m. andThen (ListForMessage (msg_ID m)) (\<lambda>as. ret (m\<lparr>Attachments := as\<rparr>))) out) (\<lambda>out.
     ret (rev out)))"

definition Store_Messages :: "string \<Rightarrow> time \<Rightarrow> int \<Rightarrow> string \<Rightarrow> ('z, group_message list) dbm" where
  "Store_Messages groupID cutoff n reader =
     andThen (groupmessages_List groupID cutoff n) (\<lambda>out.
     collect (\<lambda>m. andThen (select (\<lambda>d.
         list_ex (\<lambda>r. rd_message_id r = msg_ID m \<and> rd_user_id r \<noteq> reader) (t_reads d))) (\<lambda>isRead.
       ret (m\<lparr>Read := (isRead \<and> reader \<noteq> [] \<and> user_ID (Author m) = reader)\<rparr>))) out)"

definition Store_Message :: "string \<Rightarrow> ('z, group_message) dbm" where
  "Store_Message mid =
     andThen (select (\<lambda>d. case row_with m_id mid (t_messages d) of
        None \<Rightarrow> None | Some m \<Rightarrow> scan_message d m)) (\<lambda>row.
     case row of
       None \<Rightarrow> raise ErrNotFound
     | Some m \<Rightarrow> andThen (ListForMessage (msg_ID m)) (\<lambda>as. ret (m\<lparr>Attachments := as\<rparr>)))"

section \<open>Writing messages\<close>

definition message_row_of :: "group_message \<Rightarrow> message_row" where
  "message_row_of m =
     \<lparr>m_id = msg_ID m, m_group_id = msg_GroupID m, m_author_id = user_ID (Author m), m_body = Body m,
      m_created_at = unix (msg_CreatedAt m), m_reply_to_id = map_option ref_ID (ReplyTo m),
      m_kind = (if Kind m \<noteq> ''system'' then ''chat'' else Kind m), m_event = Event m,
      m_created_at_nanos = msg_CreatedAt m\<rparr>"

definition groupmessages_Add :: "group_message \<Rightarrow> ('z, unit) dbm" where
  "groupmessages_Add m = insert_into (insert_message (message_row_of m))"

definition touch_group :: "string \<Rightarrow> int \<Rightarrow> database \<Rightarrow> database" where
  "touch_group groupID now d = d\<lparr>t_groups :=
     update_where (\<lambda>g. g_id g = groupID)
       (\<lambda>g. g\<lparr>g_last_activity_at := now, g_scheduled_for_deletion_at := None\<rparr>) (t_groups d)\<rparr>"

definition AddMessageWithAttachments :: "group_message \<Rightarrow> attachment list \<Rightarrow> ('z, unit) dbm" where
  "AddMessageWithAttachments m items = transaction
     (andThen (groupmessages_Add m) (\<lambda>_.
      andThen (for_each attachments_Add items) (\<lambda>_.
      andThen (exec (touch_group (msg_GroupID m) (unix (msg_CreatedAt m)))) (\<lambda>_.
      ret (Commit ())))))"

definition AddMessage :: "group_message \<Rightarrow> ('z, unit) dbm" where
  "AddMessage m = AddMessageWithAttachments m []"

definition Store_DeleteMessage :: "string \<Rightarrow> ('z, string) dbm" where
  "Store_DeleteMessage mid =
     andThen (select (\<lambda>d. map_option m_group_id (row_with m_id mid (t_messages d)))) (\<lambda>row.
     case row of
       None \<Rightarrow> raise ErrNotFound
     | Some groupID \<Rightarrow>
         andThen (exec (delete_messages (\<lambda>m. m_id m = mid))) (\<lambda>_. ret groupID))"

definition set_reply :: "string \<Rightarrow> string \<Rightarrow> database \<Rightarrow> database option" where
  "set_reply messageID replyToID d = guarded
     (\<not> has_message d messageID \<or> has_message d replyToID)
     (d\<lparr>t_messages := update_where (\<lambda>m. m_id m = messageID)
       (\<lambda>m. m\<lparr>m_reply_to_id := Some replyToID\<rparr>) (t_messages d)\<rparr>)"

definition SetMessageReply :: "string \<Rightarrow> string \<Rightarrow> ('z, unit) dbm" where
  "SetMessageReply messageID replyToID = insert_into (set_reply messageID replyToID)"

section \<open>Deleting messages\<close>

definition DeleteExpiredMessages :: "time \<Rightarrow> ('z, unit) dbm" where
  "DeleteExpiredMessages cutoff = exec (delete_messages (\<lambda>m. m_created_at m < unix cutoff))"

text \<open>\<^verbatim>\<open>DELETE FROM group_messages WHERE id IN (SELECT id ... ORDER BY ... LIMIT ?)\<close>\<close>

definition delete_listed :: "(database \<Rightarrow> string list) \<Rightarrow> ('z, int) dbm" where
  "delete_listed f = exec_count (\<lambda>d.
     let ids = f d; doomed = (\<lambda>m. List.member ids (m_id m)) in
     (count_rows doomed (t_messages d), delete_messages doomed d))"

definition DeleteRecentMessagesByAuthor :: "string \<Rightarrow> string \<Rightarrow> time \<Rightarrow> int \<Rightarrow> ('z, int) dbm" where
  "DeleteRecentMessagesByAuthor groupID userID since n = delete_listed (latest_messages
     (\<lambda>m. m_group_id m = groupID \<and> m_author_id m = userID \<and> m_created_at m \<ge> unix since) n)"

text \<open>SQLite's \<^verbatim>\<open>lower\<close> folds the letters of ASCII only and \<^verbatim>\<open>trim\<close> removes spaces only.\<close>

definition sql_lower :: "string \<Rightarrow> string" where
  "sql_lower s = map (\<lambda>c. if of_char c \<in> {65..90 :: nat} then char_of (of_char c + 32 :: nat) else c) s"

definition sql_trim :: "string \<Rightarrow> string" where
  "sql_trim s = rev (dropWhile (\<lambda>c. c = CHR '' '') (rev (dropWhile (\<lambda>c. c = CHR '' '') s)))"

definition DeleteRecentRepeatedMessages ::
  "string \<Rightarrow> string \<Rightarrow> string \<Rightarrow> time \<Rightarrow> int \<Rightarrow> ('z, int) dbm" where
  "DeleteRecentRepeatedMessages groupID userID body since n = delete_listed (latest_messages
     (\<lambda>m. m_group_id m = groupID \<and> m_author_id m = userID \<and> m_created_at m \<ge> unix since
        \<and> sql_lower (sql_trim (m_body m)) = body) n)"

definition oldest_messages :: "int \<Rightarrow> int \<Rightarrow> database \<Rightarrow> string list" where
  "oldest_messages cutoff n d = map m_id (limit_rows n
     (order_by m_created_at (filter (\<lambda>m. m_created_at m < cutoff) (t_messages d))))"

definition DeleteOldestMessages :: "time \<Rightarrow> int \<Rightarrow> ('z, int) dbm" where
  "DeleteOldestMessages olderThan n = delete_listed (oldest_messages (unix olderThan) n)"

section \<open>Read receipts\<close>

record receipt =
  receipt_MessageID :: string
  receipt_AuthorID :: string

text \<open>\<^verbatim>\<open>INSERT OR IGNORE INTO group_message_reads ... SELECT\<close>\<close>

definition read_messages :: "string \<Rightarrow> string \<Rightarrow> int \<Rightarrow> int \<Rightarrow> database \<Rightarrow> database option" where
  "read_messages groupID userID now created d =
     (let seen = filter (\<lambda>m. m_group_id m = groupID \<and> m_created_at m \<le> created) (t_messages d);
          unread = filter (\<lambda>m. \<not> list_ex (\<lambda>r. rd_key r = (m_id m, userID)) (t_reads d)) seen in
      guarded (unread = [] \<or> has_user d userID)
        (d\<lparr>t_reads := t_reads d @
          map (\<lambda>m. \<lparr>rd_message_id = m_id m, rd_user_id = userID, rd_read_at = now\<rparr>) unread\<rparr>))"

definition read_receipts :: "string \<Rightarrow> string \<Rightarrow> int \<Rightarrow> database \<Rightarrow> receipt list" where
  "read_receipts groupID userID created d =
     map (\<lambda>m. \<lparr>receipt_MessageID = m_id m, receipt_AuthorID = m_author_id m\<rparr>)
       (filter (\<lambda>m. m_group_id m = groupID \<and> m_author_id m \<noteq> userID \<and> m_created_at m \<le> created
          \<and> list_ex (\<lambda>r. rd_key r = (m_id m, userID)) (t_reads d)) (t_messages d))"

definition MarkGroupMessagesRead :: "string \<Rightarrow> string \<Rightarrow> string \<Rightarrow> time \<Rightarrow> ('z, receipt list) dbm" where
  "MarkGroupMessagesRead groupID userID messageID now = transaction
     (andThen (select (\<lambda>d. map_option m_created_at
        (find (\<lambda>m. m_id m = messageID \<and> m_group_id m = groupID) (t_messages d)))) (\<lambda>row.
      case row of
        None \<Rightarrow> raise ErrNotFound
      | Some created \<Rightarrow>
          andThen (insert_into (read_messages groupID userID (unix now) created)) (\<lambda>_.
          andThen (select (read_receipts groupID userID created)) (\<lambda>receipts.
          ret (Commit receipts)))))"

section \<open>Idempotency keys\<close>

text \<open>\<open>(responseID, True)\<close>: the key was free and is reserved now; \<open>(existing, False)\<close>: it was taken.\<close>

definition ReserveIdempotencyKey ::
  "string \<Rightarrow> string \<Rightarrow> string \<Rightarrow> string \<Rightarrow> time \<Rightarrow> duration \<Rightarrow> ('z, string \<times> bool) dbm" where
  "ReserveIdempotencyKey scope userID key responseID now ttl = transaction
     (andThen (ignoring (exec (\<lambda>d. d\<lparr>t_idempotency :=
        filter (\<lambda>i. \<not> ik_expires_at i \<le> unix now) (t_idempotency d)\<rparr>))) (\<lambda>_.
      andThen (select (\<lambda>d. map_option ik_response_id
        (row_with ik_pkey (scope, userID, key) (t_idempotency d)))) (\<lambda>row.
      case row of
        Some existing \<Rightarrow> ret (Commit (existing, False))
      | None \<Rightarrow>
          andThen (insert_into (insert_idempotency
            \<lparr>ik_scope = scope, ik_user_id = userID, ik_key = key, ik_response_id = responseID,
             ik_created_at = unix now, ik_expires_at = unix (now + ttl)\<rparr>)) (\<lambda>_.
          ret (Commit (responseID, True))))))"

section \<open>Cooldowns and warnings\<close>

text \<open>
  Both operations test the scanned value before the error: a failed read leaves it at zero,
  and counts as no cooldown.
\<close>

definition MessageCooldown :: "string \<Rightarrow> string \<Rightarrow> time \<Rightarrow> ('z, time) dbm" where
  "MessageCooldown groupID userID now =
     andThen (attempt (select (\<lambda>d. map_option cd_until
       (row_with cd_key (groupID, userID) (t_cooldowns d))))) (\<lambda>r.
     case r of
       Inl e \<Rightarrow> if 0 \<le> unix now then ret zero_time else raise e
     | Inr None \<Rightarrow> ret zero_time
     | Inr (Some until) \<Rightarrow> if until \<le> unix now then ret zero_time else ret (of_unix until))"

definition RecordMessageViolation ::
  "string \<Rightarrow> string \<Rightarrow> time \<Rightarrow> duration list \<Rightarrow> ('z, time) dbm" where
  "RecordMessageViolation groupID userID now durations =
     (if durations = [] then ret zero_time
      else transaction
       (andThen (attempt (select (\<lambda>d. row_with cd_key (groupID, userID) (t_cooldowns d)))) (\<lambda>r.
        andThen
          (case r of
             Inl e \<Rightarrow> if unix now > in_seconds (24 * hour) then ret 0 else raise e
           | Inr None \<Rightarrow> ret 0
           | Inr (Some c) \<Rightarrow>
               if unix now - cd_last_violation c > in_seconds (24 * hour) then ret 0
               else ret (cd_level c)) (\<lambda>previous.
        let level = min (previous + 1) (int (length durations)) in
        if level < 1 then raise ErrPanic
        else
        let until = now + durations ! nat (level - 1) in
        andThen (insert_into (upsert_cooldown
          \<lparr>cd_group_id = groupID, cd_user_id = userID, cd_level = level, cd_until = unix until,
           cd_last_violation = unix now\<rparr>)) (\<lambda>_.
        ret (Commit until))))))"

definition warnings_since :: "string \<Rightarrow> int \<Rightarrow> database \<Rightarrow> int" where
  "warnings_since groupID since d =
     count_rows (\<lambda>s. sw_group_id s = groupID \<and> sw_created_at s \<ge> since) (t_spam_warnings d)"

definition CreateGroupSpamWarning ::
  "string \<Rightarrow> string \<Rightarrow> time \<Rightarrow> int \<Rightarrow> int \<Rightarrow> duration \<Rightarrow> duration \<Rightarrow> ('z, int \<times> bool) dbm" where
  "CreateGroupSpamWarning groupID reason now messageCount userCount cooldown window = transaction
     (andThen (ignoring (exec (\<lambda>d. d\<lparr>t_spam_warnings :=
        filter (\<lambda>s. \<not> sw_created_at s < unix (now - window)) (t_spam_warnings d)\<rparr>))) (\<lambda>_.
      andThen (select (\<lambda>d. count_rows (\<lambda>s. sw_group_id s = groupID
        \<and> sw_created_at s > unix (now - cooldown)) (t_spam_warnings d))) (\<lambda>recent.
      if recent > 0 then
        andThen (select (warnings_since groupID (unix (now - window)))) (\<lambda>n.
        ret (Commit (n, False)))
      else
        andThen (insert_into (insert_spam_warning
          \<lparr>sw_group_id = groupID, sw_reason = reason, sw_message_count = messageCount,
           sw_user_count = userCount, sw_created_at = unix now\<rparr>)) (\<lambda>_.
        andThen (select (warnings_since groupID (unix (now - window)))) (\<lambda>n.
        ret (Commit (n, True)))))))"

definition GroupSpamWarnings :: "string \<Rightarrow> time \<Rightarrow> ('z, group_spam_warning list) dbm" where
  "GroupSpamWarnings groupID since = select (\<lambda>d.
     map (\<lambda>s. \<lparr>Reason = sw_reason s, MessageCount = sw_message_count s, UserCount = sw_user_count s,
               warning_CreatedAt = of_unix (sw_created_at s)\<rparr>)
       (order_by (\<lambda>s. - sw_created_at s)
         (filter (\<lambda>s. sw_group_id s = groupID \<and> sw_created_at s \<ge> unix since) (t_spam_warnings d))))"

section \<open>Integrity\<close>

lemma set_reply_wf: "wf_db d \<Longrightarrow> set_reply messageID replyToID d = Some d' \<Longrightarrow> wf_db d'"
proof -
  assume wf: "wf_db d" and run: "set_reply messageID replyToID d = Some d'"
  let ?ms = "update_where (\<lambda>m. m_id m = messageID) (\<lambda>m. m\<lparr>m_reply_to_id := Some replyToID\<rparr>) (t_messages d)"
  have ids: "m_id ` set ?ms = m_id ` set (t_messages d)"
    by (simp add: update_where_key_set)
  have d': "d' = d\<lparr>t_messages := ?ms\<rparr>"
    and ok: "has_message d messageID \<longrightarrow> has_message d replyToID"
    using run by (auto simp: set_reply_def)
  have "\<forall>m \<in> set ?ms. case m_reply_to_id m of None \<Rightarrow> True | Some i \<Rightarrow> i \<in> m_id ` set (t_messages d)"
    using wf ok by (intro update_where_all)
      (auto simp: wf_db_def replies_ok_def list_all_iff has_message_iff split: option.splits)
  then have "replies_ok ?ms"
    by (simp only: replies_ok_def list_all_iff ids)
  with wf show ?thesis
    unfolding d' by (simp add: wf_db_def keys_unique_def references_ok_def refs_rules)
qed

lemma read_messages_wf: "wf_db d \<Longrightarrow> read_messages g u now created d = Some d' \<Longrightarrow> wf_db d'"
proof -
  assume wf: "wf_db d" and run: "read_messages g u now created d = Some d'"
  let ?unread = "filter (\<lambda>m. \<not> list_ex (\<lambda>r. rd_key r = (m_id m, u)) (t_reads d))
      (filter (\<lambda>m. m_group_id m = g \<and> m_created_at m \<le> created) (t_messages d))"
  let ?row = "\<lambda>m. \<lparr>rd_message_id = m_id m, rd_user_id = u, rd_read_at = now\<rparr>"
  have d': "d' = d\<lparr>t_reads := t_reads d @ map ?row ?unread\<rparr>" and user: "?unread = [] \<or> has_user d u"
    using run by (simp_all add: read_messages_def Let_def)
  have ids: "distinct (map m_id ?unread)"
    using wf_keys(11) [OF wf] by simp
  then have "distinct (map rd_key (map ?row ?unread))"
    by (simp add: distinct_map comp_def inj_on_def)
  moreover have "set (map rd_key (t_reads d)) \<inter> set (map rd_key (map ?row ?unread)) = {}"
    by (auto simp: list_ex_iff)
  ultimately have "distinct (map rd_key (t_reads d @ map ?row ?unread))"
    using wf by (auto simp: wf_db_def keys_unique_def)
  moreover have "refs rd_message_id (map ?row ?unread) m_id (t_messages d)"
    by (auto simp: refs_def)
  moreover have "refs rd_user_id (map ?row ?unread) u_id (t_users d)"
    using user by (elim disjE) (simp only: list.map refs_Nil, auto simp: refs_def has_user_iff)
  ultimately show ?thesis
    using wf unfolding d' by (simp add: wf_db_def keys_unique_def references_ok_def refs_append)
qed

lemma delete_listed_keeps [keeps_intros]: "keeps wf_db (delete_listed f)"
  unfolding delete_listed_def Let_def by (intro keeps_intros) (simp add: wf_updates)

lemma touch_group_wf: "wf_db d \<Longrightarrow> wf_db (touch_group g now d)"
  by (auto simp: touch_group_def intro!: update_groups_wf)

lemma messages_keep_wf [keeps_intros]:
  "keeps wf_db (AddMessageWithAttachments m items)"
  "keeps wf_db (Store_DeleteMessage mid)"
  "keeps wf_db (SetMessageReply mid replyTo)"
  "keeps wf_db (DeleteExpiredMessages cutoff)"
  "keeps wf_db (DeleteRecentMessagesByAuthor g u since n)"
  "keeps wf_db (DeleteRecentRepeatedMessages g u body since n)"
  "keeps wf_db (DeleteOldestMessages olderThan n)"
  "keeps wf_db (MarkGroupMessagesRead g u mid now)"
  "keeps wf_db (ReserveIdempotencyKey scope u key responseID now ttl)"
  "keeps wf_db (MessageCooldown g u now)"
  "keeps wf_db (RecordMessageViolation g u now durations)"
  "keeps wf_db (CreateGroupSpamWarning g reason now mc uc cooldown window)"
  unfolding AddMessageWithAttachments_def groupmessages_Add_def attachments_Add_def
    Store_DeleteMessage_def SetMessageReply_def DeleteExpiredMessages_def
    DeleteRecentMessagesByAuthor_def DeleteRecentRepeatedMessages_def DeleteOldestMessages_def
    MarkGroupMessagesRead_def ReserveIdempotencyKey_def MessageCooldown_def
    RecordMessageViolation_def CreateGroupSpamWarning_def Let_def
  by (intro keeps_intros; (erule (1) wf_inserts set_reply_wf read_messages_wf
        | simp add: wf_updates touch_group_wf))+

lemma message_reads_keep [keeps_intros]:
  "keeps I (groupmessages_List groupID cutoff n)"
  "keeps I (Store_Messages groupID cutoff n reader)"
  "keeps I (Store_Message mid)"
  "keeps I (GroupSpamWarnings groupID since)"
  unfolding groupmessages_List_def Store_Messages_def Store_Message_def ListForMessage_def
    GroupSpamWarnings_def
  by (intro keeps_intros)+

section \<open>A key is reserved once\<close>

record reserve_call =
  rs_scope :: string
  rs_user :: string
  rs_key :: string
  rs_response :: string
  rs_time :: time
  rs_ttl :: duration

definition reserve :: "reserve_call \<Rightarrow> ('z, string \<times> bool) dbm" where
  "reserve c = ReserveIdempotencyKey (rs_scope c) (rs_user c) (rs_key c) (rs_response c) (rs_time c) (rs_ttl c)"

definition reserved :: "string \<times> string \<times> string \<Rightarrow> string \<Rightarrow> int \<Rightarrow> database \<Rightarrow> bool" where
  "reserved k response expires d \<longleftrightarrow> distinct (map ik_pkey (t_idempotency d)) \<and>
     (case row_with ik_pkey k (t_idempotency d) of
        None \<Rightarrow> False
      | Some i \<Rightarrow> ik_response_id i = response \<and> ik_expires_at i = expires)"

lemma reserved_purge:
  "reserved k response expires d \<Longrightarrow> unix t < expires \<Longrightarrow>
   reserved k response expires (d\<lparr>t_idempotency := filter (\<lambda>i. \<not> ik_expires_at i \<le> unix t) (t_idempotency d)\<rparr>)"
  by (auto simp: reserved_def row_with_filter split: option.splits)

lemma insert_idempotency_reserved:
  "reserved k response expires d \<Longrightarrow> insert_idempotency i d = Some d' \<Longrightarrow> reserved k response expires d'"
  by (auto simp: reserved_def insert_idempotency_def list_all_iff split: option.splits)

lemma keeps_reserved:
  "unix now < expires \<Longrightarrow>
   keeps (reserved k response expires) (ReserveIdempotencyKey scope userID key responseID now ttl)"
  unfolding ReserveIdempotencyKey_def
  by (intro keeps_intros; (erule (1) insert_idempotency_reserved | erule reserved_purge, assumption))

lemma ReserveIdempotencyKey_taken:
  assumes res: "reserved (scope, userID, key) response expires (w_db w)" and time: "unix now < expires"
    and run: "ReserveIdempotencyKey scope userID key responseID now ttl w = (Inr x, w1)"
  shows "x = (response, False)"
proof -
  have "\<exists>d. reserved (scope, userID, key) response expires d \<and>
      (case map_option ik_response_id (row_with ik_pkey (scope, userID, key) (t_idempotency d)) of
         Some existing \<Rightarrow> x = (existing, False) | None \<Rightarrow> True)"
    using run res reserved_purge [OF res time] unfolding ReserveIdempotencyKey_def
    by (elim transaction_InrE andThen_InrE ignoring_exec_E select_InrE;
        simp split: option.splits; auto elim!: run_elims)
  then show ?thesis by (auto simp: reserved_def split: option.splits)
qed

lemma ReserveIdempotencyKey_fresh:
  assumes wf: "wf_db (w_db w)"
    and run: "ReserveIdempotencyKey scope userID key responseID now ttl w = (Inr (r, True), w1)"
  shows "r = responseID \<and> reserved (scope, userID, key) responseID (unix (now + ttl)) (w_db w1)"
proof -
  let ?i = "\<lparr>ik_scope = scope, ik_user_id = userID, ik_key = key, ik_response_id = responseID,
             ik_created_at = unix now, ik_expires_at = unix (now + ttl)\<rparr>"
  have "\<exists>d. insert_idempotency ?i d = Some (w_db w1) \<and> r = responseID"
    using run unfolding ReserveIdempotencyKey_def
    by (elim transaction_InrE andThen_InrE ignoring_exec_E select_InrE;
        simp split: option.splits; auto elim!: run_elims)
  then obtain d where ins: "insert_idempotency ?i d = Some (w_db w1)" and r: "r = responseID" by blast
  have "wf_db (w_db w1)" using keeps_resultD [OF messages_keep_wf(9) run wf] .
  moreover have "ik_pkey ?i \<notin> ik_pkey ` set (t_idempotency d)" "w_db w1 = d\<lparr>t_idempotency := t_idempotency d @ [?i]\<rparr>"
    using ins unfolding insert_idempotency_def list_all_fresh by auto
  ultimately show ?thesis
    using r wf_keys(15) [of "w_db w1"]
    by (simp add: reserved_def row_with_None [THEN iffD2] split: option.split)
qed

text \<open>
  sending a message twice sends it once. After a key was reserved for a response, every
  later call with that key that returns, until the reservation expires and whatever calls and
  driver failures come between, gets the same response and is told that it is not the first.
\<close>

theorem ReserveIdempotencyKey_once:
  assumes wf: "wf_db (w_db w)"
    and first: "ReserveIdempotencyKey scope userID key responseID now ttl w = (Inr (r, True), w1)"
    and later: "\<And>c. c \<in> set calls \<Longrightarrow> unix (rs_time c) < unix (now + ttl)"
  shows "r = responseID \<and>
    list_all2 (\<lambda>c answer. (rs_scope c, rs_user c, rs_key c) = (scope, userID, key) \<longrightarrow>
        answer = Inr (responseID, False) \<or> (\<exists>e. answer = Inl e))
      calls (fst (run_all (map reserve calls) w1))"
proof -
  have "list_all2 (\<lambda>c answer. (rs_scope c, rs_user c, rs_key c) = (scope, userID, key) \<longrightarrow>
        answer = Inr (responseID, False) \<or> (\<exists>e. answer = Inl e))
      calls (fst (run_all (map reserve calls) w1))"
    if "reserved (scope, userID, key) responseID (unix (now + ttl)) (w_db w1)" for w1 :: "'z world_scheme"
    using later that
  proof (induction calls arbitrary: w1)
    case (Cons c cs)
    have time: "unix (rs_time c) < unix (now + ttl)" using Cons.prems(1) by simp
    have next_state: "reserved (scope, userID, key) responseID (unix (now + ttl)) (w_db (snd (reserve c w1)))"
      using keepsD [OF keeps_reserved [OF time] Cons.prems(2)] by (simp add: reserve_def)
    have "fst (reserve c w1) = Inr (responseID, False) \<or> (\<exists>e. fst (reserve c w1) = Inl e)"
      if "(rs_scope c, rs_user c, rs_key c) = (scope, userID, key)"
    proof (cases "fst (reserve c w1)")
      case (Inr x)
      from run_result [OF this] have "x = (responseID, False)"
        using ReserveIdempotencyKey_taken [OF _ time] Cons.prems(2) that unfolding reserve_def by fastforce
      with Inr show ?thesis by simp
    qed simp
    moreover have "list_all2 (\<lambda>c answer. (rs_scope c, rs_user c, rs_key c) = (scope, userID, key) \<longrightarrow>
        answer = Inr (responseID, False) \<or> (\<exists>e. answer = Inl e))
      cs (fst (run_all (map reserve cs) (snd (reserve c w1))))"
      using Cons.prems(1) next_state by (intro Cons.IH) auto
    ultimately show ?case by (simp add: fst_run_all_Cons del: run_all.simps)
  qed simp
  with ReserveIdempotencyKey_fresh [OF wf first] show ?thesis by blast
qed

lemma ReserveIdempotencyKey_once_witness:
  "fst (ReserveIdempotencyKey ''m'' ''u1'' ''k'' ''second'' minute hour
      (snd (ReserveIdempotencyKey ''m'' ''u1'' ''k'' ''first'' 0 hour (running two_users)))) =
    Inr (''first'', False)"
proof -
  let ?w = "snd (ReserveIdempotencyKey ''m'' ''u1'' ''k'' ''first'' 0 hour (running two_users))"
  let ?c = "\<lparr>rs_scope = ''m'', rs_user = ''u1'', rs_key = ''k'', rs_response = ''second'',
     rs_time = minute, rs_ttl = hour\<rparr>"
  have "fst (ReserveIdempotencyKey ''m'' ''u1'' ''k'' ''first'' 0 hour (running two_users)) = Inr (''first'', True)"
    by (simp add: ReserveIdempotencyKey_def transaction_quiet run_simps insert_idempotency_def two_users_def
        empty_db_def)
  from ReserveIdempotencyKey_once [OF _ run_result [OF this], of "[?c]"]
  have "fst (reserve ?c ?w) = Inr (''first'', False) \<or> (\<exists>e. fst (reserve ?c ?w) = Inl e)"
    by (simp add: fst_run_all_Cons del: run_all.simps)
  moreover have "\<not> isl (fst (reserve ?c ?w))"
    by (simp add: reserve_def ReserveIdempotencyKey_def transaction_quiet run_simps insert_idempotency_def two_users_def
        empty_db_def)
  ultimately show ?thesis by (auto simp: reserve_def)
qed

section \<open>The history of a group\<close>

text \<open>A message as the reader sees it: with its attachments and whether others have read it.\<close>

definition shown :: "database \<Rightarrow> string \<Rightarrow> group_message \<Rightarrow> group_message" where
  "shown d reader m = m\<lparr>Attachments := message_attachments (msg_ID m) d,
     Read := (list_ex (\<lambda>r. rd_message_id r = msg_ID m \<and> rd_user_id r \<noteq> reader) (t_reads d)
       \<and> reader \<noteq> [] \<and> user_ID (Author m) = reader)\<rparr>"

definition history :: "string \<Rightarrow> time \<Rightarrow> int \<Rightarrow> string \<Rightarrow> database \<Rightarrow> group_message list" where
  "history groupID cutoff n reader d =
     map (shown d reader) (rev (List.map_filter (scan_message d) (visible_rows groupID cutoff n d)))"

lemma Store_Messages_quiet:
  "quiet w \<Longrightarrow> Store_Messages groupID cutoff n reader w =
     (Inr (history groupID cutoff n reader (w_db w)), w)"
  by (simp add: Store_Messages_def groupmessages_List_def ListForMessage_def run_simps collect_select_quiet
      history_def shown_def comp_def rev_map)

lemma Store_Messages_result:
  assumes "Store_Messages groupID cutoff n reader w = (Inr out, w1)"
  shows "out = history groupID cutoff n reader (w_db w)"
proof -
  have "strict (Store_Messages groupID cutoff n reader :: ('z, group_message list) dbm)"
    unfolding Store_Messages_def groupmessages_List_def ListForMessage_def by (intro strict_intros)
  from strictD [OF this assms] show ?thesis by (simp add: Store_Messages_quiet)
qed

lemma scan_message_fields:
  assumes "scan_message d m = Some x"
  shows "msg_ID x = m_id m" "msg_GroupID x = m_group_id m"
    and "0 < m_created_at_nanos m \<Longrightarrow> msg_CreatedAt x = m_created_at_nanos m"
  using assms by (auto simp: scan_message_def split: option.splits)

lemma shown_fields [simp]:
  "msg_ID (shown d reader m) = msg_ID m" "msg_GroupID (shown d reader m) = msg_GroupID m"
  "msg_CreatedAt (shown d reader m) = msg_CreatedAt m"
  by (simp_all add: shown_def)

lemma history_rows:
  assumes "wf_db d" "0 < cutoff"
  shows "map msg_ID (history groupID cutoff n reader d) = rev (map m_id (visible_rows groupID cutoff n d))"
    and "map msg_CreatedAt (history groupID cutoff n reader d) =
      rev (map m_created_at_nanos (visible_rows groupID cutoff n d))"
    and "\<forall>x \<in> set (history groupID cutoff n reader d). msg_GroupID x = groupID"
proof -
  let ?rows = "visible_rows groupID cutoff n d"
  have row: "\<exists>x. scan_message d m = Some x" "0 < m_created_at_nanos m" "m_group_id m = groupID"
    if "m \<in> set ?rows" for m
    using in_limit_order_by [OF that [unfolded visible_rows_def]] assms(2)
    by (auto simp: scan_message_def split: option.split)
  then have scanned: "List.map_filter (scan_message d) ?rows = map (\<lambda>m. the (scan_message d m)) ?rows"
    by (auto simp: map_filter_def intro!: filter_True)
  show "map msg_ID (history groupID cutoff n reader d) = rev (map m_id ?rows)"
    using row(1) scan_message_fields(1) by (fastforce simp: history_def scanned rev_map)
  show "map msg_CreatedAt (history groupID cutoff n reader d) = rev (map m_created_at_nanos ?rows)"
    using row(1,2) scan_message_fields(3) by (fastforce simp: history_def scanned rev_map)
  show "\<forall>x \<in> set (history groupID cutoff n reader d). msg_GroupID x = groupID"
    using row(1,3) scan_message_fields(2) by (fastforce simp: history_def scanned)
qed

text \<open>
  the history window. A page of messages holds messages of the group only, none older than
  the cutoff, each once, oldest first, at most the limit; a message of the window that is
  missing from the page is missing because the page is full and is no newer than any on it.
\<close>

theorem Messages_window:
  assumes wf: "wf_db (w_db w)" and cutoff: "0 < cutoff" and n: "0 \<le> n"
    and run: "Store_Messages groupID cutoff n reader w = (Inr out, w1)"
  shows "sorted (map msg_CreatedAt out) \<and> distinct (map msg_ID out) \<and> int (length out) \<le> n \<and>
    (\<forall>x \<in> set out. msg_GroupID x = groupID \<and> cutoff \<le> msg_CreatedAt x) \<and>
    (\<forall>m \<in> set (t_messages (w_db w)). m_group_id m = groupID \<and> cutoff \<le> m_created_at_nanos m \<and>
        m_id m \<notin> msg_ID ` set out \<longrightarrow>
      int (length out) = n \<and> (\<forall>x \<in> set out. m_created_at_nanos m \<le> msg_CreatedAt x))"
proof -
  let ?d = "w_db w"
  let ?key = "\<lambda>m. (- m_created_at_nanos m, - m_created_at m)"
  let ?in = "filter (\<lambda>m. m_group_id m = groupID \<and> m_created_at_nanos m \<ge> cutoff
          \<and> user_row_of ?d (m_author_id m) \<noteq> None) (t_messages ?d)"
  let ?rows = "visible_rows groupID cutoff n ?d"
  have rows: "?rows = limit_rows n (order_by ?key ?in)" by (simp add: visible_rows_def)
  have out: "out = history groupID cutoff n reader ?d" using Store_Messages_result [OF run] .
  note h = history_rows [OF wf cutoff, of groupID n reader, folded out]
  have len: "length out = length ?rows" using arg_cong [OF h(1), of length] by simp
  have times: "msg_CreatedAt ` set out = m_created_at_nanos ` set ?rows"
    and ids: "msg_ID ` set out = m_id ` set ?rows"
    using arg_cong [OF h(2), of set] arg_cong [OF h(1), of set] by simp_all
  have "sorted (map ?key ?rows)" unfolding rows by (rule sorted_limit_order_by)
  then have "sorted (map msg_CreatedAt out)"
    unfolding h(2) sorted_wrt_rev sorted_map sorted_wrt_map
    by (rule sorted_wrt_mono_rel [rotated]) (auto simp: less_eq_prod_def)
  moreover have "distinct (map msg_ID out)"
    unfolding h(1) rows using wf_keys(11) [OF wf] by (simp add: distinct_limit_order_by)
  moreover have "int (length out) \<le> n"
    using length_limit_rows [OF n] by (simp add: len rows)
  moreover have "cutoff \<le> t" if "t \<in> msg_CreatedAt ` set out" for t
    using that in_limit_order_by unfolding times rows by fastforce
  moreover have "int (length out) = n \<and> (\<forall>t \<in> msg_CreatedAt ` set out. m_created_at_nanos m \<le> t)"
    if m: "m \<in> set (t_messages ?d)" "m_group_id m = groupID" "cutoff \<le> m_created_at_nanos m"
      "m_id m \<notin> msg_ID ` set out" for m
  proof -
    have "m_author_id m \<in> u_id ` set (t_users ?d)"
      using wf m(1) by (auto simp: wf_db_def references_ok_def refs_def)
    then obtain u where "user_row_of ?d (m_author_id m) = Some u" by (rule user_row_exists)
    then have "m \<in> set ?in" using m by simp
    moreover have "m \<notin> set ?rows" using m(4) ids by auto
    ultimately show ?thesis
      using limit_order_by [of m ?in n ?key, folded rows] unfolding times len
      by (fastforce simp: less_eq_prod_def)
  qed
  ultimately show ?thesis using h(3) by blast
qed

section \<open>Sending a message\<close>

lemma attachments_Add_result:
  "for_each attachments_Add items w = (Inr x, w1) \<Longrightarrow>
   w_db w1 = (w_db w)\<lparr>t_attachments := t_attachments (w_db w) @ map attachment_row_of items\<rparr>"
proof (induction items arbitrary: w)
  case (Cons a items)
  obtain w0 where add: "attachments_Add a w = (Inr (), w0)" and rest: "for_each attachments_Add items w0 = (Inr x, w1)"
    using Cons.prems unfolding for_each.simps by (elim andThen_InrE) simp
  have "insert_attachment (attachment_row_of a) (w_db w) = Some (w_db w0)"
    using add unfolding attachments_Add_def by (elim insert_into_InrE)
  then have "w_db w0 = (w_db w)\<lparr>t_attachments := t_attachments (w_db w) @ [attachment_row_of a]\<rparr>"
    by (simp add: insert_attachment_def)
  then show ?case using Cons.IH [OF rest] by simp
qed (simp add: run_simps)

lemma AddMessage_result:
  assumes "AddMessageWithAttachments m items w = (Inr (), w1)"
  shows "\<exists>d. insert_message (message_row_of m) (w_db w) = Some d \<and>
    w_db w1 = touch_group (msg_GroupID m) (unix (msg_CreatedAt m))
      (d\<lparr>t_attachments := t_attachments d @ map attachment_row_of items\<rparr>)"
  using assms unfolding AddMessageWithAttachments_def groupmessages_Add_def
  by (elim transaction_InrE andThen_InrE; elim run_elims; auto dest!: attachments_Add_result)

lemma insert_message_Some:
  "insert_message m d = Some d' \<longleftrightarrow> m_id m \<notin> m_id ` set (t_messages d) \<and> m_group_id m \<in> g_id ` set (t_groups d) \<and>
     m_author_id m \<in> u_id ` set (t_users d) \<and>
     (case m_reply_to_id m of None \<Rightarrow> True | Some i \<Rightarrow> i = m_id m \<or> i \<in> m_id ` set (t_messages d)) \<and>
     d' = d\<lparr>t_messages := t_messages d @ [m]\<rparr>"
  by (cases "m_reply_to_id m")
    (auto simp: insert_message_def list_all_fresh has_user_iff has_group_iff has_message_iff)

lemma touch_group_other [simp]:
  "t_messages (touch_group g t d) = t_messages d" "t_users (touch_group g t d) = t_users d"
  "t_attachments (touch_group g t d) = t_attachments d"
  by (simp_all add: touch_group_def)

lemma touched: "\<forall>row \<in> set (t_groups (touch_group g t d)).
    g_id row = g \<longrightarrow> g_last_activity_at row = t \<and> g_scheduled_for_deletion_at row = None"
  unfolding touch_group_def by simp (rule update_where_all; simp)

lemma Store_Message_found:
  assumes "quiet w" "row_with m_id mid (t_messages (w_db w)) = Some m" "scan_message (w_db w) m = Some x"
  shows "fst (Store_Message mid w) = Inr (x\<lparr>Attachments := message_attachments mid (w_db w)\<rparr>)"
  using assms scan_message_fields(1) [OF assms(3)] row_with_SomeD [OF assms(2)]
  by (simp add: Store_Message_def ListForMessage_def run_simps)

text \<open>
  C35: a message that was sent can be read back: with its id, group, kind, event, body, author,
  the message it answers and its attachments in order, at the instant it was sent; its group
  counts as active from that second and is no longer scheduled for deletion. A message that
  was not sent leaves nothing behind, neither an attachment nor an activity.
\<close>

theorem AddMessage_Message:
  assumes wf: "wf_db (w_db w)" and sent: "0 < msg_CreatedAt m"
    and run: "AddMessageWithAttachments m items w = (res, w1)"
  shows "case res of
      Inl e \<Rightarrow> w_db w1 = w_db w
    | Inr _ \<Rightarrow>
        (quiet w1 \<longrightarrow> (\<exists>r. fst (Store_Message (msg_ID m) w1) = Inr r \<and> msg_ID r = msg_ID m \<and>
          msg_GroupID r = msg_GroupID m \<and> Kind r = (if Kind m = ''system'' then ''system'' else ''chat'') \<and>
          Event r = Event m \<and> Body r = Body m \<and> msg_CreatedAt r = msg_CreatedAt m \<and>
          user_ID (Author r) = user_ID (Author m) \<and>
          map_option ref_ID (ReplyTo r) = map_option ref_ID (ReplyTo m) \<and>
          Attachments r = map as_attachment (order_by (\<lambda>a. (a_created_at a, a_id a))
            (filter (\<lambda>a. a_message_id a = msg_ID m) (map attachment_row_of items))))) \<and>
        (\<forall>g \<in> set (t_groups (w_db w1)). g_id g = msg_GroupID m \<longrightarrow>
          g_last_activity_at g = unix (msg_CreatedAt m) \<and> g_scheduled_for_deletion_at g = None)"
proof (cases res)
  case (Inl e)
  then show ?thesis using run unfolding AddMessageWithAttachments_def by (auto dest: transaction_InlD)
next
  case (Inr x)
  let ?row = "message_row_of m"
  obtain d where d: "insert_message ?row (w_db w) = Some d"
    and db: "w_db w1 = touch_group (msg_GroupID m) (unix (msg_CreatedAt m))
      (d\<lparr>t_attachments := t_attachments d @ map attachment_row_of items\<rparr>)"
    using AddMessage_result run Inr by (metis (full_types) old.unit.exhaust)
  have fields: "m_id ?row = msg_ID m" "m_author_id ?row = user_ID (Author m)"
    "m_reply_to_id ?row = map_option ref_ID (ReplyTo m)"
    by (simp_all add: message_row_of_def)
  have ins: "msg_ID m \<notin> m_id ` set (t_messages (w_db w))" "user_ID (Author m) \<in> u_id ` set (t_users (w_db w))"
    "d = (w_db w)\<lparr>t_messages := t_messages (w_db w) @ [?row]\<rparr>"
    "\<And>r. ReplyTo m = Some r \<Longrightarrow> ref_ID r = msg_ID m \<or> ref_ID r \<in> m_id ` set (t_messages (w_db w))"
    using d unfolding insert_message_Some fields by auto
  have old: "t_users (w_db w1) = t_users (w_db w)" "t_messages (w_db w1) = t_messages (w_db w) @ [?row]"
    "t_attachments (w_db w1) = t_attachments (w_db w) @ map attachment_row_of items"
    by (simp_all add: db ins(3))
  have "a_message_id ` set (t_attachments (w_db w)) \<subseteq> m_id ` set (t_messages (w_db w))"
    using wf by (simp add: wf_db_def references_ok_def refs_def)
  then have none: "filter (\<lambda>a. a_message_id a = msg_ID m) (t_attachments (w_db w)) = []"
    using ins(1) unfolding filter_empty_conv by (metis image_eqI subsetD)
  obtain u where u: "user_row_of (w_db w1) (user_ID (Author m)) = Some u" "u_id u = user_ID (Author m)"
    using ins(2) old(1) by (metis user_row_exists)
  have row: "row_with m_id (msg_ID m) (t_messages (w_db w1)) = Some ?row"
    using ins(1) row_with_None [of m_id "msg_ID m" "t_messages (w_db w)"] by (simp add: old fields)
  have reply: "\<exists>rm. row_with m_id (ref_ID r) (t_messages (w_db w1)) = Some rm \<and> m_id rm = ref_ID r"
    if "ReplyTo m = Some r" for r
  proof -
    have "ref_ID r \<in> m_id ` set (t_messages (w_db w1))"
      using ins(4) [OF that] by (auto simp: old fields)
    then show ?thesis
      using row_with_None [of m_id "ref_ID r"] row_with_SomeD [of m_id "ref_ID r" "t_messages (w_db w1)"]
      by (cases "row_with m_id (ref_ID r) (t_messages (w_db w1))") auto
  qed
  obtain y where y: "scan_message (w_db w1) ?row = Some y" by (simp add: scan_message_def message_row_of_def u)
  have "msg_ID y = msg_ID m" "msg_GroupID y = msg_GroupID m" "Kind y = (if Kind m = ''system'' then ''system'' else ''chat'')"
    "Event y = Event m" "Body y = Body m" "msg_CreatedAt y = msg_CreatedAt m" "user_ID (Author y) = user_ID (Author m)"
    "map_option ref_ID (ReplyTo y) = map_option ref_ID (ReplyTo m)"
    using y sent u reply
    by (auto simp: scan_message_def message_row_of_def reference_of_def split: option.splits)
  moreover have "message_attachments (msg_ID m) (w_db w1) = map as_attachment (order_by (\<lambda>a. (a_created_at a, a_id a))
            (filter (\<lambda>a. a_message_id a = msg_ID m) (map attachment_row_of items)))"
    by (simp add: message_attachments_def old none)
  moreover have "\<forall>g \<in> set (t_groups (w_db w1)). g_id g = msg_GroupID m \<longrightarrow>
          g_last_activity_at g = unix (msg_CreatedAt m) \<and> g_scheduled_for_deletion_at g = None"
    unfolding db by (rule touched)
  ultimately show ?thesis using Inr Store_Message_found [OF _ row y] by simp
qed

section \<open>Reading up to a message\<close>

lemma find_SomeD: "find P xs = Some x \<Longrightarrow> x \<in> set xs \<and> P x"
  by (auto simp: find_Some_iff)

lemma MarkGroupMessagesRead_result:
  assumes "MarkGroupMessagesRead groupID userID messageID now w = (Inr receipts, w1)"
  shows "\<exists>m \<in> set (t_messages (w_db w)). m_id m = messageID \<and> m_group_id m = groupID \<and>
    read_messages groupID userID (unix now) (m_created_at m) (w_db w) = Some (w_db w1) \<and>
    receipts = read_receipts groupID userID (m_created_at m) (w_db w1)"
  using assms unfolding MarkGroupMessagesRead_def
  by (elim transaction_InrE andThen_InrE select_InrE; simp split: option.splits; elim run_elims;
      force simp: run_simps dest: find_SomeD)

definition window :: "string \<Rightarrow> int \<Rightarrow> database \<Rightarrow> message_row list" where
  "window groupID created d =
     filter (\<lambda>m. m_group_id m = groupID \<and> m_created_at m \<le> created) (t_messages d)"

lemma read_messages_covers:
  assumes "read_messages g u now created d = Some d'"
  shows "\<exists>new. t_reads d' = t_reads d @ new \<and> t_messages d' = t_messages d \<and>
    (\<forall>r \<in> set new. rd_user_id r = u \<and> rd_read_at r = now \<and> rd_message_id r \<in> m_id ` set (window g created d)) \<and>
    (\<forall>m \<in> set (window g created d). list_ex (\<lambda>r. rd_key r = (m_id m, u)) (t_reads d'))"
proof -
  let ?seen = "\<lambda>m. list_ex (\<lambda>r. rd_key r = (m_id m, u)) (t_reads d)"
  let ?new = "map (\<lambda>m. \<lparr>rd_message_id = m_id m, rd_user_id = u, rd_read_at = now\<rparr>)
      (filter (\<lambda>m. \<not> ?seen m) (window g created d))"
  have d': "d' = d\<lparr>t_reads := t_reads d @ ?new\<rparr>"
    using assms by (simp add: read_messages_def Let_def window_def)
  have "list_ex (\<lambda>r. rd_key r = (m_id m, u)) (t_reads d @ ?new)" if "m \<in> set (window g created d)" for m
  proof (cases "?seen m")
    case False
    with that have "list_ex (\<lambda>r. rd_key r = (m_id m, u)) ?new" by (auto simp: list_ex_iff)
    then show ?thesis by simp
  qed simp
  then show ?thesis unfolding d' by (intro exI [of _ ?new]) auto
qed

text \<open>
  reading is complete and monotone. After marking a message read the caller has read it and
  every message of the group that is as old, no receipt of anybody is lost, the new ones are
  the caller's, on such messages, at that second; the answer names exactly the messages of
  others up to there, so their authors can be told.
\<close>

theorem MarkGroupMessagesRead_covers:
  assumes run: "MarkGroupMessagesRead groupID userID messageID now w = (Inr receipts, w1)"
  shows "\<exists>target \<in> set (t_messages (w_db w)). m_id target = messageID \<and> m_group_id target = groupID \<and>
    (let page = window groupID (m_created_at target) (w_db w) in
     (\<forall>m \<in> set page. list_ex (\<lambda>r. rd_key r = (m_id m, userID)) (t_reads (w_db w1))) \<and>
     (\<exists>new. t_reads (w_db w1) = t_reads (w_db w) @ new \<and> (\<forall>r \<in> set new. rd_user_id r = userID \<and>
        rd_read_at r = unix now \<and> rd_message_id r \<in> m_id ` set page)) \<and>
     receipts = map (\<lambda>m. \<lparr>receipt_MessageID = m_id m, receipt_AuthorID = m_author_id m\<rparr>)
       (filter (\<lambda>m. m_author_id m \<noteq> userID) page))"
proof -
  obtain t where t: "t \<in> set (t_messages (w_db w))" "m_id t = messageID" "m_group_id t = groupID"
    and ins: "read_messages groupID userID (unix now) (m_created_at t) (w_db w) = Some (w_db w1)"
    and out: "receipts = read_receipts groupID userID (m_created_at t) (w_db w1)"
    using MarkGroupMessagesRead_result [OF run] by blast
  let ?page = "window groupID (m_created_at t) (w_db w)"
  obtain new where new: "t_reads (w_db w1) = t_reads (w_db w) @ new" "t_messages (w_db w1) = t_messages (w_db w)"
    "\<forall>r \<in> set new. rd_user_id r = userID \<and> rd_read_at r = unix now \<and> rd_message_id r \<in> m_id ` set ?page"
    and covered: "\<forall>m \<in> set ?page. list_ex (\<lambda>r. rd_key r = (m_id m, userID)) (t_reads (w_db w1))"
    using read_messages_covers [OF ins] by blast
  have "receipts = map (\<lambda>m. \<lparr>receipt_MessageID = m_id m, receipt_AuthorID = m_author_id m\<rparr>)
       (filter (\<lambda>m. m_author_id m \<noteq> userID) ?page)"
    unfolding out read_receipts_def new(2) window_def filter_filter
    using covered by (intro arg_cong [where f = "map _"] filter_cong) (auto simp: window_def)
  then show ?thesis
    using t new(1,3) covered by (intro bexI [OF _ t(1)]) (simp add: Let_def)
qed

section \<open>Cooldowns climb\<close>

lemma RecordMessageViolation_result:
  assumes "RecordMessageViolation groupID userID now durations w = (Inr until, w1)" "durations \<noteq> []"
  shows "\<exists>previous level. (previous = 0 \<or> (\<exists>c. row_with cd_key (groupID, userID) (t_cooldowns (w_db w)) = Some c
        \<and> unix now - cd_last_violation c \<le> 86400 \<and> previous = cd_level c)) \<and>
    level = min (previous + 1) (int (length durations)) \<and> 1 \<le> level \<and>
    until = now + durations ! nat (level - 1) \<and>
    upsert_cooldown \<lparr>cd_group_id = groupID, cd_user_id = userID, cd_level = level, cd_until = unix until,
       cd_last_violation = unix now\<rparr> (w_db w) = Some (w_db w1)"
  using assms(1) unfolding RecordMessageViolation_def Let_def if_not_P [OF assms(2)]
  by (elim transaction_InrE andThen_InrE attempt_select_E;
      simp split: option.splits if_splits; elim run_elims; force simp: run_simps)

definition recent_level :: "string \<Rightarrow> string \<Rightarrow> time \<Rightarrow> database \<Rightarrow> int" where
  "recent_level groupID userID now d =
     (case row_with cd_key (groupID, userID) (t_cooldowns d) of
        None \<Rightarrow> 0
      | Some c \<Rightarrow> if unix now - cd_last_violation c > 86400 then 0 else cd_level c)"

lemma RecordMessageViolation_quiet:
  "quiet w \<Longrightarrow> durations \<noteq> [] \<Longrightarrow>
   RecordMessageViolation groupID userID now durations w = (Inr until, w1) \<Longrightarrow>
   until = now + durations ! nat (min (recent_level groupID userID now (w_db w) + 1) (int (length durations)) - 1)"
  by (auto simp: RecordMessageViolation_def recent_level_def transaction_quiet run_simps Let_def
      split: option.splits if_splits)

text \<open>
  spam cools down. A violation mutes its author in that group until the instant it returns:
  one of the configured durations from now, one step further than the previous violation of
  the last 24 hours and never past the last step; \<^verbatim>\<open>MessageCooldown\<close> reports the mute
  until that second and none afterwards.
\<close>

theorem RecordMessageViolation_cooldown:
  assumes run: "RecordMessageViolation groupID userID now durations w = (Inr until, w1)"
    and steps: "durations \<noteq> []" and "quiet w1"
  shows "(\<exists>k < length durations. until = now + durations ! k) \<and>
    (quiet w \<longrightarrow> until = now + durations !
       nat (min (recent_level groupID userID now (w_db w) + 1) (int (length durations)) - 1)) \<and>
    fst (MessageCooldown groupID userID now2 w1) =
      Inr (if unix until \<le> unix now2 then zero_time else of_unix (unix until))"
proof -
  obtain previous level where level: "level = min (previous + 1) (int (length durations))" "1 \<le> level"
    and until: "until = now + durations ! nat (level - 1)"
    and put: "upsert_cooldown \<lparr>cd_group_id = groupID, cd_user_id = userID, cd_level = level, cd_until = unix until,
       cd_last_violation = unix now\<rparr> (w_db w) = Some (w_db w1)"
    using RecordMessageViolation_result [OF run steps] by blast
  have "t_cooldowns (w_db w1) = upsert cd_key \<lparr>cd_group_id = groupID, cd_user_id = userID, cd_level = level,
      cd_until = unix until, cd_last_violation = unix now\<rparr> (t_cooldowns (w_db w))"
    using put by (auto simp: upsert_cooldown_def dest: sym)
  then obtain c where row: "row_with cd_key (groupID, userID) (t_cooldowns (w_db w1)) = Some c" "cd_until c = unix until"
    by simp
  have "nat (level - 1) < length durations" using level by linarith
  moreover have "fst (MessageCooldown groupID userID now2 w1) =
      Inr (if unix until \<le> unix now2 then zero_time else of_unix (unix until))"
    using \<open>quiet w1\<close> row by (simp add: MessageCooldown_def run_simps)
  ultimately show ?thesis
    using until RecordMessageViolation_quiet [OF _ steps run] by blast
qed

section \<open>A chat, concretely\<close>

definition hello :: message_row where
  "hello = \<lparr>m_id = ''m1'', m_group_id = ''g'', m_author_id = ''u1'', m_body = ''Hi'', m_created_at = 60,
     m_reply_to_id = None, m_kind = ''chat'', m_event = [], m_created_at_nanos = 60 * second\<rparr>"

definition chat_db :: database where
  "chat_db = voice_db\<lparr>t_messages := [hello]\<rparr>"

lemmas chat_example = chat_db_def hello_def voice_db_def room_example

lemma chat_db_wf [simp]: "wf_db chat_db"
  by (simp add: chat_example wf_db_def keys_unique_def references_ok_def replies_ok_def refs_def)

lemma chat_db_rows [simp]:
  "t_messages chat_db = [hello]" "t_reads chat_db = []" "t_attachments chat_db = []" "t_cooldowns chat_db = []"
  "has_user chat_db u \<longleftrightarrow> u = ''u1'' \<or> u = ''u2''" "has_group chat_db g \<longleftrightarrow> g = ''g''"
  by (auto simp: chat_example has_group_def)

lemma Messages_window_witness:
  "sorted (map msg_CreatedAt (history ''g'' second 10 ''u2'' chat_db))"
proof -
  have "Store_Messages ''g'' second 10 ''u2'' (running chat_db) =
      (Inr (history ''g'' second 10 ''u2'' chat_db), running chat_db)"
    by (simp add: Store_Messages_quiet)
  from Messages_window [OF _ _ _ this] show ?thesis by simp
qed

definition answer :: group_message where
  "answer = \<lparr>msg_ID = ''m2'', msg_GroupID = ''g'', Kind = ''chat'', Event = [], Author = no_user\<lparr>user_ID := ''u2''\<rparr>,
     Body = ''Hello'', msg_CreatedAt = 2 * minute,
     ReplyTo = Some \<lparr>ref_ID = ''m1'', ref_Kind = [], ref_Event = [], ref_Author = no_user, ref_Body = []\<rparr>,
     Read = False, Attachments = []\<rparr>"

lemma AddMessage_Message_witness:
  "\<exists>r. fst (Store_Message ''m2'' (snd (AddMessageWithAttachments answer [] (running chat_db)))) = Inr r
    \<and> Body r = ''Hello''"
proof -
  have "fst (AddMessageWithAttachments answer [] (running chat_db)) = Inr ()"
    and q: "quiet (snd (AddMessageWithAttachments answer [] (running chat_db)))"
    by (simp_all add: AddMessageWithAttachments_def groupmessages_Add_def transaction_quiet run_simps
        insert_message_def message_row_of_def answer_def hello_def has_message_def no_user_def)
  from AddMessage_Message [OF _ _ run_result [OF this(1)]] q show ?thesis
    by (auto simp: answer_def)
qed

lemma MarkGroupMessagesRead_covers_witness:
  "list_ex (\<lambda>r. rd_key r = (''m1'', ''u2''))
     (t_reads (w_db (snd (MarkGroupMessagesRead ''g'' ''u2'' ''m1'' minute (running chat_db)))))"
proof -
  have "\<exists>rs. fst (MarkGroupMessagesRead ''g'' ''u2'' ''m1'' minute (running chat_db)) = Inr rs"
    by (simp add: MarkGroupMessagesRead_def transaction_quiet run_simps read_messages_def Let_def hello_def)
  then obtain rs where "fst (MarkGroupMessagesRead ''g'' ''u2'' ''m1'' minute (running chat_db)) = Inr rs" ..
  from MarkGroupMessagesRead_covers [OF run_result [OF this]] show ?thesis
    by (simp add: Let_def window_def) (simp add: hello_def)
qed

lemma RecordMessageViolation_cooldown_witness:
  "fst (MessageCooldown ''g'' ''u2'' (2 * minute)
      (snd (RecordMessageViolation ''g'' ''u2'' minute [5 * minute, hour] (running chat_db)))) = Inr (6 * minute)"
proof -
  have "fst (RecordMessageViolation ''g'' ''u2'' minute [5 * minute, hour] (running chat_db)) = Inr (6 * minute)"
    and q: "quiet (snd (RecordMessageViolation ''g'' ''u2'' minute [5 * minute, hour] (running chat_db)))"
    by (simp_all add: RecordMessageViolation_def transaction_quiet run_simps upsert_cooldown_def Let_def)
  from RecordMessageViolation_cooldown [OF run_result [OF this(1)] _ q, of "2 * minute"]
  show ?thesis by (simp add: of_unix_def)
qed

end
