(* ===== verification/GroupStore.thy ===== *)
theory GroupStore
  imports Messages Runtime
begin

text \<open>
  The groups of the store: \<^verbatim>\<open>store/groups.go\<close> (creation, membership, listing),
  \<^verbatim>\<open>store/group_profiles.go\<close> (members, removal, the cleanup of inactive groups) and
  \<^verbatim>\<open>store/group_security.go\<close> (join events, the detection of join attacks, isolation).
  \<^verbatim>\<open>scanGroup\<close> and \<^verbatim>\<open>removeCandidates\<close> read \<^verbatim>\<open>time.Now()\<close>, the clock of the
  runtime.
\<close>

section \<open>Creation and membership\<close>

record new_group =
  ng_ID :: string
  ng_Visibility :: string
  ng_OwnerID :: string
  ng_Name :: string
  ng_Avatar :: string
  ng_InviteToken :: string

definition owned_groups :: "string \<Rightarrow> database \<Rightarrow> int" where
  "owned_groups userID d = count_rows (\<lambda>g. g_owner_id g = userID) (t_groups d)"

definition group_row_of :: "new_group \<Rightarrow> int \<Rightarrow> group_row" where
  "group_row_of new now =
     \<lparr>g_id = ng_ID new, g_visibility = ng_Visibility new, g_owner_id = ng_OwnerID new, g_name = ng_Name new,
      g_avatar = ng_Avatar new, g_invite_token = ng_InviteToken new, g_created_at = now,
      g_last_activity_at = now, g_scheduled_for_deletion_at = None, g_protected_from_auto_delete = 0,
      g_isolated_until = 0, g_isolation_level = 0, g_isolation_raised_at = 0\<rparr>"

definition Store_CreateGroup :: "new_group \<Rightarrow> time \<Rightarrow> int \<Rightarrow> ('z, unit) dbm" where
  "Store_CreateGroup new now maxOwned = transaction
     (andThen
        (if maxOwned > 0 then
           andThen (select (owned_groups (ng_OwnerID new))) (\<lambda>owned.
           if owned \<ge> maxOwned then raise ErrGroupLimit else ret ())
         else ret ()) (\<lambda>_.
      andThen (map_error conflict_error (insert_into (insert_group (group_row_of new (unix now))))) (\<lambda>_.
      andThen (insert_into (insert_group_member
        \<lparr>gm_group_id = ng_ID new, gm_user_id = ng_OwnerID new, gm_joined_at = unix now,
         gm_joined_at_nanos = 0\<rparr>)) (\<lambda>_.
      ret (Commit ())))))"

definition CountUserGroups :: "string \<Rightarrow> ('z, int) dbm" where
  "CountUserGroups userID = select (owned_groups userID)"

definition group_member_of :: "string \<Rightarrow> string \<Rightarrow> database \<Rightarrow> bool" where
  "group_member_of groupID userID d \<longleftrightarrow> list_ex (\<lambda>m. gm_key m = (groupID, userID)) (t_group_members d)"

definition IsGroupMember :: "string \<Rightarrow> string \<Rightarrow> ('z, bool) dbm" where
  "IsGroupMember groupID userID =
     andThen (select (\<lambda>d. count_rows (\<lambda>m. gm_key m = (groupID, userID)) (t_group_members d))) (\<lambda>n.
     ret (n > 0))"

definition GroupMemberJoinedAt :: "string \<Rightarrow> string \<Rightarrow> ('z, time) dbm" where
  "GroupMemberJoinedAt groupID userID =
     andThen (select (\<lambda>d. row_with gm_key (groupID, userID) (t_group_members d))) (\<lambda>row.
     case row of
       None \<Rightarrow> raise ErrNotFound
     | Some m \<Rightarrow>
         if gm_joined_at_nanos m > 0 then ret (gm_joined_at_nanos m) else ret (of_unix (gm_joined_at m)))"

definition GroupMemberIDs :: "string \<Rightarrow> ('z, string list) dbm" where
  "GroupMemberIDs groupID =
     select (\<lambda>d. map gm_user_id (filter (\<lambda>m. gm_group_id m = groupID) (t_group_members d)))"

text \<open>\<^verbatim>\<open>INSERT INTO group_members ... SELECT id, ... FROM groups WHERE id = ?\<close>: no row for a
  missing group.\<close>

definition join_row :: "string \<Rightarrow> string \<Rightarrow> time \<Rightarrow> database \<Rightarrow> sql_error + int \<times> database" where
  "join_row groupID userID now d =
     (if \<not> has_group d groupID then Inr (0, d)
      else
        (case insert_group_member
            \<lparr>gm_group_id = groupID, gm_user_id = userID, gm_joined_at = unix now, gm_joined_at_nanos = now\<rparr> d of
           None \<Rightarrow> Inl SqlConstraint
         | Some d' \<Rightarrow> Inr (1, d')))"

definition Store_JoinGroup :: "string \<Rightarrow> string \<Rightarrow> time \<Rightarrow> ('z, unit) dbm" where
  "Store_JoinGroup groupID userID now =
     andThen (attempt (stmt (join_row groupID userID now))) (\<lambda>r.
     case r of
       Inl e \<Rightarrow> if isConstraint e then ret () else raise e
     | Inr n \<Rightarrow> if n = 0 then raise ErrNotFound else ret ())"

section \<open>Reading groups\<close>

text \<open>A row of \<^verbatim>\<open>SELECT groupFields FROM groups g JOIN users u ON u.id=g.owner_id\<close>.\<close>

definition group_fields :: "database \<Rightarrow> group_row \<Rightarrow> (group_row \<times> user_row \<times> int) option" where
  "group_fields d g = map_option
     (\<lambda>u. (g, u, count_rows (\<lambda>m. gm_group_id m = g_id g) (t_group_members d)))
     (user_row_of d (g_owner_id g))"

definition scanGroup ::
  "(group_row \<times> user_row \<times> int) option \<Rightarrow> ('z runtime_scheme, store_error, group) action" where
  "scanGroup row =
     (case row of
        None \<Rightarrow> raise ErrNotFound
      | Some (g, u, members) \<Rightarrow>
          andThen clock (\<lambda>now.
          let blocked = (g_isolated_until g > unix now) in
          ret \<lparr>group_ID = g_id g, Visibility = g_visibility g, Owner = named_user u, Name = g_name g,
               group_Avatar = g_avatar g, InviteToken = g_invite_token g,
               group_CreatedAt = of_unix (g_created_at g), LastActivityAt = of_unix (g_last_activity_at g),
               MemberCount = members, OnlineCount = 0, LastMessage = None, VoiceRooms = [],
               JoinBlocked = blocked,
               JoinBlockedUntil = (if blocked then Some (of_unix (g_isolated_until g)) else None),
               HistoryVisibleFrom = None\<rparr>))"

definition group_voice_rows :: "string \<Rightarrow> database \<Rightarrow> group_voice_room list" where
  "group_voice_rows groupID d = map (as_voice_room d)
     (order_by vr_created_at (filter (\<lambda>v. vr_group_id v = groupID) (t_voice_rooms d)))"

definition last_message :: "string \<Rightarrow> database \<Rightarrow> group_message option" where
  "last_message groupID d =
     (case order_by (\<lambda>p. (- m_created_at_nanos (fst p), - m_created_at (fst p)))
         (List.map_filter (\<lambda>m. map_option (\<lambda>u. (m, u)) (user_row_of d (m_author_id m)))
           (filter (\<lambda>m. m_group_id m = groupID) (t_messages d))) of
        [] \<Rightarrow> None
      | (m, u) # _ \<Rightarrow> Some
          \<lparr>msg_ID = m_id m, msg_GroupID = m_group_id m, Kind = m_kind m, Event = m_event m,
           Author = dated_user u, Body = m_body m, msg_CreatedAt = of_unix (m_created_at m),
           ReplyTo = None, Read = False, Attachments = []\<rparr>)"

definition hydrateGroup :: "group \<Rightarrow> ('z, group) dbm" where
  "hydrateGroup g =
     andThen (select (group_voice_rows (group_ID g))) (\<lambda>rooms.
     andThen (select (last_message (group_ID g))) (\<lambda>m.
     ret (g\<lparr>VoiceRooms := rooms, LastMessage := m\<rparr>)))"

definition Store_Group :: "string \<Rightarrow> ('z runtime_scheme, store_error, group) action" where
  "Store_Group gid =
     andThen (select (\<lambda>d. case row_with g_id gid (t_groups d) of
        None \<Rightarrow> None | Some g \<Rightarrow> group_fields d g)) (\<lambda>row.
     andThen (scanGroup row) hydrateGroup)"

definition GroupByInvite :: "string \<Rightarrow> ('z runtime_scheme, store_error, group) action" where
  "GroupByInvite token =
     andThen (select (\<lambda>d. case row_with g_invite_token token (t_groups d) of
        None \<Rightarrow> None | Some g \<Rightarrow> group_fields d g)) (\<lambda>row.
     andThen (scanGroup row) hydrateGroup)"

definition listGroups ::
  "(database \<Rightarrow> group_row list) \<Rightarrow> ('z runtime_scheme, store_error, group list) action" where
  "listGroups tail =
     andThen (select (\<lambda>d. List.map_filter (group_fields d) (tail d))) (\<lambda>rows.
     andThen (collect (\<lambda>row. scanGroup (Some row)) rows) (\<lambda>result.
     collect hydrateGroup result))"

definition UserGroups :: "string \<Rightarrow> ('z runtime_scheme, store_error, group list) action" where
  "UserGroups userID = listGroups (\<lambda>d.
     order_by (\<lambda>g. - g_last_activity_at g)
       (filter (\<lambda>g. group_member_of (g_id g) userID d) (t_groups d)))"

text \<open>
  SQLite's \<^verbatim>\<open>LIKE\<close>: \<^verbatim>\<open>%\<close> stands for any characters, \<^verbatim>\<open>_\<close> for one, the
  letters of ASCII match either case. A character is a byte here; \<^verbatim>\<open>_\<close> matching one
  character of several bytes is not modelled.
\<close>

fun sql_like :: "string \<Rightarrow> string \<Rightarrow> bool" where
  "sql_like [] s = (s = [])"
| "sql_like (c # p) s =
     (if c = CHR ''%'' then list_ex (\<lambda>k. sql_like p (drop k s)) [0..<Suc (length s)]
      else
        (case s of
           [] \<Rightarrow> False
         | x # xs \<Rightarrow> (c = CHR ''_'' \<or> sql_lower [c] = sql_lower [x]) \<and> sql_like p xs))"

text \<open>\<open>lower\<close> is Go's \<^verbatim>\<open>strings.ToLower\<close>, whose Unicode tables are a parameter.\<close>

definition DiscoverGroups ::
  "(string \<Rightarrow> string) \<Rightarrow> string \<Rightarrow> int \<Rightarrow> int \<Rightarrow> int \<Rightarrow> ('z runtime_scheme, store_error, group list) action" where
  "DiscoverGroups lower q minMembers n offset = listGroups (\<lambda>d.
     limit_rows n (drop (nat offset) (order_by (\<lambda>g. - g_last_activity_at g)
       (filter (\<lambda>g. g_visibility g = ''public'' \<and> sql_like (''%'' @ lower q @ ''%'') (sql_lower (g_name g))
          \<and> count_rows (\<lambda>m. gm_group_id m = g_id g) (t_group_members d) \<ge> minMembers
          \<and> user_row_of d (g_owner_id g) \<noteq> None) (t_groups d)))))"

definition Store_GroupMembers :: "string \<Rightarrow> string \<Rightarrow> ('z, group_member list) dbm" where
  "Store_GroupMembers groupID ownerID = select (\<lambda>d.
     map (\<lambda>(m, u). \<lparr>gmember = \<lparr>member_ID = u_id u, member_DisplayName = u_display_name u,
              member_Avatar = u_avatar u, JoinedAt = of_unix (gm_joined_at m)\<rparr>,
            Role = (if u_id u = ownerID then ''owner'' else ''member'')\<rparr>)
       (order_by (\<lambda>p. (gm_joined_at (fst p), u_display_name (snd p)))
         (List.map_filter (\<lambda>m. map_option (\<lambda>u. (m, u)) (user_row_of d (gm_user_id m)))
           (filter (\<lambda>m. gm_group_id m = groupID) (t_group_members d)))))"

section \<open>Leaving and deleting\<close>

definition Store_DeleteGroup :: "string \<Rightarrow> ('z, unit) dbm" where
  "Store_DeleteGroup groupID =
     andThen (exec_count (\<lambda>d. (count_rows (\<lambda>g. g_id g = groupID) (t_groups d),
       delete_groups (\<lambda>g. g_id g = groupID) d))) (\<lambda>count.
     if count = 0 then raise ErrNotFound else ret ())"

definition drop_member :: "string \<Rightarrow> string \<Rightarrow> database \<Rightarrow> int \<times> database" where
  "drop_member groupID userID d =
     (count_rows (\<lambda>m. gm_key m = (groupID, userID)) (t_group_members d),
      d\<lparr>t_group_members := filter (\<lambda>m. gm_key m \<noteq> (groupID, userID)) (t_group_members d)\<rparr>)"

definition Store_LeaveGroup :: "string \<Rightarrow> string \<Rightarrow> ('z, unit) dbm" where
  "Store_LeaveGroup groupID userID =
     andThen (exec_count (drop_member groupID userID)) (\<lambda>count.
     if count = 0 then raise ErrNotFound else ret ())"

definition drop_from_voice :: "string \<Rightarrow> string \<Rightarrow> database \<Rightarrow> database" where
  "drop_from_voice groupID userID d = d\<lparr>t_voice_members :=
     filter (\<lambda>m. \<not> (vm_user_id m = userID
        \<and> list_ex (\<lambda>v. vr_id v = vm_voice_room_id m \<and> vr_group_id v = groupID) (t_voice_rooms d)))
       (t_voice_members d)\<rparr>"

definition RemoveGroupMember :: "string \<Rightarrow> string \<Rightarrow> ('z, unit) dbm" where
  "RemoveGroupMember groupID userID = transaction
     (andThen (exec_count (drop_member groupID userID)) (\<lambda>count.
      if count = 0 then raise ErrNotFound
      else
      andThen (exec (drop_from_voice groupID userID)) (\<lambda>_.
      ret (Commit ()))))"

section \<open>Inactive groups\<close>

text \<open>\<^verbatim>\<open>length(text)\<close> of SQLite counts the characters of the UTF-8 text up to a NUL.\<close>

definition sql_length :: "string \<Rightarrow> int" where
  "sql_length s = int (length (filter (\<lambda>c. (of_char c :: nat) div 64 \<noteq> 2)
     (takeWhile (\<lambda>c. (of_char c :: nat) \<noteq> 0) s)))"

record inactive_group_candidate =
  candidate_ID :: string
  candidate_Reason :: string
  candidate_MessageCount :: int
  EstimatedStoredBytes :: int
  ScheduledForDeletion :: "time option"

definition idle_groups :: "int \<Rightarrow> int \<Rightarrow> database \<Rightarrow> group_row list" where
  "idle_groups cutoff n d = limit_rows n (order_by g_last_activity_at
     (filter (\<lambda>g. g_protected_from_auto_delete g = 0 \<and> g_last_activity_at g < cutoff) (t_groups d)))"

definition InactiveGroupCandidates :: "time \<Rightarrow> int \<Rightarrow> ('z, inactive_group_candidate list) dbm" where
  "InactiveGroupCandidates cutoff n = select (\<lambda>d.
     map (\<lambda>g. let ms = filter (\<lambda>m. m_group_id m = g_id g) (t_messages d) in
        \<lparr>candidate_ID = g_id g,
         candidate_Reason = (if ms \<noteq> [] then ''last_message_older_than_retention''
                             else ''empty_group_older_than_retention''),
         candidate_MessageCount = int (length ms),
         EstimatedStoredBytes = sql_length (g_avatar g) + sum_list (map (\<lambda>m. sql_length (m_body m)) ms),
         ScheduledForDeletion = map_option of_unix (g_scheduled_for_deletion_at g)\<rparr>)
       (idle_groups (unix cutoff) n d))"

definition unscheduled_groups :: "int \<Rightarrow> int \<Rightarrow> database \<Rightarrow> string list" where
  "unscheduled_groups cutoff n d = map g_id (limit_rows n (order_by g_last_activity_at
     (filter (\<lambda>g. g_protected_from_auto_delete g = 0 \<and> g_scheduled_for_deletion_at g = None
        \<and> g_last_activity_at g < cutoff) (t_groups d))))"

definition ScheduleInactiveGroups :: "time \<Rightarrow> time \<Rightarrow> int \<Rightarrow> ('z, int) dbm" where
  "ScheduleInactiveGroups cutoff scheduledAt n = exec_count (\<lambda>d.
     let ids = unscheduled_groups (unix cutoff) n d; chosen = (\<lambda>g. List.member ids (g_id g)) in
     (count_rows chosen (t_groups d),
      d\<lparr>t_groups := update_where chosen
        (\<lambda>g. g\<lparr>g_scheduled_for_deletion_at := Some (unix scheduledAt)\<rparr>) (t_groups d)\<rparr>))"

definition due_at :: "int \<Rightarrow> int \<Rightarrow> group_row \<Rightarrow> bool" where
  "due_at now inactiveBefore g \<longleftrightarrow> g_protected_from_auto_delete g = 0 \<and>
     (case g_scheduled_for_deletion_at g of None \<Rightarrow> False | Some t \<Rightarrow> t \<le> now) \<and>
     g_last_activity_at g < inactiveBefore"

definition due_groups :: "int \<Rightarrow> int \<Rightarrow> int \<Rightarrow> database \<Rightarrow> string list" where
  "due_groups now inactiveBefore n d = map g_id (limit_rows n
     (order_by (\<lambda>g. the (g_scheduled_for_deletion_at g)) (filter (due_at now inactiveBefore) (t_groups d))))"

definition delete_group :: "string \<Rightarrow> ('z, unit) dbm" where
  "delete_group gid = exec (delete_groups (\<lambda>g. g_id g = gid))"

definition DeleteScheduledGroups :: "time \<Rightarrow> time \<Rightarrow> int \<Rightarrow> ('z, string list) dbm" where
  "DeleteScheduledGroups now inactiveBefore n = transaction
     (andThen (select (due_groups (unix now) (unix inactiveBefore) n)) (\<lambda>ids.
      andThen (for_each delete_group ids) (\<lambda>_.
      ret (Commit ids))))"

definition inactive_purge :: "time \<Rightarrow> int \<Rightarrow> ('z, string list tx_end) dbm" where
  "inactive_purge cutoff n =
     andThen (select (\<lambda>d. map g_id (idle_groups (unix cutoff) n d))) (\<lambda>ids.
     andThen (for_each delete_group ids) (\<lambda>_.
     ret (Commit ids)))"

definition DeleteInactiveGroupsNow :: "time \<Rightarrow> int \<Rightarrow> ('z, string list) dbm" where
  "DeleteInactiveGroupsNow cutoff n = transaction (inactive_purge cutoff n)"

text \<open>\<^verbatim>\<open>return ids, tx.Commit()\<close>: what a caller sees who looks at the identifiers only.\<close>

definition purged_ids :: "time \<Rightarrow> int \<Rightarrow> ('z, string list) dbm" where
  "purged_ids cutoff n = transaction_value (inactive_purge cutoff n)"

section \<open>Join attacks\<close>

definition joinAnalysisWindow :: duration where
  "joinAnalysisWindow = 5 * minute"

definition isolationDurations :: "duration list" where
  "isolationDurations = [5 * minute, 10 * minute, hour, 5 * hour, 24 * hour, 3 * (24 * hour)]"

definition RecordJoinEvent :: "string \<Rightarrow> string \<Rightarrow> string \<Rightarrow> bool \<Rightarrow> time \<Rightarrow> ('z, unit) dbm" where
  "RecordJoinEvent groupID userID ip successful now =
     andThen (insert_into (insert_join_event
       \<lparr>je_group_id = groupID, je_user_id = userID, je_ip = ip, je_joined_at = unix now,
        je_successful = successful\<rparr>)) (\<lambda>_.
     ignoring (exec (\<lambda>d. d\<lparr>t_join_events :=
       filter (\<lambda>j. \<not> je_joined_at j < unix (now - 24 * hour)) (t_join_events d)\<rparr>)))"

text \<open>A recent successful join of the group by an account younger than a day.\<close>

definition fresh_join :: "database \<Rightarrow> string \<Rightarrow> int \<Rightarrow> int \<Rightarrow> join_event_row \<Rightarrow> bool" where
  "fresh_join d groupID cutoff born j \<longleftrightarrow>
     je_group_id j = groupID \<and> je_successful j \<and> je_joined_at j \<ge> cutoff \<and>
     (case user_row_of d (je_user_id j) of None \<Rightarrow> False | Some u \<Rightarrow> u_created_at u \<ge> born)"

text \<open>\<^verbatim>\<open>SELECT DISTINCT\<close> of one column.\<close>

definition distinct_column :: "('r \<Rightarrow> 'k) \<Rightarrow> 'r list \<Rightarrow> 'k list" where
  "distinct_column f rows = rev (remdups (rev (map f rows)))"

definition join_attackers :: "string \<Rightarrow> int \<Rightarrow> int \<Rightarrow> int \<Rightarrow> database \<Rightarrow> string list" where
  "join_attackers groupID cutoff born threshold d =
     (let joins = filter (fresh_join d groupID cutoff born) (t_join_events d);
          crowd = (\<lambda>ip. int (length (distinct_column je_user_id (filter (\<lambda>j. je_ip j = ip) joins)))) in
      distinct_column je_user_id (filter (\<lambda>e. crowd (je_ip e) \<ge> threshold) joins))"

definition JoinAttackCandidates :: "string \<Rightarrow> time \<Rightarrow> ('z, string list \<times> int) dbm" where
  "JoinAttackCandidates groupID now =
     andThen (select (\<lambda>d. count_rows (\<lambda>m. gm_group_id m = groupID) (t_group_members d))) (\<lambda>members.
     let threshold = max 5 ((members + 4) div 5) in
     andThen (select (join_attackers groupID (unix (now - joinAnalysisWindow)) (unix (now - 24 * hour)) threshold)) (\<lambda>ids.
     ret (ids, threshold)))"

definition drop_young_member :: "string \<Rightarrow> string \<Rightarrow> int \<Rightarrow> database \<Rightarrow> int \<times> database" where
  "drop_young_member groupID userID born d =
     (let doomed = (\<lambda>m. gm_key m = (groupID, userID)
         \<and> (case row_with g_id groupID (t_groups d) of None \<Rightarrow> False | Some g \<Rightarrow> gm_user_id m \<noteq> g_owner_id g)
         \<and> list_ex (\<lambda>u. u_id u = gm_user_id m \<and> u_created_at u \<ge> born) (t_users d)) in
      (count_rows doomed (t_group_members d),
       d\<lparr>t_group_members := filter (\<lambda>m. \<not> doomed m) (t_group_members d)\<rparr>))"

fun removeCandidates ::
  "string \<Rightarrow> string list \<Rightarrow> ('z runtime_scheme, store_error, string list) action" where
  "removeCandidates groupID [] = ret []"
| "removeCandidates groupID (uid # uids) =
     andThen clock (\<lambda>now.
     andThen (attempt (exec_count (drop_young_member groupID uid (unix (now - 24 * hour))))) (\<lambda>r.
     case r of
       Inl (_ :: store_error) \<Rightarrow> removeCandidates groupID uids
     | Inr count \<Rightarrow>
         if count = 0 then removeCandidates groupID uids
         else
         andThen (ignoring (exec (drop_from_voice groupID uid))) (\<lambda>_.
         andThen (removeCandidates groupID uids) (\<lambda>removed.
         ret (uid # removed)))))"

definition isolate :: "string \<Rightarrow> int \<Rightarrow> int \<Rightarrow> int \<Rightarrow> database \<Rightarrow> database" where
  "isolate groupID until level now d = d\<lparr>t_groups :=
     update_where (\<lambda>g. g_id g = groupID)
       (\<lambda>g. g\<lparr>g_isolated_until := until, g_isolation_level := level, g_isolation_raised_at := now\<rparr>)
       (t_groups d)\<rparr>"

definition IsolateGroup ::
  "string \<Rightarrow> string list \<Rightarrow> time \<Rightarrow> ('z runtime_scheme, store_error, group \<times> string list) action" where
  "IsolateGroup groupID candidates now =
     andThen (transaction
      (andThen (select (\<lambda>d. row_with g_id groupID (t_groups d))) (\<lambda>row.
       case row of
         None \<Rightarrow> raise ErrNotFound
       | Some g \<Rightarrow>
           let previous = (if unix now - g_isolation_raised_at g > in_seconds joinAnalysisWindow then 0
                           else g_isolation_level g);
               level = min (previous + 1) (int (length isolationDurations)) in
           if level < 1 then raise ErrPanic
           else
           let until = unix (now + isolationDurations ! nat (level - 1)) in
           andThen (exec (isolate groupID until level (unix now))) (\<lambda>_.
           andThen (removeCandidates groupID candidates) (\<lambda>removed.
           ret (Commit removed))))))
     (\<lambda>removed.
       andThen (Store_Group groupID) (\<lambda>g. ret (g, removed)))"

section \<open>Integrity\<close>

lemma isolate_wf: "wf_db d \<Longrightarrow> wf_db (isolate g until level now d)"
  by (auto simp: isolate_def intro!: update_groups_wf)

lemma schedule_wf: "wf_db d \<Longrightarrow>
   wf_db (d\<lparr>t_groups := update_where P (\<lambda>g. g\<lparr>g_scheduled_for_deletion_at := t\<rparr>) (t_groups d)\<rparr>)"
  by (auto intro!: update_groups_wf)

lemma join_row_wf: "wf_db d \<Longrightarrow> join_row g u now d = Inr (n, d') \<Longrightarrow> wf_db d'"
  by (auto simp: join_row_def split: if_splits option.splits intro: insert_group_member_wf)

lemma drop_wf:
  "wf_db d \<Longrightarrow> wf_db (snd (drop_member g u d))"
  "wf_db d \<Longrightarrow> wf_db (snd (drop_young_member g u born d))"
  "wf_db d \<Longrightarrow> wf_db (drop_from_voice g u d)"
  by (simp_all add: drop_member_def drop_young_member_def drop_from_voice_def Let_def filter_leaf_wf)

text \<open>Reading groups leaves everything as it was.\<close>

lemma group_reads_keep [keeps_intros]:
  "keeps I (scanGroup row)" "keeps I (hydrateGroup g)" "keeps I (Store_Group gid)"
  "keeps I (GroupByInvite token)" "keeps I (listGroups tail)" "keeps I (UserGroups u)"
  "keeps I (DiscoverGroups lower q k n offset)" "keeps I (Store_GroupMembers gid owner)"
  "keeps I (IsGroupMember gid u)" "keeps I (GroupMemberJoinedAt gid u)" "keeps I (GroupMemberIDs gid)"
  "keeps I (CountUserGroups u)" "keeps I (InactiveGroupCandidates cutoff n)"
  "keeps I (JoinAttackCandidates gid now)"
proof -
  show scan: "keeps I (scanGroup row)" for row
    unfolding scanGroup_def by (intro keeps_intros)
  show hydrate: "keeps I (hydrateGroup g)" for g
    unfolding hydrateGroup_def by (intro keeps_intros)
  show "keeps I (Store_Group gid)" "keeps I (GroupByInvite token)"
    unfolding Store_Group_def GroupByInvite_def by (intro keeps_intros scan hydrate)+
  show list: "keeps I (listGroups tail)" for tail
    unfolding listGroups_def by (intro keeps_intros scan hydrate)
  show "keeps I (UserGroups u)" "keeps I (DiscoverGroups lower q k n offset)"
    unfolding UserGroups_def DiscoverGroups_def by (rule list)+
  show "keeps I (Store_GroupMembers gid owner)" "keeps I (IsGroupMember gid u)"
    "keeps I (GroupMemberJoinedAt gid u)" "keeps I (GroupMemberIDs gid)" "keeps I (CountUserGroups u)"
    "keeps I (InactiveGroupCandidates cutoff n)" "keeps I (JoinAttackCandidates gid now)"
    unfolding Store_GroupMembers_def IsGroupMember_def GroupMemberJoinedAt_def GroupMemberIDs_def
      CountUserGroups_def InactiveGroupCandidates_def JoinAttackCandidates_def Let_def
    by (intro keeps_intros)+
qed

lemma removeCandidates_keeps [keeps_intros]:
  "(\<And>d uid born. I d \<Longrightarrow> I (snd (drop_young_member groupID uid born d))) \<Longrightarrow>
   (\<And>d uid. I d \<Longrightarrow> I (drop_from_voice groupID uid d)) \<Longrightarrow>
   keeps I (removeCandidates groupID uids)"
proof (induction uids)
  case (Cons uid uids)
  show ?case
    unfolding removeCandidates.simps
    by (intro keeps_intros Cons.IH) (auto intro: Cons.prems)
qed (simp add: keeps_ret)

lemma groups_keep_wf [keeps_intros]:
  "keeps wf_db (Store_CreateGroup new now maxOwned)"
  "keeps wf_db (Store_JoinGroup gid u now)"
  "keeps wf_db (Store_DeleteGroup gid)"
  "keeps wf_db (Store_LeaveGroup gid u)"
  "keeps wf_db (RemoveGroupMember gid u)"
  "keeps wf_db (ScheduleInactiveGroups cutoff at_time n)"
  "keeps wf_db (DeleteScheduledGroups now before n)"
  "keeps wf_db (DeleteInactiveGroupsNow cutoff n)"
  "keeps wf_db (purged_ids cutoff n)"
  "keeps wf_db (RecordJoinEvent gid u ip ok now)"
  "keeps wf_db (IsolateGroup gid candidates now)"
  unfolding Store_CreateGroup_def Store_JoinGroup_def Store_DeleteGroup_def Store_LeaveGroup_def
    RemoveGroupMember_def ScheduleInactiveGroups_def DeleteScheduledGroups_def
    DeleteInactiveGroupsNow_def purged_ids_def inactive_purge_def delete_group_def RecordJoinEvent_def IsolateGroup_def Let_def
  by (intro keeps_intros keeps_stmt;
      (erule (1) wf_inserts join_row_wf | simp add: wf_updates drop_wf isolate_wf schedule_wf))+

section \<open>Creating a group\<close>

definition create_group :: "new_group \<Rightarrow> time \<Rightarrow> int \<Rightarrow> database \<Rightarrow> store_error + unit \<times> database" where
  "create_group new now maxOwned d =
     (if maxOwned > 0 \<and> owned_groups (ng_OwnerID new) d \<ge> maxOwned then Inl ErrGroupLimit
      else
        (case insert_group (group_row_of new (unix now)) d of
           None \<Rightarrow> Inl ErrConflict
         | Some d1 \<Rightarrow>
             (case insert_group_member \<lparr>gm_group_id = ng_ID new, gm_user_id = ng_OwnerID new,
                 gm_joined_at = unix now, gm_joined_at_nanos = 0\<rparr> d1 of
                None \<Rightarrow> Inl (ErrDB SqlConstraint)
              | Some d2 \<Rightarrow> Inr ((), d2))))"

interpretation CreateGroup: implementation "Store_CreateGroup new now maxOwned" "create_group new now maxOwned"
  for new now maxOwned
proof
  show "strict (Store_CreateGroup new now maxOwned)"
    unfolding Store_CreateGroup_def by (intro strict_intros)
  show "atomic (Store_CreateGroup new now maxOwned)"
    unfolding Store_CreateGroup_def by (rule atomic_transaction)
  show "Store_CreateGroup new now maxOwned w = as_specified (create_group new now maxOwned) w"
    if "quiet w" for w :: "'z world_scheme"
    using that by (auto simp: Store_CreateGroup_def create_group_def as_specified_def transaction_quiet
        run_simps conflict_error_def isConstraint_def split: option.split)
qed

lemma insert_group_Some:
  "insert_group g d = Some d' \<longleftrightarrow> g_id g \<notin> g_id ` set (t_groups d) \<and>
     g_invite_token g \<notin> g_invite_token ` set (t_groups d) \<and>
     (g_visibility g = ''public'' \<or> g_visibility g = ''private'') \<and> has_user d (g_owner_id g) \<and>
     d' = d\<lparr>t_groups := t_groups d @ [g]\<rparr>"
  unfolding insert_group_def list_all_iff image_iff by fastforce

lemma insert_group_member_Some:
  "insert_group_member m d = Some d' \<longleftrightarrow> \<not> group_member_of (gm_group_id m) (gm_user_id m) d \<and>
     has_group d (gm_group_id m) \<and> has_user d (gm_user_id m) \<and>
     d' = d\<lparr>t_group_members := t_group_members d @ [m]\<rparr>"
  by (auto simp: insert_group_member_def group_member_of_def list_all_iff list_ex_iff)

lemma create_group_result:
  assumes "create_group new now maxOwned d = Inr (x, d')"
  shows "(0 < maxOwned \<longrightarrow> owned_groups (ng_OwnerID new) d < maxOwned) \<and> has_user d (ng_OwnerID new) \<and>
    ng_ID new \<notin> g_id ` set (t_groups d) \<and> (ng_Visibility new = ''public'' \<or> ng_Visibility new = ''private'') \<and>
    d' = d\<lparr>t_groups := t_groups d @ [group_row_of new (unix now)],
           t_group_members := t_group_members d @ [\<lparr>gm_group_id = ng_ID new, gm_user_id = ng_OwnerID new,
             gm_joined_at = unix now, gm_joined_at_nanos = 0\<rparr>]\<rparr>"
  using assms
  by (auto simp: create_group_def insert_group_Some insert_group_member_Some group_row_of_def
      split: if_splits option.splits)

lemma Store_Group_quiet:
  assumes "quiet w" "row_with g_id gid (t_groups (w_db w)) = Some g" "user_row_of (w_db w) (g_owner_id g) = Some u"
  shows "\<exists>r. fst (Store_Group gid w) = Inr r \<and> group_ID r = gid \<and> Visibility r = g_visibility g \<and>
    user_ID (Owner r) = g_owner_id g \<and> Name r = g_name g \<and> group_Avatar r = g_avatar g \<and>
    InviteToken r = g_invite_token g \<and> group_CreatedAt r = of_unix (g_created_at g) \<and>
    LastActivityAt r = of_unix (g_last_activity_at g) \<and>
    MemberCount r = count_rows (\<lambda>m. gm_group_id m = gid) (t_group_members (w_db w)) \<and>
    JoinBlocked r = (g_isolated_until g > unix (x_now w)) \<and>
    VoiceRooms r = group_voice_rows gid (w_db w) \<and> LastMessage r = last_message gid (w_db w)"
proof -
  have ids: "g_id g = gid" "u_id u = g_owner_id g"
    using assms(2,3) by (auto simp: user_row_of_def dest: row_with_SomeD)
  show ?thesis
    using assms ids
    by (simp add: Store_Group_def scanGroup_def hydrateGroup_def group_fields_def run_simps Let_def)
qed

lemma count_row_member: "count_rows (\<lambda>m. gm_group_id m = gid) (t_group_members d) = 0"
  if "wf_db d" "gid \<notin> g_id ` set (t_groups d)" for d
  using that by (auto simp: count_rows_0 wf_db_def references_ok_def refs_def)

text \<open>
  a created group is there: with the id, visibility, name, avatar, invite and owner it was
  given, active since now, with its owner as the only member; the owner was below the limit of
  groups, and every other group and membership is as before.
\<close>

theorem CreateGroup_Group:
  assumes wf: "wf_db (w_db w)" and run: "Store_CreateGroup new now maxOwned w = (Inr (), w1)"
    and "quiet w1"
  shows "(0 < maxOwned \<longrightarrow> owned_groups (ng_OwnerID new) (w_db w) < maxOwned) \<and>
    (\<exists>r. fst (Store_Group (ng_ID new) w1) = Inr r \<and> group_ID r = ng_ID new \<and> Visibility r = ng_Visibility new \<and>
      user_ID (Owner r) = ng_OwnerID new \<and> Name r = ng_Name new \<and> group_Avatar r = ng_Avatar new \<and>
      InviteToken r = ng_InviteToken new \<and> LastActivityAt r = of_unix (unix now) \<and> MemberCount r = 1 \<and>
      (0 \<le> unix (x_now w1) \<longrightarrow> \<not> JoinBlocked r)) \<and>
    group_member_of (ng_ID new) (ng_OwnerID new) (w_db w1) \<and>
    (\<forall>g u. (g, u) \<noteq> (ng_ID new, ng_OwnerID new) \<longrightarrow> group_member_of g u (w_db w1) = group_member_of g u (w_db w)) \<and>
    (\<forall>g. g \<noteq> ng_ID new \<longrightarrow> row_with g_id g (t_groups (w_db w1)) = row_with g_id g (t_groups (w_db w)))"
proof -
  have spec: "create_group new now maxOwned (w_db w) = Inr ((), w_db w1)"
    by (rule CreateGroup.outcome [OF run])
  note new = create_group_result [OF spec]
  have id: "g_id (group_row_of new (unix now)) = ng_ID new" by (simp add: group_row_of_def)
  have none: "row_with g_id (ng_ID new) (t_groups (w_db w)) = None"
    using new by (simp add: row_with_None)
  then have row: "row_with g_id (ng_ID new) (t_groups (w_db w1)) = Some (group_row_of new (unix now))"
    using new by (simp add: id)
  have "has_user (w_db w1) (ng_OwnerID new)" using new by (simp add: has_user_def)
  then obtain u where u: "user_row_of (w_db w1) (ng_OwnerID new) = Some u" using has_user_row by blast
  have "count_rows (\<lambda>m. gm_group_id m = ng_ID new) (t_group_members (w_db w1)) = 1"
    using new count_row_member [OF wf] by simp
  then have "\<exists>r. fst (Store_Group (ng_ID new) w1) = Inr r \<and> group_ID r = ng_ID new \<and> Visibility r = ng_Visibility new \<and>
      user_ID (Owner r) = ng_OwnerID new \<and> Name r = ng_Name new \<and> group_Avatar r = ng_Avatar new \<and>
      InviteToken r = ng_InviteToken new \<and> LastActivityAt r = of_unix (unix now) \<and> MemberCount r = 1 \<and>
      (0 \<le> unix (x_now w1) \<longrightarrow> \<not> JoinBlocked r)"
    using Store_Group_quiet [OF \<open>quiet w1\<close> row] u by (fastforce simp: group_row_of_def)
  moreover have "row_with g_id g (t_groups (w_db w1)) = row_with g_id g (t_groups (w_db w))" if "g \<noteq> ng_ID new" for g
    using new that by (simp add: id split: option.split)
  moreover have "group_member_of g u (w_db w1) \<longleftrightarrow> group_member_of g u (w_db w) \<or> (g, u) = (ng_ID new, ng_OwnerID new)" for g u
    using new by (auto simp: group_member_of_def)
  ultimately show ?thesis using new by blast
qed

end
