(* ===== verification/GroupLaws.thy ===== *)
theory GroupLaws
  imports GroupStore
begin

text \<open>
  What the operations on groups guarantee: membership, removal, the cleanup of inactive
  groups, and the reaction to join attacks; with examples on a small database.
\<close>

section \<open>Joining and leaving\<close>

lemma join_row_result:
  assumes "Store_JoinGroup gid u now w = (Inr (), w1)"
  shows "(\<exists>n. join_row gid u now (w_db w) = Inr (n, w_db w1) \<and> n \<noteq> 0) \<or>
    (join_row gid u now (w_db w) = Inl SqlConstraint \<and> w_db w1 = w_db w)"
proof -
  obtain b w0 where b: "draw_fault w = (b, w0)" by fastforce
  with draw_fault_dbD [OF b] assms show ?thesis
    by (auto simp: Store_JoinGroup_def run_simps stmt_def isConstraint_def
        split: bool.splits sum.splits prod.splits if_splits)
qed

text \<open>
  joining is idempotent. After \<^verbatim>\<open>JoinGroup\<close> succeeds the group exists and an existing
  user is a member; who was a member before keeps the instant of the first join, and nobody
  else's membership changes.
\<close>

theorem JoinGroup_member:
  assumes run: "Store_JoinGroup gid u now w = (Inr (), w1)"
  shows "has_group (w_db w) gid \<and> (has_user (w_db w) u \<longrightarrow> group_member_of gid u (w_db w1)) \<and>
    (group_member_of gid u (w_db w) \<longrightarrow> w_db w1 = w_db w) \<and>
    (\<forall>g v. (g, v) \<noteq> (gid, u) \<longrightarrow> group_member_of g v (w_db w1) = group_member_of g v (w_db w))"
proof -
  have group: "has_group (w_db w) gid"
    using join_row_result [OF run] by (auto simp: join_row_def split: if_splits)
  let ?m = "\<lparr>gm_group_id = gid, gm_user_id = u, gm_joined_at = unix now, gm_joined_at_nanos = now\<rparr>"
  consider (new) "insert_group_member ?m (w_db w) = Some (w_db w1)"
    | (old) "insert_group_member ?m (w_db w) = None" "w_db w1 = w_db w"
    using join_row_result [OF run] group by (auto simp: join_row_def split: option.splits)
  then show ?thesis
  proof cases
    case new
    then show ?thesis using group unfolding insert_group_member_Some by (auto simp: group_member_of_def)
  next
    case old
    then show ?thesis
      using group by (auto simp: insert_group_member_def group_member_of_def list_all_iff list_ex_iff)
  qed
qed

definition in_group_voice :: "string \<Rightarrow> string \<Rightarrow> database \<Rightarrow> bool" where
  "in_group_voice gid u d \<longleftrightarrow> list_ex (\<lambda>m. vm_user_id m = u
     \<and> list_ex (\<lambda>v. vr_id v = vm_voice_room_id m \<and> vr_group_id v = gid) (t_voice_rooms d)) (t_voice_members d)"

text \<open>
  a removed member is out of the group and out of its voice rooms, and stays where else
  they were; the memberships and calls of everybody else are untouched; a failed removal
  changes nothing.
\<close>

theorem RemoveGroupMember_removes:
  assumes run: "RemoveGroupMember gid u w = (res, w1)"
  shows "case res of
      Inl e \<Rightarrow> w_db w1 = w_db w
    | Inr _ \<Rightarrow> group_member_of gid u (w_db w) \<and> \<not> group_member_of gid u (w_db w1) \<and>
        \<not> in_group_voice gid u (w_db w1) \<and>
        (\<forall>g v. (g, v) \<noteq> (gid, u) \<longrightarrow> group_member_of g v (w_db w1) = group_member_of g v (w_db w)) \<and>
        filter (\<lambda>m. vm_user_id m \<noteq> u) (t_voice_members (w_db w1)) =
          filter (\<lambda>m. vm_user_id m \<noteq> u) (t_voice_members (w_db w))"
proof (cases res)
  case (Inl e)
  then show ?thesis using run unfolding RemoveGroupMember_def by (auto dest: transaction_InlD)
next
  case (Inr x)
  have db: "fst (drop_member gid u (w_db w)) \<noteq> 0"
    "w_db w1 = drop_from_voice gid u (snd (drop_member gid u (w_db w)))"
    using run [unfolded Inr] unfolding RemoveGroupMember_def
    by (elim transaction_InrE andThen_InrE exec_count_InrE; simp split: if_splits; elim run_elims; simp)+
  from db(1) have "group_member_of gid u (w_db w)"
    by (auto simp: drop_member_def count_rows_0 group_member_of_def list_ex_iff)
  then show ?thesis
    unfolding db(2) Inr sum.case
    by (auto simp: drop_member_def drop_from_voice_def group_member_of_def in_group_voice_def list_ex_iff
        intro!: filter_cong)
qed

section \<open>The cleanup of inactive groups\<close>

lemma delete_group_result:
  "for_each delete_group ids w = (Inr x, w1) \<Longrightarrow>
   t_groups (w_db w1) = filter (\<lambda>g. g_id g \<notin> set ids) (t_groups (w_db w))"
proof (induction ids arbitrary: w)
  case (Cons i ids)
  obtain w0 where del: "delete_group i w = (Inr (), w0)" and rest: "for_each delete_group ids w0 = (Inr x, w1)"
    using Cons.prems unfolding for_each.simps by (elim andThen_InrE) simp
  have "w_db w0 = delete_groups (\<lambda>g. g_id g = i) (w_db w)"
    using del unfolding delete_group_def by (elim exec_InrE)
  then show ?case
    using Cons.IH [OF rest] by (simp add: t_groups_delete_groups conj_commute)
qed (simp add: run_simps)

lemma cleanup_result:
  assumes "transaction (andThen (select f) (\<lambda>ids. andThen (for_each delete_group ids) (\<lambda>_. ret (Commit ids)))) w
    = (Inr ids, w1)"
  shows "ids = f (w_db w) \<and> t_groups (w_db w1) = filter (\<lambda>g. g_id g \<notin> set ids) (t_groups (w_db w))"
  using assms
  by (elim transaction_InrE andThen_InrE select_InrE; elim run_elims; auto dest: delete_group_result)

lemma listed_group:
  assumes "wf_db d" "g \<in> set (t_groups d)" "g_id g \<in> g_id ` set rows" "set rows \<subseteq> set (t_groups d)"
  shows "g \<in> set rows"
  using assms wf_keys(9) [OF assms(1)] by (auto simp: distinct_map dest: inj_onD)

text \<open>
  C36: the scheduled cleanup spares what it must. It deletes exactly the groups it reports, at
  most the limit, and of these each was unprotected, scheduled for that second or earlier and
  inactive since before the cutoff; every other group is still there, and a failed run deletes
  none.
\<close>

theorem DeleteScheduledGroups_spares:
  assumes wf: "wf_db (w_db w)" and n: "0 \<le> n" and run: "DeleteScheduledGroups now inactiveBefore n w = (res, w1)"
  shows "case res of
      Inl e \<Rightarrow> w_db w1 = w_db w
    | Inr ids \<Rightarrow>
        t_groups (w_db w1) = filter (\<lambda>g. g_id g \<notin> set ids) (t_groups (w_db w)) \<and> int (length ids) \<le> n \<and>
        (\<forall>g \<in> set (t_groups (w_db w)). g_id g \<in> set ids \<longrightarrow>
           g_protected_from_auto_delete g = 0 \<and> g_last_activity_at g < unix inactiveBefore \<and>
           (\<exists>t. g_scheduled_for_deletion_at g = Some t \<and> t \<le> unix now))"
proof (cases res)
  case (Inl e)
  then show ?thesis using run unfolding DeleteScheduledGroups_def by (auto dest: transaction_InlD)
next
  case (Inr ids)
  let ?rows = "limit_rows n (order_by (\<lambda>g. the (g_scheduled_for_deletion_at g))
      (filter (due_at (unix now) (unix inactiveBefore)) (t_groups (w_db w))))"
  have ids: "ids = map g_id ?rows"
    and db: "t_groups (w_db w1) = filter (\<lambda>g. g_id g \<notin> set ids) (t_groups (w_db w))"
    using cleanup_result [OF run [unfolded DeleteScheduledGroups_def Inr]] by (simp_all add: due_groups_def)
  have due: "due_at (unix now) (unix inactiveBefore) g" if "g \<in> set (t_groups (w_db w))" "g_id g \<in> set ids" for g
    using listed_group [OF wf that(1), of ?rows] that(2) in_limit_order_by [of _ n] unfolding ids by fastforce
  have "int (length ids) \<le> n"
    unfolding ids using length_limit_rows [OF n] by simp
  moreover have "g_protected_from_auto_delete g = 0 \<and> g_last_activity_at g < unix inactiveBefore \<and>
           (\<exists>t. g_scheduled_for_deletion_at g = Some t \<and> t \<le> unix now)"
    if "g \<in> set (t_groups (w_db w))" "g_id g \<in> set ids" for g
    using due [OF that] by (auto simp: due_at_def split: option.splits)
  ultimately show ?thesis using Inr db by simp
qed

text \<open>
  under disk pressure the oldest go first. The immediate cleanup deletes at most the limit
  of unprotected groups inactive since before the cutoff, and as long as it leaves such a
  group behind it used the limit up on groups that had been inactive at least as long.
\<close>

theorem DeleteInactiveGroupsNow_oldest:
  assumes wf: "wf_db (w_db w)" and n: "0 \<le> n" and run: "DeleteInactiveGroupsNow cutoff n w = (Inr ids, w1)"
  shows "t_groups (w_db w1) = filter (\<lambda>g. g_id g \<notin> set ids) (t_groups (w_db w)) \<and> int (length ids) \<le> n \<and>
    (\<forall>g \<in> set (t_groups (w_db w)). g_id g \<in> set ids \<longrightarrow>
       g_protected_from_auto_delete g = 0 \<and> g_last_activity_at g < unix cutoff) \<and>
    (\<forall>left \<in> set (t_groups (w_db w1)). g_protected_from_auto_delete left = 0 \<and>
         g_last_activity_at left < unix cutoff \<longrightarrow>
       int (length ids) = n \<and>
       (\<forall>g \<in> set (t_groups (w_db w)). g_id g \<in> set ids \<longrightarrow> g_last_activity_at g \<le> g_last_activity_at left))"
proof -
  let ?idle = "filter (\<lambda>g. g_protected_from_auto_delete g = 0 \<and> g_last_activity_at g < unix cutoff) (t_groups (w_db w))"
  let ?rows = "limit_rows n (order_by g_last_activity_at ?idle)"
  have ids: "ids = map g_id ?rows"
    and db: "t_groups (w_db w1) = filter (\<lambda>g. g_id g \<notin> set ids) (t_groups (w_db w))"
    using cleanup_result [OF run [unfolded DeleteInactiveGroupsNow_def inactive_purge_def]] by (simp_all add: idle_groups_def)
  have listed: "g \<in> set ?rows" if "g \<in> set (t_groups (w_db w))" "g_id g \<in> set ids" for g
    using listed_group [OF wf that(1), of ?rows] that(2) in_limit_order_by [of _ n] unfolding ids by fastforce
  have "int (length ids) = n \<and> (\<forall>g \<in> set ?rows. g_last_activity_at g \<le> g_last_activity_at left)"
    if "left \<in> set (t_groups (w_db w1))" "g_protected_from_auto_delete left = 0" "g_last_activity_at left < unix cutoff" for left
  proof -
    have "left \<in> set ?idle" "left \<notin> set ?rows" using that by (auto simp: db ids)
    then show ?thesis using limit_order_by [of left ?idle n g_last_activity_at] by (simp add: ids)
  qed
  moreover have "g_protected_from_auto_delete g = 0 \<and> g_last_activity_at g < unix cutoff" if "g \<in> set ?rows" for g
    using in_limit_order_by [OF that] by simp
  moreover have "int (length ids) \<le> n"
    unfolding ids using length_limit_rows [OF n] by simp
  ultimately show ?thesis using db listed by blast
qed

text \<open>
  a message saves its group. Whatever was scheduled before, the cleanup that runs after a
  message was sent does not delete the group of the message.
\<close>

theorem message_saves_group:
  assumes wf: "wf_db (w_db w)" and sent: "AddMessageWithAttachments m items w = (Inr (), w1)"
    and later: "w_db w2 = w_db w1"
    and run: "DeleteScheduledGroups now inactiveBefore n w2 = (Inr ids, w3)"
  shows "msg_GroupID m \<notin> set ids \<and> has_group (w_db w3) (msg_GroupID m)"
proof -
  have wf1: "wf_db (w_db w1)" using keeps_resultD [OF messages_keep_wf(1) sent wf] .
  obtain d where ins: "insert_message (message_row_of m) (w_db w) = Some d"
    and db: "w_db w1 = touch_group (msg_GroupID m) (unix (msg_CreatedAt m))
      (d\<lparr>t_attachments := t_attachments d @ map attachment_row_of items\<rparr>)"
    using AddMessage_result [OF sent] by blast
  have "t_groups d = t_groups (w_db w)" "has_group (w_db w) (msg_GroupID m)"
    using ins by (auto simp: insert_message_def message_row_of_def)
  then obtain g where g: "g \<in> set (t_groups (w_db w1))" "g_id g = msg_GroupID m"
    unfolding db touch_group_def has_group_def list_ex_iff by (fastforce simp: in_update_where)
  then have "g_scheduled_for_deletion_at g = None"
    using touched [of "msg_GroupID m"] unfolding db by blast
  moreover have ids: "ids = due_groups (unix now) (unix inactiveBefore) n (w_db w2)"
    and left: "t_groups (w_db w3) = filter (\<lambda>g. g_id g \<notin> set ids) (t_groups (w_db w2))"
    using cleanup_result [OF run [unfolded DeleteScheduledGroups_def]] by simp_all
  have "due_at (unix now) (unix inactiveBefore) g" if "g_id g \<in> set ids"
  proof -
    let ?rows = "limit_rows n (order_by (\<lambda>g. the (g_scheduled_for_deletion_at g))
      (filter (due_at (unix now) (unix inactiveBefore)) (t_groups (w_db w1))))"
    have "g \<in> set ?rows"
      using listed_group [OF wf1 g(1), of ?rows] that in_limit_order_by [of _ n]
      unfolding ids due_groups_def later by fastforce
    then show ?thesis using in_limit_order_by by fastforce
  qed
  ultimately have "g_id g \<notin> set ids" by (auto simp: due_at_def)
  then show ?thesis using g left later unfolding has_group_def list_ex_iff by auto
qed

section \<open>Isolation\<close>

lemma drop_young_member_result:
  assumes "drop_young_member gid u born d = (n, d')"
  shows "t_groups d' = t_groups d \<and> t_users d' = t_users d \<and>
    (n = 0 \<longrightarrow> t_group_members d' = t_group_members d) \<and>
    (n \<noteq> 0 \<longrightarrow> t_group_members d' = filter (\<lambda>m. gm_key m \<noteq> (gid, u)) (t_group_members d) \<and>
       group_member_of gid u d \<and> (\<forall>g. row_with g_id gid (t_groups d) = Some g \<longrightarrow> u \<noteq> g_owner_id g) \<and>
       (\<exists>x \<in> set (t_users d). u_id x = u \<and> born \<le> u_created_at x))"
proof -
  let ?P = "(case row_with g_id gid (t_groups d) of None \<Rightarrow> False | Some g \<Rightarrow> u \<noteq> g_owner_id g)
     \<and> list_ex (\<lambda>x. u_id x = u \<and> born \<le> u_created_at x) (t_users d)"
  have doomed: "(gm_key m = (gid, u) \<and> (case row_with g_id gid (t_groups d) of None \<Rightarrow> False
       | Some g \<Rightarrow> gm_user_id m \<noteq> g_owner_id g)
     \<and> list_ex (\<lambda>x. u_id x = gm_user_id m \<and> u_created_at x \<ge> born) (t_users d)) \<longleftrightarrow> gm_key m = (gid, u) \<and> ?P" for m
    by auto
  have rows: "n = count_rows (\<lambda>m. gm_key m = (gid, u) \<and> ?P) (t_group_members d)"
    "d' = d\<lparr>t_group_members := filter (\<lambda>m. \<not> (gm_key m = (gid, u) \<and> ?P)) (t_group_members d)\<rparr>"
    using assms unfolding drop_young_member_def Let_def doomed by simp_all
  show ?thesis
  proof (cases "n = 0")
    case True
    then show ?thesis using rows by (auto simp: count_rows_0 intro!: filter_True)
  next
    case False
    then have "?P" "group_member_of gid u d"
      using rows(1) by (auto simp: count_rows_0 group_member_of_def list_ex_iff)
    then show ?thesis using False rows(2) by (auto simp: list_ex_iff split: option.splits)
  qed
qed

lemma drop_from_voice_other [simp]:
  "t_groups (drop_from_voice g u d) = t_groups d" "t_users (drop_from_voice g u d) = t_users d"
  "t_group_members (drop_from_voice g u d) = t_group_members d"
  by (simp_all add: drop_from_voice_def)

lemma attempt_exec_count_E:
  assumes "attempt (exec_count f) w = (r, w')"
  obtains (failed) "r = Inr (Inl (ErrDB SqlFault))" "w_db w' = w_db w"
    | (ran) n where "r = Inr (Inr n)" "f (w_db w) = (n, w_db w')"
  using assms
  by (auto simp: run_simps exec_count_def stmt_def draw_fault_dbD split: prod.splits bool.splits)

text \<open>What the loop over the candidates does, whichever of its statements fail.\<close>

lemma removeCandidates_result:
  assumes "removeCandidates gid uids w = (Inr removed, w1)"
  shows "set removed \<subseteq> set uids \<and> t_groups (w_db w1) = t_groups (w_db w) \<and> t_users (w_db w1) = t_users (w_db w) \<and>
    t_group_members (w_db w1) =
      filter (\<lambda>m. \<not> (gm_group_id m = gid \<and> gm_user_id m \<in> set removed)) (t_group_members (w_db w)) \<and>
    (\<forall>u \<in> set removed. group_member_of gid u (w_db w) \<and>
       (\<forall>g. row_with g_id gid (t_groups (w_db w)) = Some g \<longrightarrow> u \<noteq> g_owner_id g) \<and>
       (x_ticks w = [] \<longrightarrow> (\<exists>x \<in> set (t_users (w_db w)). u_id x = u \<and> unix (x_now w - 24 * hour) \<le> u_created_at x)))"
  using assms
proof (induction uids arbitrary: w removed)
  case (Cons u uids)
  let ?born = "unix (x_now w - 24 * hour)"
  obtain r w0 where att: "attempt (exec_count (drop_young_member gid u ?born)) (ticked w) =
      (Inr r :: store_error + (store_error + int), w0)"
    and rest: "(case r of Inl (_ :: store_error) \<Rightarrow> removeCandidates gid uids
     | Inr count \<Rightarrow> if count = 0 then removeCandidates gid uids
         else andThen (ignoring (exec (drop_from_voice gid u))) (\<lambda>_.
           andThen (removeCandidates gid uids) (\<lambda>removed. ret (u # removed)))) w0 = (Inr removed, w1)"
    using Cons.prems unfolding removeCandidates.simps by (elim andThen_InrE) (auto simp: clock_def)
  have w0: "w0 = snd (exec_count (drop_young_member gid u ?born) (ticked w))"
    using att by (simp add: run_simps)
  have still: "x_ticks w0 = [] \<and> x_now w0 = x_now w" if "x_ticks w = []"
    using that by (simp add: w0)
  from att show ?case
  proof (cases rule: attempt_exec_count_E)
    case failed
    with rest have "removeCandidates gid uids w0 = (Inr removed, w1)" by simp
    from Cons.IH [OF this] failed still show ?thesis by (auto simp: group_member_of_def)
  next
    case (ran n)
    note drop = drop_young_member_result [of gid u ?born "w_db w" n "w_db w0"]
    show ?thesis
    proof (cases "n = 0")
      case True
      with rest ran have "removeCandidates gid uids w0 = (Inr removed, w1)" by simp
      from Cons.IH [OF this] ran drop True still show ?thesis by (auto simp: group_member_of_def)
    next
      case False
      define w2 where "w2 = snd (exec (drop_from_voice gid u) w0)"
      have w2: "w_db w2 = w_db w0 \<or> w_db w2 = drop_from_voice gid u (w_db w0)"
        "x_ticks w0 = [] \<longrightarrow> x_ticks w2 = [] \<and> x_now w2 = x_now w0"
        using exec_db by (simp_all add: w2_def)
      obtain others where others: "removeCandidates gid uids w2 = (Inr others, w1)" "removed = u # others"
        using rest ran False by (auto simp: run_simps w2_def split: prod.splits sum.splits)
      note IH = Cons.IH [OF others(1)]
      have same: "t_groups (w_db w2) = t_groups (w_db w)" "t_users (w_db w2) = t_users (w_db w)"
        "t_group_members (w_db w2) = filter (\<lambda>m. gm_key m \<noteq> (gid, u)) (t_group_members (w_db w))"
        using w2(1) drop ran False by auto
      have "t_group_members (w_db w1) =
        filter (\<lambda>m. \<not> (gm_group_id m = gid \<and> gm_user_id m \<in> set removed)) (t_group_members (w_db w))"
        using IH unfolding same(3) others(2) filter_filter by (auto intro!: filter_cong)
      moreover have "group_member_of gid v (w_db w)" if "v \<in> set others" for v
        using IH that same(3) by (auto simp: group_member_of_def list_ex_iff)
      ultimately show ?thesis
        using IH same(1,2) drop ran False others(2) still w2(2) by auto
    qed
  qed
qed (simp add: run_simps)

text \<open>The level an isolation raises a group to.\<close>

definition next_level :: "time \<Rightarrow> group_row \<Rightarrow> int" where
  "next_level now g =
     min ((if unix now - g_isolation_raised_at g > 300 then 0 else g_isolation_level g) + 1) 6"

definition isolate_body :: "string \<Rightarrow> string list \<Rightarrow> time \<Rightarrow> group_row
    \<Rightarrow> ('z runtime_scheme, store_error, string list tx_end) action" where
  "isolate_body gid candidates now g =
     (if next_level now g < 1 then raise ErrPanic
      else
      andThen (exec (isolate gid (unix (now + isolationDurations ! nat (next_level now g - 1)))
        (next_level now g) (unix now))) (\<lambda>_.
      andThen (removeCandidates gid candidates) (\<lambda>removed.
      ret (Commit removed))))"

lemma IsolateGroup_alt:
  "IsolateGroup gid candidates now =
     andThen (transaction (andThen (select (\<lambda>d. row_with g_id gid (t_groups d))) (\<lambda>row.
       case row of None \<Rightarrow> raise ErrNotFound | Some g \<Rightarrow> isolate_body gid candidates now g)))
     (\<lambda>removed. andThen (Store_Group gid) (\<lambda>g. ret (g, removed)))"
proof -
  have "int (length isolationDurations) = 6" "in_seconds joinAnalysisWindow = 300"
    by (simp_all add: isolationDurations_def joinAnalysisWindow_def)
  then show ?thesis by (simp only: IsolateGroup_def isolate_body_def next_level_def Let_def)
qed

lemma isolate_body_result:
  assumes "isolate_body gid candidates now g w = (Inr e, w3)"
  shows "1 \<le> next_level now g \<and> (\<exists>w2 removed. e = Commit removed \<and>
    w_db w2 = isolate gid (unix (now + isolationDurations ! nat (next_level now g - 1))) (next_level now g) (unix now) (w_db w) \<and>
    x_now w2 = x_now w \<and> x_ticks w2 = x_ticks w \<and> removeCandidates gid candidates w2 = (Inr removed, w3))"
proof (cases "next_level now g < 1")
  case False
  then show ?thesis
    using assms unfolding isolate_body_def if_not_P [OF False]
    by (elim andThen_InrE exec_clock_InrE ret_InrE) auto
qed (use assms in \<open>simp add: isolate_body_def run_simps\<close>)

lemma IsolateGroup_result:
  fixes w :: "'z runtime_scheme"
  assumes "IsolateGroup gid candidates now w = (Inr (grp, removed), w1)"
  shows "\<exists>g (w2 :: 'z runtime_scheme) w3. row_with g_id gid (t_groups (w_db w)) = Some g \<and> 1 \<le> next_level now g \<and>
    w_db w2 = isolate gid (unix (now + isolationDurations ! nat (next_level now g - 1))) (next_level now g) (unix now) (w_db w) \<and>
    x_now w2 = x_now w \<and> x_ticks w2 = x_ticks w \<and>
    removeCandidates gid candidates w2 = (Inr removed, w3) \<and> w_db w1 = w_db w3"
proof -
  obtain w0 where tx: "transaction (andThen (select (\<lambda>d. row_with g_id gid (t_groups d))) (\<lambda>row.
       case row of None \<Rightarrow> raise ErrNotFound | Some g \<Rightarrow> isolate_body gid candidates now g)) w = (Inr removed, w0)"
    and read: "Store_Group gid w0 = (Inr grp, w1)"
    using assms unfolding IsolateGroup_alt by (elim andThen_InrE ret_InrE) auto
  have "w_db w1 = w_db w0"
    using keeps_resultD [OF group_reads_keep(3) [where I = "\<lambda>d. d = w_db w0"] read] by simp
  moreover obtain s1 s2 :: "'z runtime_scheme" and e where s: "w_db s1 = w_db w" "x_now s1 = x_now w" "x_ticks s1 = x_ticks w"
    "(case row_with g_id gid (t_groups (w_db w)) of None \<Rightarrow> raise ErrNotFound
      | Some g \<Rightarrow> isolate_body gid candidates now g) s1 = (Inr e, s2)"
    "e = Commit removed \<and> w_db w0 = w_db s2 \<or> e = Rollback removed \<and> w_db w0 = w_db w"
    using read_transaction_result [OF tx] by blast
  moreover from s(4) obtain g where "row_with g_id gid (t_groups (w_db w)) = Some g"
    "isolate_body gid candidates now g s1 = (Inr e, s2)"
    by (auto simp: run_simps split: option.splits)
  ultimately show ?thesis using isolate_body_result by fastforce
qed


section \<open>Detecting an attack\<close>

lemma set_distinct_column [simp]: "set (distinct_column f rows) = f ` set rows"
  by (simp add: distinct_column_def)

lemma length_distinct_column: "length (distinct_column f rows) = card (f ` set rows)"
  using distinct_card [of "remdups (rev (map f rows))"] by (simp add: distinct_column_def)

text \<open>
  an attack is a crowd. Without failures the candidates are exactly the accounts younger
  than a day that joined the group successfully in the last five minutes from an address that
  at least the threshold of such accounts joined from, each once; the threshold is a fifth of
  the members rounded up, and five at least.
\<close>

theorem JoinAttackCandidates_crowd:
  assumes "quiet w"
  shows "let d = w_db w; members = count_rows (\<lambda>m. gm_group_id m = gid) (t_group_members d);
      fresh = {j \<in> set (t_join_events d). fresh_join d gid (unix (now - joinAnalysisWindow)) (unix (now - 24 * hour)) j} in
    \<exists>ids threshold. fst (JoinAttackCandidates gid now w) = Inr (ids, threshold) \<and>
      5 \<le> threshold \<and> members \<le> 5 * threshold \<and> (5 < threshold \<longrightarrow> 5 * threshold < members + 5) \<and> distinct ids \<and>
      set ids = je_user_id ` {e \<in> fresh. threshold \<le> int (card (je_user_id ` {j \<in> fresh. je_ip j = je_ip e}))}"
proof -
  let ?d = "w_db w" and ?members = "count_rows (\<lambda>m. gm_group_id m = gid) (t_group_members (w_db w))"
  let ?t = "max 5 ((?members + 4) div 5)"
  let ?P = "fresh_join ?d gid (unix (now - joinAnalysisWindow)) (unix (now - 24 * hour))"
  let ?ids = "join_attackers gid (unix (now - joinAnalysisWindow)) (unix (now - 24 * hour)) ?t ?d"
  let ?fresh = "{j \<in> set (t_join_events ?d). ?P j}"
  have run: "fst (JoinAttackCandidates gid now w) = Inr (?ids, ?t)"
    using assms by (simp add: JoinAttackCandidates_def run_simps Let_def)
  have "distinct ?ids"
    by (simp add: join_attackers_def Let_def distinct_column_def)
  moreover have "set ?ids = je_user_id ` {e \<in> ?fresh. ?t \<le> int (card (je_user_id ` {j \<in> ?fresh. je_ip j = je_ip e}))}"
    by (simp only: join_attackers_def Let_def length_distinct_column set_distinct_column set_filter)
  moreover have "5 \<le> ?t \<and> ?members \<le> 5 * ?t \<and> (5 < ?t \<longrightarrow> 5 * ?t < ?members + 5)"
    by linarith
  ultimately show ?thesis using run unfolding Let_def by blast
qed

section \<open>A group, concretely\<close>

definition club_db :: database where
  "club_db = chat_db\<lparr>
     t_groups := [\<lparr>g_id = ''g'', g_visibility = ''public'', g_owner_id = ''u1'', g_name = ''G'',
       g_avatar = [], g_invite_token = ''i'', g_created_at = 0, g_last_activity_at = 60,
       g_scheduled_for_deletion_at = Some 600, g_protected_from_auto_delete = 0, g_isolated_until = 0,
       g_isolation_level = 0, g_isolation_raised_at = 0\<rparr>],
     t_group_members :=
       [\<lparr>gm_group_id = ''g'', gm_user_id = ''u1'', gm_joined_at = 0, gm_joined_at_nanos = 0\<rparr>,
        \<lparr>gm_group_id = ''g'', gm_user_id = ''u2'', gm_joined_at = 0, gm_joined_at_nanos = 0\<rparr>],
     t_join_events := [\<lparr>je_group_id = ''g'', je_user_id = ''u2'', je_ip = ''ip'', je_joined_at = 0, je_successful = True\<rparr>]\<rparr>"

lemma club_db_rows [simp]:
  "t_groups club_db = [\<lparr>g_id = ''g'', g_visibility = ''public'', g_owner_id = ''u1'', g_name = ''G'',
       g_avatar = [], g_invite_token = ''i'', g_created_at = 0, g_last_activity_at = 60,
       g_scheduled_for_deletion_at = Some 600, g_protected_from_auto_delete = 0, g_isolated_until = 0,
       g_isolation_level = 0, g_isolation_raised_at = 0\<rparr>]"
  "t_group_members club_db =
       [\<lparr>gm_group_id = ''g'', gm_user_id = ''u1'', gm_joined_at = 0, gm_joined_at_nanos = 0\<rparr>,
        \<lparr>gm_group_id = ''g'', gm_user_id = ''u2'', gm_joined_at = 0, gm_joined_at_nanos = 0\<rparr>]"
  "t_messages club_db = [hello]" "t_users club_db = t_users two_users"
  "has_user club_db u \<longleftrightarrow> u = ''u1'' \<or> u = ''u2''" "has_group club_db g \<longleftrightarrow> g = ''g''"
  "t_voice_members club_db = [\<lparr>vm_user_id = ''u1'', vm_voice_room_id = ''v1'', vm_joined_at = 0\<rparr>]"
  "t_voice_rooms club_db = t_voice_rooms voice_db"
  by (auto simp: club_db_def chat_example has_group_def)

lemma club_db_wf [simp]: "wf_db club_db"
  by (simp add: club_db_def chat_example wf_db_def keys_unique_def references_ok_def replies_ok_def refs_def)

definition new_club :: new_group where
  "new_club = \<lparr>ng_ID = ''h'', ng_Visibility = ''private'', ng_OwnerID = ''u1'', ng_Name = ''H'', ng_Avatar = [],
     ng_InviteToken = ''j''\<rparr>"

lemma CreateGroup_Group_witness:
  "\<exists>r. fst (Store_Group ''h'' (snd (Store_CreateGroup new_club minute 2 (started club_db minute [])))) = Inr r \<and> Name r = ''H''"
proof -
  have "fst (Store_CreateGroup new_club minute 2 (started club_db minute [])) = Inr ()"
    and q: "quiet (snd (Store_CreateGroup new_club minute 2 (started club_db minute [])))"
    by (simp_all add: CreateGroup.quiet_run as_specified_def create_group_def new_club_def owned_groups_def
        insert_group_def insert_group_member_def group_row_of_def has_group_def has_user_def two_users_def)
  from CreateGroup_Group [OF _ run_result [OF this(1)] q] show ?thesis by (auto simp: new_club_def)
qed

lemma JoinGroup_member_witness:
  "w_db (snd (Store_JoinGroup ''g'' ''u2'' minute (running club_db))) = club_db"
proof -
  have "fst (Store_JoinGroup ''g'' ''u2'' minute (running club_db)) = Inr ()"
    by (simp add: Store_JoinGroup_def run_simps stmt_def join_row_def insert_group_member_def isConstraint_def)
  from JoinGroup_member [OF run_result [OF this]] show ?thesis by (simp add: group_member_of_def)
qed

lemma RemoveGroupMember_removes_witness:
  "\<not> in_group_voice ''g'' ''u1'' (w_db (snd (RemoveGroupMember ''g'' ''u1'' (running club_db))))"
proof -
  have "fst (RemoveGroupMember ''g'' ''u1'' (running club_db)) = Inr ()"
    by (simp add: RemoveGroupMember_def transaction_quiet run_simps drop_member_def)
  from RemoveGroupMember_removes [OF run_result [OF this]] show ?thesis by simp
qed

lemma club_cleanup:
  "fst (DeleteScheduledGroups (10 * minute) (2 * minute) 5 (running club_db)) = Inr [''g'']"
  "fst (DeleteInactiveGroupsNow (2 * minute) 5 (running club_db)) = Inr [''g'']"
  by (simp_all add: DeleteScheduledGroups_def DeleteInactiveGroupsNow_def inactive_purge_def transaction_quiet run_simps
      due_groups_def due_at_def idle_groups_def limit_rows_def order_by_def delete_group_def)

lemma DeleteScheduledGroups_spares_witness:
  "t_groups (w_db (snd (DeleteScheduledGroups (10 * minute) (2 * minute) 5 (running club_db)))) = []"
  using DeleteScheduledGroups_spares [OF _ _ run_result [OF club_cleanup(1)]] by simp

lemma DeleteInactiveGroupsNow_oldest_witness:
  "t_groups (w_db (snd (DeleteInactiveGroupsNow (2 * minute) 5 (running club_db)))) = []"
  using DeleteInactiveGroupsNow_oldest [OF _ _ run_result [OF club_cleanup(2)]] by simp

lemma message_saves_group_witness:
  "has_group (w_db (snd (DeleteScheduledGroups (10 * minute) (5 * minute) 5
     (snd (AddMessageWithAttachments answer [] (running club_db)))))) ''g''"
proof -
  let ?w = "snd (AddMessageWithAttachments answer [] (running club_db))"
  have sent: "fst (AddMessageWithAttachments answer [] (running club_db)) = Inr ()"
    by (simp add: AddMessageWithAttachments_def groupmessages_Add_def transaction_quiet run_simps
        insert_message_def message_row_of_def answer_def hello_def has_message_def no_user_def)
  have "fst (DeleteScheduledGroups (10 * minute) (5 * minute) 5 ?w) = Inr []"
    by (simp add: AddMessageWithAttachments_def groupmessages_Add_def transaction_quiet run_simps
        insert_message_def message_row_of_def answer_def hello_def has_message_def no_user_def
        DeleteScheduledGroups_def due_groups_def due_at_def touch_group_def limit_rows_def order_by_def)
  from message_saves_group [OF _ run_result [OF sent] refl run_result [OF this]]
  show ?thesis by (simp add: answer_def)
qed


lemma JoinAttackCandidates_crowd_witness:
  "\<exists>ids threshold. fst (JoinAttackCandidates ''g'' minute (running club_db)) = Inr (ids, threshold) \<and>
     5 \<le> threshold \<and> (5 < threshold \<longrightarrow> 5 * threshold < 2 + 5) \<and> distinct ids"
  using JoinAttackCandidates_crowd [of "running club_db" "''g''" minute] by (simp add: Let_def) blast

text \<open>Leaving a group, unlike being removed from it, leaves the caller in its voice room.\<close>

lemma LeaveGroup_stays_in_voice:
  "(let left = snd (Store_LeaveGroup ''g'' ''u1'' (running club_db)) in
    \<not> group_member_of ''g'' ''u1'' (w_db left) \<and> in_group_voice ''g'' ''u1'' (w_db left))"
  by (simp add: Store_LeaveGroup_def run_simps drop_member_def group_member_of_def in_group_voice_def
      Let_def) (simp add: voice_db_def)

end
