(* ===== verification/AttachmentStore.thy ===== *)
theory AttachmentStore
  imports Messages Runtime
begin

text \<open>
  What \<^verbatim>\<open>store/attachments\<close> keeps beside the attachments of a message
  (\<^verbatim>\<open>metadata.go\<close>): expiry, quotas by owner and in all, the look-up by path, and the
  requests to delete every attachment of an account (\<^verbatim>\<open>deletion.go\<close>). An attachment
  row lives as long as its message, its group and its owner.
\<close>

section \<open>Metadata\<close>

definition attachments_Get :: "string \<Rightarrow> ('z, attachment) dbm" where
  "attachments_Get aid =
     andThen (select (\<lambda>d. map_option as_attachment (row_with a_id aid (t_attachments d)))) (\<lambda>row.
     case row of None \<Rightarrow> raise ErrNoRows | Some a \<Rightarrow> ret a)"

definition Store_Attachment :: "string \<Rightarrow> ('z, attachment) dbm" where
  "Store_Attachment aid =
     map_error (\<lambda>e. if e = ErrNoRows then ErrNotFound else e) (attachments_Get aid)"

definition expired_attachments :: "int \<Rightarrow> int \<Rightarrow> database \<Rightarrow> attachment list" where
  "expired_attachments now n d = map as_attachment (limit_rows n
     (order_by (\<lambda>a. (a_expires_at a, a_id a)) (filter (\<lambda>a. a_expires_at a \<le> now) (t_attachments d))))"

text \<open>Despite its name \<^verbatim>\<open>DeleteExpired\<close> only lists; the caller deletes file and row.\<close>

definition attachments_DeleteExpired :: "time \<Rightarrow> int \<Rightarrow> ('z, attachment list) dbm" where
  "attachments_DeleteExpired now n =
     (let n = (if n < 1 then 500 else n) in select (expired_attachments (unix now) n))"

definition attachments_Delete :: "string \<Rightarrow> ('z, unit) dbm" where
  "attachments_Delete aid =
     exec (\<lambda>d. d\<lparr>t_attachments := filter (\<lambda>a. a_id a \<noteq> aid) (t_attachments d)\<rparr>)"

definition size_where :: "(attachment_row \<Rightarrow> bool) \<Rightarrow> database \<Rightarrow> int" where
  "size_where P d = sum_list (map a_size (filter P (t_attachments d)))"

definition SumForOwner :: "string \<Rightarrow> ('z, int) dbm" where
  "SumForOwner ownerID = select (size_where (\<lambda>a. a_owner_id a = ownerID))"

definition SumCreatedSince :: "string \<Rightarrow> time \<Rightarrow> ('z, int) dbm" where
  "SumCreatedSince ownerID since =
     select (size_where (\<lambda>a. a_owner_id a = ownerID \<and> a_created_at a \<ge> unix since))"

definition UserCreatedAt :: "string \<Rightarrow> ('z, time) dbm" where
  "UserCreatedAt userID =
     andThen (select (\<lambda>d. map_option u_created_at (user_row_of d userID))) (\<lambda>row.
     case row of None \<Rightarrow> raise ErrNoRows | Some created \<Rightarrow> ret (of_unix created))"

definition SumAll :: "('z, int) dbm" where
  "SumAll = select (size_where (\<lambda>a. True))"

definition has_path :: "string \<Rightarrow> database \<Rightarrow> bool" where
  "has_path path d \<longleftrightarrow> list_ex (\<lambda>a. a_path a = path) (t_attachments d)"

definition HasPath :: "string \<Rightarrow> ('z, bool) dbm" where
  "HasPath path = select (has_path path)"

section \<open>Requests to delete everything\<close>

text \<open>\<^verbatim>\<open>"adr_" + hex\<close> of 18 random bytes.\<close>

definition deleteRequestID :: "('z runtime_scheme, store_error, string) action" where
  "deleteRequestID =
     andThen (read_full 18) (\<lambda>b.
     case b of
       None \<Rightarrow> raise ErrRandom
     | Some bytes \<Rightarrow> ret (''adr_'' @ hex_encode bytes))"

text \<open>
  \<^verbatim>\<open>INSERT OR IGNORE\<close>: a duplicate identifier or a second request of the account is left out
  silently, a missing account is still an error.
\<close>

definition insert_delete_request :: "delete_request_row \<Rightarrow> database \<Rightarrow> database option" where
  "insert_delete_request r d =
     (if list_ex (\<lambda>x. dr_id x = dr_id r \<or> dr_user_id x = dr_user_id r) (t_delete_requests d) then Some d
      else guarded (has_user d (dr_user_id r)) (d\<lparr>t_delete_requests := t_delete_requests d @ [r]\<rparr>))"

definition as_delete_request :: "delete_request_row \<Rightarrow> attachment_delete_request" where
  "as_delete_request r =
     \<lparr>request_ID = dr_id r, request_UserID = dr_user_id r, request_CreatedAt = of_unix (dr_created_at r),
      ExecuteAt = of_unix (dr_execute_at r)\<rparr>"

definition GetDeleteRequest :: "string \<Rightarrow> ('z, attachment_delete_request) dbm" where
  "GetDeleteRequest userID =
     andThen (select (\<lambda>d. map_option as_delete_request
       (row_with dr_user_id userID (t_delete_requests d)))) (\<lambda>row.
     case row of None \<Rightarrow> raise ErrDeleteRequestNotFound | Some r \<Rightarrow> ret r)"

definition CreateDeleteRequest ::
  "string \<Rightarrow> time \<Rightarrow> time \<Rightarrow> ('z runtime_scheme, store_error, attachment_delete_request) action" where
  "CreateDeleteRequest userID createdAt executeAt =
     andThen deleteRequestID (\<lambda>rid.
     andThen (insert_into (insert_delete_request
       \<lparr>dr_id = rid, dr_user_id = userID, dr_created_at = unix createdAt,
        dr_execute_at = unix executeAt\<rparr>)) (\<lambda>_.
     GetDeleteRequest userID))"

definition CancelDeleteRequest :: "string \<Rightarrow> ('z, unit) dbm" where
  "CancelDeleteRequest userID =
     andThen (exec_count (\<lambda>d. (count_rows (\<lambda>r. dr_user_id r = userID) (t_delete_requests d),
       d\<lparr>t_delete_requests := filter (\<lambda>r. dr_user_id r \<noteq> userID) (t_delete_requests d)\<rparr>))) (\<lambda>count.
     if count = 0 then raise ErrDeleteRequestNotFound else ret ())"

definition due_requests :: "int \<Rightarrow> int \<Rightarrow> database \<Rightarrow> attachment_delete_request list" where
  "due_requests now n d = map as_delete_request (limit_rows n
     (order_by (\<lambda>r. (dr_execute_at r, dr_id r))
       (filter (\<lambda>r. dr_execute_at r \<le> now) (t_delete_requests d))))"

definition ListDueDeleteRequests :: "time \<Rightarrow> int \<Rightarrow> ('z, attachment_delete_request list) dbm" where
  "ListDueDeleteRequests now n =
     (let n = (if n < 1 then 100 else n) in select (due_requests (unix now) n))"

definition DeleteDeleteRequest :: "string \<Rightarrow> ('z, unit) dbm" where
  "DeleteDeleteRequest rid =
     exec (\<lambda>d. d\<lparr>t_delete_requests := filter (\<lambda>r. dr_id r \<noteq> rid) (t_delete_requests d)\<rparr>)"

definition ListUserAttachmentFiles :: "string \<Rightarrow> ('z, string list) dbm" where
  "ListUserAttachmentFiles userID =
     select (\<lambda>d. map a_path (filter (\<lambda>a. a_owner_id a = userID) (t_attachments d)))"

text \<open>Only identifier, message, group and path of the deleted attachments are filled in.\<close>

definition deleted_attachment :: "attachment_row \<Rightarrow> attachment" where
  "deleted_attachment a =
     \<lparr>att_ID = a_id a, MessageID = a_message_id a, att_GroupID = a_group_id a, OwnerID = [],
      att_Kind = [], Mime = [], att_Name = [], Size = 0, Path = a_path a,
      att_CreatedAt = zero_time, att_ExpiresAt = zero_time\<rparr>"

definition carries_attachment_of :: "string \<Rightarrow> database \<Rightarrow> message_row \<Rightarrow> bool" where
  "carries_attachment_of userID d m \<longleftrightarrow>
     list_ex (\<lambda>a. a_owner_id a = userID \<and> a_message_id a = m_id m) (t_attachments d)"

definition DeleteUserAttachmentMessages :: "string \<Rightarrow> ('z, attachment list) dbm" where
  "DeleteUserAttachmentMessages userID = transaction
     (andThen (select (\<lambda>d. map deleted_attachment
        (filter (\<lambda>a. a_owner_id a = userID) (t_attachments d)))) (\<lambda>items.
      andThen (exec (\<lambda>d. delete_messages (carries_attachment_of userID d) d)) (\<lambda>_.
      ret (Commit items))))"

section \<open>Integrity\<close>

lemma insert_delete_request_wf:
  "wf_db d \<Longrightarrow> insert_delete_request r d = Some d' \<Longrightarrow> wf_db d'"
  by (auto simp: insert_delete_request_def wf_db_def keys_unique_def references_ok_def insert_simps
      list_ex_iff split: if_splits)

lemma attachments_keep_wf [keeps_intros]:
  "keeps wf_db (attachments_Delete aid)"
  "keeps wf_db (CreateDeleteRequest userID createdAt executeAt)"
  "keeps wf_db (CancelDeleteRequest userID)"
  "keeps wf_db (DeleteDeleteRequest rid)"
  "keeps wf_db (DeleteUserAttachmentMessages userID)"
  unfolding attachments_Delete_def CreateDeleteRequest_def deleteRequestID_def GetDeleteRequest_def
    CancelDeleteRequest_def DeleteDeleteRequest_def DeleteUserAttachmentMessages_def
  by (intro keeps_intros; (erule (1) insert_delete_request_wf | simp add: wf_updates))+

lemma attachment_reads_keep [keeps_intros]:
  "keeps I (attachments_Get aid)" "keeps I (attachments_DeleteExpired now n)"
  "keeps I (SumForOwner u)" "keeps I (SumCreatedSince u t)" "keeps I (UserCreatedAt u)"
  "keeps I SumAll" "keeps I (HasPath p)" "keeps I (GetDeleteRequest u)"
  "keeps I (ListDueDeleteRequests now n)" "keeps I (ListUserAttachmentFiles u)"
  unfolding attachments_Get_def attachments_DeleteExpired_def SumForOwner_def SumCreatedSince_def
    UserCreatedAt_def SumAll_def HasPath_def GetDeleteRequest_def ListDueDeleteRequests_def
    ListUserAttachmentFiles_def Let_def
  by (intro keeps_intros)+

end
