(* ===== verification/Utf8.thy ===== *)
theory Utf8
  imports Prelude
begin

text \<open>
  Strings and runes as Go has them: a string is a sequence of bytes, \<^verbatim>\<open>for range\<close>,
  \<^verbatim>\<open>[]rune(s)\<close> and \<^verbatim>\<open>unicode/utf8\<close> decode it, and an invalid byte reads as U+FFFD of width
  one. With the functions of \<^verbatim>\<open>strings\<close> and \<^verbatim>\<open>unicode\<close> the program applies to text from its
  users. The tables of letters, digits and lower case are a parameter; white space and
  control characters are the code points the standard lists.
\<close>

section \<open>Decoding\<close>

type_synonym rune = nat

definition RuneError :: rune where "RuneError = 65533"

definition bt :: "char \<Rightarrow> nat" where "bt c = of_char c"

text \<open>The length of the sequence a first byte starts and the range of its second byte.\<close>

definition lead :: "nat \<Rightarrow> (nat \<times> nat \<times> nat) option" where
  "lead b =
     (if 194 \<le> b \<and> b \<le> 223 then Some (2, 128, 191)
      else if b = 224 then Some (3, 160, 191)
      else if b = 237 then Some (3, 128, 159)
      else if 225 \<le> b \<and> b \<le> 239 then Some (3, 128, 191)
      else if b = 240 then Some (4, 144, 191)
      else if 241 \<le> b \<and> b \<le> 243 then Some (4, 128, 191)
      else if b = 244 then Some (4, 128, 143)
      else None)"

definition continues :: "nat \<Rightarrow> bool" where "continues b \<longleftrightarrow> 128 \<le> b \<and> b \<le> 191"

definition decode_more :: "nat \<times> nat \<times> nat \<Rightarrow> nat \<Rightarrow> nat list \<Rightarrow> rune \<times> nat" where
  "decode_more l b0 bs =
     (case l of (n, lo, hi) \<Rightarrow>
       (case bs of
          [] \<Rightarrow> (RuneError, 1)
        | b1 # bs \<Rightarrow>
            if length bs + 2 < n \<or> b1 < lo \<or> hi < b1 then (RuneError, 1)
            else if n = 2 then ((b0 mod 32) * 64 + b1 mod 64, 2)
            else
              (case bs of
                 [] \<Rightarrow> (RuneError, 1)
               | b2 # bs \<Rightarrow>
                   if \<not> continues b2 then (RuneError, 1)
                   else if n = 3 then ((b0 mod 16) * 4096 + (b1 mod 64) * 64 + b2 mod 64, 3)
                   else
                     (case bs of
                        [] \<Rightarrow> (RuneError, 1)
                      | b3 # _ \<Rightarrow>
                          if \<not> continues b3 then (RuneError, 1)
                          else ((b0 mod 8) * 262144 + (b1 mod 64) * 4096 + (b2 mod 64) * 64 + b3 mod 64, 4)))))"

text \<open>\<^verbatim>\<open>utf8.DecodeRuneInString\<close>\<close>

definition DecodeRune :: "string \<Rightarrow> rune \<times> nat" where
  "DecodeRune s =
     (case map bt (take 4 s) of
        [] \<Rightarrow> (RuneError, 0)
      | b0 # bs \<Rightarrow>
          if b0 < 128 then (b0, 1)
          else (case lead b0 of None \<Rightarrow> (RuneError, 1) | Some l \<Rightarrow> decode_more l b0 bs))"

text \<open>The runes of a string with the bytes each was read from.\<close>

function (sequential) segments :: "string \<Rightarrow> (rune \<times> string) list" where
  "segments [] = []"
| "segments (c # cs) =
     (let (r, n) = DecodeRune (c # cs) in (r, take n (c # cs)) # segments (drop (n - 1) cs))"
  by pat_completeness auto
termination by (relation "measure length") simp_all

definition runes :: "string \<Rightarrow> rune list" where "runes s = map fst (segments s)"

definition RuneCountInString :: "string \<Rightarrow> int" where
  "RuneCountInString s = int (length (segments s))"

definition ValidString :: "string \<Rightarrow> bool" where
  "ValidString s \<longleftrightarrow> list_all (\<lambda>(r, bytes). \<not> (r = RuneError \<and> length bytes = 1)) (segments s)"

section \<open>Encoding\<close>

definition valid_rune :: "rune \<Rightarrow> bool" where
  "valid_rune r \<longleftrightarrow> r < 55296 \<or> 57344 \<le> r \<and> r \<le> 1114111"

definition encode_bytes :: "rune \<Rightarrow> nat list" where
  "encode_bytes r =
     (if r < 128 then [r]
      else if r < 2048 then [192 + r div 64, 128 + r mod 64]
      else if r < 65536 then [224 + r div 4096, 128 + r div 64 mod 64, 128 + r mod 64]
      else [240 + r div 262144, 128 + r div 4096 mod 64, 128 + r div 64 mod 64, 128 + r mod 64])"

text \<open>\<^verbatim>\<open>utf8.AppendRune\<close>\<close>

definition encode_rune :: "rune \<Rightarrow> string" where
  "encode_rune r = map char_of (encode_bytes (if valid_rune r then r else RuneError))"

definition encode :: "rune list \<Rightarrow> string" where
  "encode rs = concat (map encode_rune rs)"

section \<open>Text functions\<close>

text \<open>\<^verbatim>\<open>unicode.IsSpace\<close> and \<^verbatim>\<open>unicode.IsControl\<close>.\<close>

definition IsSpace :: "rune \<Rightarrow> bool" where
  "IsSpace r \<longleftrightarrow> r \<in> {9, 10, 11, 12, 13, 32, 133, 160, 5760, 8232, 8233, 8239, 8287, 12288}
     \<or> 8192 \<le> r \<and> r \<le> 8202"

definition IsControl :: "rune \<Rightarrow> bool" where
  "IsControl r \<longleftrightarrow> r < 32 \<or> 127 \<le> r \<and> r < 160"

text \<open>The categories and the case map of the Unicode version the program was built with.\<close>

record unicode =
  IsLetter :: "rune \<Rightarrow> bool"
  IsDigit :: "rune \<Rightarrow> bool"
  IsNumber :: "rune \<Rightarrow> bool"
  lower_rune :: "rune \<Rightarrow> rune"

text \<open>
  \<^verbatim>\<open>strings.TrimSpace\<close>. The decoder never reads past a first byte, so the runes read from the
  right are those read from the left.
\<close>

definition TrimSpace :: "string \<Rightarrow> string" where
  "TrimSpace s = concat (map snd
     (rev (dropWhile (\<lambda>p. IsSpace (fst p)) (rev (dropWhile (\<lambda>p. IsSpace (fst p)) (segments s))))))"

text \<open>\<^verbatim>\<open>strings.ToLower\<close>: a map over the runes, so that an invalid byte becomes U+FFFD.\<close>

definition ToLower :: "unicode \<Rightarrow> string \<Rightarrow> string" where
  "ToLower u s = encode (map (lower_rune u) (runes s))"

section \<open>Laws\<close>

lemma bt_char_of [simp]: "n < 256 \<Longrightarrow> bt (char_of n) = n"
  by (simp add: bt_def)

lemma char_of_bt [simp]: "char_of (bt c) = c"
  by (simp add: bt_def)

lemma bt_less [simp]: "bt c < 256"
  by (simp add: bt_def of_char_def)

lemma encode_bytes_less: "r \<le> 1114111 \<Longrightarrow> b \<in> set (encode_bytes r) \<Longrightarrow> b < 256"
  by (auto simp: encode_bytes_def split: if_splits)

lemma map_bt_encode: "valid_rune r \<Longrightarrow> map bt (encode_rune r) = encode_bytes r"
proof -
  assume r: "valid_rune r"
  then have "b < 256" if "b \<in> set (encode_bytes r)" for b
    using encode_bytes_less [OF _ that] by (auto simp: valid_rune_def)
  then have "map (bt \<circ> char_of) (encode_bytes r) = map (\<lambda>b. b) (encode_bytes r)"
    by (intro map_cong) simp_all
  then show ?thesis using r by (simp add: encode_rune_def)
qed

lemma digits64: "(r :: nat) = r div 64 * 64 + r mod 64"
  "r = r div 4096 * 4096 + r div 64 mod 64 * 64 + r mod 64"
  "r = r div 262144 * 262144 + r div 4096 mod 64 * 4096 + r div 64 mod 64 * 64 + r mod 64"
proof -
  have two: "r div 64 = r div 4096 * 64 + r div 64 mod 64" for r :: nat
    using div_mult_mod_eq [of "r div 64" 64] by (simp add: div_mult2_eq [symmetric])
  have three: "r div 4096 = r div 262144 * 64 + r div 4096 mod 64" for r :: nat
    using div_mult_mod_eq [of "r div 4096" 64] by (simp add: div_mult2_eq [symmetric])
  show one: "r = r div 64 * 64 + r mod 64" by simp
  show "r = r div 4096 * 4096 + r div 64 mod 64 * 64 + r mod 64"
    using one two [of r] by linarith
  then show "r = r div 262144 * 262144 + r div 4096 mod 64 * 4096 + r div 64 mod 64 * 64 + r mod 64"
    using three [of r] by linarith
qed

lemma low_bits: "a < 64 \<Longrightarrow> (128 + a) mod 64 = (a :: nat)" "a < 32 \<Longrightarrow> (192 + a) mod 32 = a"
  "a < 16 \<Longrightarrow> (224 + a) mod 16 = a" "a < 8 \<Longrightarrow> (240 + a) mod 8 = a"
  using mod_mult_self2 [of a 64 2] mod_mult_self2 [of a 32 6] mod_mult_self2 [of a 16 14]
    mod_mult_self2 [of a 8 30] by (simp_all add: add.commute)

lemma decode_two:
  "2 \<le> a \<Longrightarrow> a < 32 \<Longrightarrow> c < 64 \<Longrightarrow>
   \<exists>l. lead (192 + a) = Some l \<and> decode_more l (192 + a) ((128 + c) # t) = (a * 64 + c, 2)"
  by (simp add: lead_def decode_more_def low_bits)

lemma decode_three:
  assumes "a < 16" "b < 64" "c < 64" "a = 0 \<longrightarrow> 32 \<le> b" "a = 13 \<longrightarrow> b < 32"
  shows "\<exists>l. lead (224 + a) = Some l \<and>
    decode_more l (224 + a) ((128 + b) # (128 + c) # t) = (a * 4096 + b * 64 + c, 3)"
  using assms by (auto simp: lead_def decode_more_def low_bits continues_def)

lemma decode_four:
  assumes "a < 5" "b < 64" "c < 64" "d < 64" "a = 0 \<longrightarrow> 16 \<le> b" "a = 4 \<longrightarrow> b < 16"
  shows "\<exists>l. lead (240 + a) = Some l \<and>
    decode_more l (240 + a) ((128 + b) # (128 + c) # (128 + d) # t) = (a * 262144 + b * 4096 + c * 64 + d, 4)"
  using assms by (auto simp: lead_def decode_more_def low_bits continues_def)

lemma decode_encode_bytes:
  assumes "valid_rune r"
  shows "\<exists>b0 bs. encode_bytes r = b0 # bs \<and>
    (if b0 < 128 then (b0, 1) else (case lead b0 of None \<Rightarrow> (RuneError, 1) | Some l \<Rightarrow> decode_more l b0 (bs @ t)))
      = (r, length (encode_bytes r))"
proof -
  consider (one) "r < 128" | (two) "128 \<le> r" "r < 2048" | (three) "2048 \<le> r" "r < 65536" | (four) "65536 \<le> r"
    by linarith
  then show ?thesis
  proof cases
    case one
    then show ?thesis by (simp add: encode_bytes_def)
  next
    case two
    then have "2 \<le> r div 64" "r div 64 < 32" by linarith+
    then obtain l where "lead (192 + r div 64) = Some l"
      "decode_more l (192 + r div 64) ((128 + r mod 64) # t) = (r div 64 * 64 + r mod 64, 2)"
      using decode_two [of "r div 64" "r mod 64" t] by auto
    then show ?thesis using two digits64(1) [of r] by (simp add: encode_bytes_def)
  next
    case three
    let ?a = "r div 4096" and ?b = "r div 64 mod 64" and ?c = "r mod 64"
    have r: "r = ?a * 4096 + ?b * 64 + ?c" by (rule digits64)
    have range: "r < 55296 \<or> 57344 \<le> r" using assms three by (auto simp: valid_rune_def)
    have bc: "?b < 64" "?c < 64" by simp_all
    have "?a < 16" using three r by linarith
    moreover have "?a = 0 \<longrightarrow> 32 \<le> ?b" using three r bc by linarith
    moreover have "?a = 13 \<longrightarrow> ?b < 32" using range r bc by linarith
    ultimately obtain l where "lead (224 + ?a) = Some l"
      "decode_more l (224 + ?a) ((128 + ?b) # (128 + ?c) # t) = (?a * 4096 + ?b * 64 + ?c, 3)"
      using decode_three [of ?a ?b ?c t] bc by metis
    then show ?thesis using three r by (simp add: encode_bytes_def)
  next
    case four
    let ?a = "r div 262144" and ?b = "r div 4096 mod 64" and ?c = "r div 64 mod 64" and ?d = "r mod 64"
    have r: "r = ?a * 262144 + ?b * 4096 + ?c * 64 + ?d" by (rule digits64)
    have range: "r \<le> 1114111" using assms four by (auto simp: valid_rune_def)
    have bcd: "?b < 64" "?c < 64" "?d < 64" by simp_all
    have "?a < 5" using range r by linarith
    moreover have "?a = 0 \<longrightarrow> 16 \<le> ?b" using four r bcd by linarith
    moreover have "?a = 4 \<longrightarrow> ?b < 16" using range r bcd by linarith
    ultimately obtain l where "lead (240 + ?a) = Some l"
      "decode_more l (240 + ?a) ((128 + ?b) # (128 + ?c) # (128 + ?d) # t) = (?a * 262144 + ?b * 4096 + ?c * 64 + ?d, 4)"
      using decode_four [of ?a ?b ?c ?d t] bcd by metis
    then show ?thesis using four r by (simp add: encode_bytes_def)
  qed
qed

lemma encode_bytes_length: "1 \<le> length (encode_bytes r)" "length (encode_bytes r) \<le> 4"
  by (simp_all add: encode_bytes_def)

lemma encode_rune_length: "length (encode_rune r) = length (encode_bytes (if valid_rune r then r else RuneError))"
  by (simp add: encode_rune_def)

lemma DecodeRune_encode:
  assumes "valid_rune r"
  shows "DecodeRune (encode_rune r @ s) = (r, length (encode_rune r))"
proof -
  have len: "length (encode_rune r) = length (encode_bytes r)" using assms by (simp add: encode_rune_length)
  have "take 4 (encode_rune r @ s) = encode_rune r @ take (4 - length (encode_rune r)) s"
    using encode_bytes_length(2) [of r] len by simp
  then have bytes: "map bt (take 4 (encode_rune r @ s)) = encode_bytes r @ map bt (take (4 - length (encode_rune r)) s)"
    by (simp only: map_append map_bt_encode [OF assms])
  obtain b0 bs where enc: "encode_bytes r = b0 # bs" and
    "(if b0 < 128 then (b0, 1) else (case lead b0 of None \<Rightarrow> (RuneError, 1)
      | Some l \<Rightarrow> decode_more l b0 (bs @ map bt (take (4 - length (encode_rune r)) s)))) = (r, length (encode_bytes r))"
    using decode_encode_bytes [OF assms, of "map bt (take (4 - length (encode_rune r)) s)"] by blast
  then show ?thesis
    unfolding DecodeRune_def bytes enc len append_Cons list.case by simp
qed

lemma segments_encode_Cons:
  assumes "valid_rune r"
  shows "segments (encode_rune r @ s) = (r, encode_rune r) # segments s"
proof -
  obtain c cs where enc: "encode_rune r = c # cs"
    using encode_bytes_length(1) [of r] assms by (cases "encode_rune r") (simp_all add: encode_rune_def)
  have "DecodeRune (c # cs @ s) = (r, length (c # cs))"
    using DecodeRune_encode [OF assms, of s] enc by simp
  then show ?thesis by (simp add: enc)
qed

text \<open>Reading what was written gives the runes back.\<close>

lemma segments_encode:
  "\<forall>r \<in> set rs. valid_rune r \<Longrightarrow> segments (encode rs) = map (\<lambda>r. (r, encode_rune r)) rs"
  by (induction rs) (simp_all add: encode_def segments_encode_Cons)

lemma runes_encode: "\<forall>r \<in> set rs. valid_rune r \<Longrightarrow> runes (encode rs) = rs"
  by (simp add: runes_def segments_encode comp_def)

text \<open>Every string is the concatenation of what its runes were read from.\<close>

lemma DecodeRune_width: "s \<noteq> [] \<Longrightarrow> 1 \<le> snd (DecodeRune s) \<and> snd (DecodeRune s) \<le> length s"
proof -
  assume "s \<noteq> []"
  then obtain c cs where s: "s = c # cs" by (cases s) auto
  have more: "1 \<le> snd (decode_more l b0 bs) \<and> snd (decode_more l b0 bs) \<le> Suc (length bs)" for l b0 and bs :: "nat list"
    by (auto simp: decode_more_def split: list.split prod.split)
  have "map bt (take 4 (c # cs)) = bt c # map bt (take 3 cs)" by simp
  moreover have "Suc (length (map bt (take 3 cs))) \<le> Suc (length cs)" by simp
  then have "1 \<le> snd (decode_more l (bt c) (map bt (take 3 cs))) \<and>
      snd (decode_more l (bt c) (map bt (take 3 cs))) \<le> Suc (length cs)" for l
    using more [of l "bt c" "map bt (take 3 cs)"] le_trans by blast
  ultimately show ?thesis
    unfolding s DecodeRune_def by (simp split: option.split)
qed

lemma segments_concat: "concat (map snd (segments s)) = s"
proof (induction s rule: segments.induct)
  case (2 c cs)
  obtain r n where d: "DecodeRune (c # cs) = (r, n)" by fastforce
  then have "1 \<le> n" using DecodeRune_width [of "c # cs"] by simp
  then have "take n (c # cs) @ drop (n - 1) cs = c # cs" by (cases n) simp_all
  then show ?case using 2 [of "(r, n)" r n] d by simp
qed simp

lemma cont_mod: "128 \<le> b \<Longrightarrow> b \<le> 191 \<Longrightarrow> b mod 64 = b - (128 :: nat)"
proof -
  assume b: "128 \<le> b" "b \<le> 191"
  then have "b = (b - 128) + 64 * 2" by simp
  then have "b mod 64 = (b - 128) mod 64" by (metis mod_mult_self2)
  then show ?thesis using b by simp
qed

lemma lead_mod: "224 \<le> b \<Longrightarrow> b \<le> 239 \<Longrightarrow> b mod 16 = b - (224 :: nat)"
  "240 \<le> b \<Longrightarrow> b \<le> 247 \<Longrightarrow> b mod 8 = b - (240 :: nat)"
proof -
  assume b: "224 \<le> b" "b \<le> 239"
  then have "b = (b - 224) + 16 * 14" by simp
  then have "b mod 16 = (b - 224) mod 16" by (metis mod_mult_self2)
  then show "b mod 16 = b - 224" using b by simp
next
  assume b: "240 \<le> b" "b \<le> 247"
  then have "b = (b - 240) + 8 * 30" by simp
  then have "b mod 8 = (b - 240) mod 8" by (metis mod_mult_self2)
  then show "b mod 8 = b - 240" using b by simp
qed

lemma valid_two: "valid_rune (b0 mod 32 * 64 + b1 mod 64)"
proof -
  have "b0 mod 32 < 32" "b1 mod 64 < 64" for b0 b1 :: nat by simp_all
  from this(1) [of b0] this(2) [of b1] have "b0 mod 32 * 64 + b1 mod 64 < 2048" by linarith
  then show ?thesis by (simp add: valid_rune_def)
qed

lemma valid_three:
  assumes "lead b0 = Some (3, lo, hi)" "lo \<le> b1" "b1 \<le> hi"
  shows "valid_rune (b0 mod 16 * 4096 + b1 mod 64 * 64 + b2 mod 64)"
proof -
  have b0: "224 \<le> b0" "b0 \<le> 239" and b1: "128 \<le> b1" "b1 \<le> 191" and surrogates: "b0 = 237 \<longrightarrow> b1 \<le> 159"
    using assms by (auto simp: lead_def split: if_splits)
  define x y z where "x = b0 mod 16" and "y = b1 mod 64" and "z = b2 mod 64"
  have "x = b0 - 224" "y = b1 - 128" using lead_mod(1) [OF b0] cont_mod [OF b1] by (simp_all add: x_def y_def)
  then have xy: "x \<le> 15" "y \<le> 63" "x = 13 \<longrightarrow> y \<le> 31" "z < 64"
    using b0 b1 surrogates by (auto simp: z_def)
  consider "x \<le> 12" | "x = 13" | "14 \<le> x" by linarith
  then have "x * 4096 + y * 64 + z < 55296 \<or> 57344 \<le> x * 4096 + y * 64 + z \<and> x * 4096 + y * 64 + z \<le> 1114111"
    by cases (use xy in linarith)+
  then show ?thesis by (simp add: valid_rune_def x_def y_def z_def)
qed

lemma valid_four:
  assumes "lead b0 = Some (4, lo, hi)" "lo \<le> b1" "b1 \<le> hi"
  shows "valid_rune (b0 mod 8 * 262144 + b1 mod 64 * 4096 + b2 mod 64 * 64 + b3 mod 64)"
proof -
  have b0: "240 \<le> b0" "b0 \<le> 244" and b1: "128 \<le> b1" "b1 \<le> 191"
    and range: "b0 = 240 \<longrightarrow> 144 \<le> b1" "b0 = 244 \<longrightarrow> b1 \<le> 143"
    using assms by (auto simp: lead_def split: if_splits)
  define x y z v where "x = b0 mod 8" and "y = b1 mod 64" and "z = b2 mod 64" and "v = b3 mod 64"
  have "x = b0 - 240" "y = b1 - 128"
    using lead_mod(2) [of b0] b0 cont_mod [OF b1] by (simp_all add: x_def y_def)
  then have xy: "x \<le> 4" "y \<le> 63" "x = 0 \<longrightarrow> 16 \<le> y" "x = 4 \<longrightarrow> y \<le> 15" "z < 64" "v < 64"
    using b0 b1 range by (auto simp: z_def v_def)
  consider "x = 0" | "1 \<le> x" "x \<le> 3" | "x = 4" using xy(1) by linarith
  then have "57344 \<le> x * 262144 + y * 4096 + z * 64 + v \<and> x * 262144 + y * 4096 + z * 64 + v \<le> 1114111"
    by cases (use xy in linarith)+
  then show ?thesis by (simp add: valid_rune_def x_def y_def z_def v_def)
qed

lemma decode_more_valid:
  assumes "lead b0 = Some l"
  shows "valid_rune (fst (decode_more l b0 bs))"
proof -
  obtain n lo hi where l: "l = (n, lo, hi)" by (cases l)
  have n: "n = 2 \<or> n = 3 \<or> n = 4" using assms l by (auto simp: lead_def split: if_splits)
  have err: "valid_rune RuneError" by (simp add: valid_rune_def RuneError_def)
  show ?thesis
    using n assms valid_three [of b0 lo hi] valid_four [of b0 lo hi]
    by (auto simp: decode_more_def l err valid_two not_less split: list.split)
qed

lemma DecodeRune_valid: "valid_rune (fst (DecodeRune s))"
proof -
  have "valid_rune RuneError" "b < 128 \<Longrightarrow> valid_rune b" for b
    by (simp_all add: valid_rune_def RuneError_def)
  then show ?thesis
    by (auto simp: DecodeRune_def decode_more_valid split: list.split option.split)
qed

lemma runes_valid: "r \<in> set (runes s) \<Longrightarrow> valid_rune r"
proof (induction s rule: segments.induct)
  case (2 c cs)
  obtain r' n where d: "DecodeRune (c # cs) = (r', n)" by fastforce
  then show ?case
    using 2(1) [of "(r', n)" r' n] 2(2) DecodeRune_valid [of "c # cs"] by (auto simp: runes_def)
qed (simp add: runes_def)

lemma segments_ascii [simp]:
  assumes "bt c < 128"
  shows "segments (c # cs) = (bt c, [c]) # segments cs"
proof -
  have "DecodeRune (c # cs) = (bt c, 1)" using assms by (simp add: DecodeRune_def)
  then show ?thesis by simp
qed

declare segments.simps(2) [simp del]

lemma RuneCount_le: "RuneCountInString s \<le> int (length s)"
proof (induction s rule: segments.induct)
  case (2 c cs)
  obtain r n where d: "DecodeRune (c # cs) = (r, n)" by fastforce
  then show ?case using 2 [of "(r, n)" r n] by (simp add: RuneCountInString_def segments.simps)
qed (simp add: RuneCountInString_def)

lemma TrimSpace_subset: "set (TrimSpace s) \<subseteq> set s"
proof
  fix x assume "x \<in> set (TrimSpace s)"
  then obtain p where "p \<in> set (rev (dropWhile (\<lambda>p. IsSpace (fst p)) (rev (dropWhile (\<lambda>p. IsSpace (fst p)) (segments s)))))"
    and x: "x \<in> set (snd p)"
    unfolding TrimSpace_def by auto
  then have "p \<in> set (segments s)" by (metis set_dropWhileD set_rev)
  with x have "x \<in> set (concat (map snd (segments s)))" by auto
  then show "x \<in> set s" by (simp add: segments_concat)
qed

end
