(* ===== verification/Paths.thy ===== *)
theory Paths
  imports Utf8
begin

text \<open>
  The string functions of Go's standard library the attachments rely on, for Unix:
  \<^verbatim>\<open>strings.Split\<close>, \<^verbatim>\<open>filepath.Clean\<close>, \<^verbatim>\<open>Join\<close>, \<^verbatim>\<open>Base\<close> and \<^verbatim>\<open>Ext\<close>; and the two
  functions of the repository that decide what a name from outside may be,
  \<^verbatim>\<open>SanitizeName\<close> (\<^verbatim>\<open>attachments/detect.go\<close>) and \<^verbatim>\<open>unsafeName\<close>
  (\<^verbatim>\<open>attachments/archive/archive.go\<close>). A string is its bytes.
\<close>

section \<open>Splitting\<close>

abbreviation slash :: char where "slash \<equiv> CHR ''/''"

text \<open>\<^verbatim>\<open>strings.Split(s, c)\<close> for a separator of one byte.\<close>

fun split_on :: "char \<Rightarrow> string \<Rightarrow> string list" where
  "split_on c [] = [[]]"
| "split_on c (x # xs) =
     (if x = c then [] # split_on c xs
      else (case split_on c xs of [] \<Rightarrow> [[x]] | s # ss \<Rightarrow> (x # s) # ss))"

fun join_with :: "char \<Rightarrow> string list \<Rightarrow> string" where
  "join_with c [] = []"
| "join_with c [s] = s"
| "join_with c (s # ss) = s @ [c] @ join_with c ss"

definition has_prefix :: "string \<Rightarrow> string \<Rightarrow> bool" where
  "has_prefix p s \<longleftrightarrow> take (length p) s = p"

section \<open>Paths\<close>

text \<open>One segment of \<^verbatim>\<open>filepath.Clean\<close>; the segments so far are in reverse.\<close>

definition clean_step :: "bool \<Rightarrow> string list \<Rightarrow> string \<Rightarrow> string list" where
  "clean_step rooted acc s =
     (if s = [] \<or> s = ''.'' then acc
      else if s = ''..'' then
        (case acc of
           x # xs \<Rightarrow> if x = ''..'' then ''..'' # acc else xs
         | [] \<Rightarrow> if rooted then [] else [''..''])
      else s # acc)"

definition clean_segments :: "bool \<Rightarrow> string \<Rightarrow> string list" where
  "clean_segments rooted p = rev (foldl (clean_step rooted) [] (split_on slash p))"

definition rooted :: "string \<Rightarrow> bool" where
  "rooted p \<longleftrightarrow> has_prefix ''/'' p"

definition path_Clean :: "string \<Rightarrow> string" where
  "path_Clean p =
     (if rooted p then slash # join_with slash (clean_segments True p)
      else if clean_segments False p = [] then ''.''
      else join_with slash (clean_segments False p))"

definition path_Join :: "string list \<Rightarrow> string" where
  "path_Join elems =
     (case filter (\<lambda>e. e \<noteq> []) elems of
        [] \<Rightarrow> []
      | es \<Rightarrow> path_Clean (join_with slash es))"

definition path_Base :: "string \<Rightarrow> string" where
  "path_Base p =
     (if p = [] then ''.''
      else
        let q = rev (dropWhile (\<lambda>c. c = slash) (rev p)) in
        if q = [] then ''/'' else last (split_on slash q))"

text \<open>\<^verbatim>\<open>filepath.Ext\<close>: from the last dot of the last segment.\<close>

definition path_Ext :: "string \<Rightarrow> string" where
  "path_Ext p =
     (let s = last (split_on slash p) in
      if CHR ''.'' \<in> set s then CHR ''.'' # last (split_on (CHR ''.'') s) else [])"

section \<open>Names from outside\<close>

definition backslash :: char where "backslash = char_of (92 :: nat)"

definition SanitizeName :: "string \<Rightarrow> string" where
  "SanitizeName name =
     (let base = TrimSpace (path_Base (map (\<lambda>c. if c = backslash then slash else c) name)) in
      if base = [] \<or> base = ''.'' \<or> base = ''..'' then ''attachment'' else base)"

definition unsafeName :: "string \<Rightarrow> bool" where
  "unsafeName name \<longleftrightarrow>
     name = [] \<or> has_prefix ''/'' name \<or> path_Clean name = ''..'' \<or> has_prefix ''../'' (path_Clean name)"

section \<open>Laws\<close>

lemma split_on_not_Nil [simp]: "split_on c s \<noteq> []"
  by (induction s) (auto split: list.split)

lemma split_on_no_sep: "x \<in> set (split_on c s) \<Longrightarrow> c \<notin> set x"
  by (induction s arbitrary: x) (auto split: list.splits if_splits)

lemma split_on_id: "c \<notin> set s \<Longrightarrow> split_on c s = [s]"
  by (induction s) auto

lemma split_on_append_sep: "split_on c (s @ c # t) = split_on c s @ split_on c t"
  by (induction s) (auto split: list.splits)

lemma join_split [simp]: "join_with c (split_on c s) = s"
proof (induction s)
  case (Cons x xs)
  then show ?case
    by (cases "split_on c xs"; cases "tl (split_on c xs)") auto
qed simp

lemma join_with_Cons: "ss \<noteq> [] \<Longrightarrow> join_with c (s # ss) = s @ c # join_with c ss"
  by (cases ss) simp_all

lemma join_with_append:
  "xs \<noteq> [] \<Longrightarrow> ys \<noteq> [] \<Longrightarrow> join_with c (xs @ ys) = join_with c xs @ c # join_with c ys"
proof (induction xs)
  case (Cons x xs)
  then show ?case by (cases xs) (simp_all add: join_with_Cons)
qed simp

lemma split_join:
  "ss \<noteq> [] \<Longrightarrow> (\<And>s. s \<in> set ss \<Longrightarrow> c \<notin> set s) \<Longrightarrow> split_on c (join_with c ss) = ss"
proof (induction ss)
  case (Cons s ss)
  then show ?case
    by (cases "ss = []") (simp_all add: split_on_id join_with_Cons split_on_append_sep)
qed simp

text \<open>Segments that a cleaned path can hold: real names, and leading \<^verbatim>\<open>..\<close> of a relative path.\<close>

definition real_name :: "string \<Rightarrow> bool" where
  "real_name s \<longleftrightarrow> s \<noteq> [] \<and> s \<noteq> ''.'' \<and> s \<noteq> ''..'' \<and> slash \<notin> set s"

definition climbs :: "string list \<Rightarrow> bool" where
  "climbs acc \<longleftrightarrow> (\<exists>k names. acc = names @ replicate k ''..'' \<and> (\<forall>s \<in> set names. real_name s))"

lemma real_name_simps [simp]: "\<not> real_name ''..''" "\<not> real_name ''.''" "\<not> real_name []"
  by (simp_all add: real_name_def)

lemma clean_step_rooted:
  "(\<forall>s \<in> set acc. real_name s) \<Longrightarrow> slash \<notin> set s \<Longrightarrow> \<forall>s \<in> set (clean_step True acc s). real_name s"
  by (cases acc) (auto simp: clean_step_def real_name_def)

lemma clean_fold_rooted:
  "(\<forall>s \<in> set acc. real_name s) \<Longrightarrow> (\<And>s. s \<in> set segs \<Longrightarrow> slash \<notin> set s) \<Longrightarrow>
   \<forall>s \<in> set (foldl (clean_step True) acc segs). real_name s"
proof (induction segs arbitrary: acc)
  case (Cons s segs)
  then show ?case using clean_step_rooted [of acc s] by simp
qed simp

lemma clean_segments_rooted: "\<forall>s \<in> set (clean_segments True p). real_name s"
  using clean_fold_rooted [of "[]" "split_on slash p"] split_on_no_sep
  by (auto simp: clean_segments_def)

lemma clean_step_climbs: "climbs acc \<Longrightarrow> slash \<notin> set s \<Longrightarrow> climbs (clean_step False acc s)"
proof -
  assume "climbs acc" and s: "slash \<notin> set s"
  then obtain k names where acc: "acc = names @ replicate k ''..''" and names: "\<forall>s \<in> set names. real_name s"
    by (auto simp: climbs_def)
  consider (skip) "s = [] \<or> s = ''.''" | (up) "s = ''..''" | (name) "real_name s"
    using s by (auto simp: real_name_def)
  then show ?thesis
  proof cases
    case skip
    then show ?thesis using \<open>climbs acc\<close> by (auto simp: clean_step_def)
  next
    case up
    show ?thesis
    proof (cases names)
      case Nil
      then have "clean_step False acc s = replicate (Suc k) ''..''"
        using up acc by (cases k) (simp_all add: clean_step_def)
      then show ?thesis unfolding climbs_def by (intro exI [of _ "Suc k"] exI [of _ "[]"]) simp
    next
      case (Cons n ns)
      then have "clean_step False acc s = ns @ replicate k ''..''"
        using up acc names by (auto simp: clean_step_def)
      then show ?thesis using names Cons unfolding climbs_def by auto
    qed
  next
    case name
    then have "clean_step False acc s = (s # names) @ replicate k ''..''"
      using acc by (auto simp: clean_step_def real_name_def)
    then show ?thesis using name names unfolding climbs_def by (metis set_ConsD)
  qed
qed

lemma clean_segments_climbs:
  obtains k names where "clean_segments False p = replicate k ''..'' @ names" "\<forall>s \<in> set names. real_name s"
proof -
  have "climbs (foldl (clean_step False) acc segs)"
    if "climbs acc" "\<And>s. s \<in> set segs \<Longrightarrow> slash \<notin> set s" for acc segs
    using that
  proof (induction segs arbitrary: acc)
    case (Cons s segs)
    then show ?case using clean_step_climbs [of acc s] by simp
  qed simp
  from this [of "[]" "split_on slash p"] have "climbs (foldl (clean_step False) [] (split_on slash p))"
    using split_on_no_sep by (auto simp: climbs_def)
  then show thesis using that by (auto simp: climbs_def clean_segments_def)
qed

text \<open>
  Cleaning a path below a directory: as long as the relative part does not climb out, the
  rooted and the relative walk agree.
\<close>

lemma clean_step_agree:
  assumes "\<forall>s \<in> set acc. real_name s" "clean_step False acc s = acc'" "\<forall>s \<in> set acc'. real_name s"
  shows "clean_step True (acc @ dir) s = acc' @ dir"
  using assms by (cases acc) (auto simp: clean_step_def split: if_splits)

lemma foldl_climbs_stays:
  "(\<exists>x \<in> set acc. x = ''..'') \<Longrightarrow> climbs acc \<Longrightarrow> (\<And>s. s \<in> set segs \<Longrightarrow> slash \<notin> set s) \<Longrightarrow>
   ''..'' \<in> set (foldl (clean_step False) acc segs)"
proof (induction segs arbitrary: acc)
  case (Cons s segs)
  have c: "climbs (clean_step False acc s)" using Cons.prems by (intro clean_step_climbs) auto
  obtain k names where acc: "acc = names @ replicate k ''..''" and names: "\<forall>s \<in> set names. real_name s"
    using Cons.prems(2) by (auto simp: climbs_def)
  have k: "k \<noteq> 0" using Cons.prems(1) names acc by (metis append_Nil2 real_name_simps(1) replicate_0)
  have "''..'' \<in> set (clean_step False acc s)"
    using acc names k by (cases names; cases k) (auto simp: clean_step_def)
  then show ?case using Cons c by auto
qed auto

lemma clean_fold_agree:
  "(\<forall>s \<in> set acc. real_name s) \<Longrightarrow> (\<And>s. s \<in> set segs \<Longrightarrow> slash \<notin> set s) \<Longrightarrow>
   ''..'' \<notin> set (foldl (clean_step False) acc segs) \<Longrightarrow>
   foldl (clean_step True) (acc @ dir) segs = foldl (clean_step False) acc segs @ dir"
proof (induction segs arbitrary: acc)
  case (Cons s segs)
  have "climbs acc" using Cons.prems(1) unfolding climbs_def by (metis append_Nil2 replicate_0)
  then have c: "climbs (clean_step False acc s)" using Cons.prems(2) by (intro clean_step_climbs) auto
  have "''..'' \<notin> set (clean_step False acc s)"
    using foldl_climbs_stays [of "clean_step False acc s" segs] c Cons.prems(2,3) by auto
  moreover obtain k names where "clean_step False acc s = names @ replicate k ''..''" "\<forall>s \<in> set names. real_name s"
    using c by (auto simp: climbs_def)
  ultimately have real: "\<forall>s \<in> set (clean_step False acc s). real_name s"
    by (cases k) auto
  show ?case
    using Cons.IH [OF real] Cons.prems clean_step_agree [OF Cons.prems(1) refl real, of dir] by simp
qed simp

section \<open>Cleaning twice\<close>

lemma clean_fold_real:
  "\<forall>s \<in> set segs. real_name s \<Longrightarrow> foldl (clean_step r) acc segs = rev segs @ acc"
  by (induction segs arbitrary: acc) (simp_all add: clean_step_def real_name_def)

lemma clean_fold_climbs:
  assumes "\<forall>s \<in> set names. real_name s"
  shows "foldl (clean_step False) [] (replicate k ''..'' @ names) = rev names @ replicate k ''..''"
proof -
  have "foldl (clean_step False) (replicate j ''..'') (replicate k ''..'') = replicate (k + j) ''..''" for j
  proof (induction k arbitrary: j)
    case (Suc k)
    have "clean_step False (replicate j ''..'') ''..'' = replicate (Suc j) ''..''"
      by (cases j) (simp_all add: clean_step_def)
    then show ?case using Suc [of "Suc j"] by (simp only: replicate_Suc foldl_Cons) simp
  qed simp
  from this [of 0] show ?thesis by (simp add: clean_fold_real [OF assms])
qed

lemma rooted_Cons [simp]: "rooted (slash # p)" "\<not> rooted []"
  by (simp_all add: rooted_def has_prefix_def)

lemma rooted_append [simp]: "p \<noteq> [] \<Longrightarrow> rooted (p @ q) = rooted p"
  by (cases p) (simp_all add: rooted_def has_prefix_def)

lemma not_rooted_no_slash: "slash \<notin> set p \<Longrightarrow> \<not> rooted p"
  by (cases p) (auto simp: rooted_def has_prefix_def)

lemma clean_segments_names:
  assumes "s \<in> set (clean_segments r p)"
  shows "s \<noteq> [] \<and> slash \<notin> set s"
proof (cases r)
  case True
  then have "real_name s" using assms clean_segments_rooted [of p] by simp
  then show ?thesis by (simp add: real_name_def)
next
  case False
  obtain k names where "clean_segments False p = replicate k ''..'' @ names" "\<forall>s \<in> set names. real_name s"
    by (rule clean_segments_climbs)
  then have "s = ''..'' \<or> real_name s" using assms False by (auto split: if_splits)
  then show ?thesis by (auto simp: real_name_def)
qed

lemma rooted_Clean [simp]: "rooted (path_Clean p) = rooted p"
proof (cases "rooted p \<or> clean_segments False p = []")
  case True
  then show ?thesis by (auto simp: path_Clean_def not_rooted_no_slash)
next
  case False
  then obtain s ss where segs: "clean_segments False p = s # ss" by (cases "clean_segments False p") auto
  then have s: "s \<noteq> []" "slash \<notin> set s" using clean_segments_names [of s False p] by auto
  have "path_Clean p = s @ (if ss = [] then [] else slash # join_with slash ss)"
    using False segs by (simp add: path_Clean_def join_with_Cons)
  then show ?thesis using s False by (simp add: not_rooted_no_slash)
qed

lemma clean_segments_Clean: "clean_segments (rooted p) (path_Clean p) = clean_segments (rooted p) p"
proof (cases "rooted p")
  case True
  let ?segs = "clean_segments True p"
  have real: "\<forall>s \<in> set ?segs. real_name s" by (rule clean_segments_rooted)
  then have "split_on slash (join_with slash ?segs) = (if ?segs = [] then [[]] else ?segs)"
    using split_join [of ?segs slash] by (auto simp: real_name_def)
  then show ?thesis
    using True clean_fold_real [OF real, of True "[]"]
    by (simp add: path_Clean_def clean_segments_def [of True "slash # _"] clean_step_def)
next
  case False
  let ?segs = "clean_segments False p"
  obtain k names where segs: "?segs = replicate k ''..'' @ names" and real: "\<forall>s \<in> set names. real_name s"
    by (rule clean_segments_climbs)
  show ?thesis
  proof (cases "?segs = []")
    case True
    then show ?thesis using False by (simp add: path_Clean_def clean_segments_def [of False "''.''"] clean_step_def)
  next
    case nonempty: False
    then have "split_on slash (path_Clean p) = ?segs"
      using False split_join [of ?segs slash] clean_segments_names [of _ False p] by (simp add: path_Clean_def)
    then show ?thesis
      using False clean_fold_climbs [OF real, of k] segs by (simp add: clean_segments_def [of False "path_Clean p"])
  qed
qed

lemma path_Clean_twice [simp]: "path_Clean (path_Clean p) = path_Clean p"
  using clean_segments_Clean [of p]
  by (cases "rooted p") (simp_all add: path_Clean_def [of "path_Clean p"], simp_all add: path_Clean_def)

lemma path_Clean_below:
  assumes "p \<noteq> []"
  shows "path_Clean (path_Clean p @ slash # n) = path_Clean (p @ slash # n)"
proof -
  have nonempty: "path_Clean p \<noteq> []"
    using clean_segments_names [of _ False p]
    by (cases "clean_segments False p"; cases "tl (clean_segments False p)") (auto simp: path_Clean_def)
  have "clean_segments (rooted p) (path_Clean p @ slash # n) = clean_segments (rooted p) (p @ slash # n)"
    using clean_segments_Clean [of p]
    by (simp add: clean_segments_def split_on_append_sep)
  then show ?thesis
    using assms nonempty by (cases "rooted p") (simp_all add: path_Clean_def [of "_ @ slash # n"])
qed

lemma path_Clean_Join [simp]: "path_Clean (path_Join (p # ps)) = path_Join (p # ps)" if "p \<noteq> []"
  using that by (simp add: path_Join_def)

section \<open>What the names of the program can be\<close>

lemma last_split_no_sep: "c \<notin> set (last (split_on c s))"
  using split_on_no_sep [of "last (split_on c s)" c s] by simp

lemma last_rev_dropWhile: "dropWhile P (rev s) \<noteq> [] \<Longrightarrow> \<not> P (last (rev (dropWhile P (rev s))))"
  by (simp add: last_rev hd_dropWhile)

lemma path_Base_shape: "path_Base p = ''/'' \<or> slash \<notin> set (path_Base p)"
  by (simp add: path_Base_def Let_def last_split_no_sep)

lemma TrimSpace_slash: "TrimSpace ''/'' = ''/''"
proof -
  have "bt slash = 47" by (simp add: bt_def)
  then show ?thesis by (simp add: TrimSpace_def IsSpace_def)
qed

text \<open>
  What a client calls a file never leads anywhere. The name stored for an attachment is
  never empty, never \<^verbatim>\<open>.\<close> or \<^verbatim>\<open>..\<close>, and holds no backslash; it holds no slash either,
  except that a name of nothing but slashes becomes the single name \<^verbatim>\<open>/\<close>.
\<close>

theorem SanitizeName_flat:
  "SanitizeName name \<noteq> [] \<and> SanitizeName name \<noteq> ''.'' \<and> SanitizeName name \<noteq> ''..''
   \<and> (slash \<in> set (SanitizeName name) \<longleftrightarrow> SanitizeName name = ''/'')"
proof -
  have "SanitizeName name \<noteq> [] \<and> SanitizeName name \<noteq> ''.'' \<and> SanitizeName name \<noteq> ''..''"
    by (simp add: SanitizeName_def Let_def)
  moreover define q where "q = map (\<lambda>c. if c = backslash then slash else c) name"
  from path_Base_shape [of q] have "TrimSpace (path_Base q) = ''/'' \<or> slash \<notin> set (TrimSpace (path_Base q))"
    using TrimSpace_slash TrimSpace_subset [of "path_Base q"] by auto
  then have "SanitizeName name = ''/'' \<or> slash \<notin> set (SanitizeName name)"
    by (auto simp: SanitizeName_def Let_def q_def)
  ultimately show ?thesis by auto
qed

lemma safe_stays:
  assumes "\<not> unsafeName name"
  shows "''..'' \<notin> set (clean_segments False name)"
proof -
  obtain k names where segs: "clean_segments False name = replicate k ''..'' @ names"
    and real: "\<forall>s \<in> set names. real_name s"
    by (rule clean_segments_climbs)
  have "k = 0"
  proof (rule ccontr)
    assume "k \<noteq> 0"
    then obtain j where k: "clean_segments False name = ''..'' # replicate j ''..'' @ names"
      using segs by (cases k) auto
    have "\<not> rooted name" using assms by (simp add: unsafeName_def rooted_def)
    then have clean: "path_Clean name = join_with slash (''..'' # replicate j ''..'' @ names)"
      using k by (simp add: path_Clean_def)
    show False
    proof (cases "replicate j ''..'' @ names = []")
      case True
      then show False using clean assms by (simp add: unsafeName_def)
    next
      case False
      then have "has_prefix ''../'' (path_Clean name)"
        by (simp add: clean join_with_Cons has_prefix_def)
      then show False using assms by (simp add: unsafeName_def)
    qed
  qed
  then show ?thesis using segs real by auto
qed

lemma clean_segments_below:
  assumes "\<not> unsafeName name"
  shows "clean_segments True (dir @ slash # name) = clean_segments True dir @ clean_segments False name"
proof -
  define acc where "acc = foldl (clean_step True) [] (split_on slash dir)"
  have "''..'' \<notin> set (foldl (clean_step False) [] (split_on slash name))"
    using safe_stays [OF assms] by (simp add: clean_segments_def)
  from clean_fold_agree [OF _ _ this, of acc]
  have "foldl (clean_step True) acc (split_on slash name) =
      foldl (clean_step False) [] (split_on slash name) @ acc"
    using split_on_no_sep by auto
  then show ?thesis by (simp add: clean_segments_def split_on_append_sep acc_def)
qed

text \<open>
  No entry of an accepted archive escapes. A name that passes the test, written below any
  absolute directory, cleans to that directory or to a path inside it, however many
  \<^verbatim>\<open>.\<close>, \<^verbatim>\<open>..\<close> and repeated slashes it holds.
\<close>

theorem unsafeName_contains:
  assumes "\<not> unsafeName name" "rooted dir" "clean_segments True dir \<noteq> []"
  shows "path_Clean (dir @ ''/'' @ name) = path_Clean dir
    \<or> has_prefix (path_Clean dir @ ''/'') (path_Clean (dir @ ''/'' @ name))"
proof -
  let ?below = "clean_segments False name"
  have r: "rooted (dir @ ''/'' @ name)" using assms(2) by (cases dir) (auto simp: rooted_def has_prefix_def)
  have "path_Clean (dir @ ''/'' @ name) = slash # join_with slash (clean_segments True dir @ ?below)"
    using r clean_segments_below [OF assms(1)] by (simp add: path_Clean_def)
  moreover have "path_Clean dir = slash # join_with slash (clean_segments True dir)"
    using assms(2) by (simp add: path_Clean_def)
  ultimately show ?thesis
    using assms(3) by (cases "?below = []") (simp_all add: has_prefix_def join_with_append)
qed

lemma unsafeName_contains_witness:
  "\<not> unsafeName ''a/../b//./c''
   \<and> (path_Clean (''/srv/x'' @ ''/'' @ ''a/../b//./c'') = path_Clean ''/srv/x''
     \<or> has_prefix (path_Clean ''/srv/x'' @ ''/'') (path_Clean (''/srv/x'' @ ''/'' @ ''a/../b//./c'')))"
proof -
  have safe: "\<not> unsafeName ''a/../b//./c''" "rooted ''/srv/x''" "clean_segments True ''/srv/x'' \<noteq> []"
    by code_simp+
  from unsafeName_contains [OF this] safe(1) show ?thesis by blast
qed

lemma unsafeName_refuses:
  "unsafeName ''../x''" "unsafeName ''a/../../x''" "unsafeName ''/etc/passwd''" "unsafeName ''a/../..''"
  by code_simp+

end
