(* ===== verification/Storage.thy ===== *)
theory Storage
  imports AttachmentStore Paths
begin

text \<open>
  The files of the attachments: \<^verbatim>\<open>attachments/limits.go\<close>, \<^verbatim>\<open>attachments/storage/files.go\<close>,
  \<^verbatim>\<open>attachments/cleanup/cleanup.go\<close> and \<^verbatim>\<open>attachments/account/service.go\<close>. The file system
  is the list of the paths of its regular files and the list of its directories; what the
  files hold does not matter here. Each call of the operating system takes one entry of a
  failure schedule. The quota reservations of the running process are a counter of 64 bits.
\<close>

section \<open>Limits\<close>

datatype attach_error =
    ErrUnsupportedFormat
  | ErrInvalidFormat
  | ErrTooLarge
  | ErrTooMany
  | ErrQuotaExceeded
  | ErrLowDisk
  | ErrProcessing
  | NoDeleteRequest
  | OsNotExist
  | OsCrossDevice
  | OsFailed
  | AttachStore store_error

record attachment_limits =
  MaxInputMediaBytes :: "64 word"
  MaxArchiveBytes :: "64 word"
  MaxOutputMediaBytes :: "64 word"
  MaxFilesPerMessage :: int
  MaxUserStoredBytes :: "64 word"
  MaxUserDailyBytes :: "64 word"
  MaxTotalBytes :: "64 word"
  MinFreeBytes :: "64 word"
  Retention :: duration
  StorageDir :: string

definition NewAccountGracePeriod :: duration where "NewAccountGracePeriod = 24 * hour"

definition minBytes :: "64 word \<Rightarrow> 64 word \<Rightarrow> 64 word" where
  "minBytes left right = (if left < right then left else right)"

definition EffectiveLimits :: "attachment_limits \<Rightarrow> time \<Rightarrow> time \<Rightarrow> attachment_limits" where
  "EffectiveLimits base createdAt now =
     (if now < createdAt + NewAccountGracePeriod
      then base\<lparr>MaxUserStoredBytes := minBytes (MaxUserStoredBytes base) (20 * 1024 * 1024),
                MaxUserDailyBytes := 20 * 1024 * 1024\<rparr>
      else base\<lparr>MaxUserDailyBytes := 0\<rparr>)"

section \<open>The operating system\<close>

datatype os_fault = Denied | OtherDevice

record storage_world = runtime +
  s_files :: "string list"
  s_dirs :: "string list"
  s_os_faults :: "os_fault option list"
  s_reserved :: "64 word"

type_synonym ('z, 'a) osm = "('z storage_world_scheme, attach_error, 'a) action"

definition os_call :: "('z storage_world_scheme \<Rightarrow> attach_error + 'a \<times> 'z storage_world_scheme) \<Rightarrow> ('z, 'a) osm" where
  "os_call f w =
     (let w1 = w\<lparr>s_os_faults := drop 1 (s_os_faults w)\<rparr> in
      case s_os_faults w of
        Some Denied # _ \<Rightarrow> (Inl OsFailed, w1)
      | Some OtherDevice # _ \<Rightarrow> (Inl OsCrossDevice, w1)
      | _ \<Rightarrow> (case f w1 of Inl e \<Rightarrow> (Inl e, w1) | Inr (x, w2) \<Rightarrow> (Inr x, w2)))"

text \<open>The name of a path directly below a directory.\<close>

definition child_of :: "string \<Rightarrow> string \<Rightarrow> string option" where
  "child_of dir p =
     (let pre = (if dir = ''.'' then [] else if dir = ''/'' then ''/'' else dir @ ''/'');
          rest = drop (length pre) p in
      if has_prefix pre p \<and> rest \<noteq> [] \<and> slash \<notin> set rest then Some rest else None)"

definition os_Remove :: "string \<Rightarrow> ('z, unit) osm" where
  "os_Remove path = os_call (\<lambda>w. let p = path_Clean path in
     if List.member (s_files w) p then Inr ((), w\<lparr>s_files := removeAll p (s_files w)\<rparr>)
     else if List.member (s_dirs w) p then
       (if List.map_filter (child_of p) (s_files w @ s_dirs w) \<noteq> [] then Inl OsFailed
        else Inr ((), w\<lparr>s_dirs := removeAll p (s_dirs w)\<rparr>))
     else Inl OsNotExist)"

text \<open>Names with whether they are directories, sorted.\<close>

definition os_ReadDir :: "string \<Rightarrow> ('z, (string \<times> bool) list) osm" where
  "os_ReadDir path = os_call (\<lambda>w. let p = path_Clean path in
     if List.member (s_dirs w) p then
       Inr (sort_key fst (map (\<lambda>n. (n, False)) (List.map_filter (child_of p) (s_files w))
          @ map (\<lambda>n. (n, True)) (List.map_filter (child_of p) (s_dirs w))), w)
     else Inl (if List.member (s_files w) p then OsFailed else OsNotExist))"

definition os_Stat :: "string \<Rightarrow> ('z, unit) osm" where
  "os_Stat path = os_call (\<lambda>w.
     if List.member (s_files w @ s_dirs w) (path_Clean path) then Inr ((), w) else Inl OsNotExist)"

text \<open>The directories from the first segment of a cleaned path down to the path itself.\<close>

definition ancestors :: "string \<Rightarrow> string list" where
  "ancestors p =
     (let segs = clean_segments (rooted p) p in
      map (\<lambda>k. (if rooted p then ''/'' else []) @ join_with slash (take (Suc k) segs)) [0..<length segs])"

definition os_MkdirAll :: "string \<Rightarrow> ('z, unit) osm" where
  "os_MkdirAll path = os_call (\<lambda>w.
     let new = filter (\<lambda>a. \<not> List.member (s_dirs w) a) (ancestors path) in
     if list_ex (List.member (s_files w)) new then Inl OsFailed
     else Inr ((), w\<lparr>s_dirs := s_dirs w @ new\<rparr>))"

text \<open>A new file at a path, replacing one that is there.\<close>

definition put_file :: "string \<Rightarrow> string list \<Rightarrow> string list" where
  "put_file p files = removeAll p files @ [p]"

definition parent_exists :: "string \<Rightarrow> string list \<Rightarrow> bool" where
  "parent_exists p dirs \<longleftrightarrow> list_ex (\<lambda>d. child_of d p \<noteq> None) (''.'' # ''/'' # dirs)"

definition os_Rename :: "string \<Rightarrow> string \<Rightarrow> ('z, unit) osm" where
  "os_Rename source target = os_call (\<lambda>w.
     let a = path_Clean source; b = path_Clean target in
     if \<not> List.member (s_files w) a \<or> \<not> parent_exists b (s_dirs w) then Inl OsNotExist
     else if List.member (s_dirs w) b then Inl OsFailed
     else Inr ((), w\<lparr>s_files := put_file b (removeAll a (s_files w))\<rparr>))"

definition os_Open :: "string \<Rightarrow> ('z, unit) osm" where
  "os_Open path = os_Stat path"

definition os_Create :: "string \<Rightarrow> ('z, unit) osm" where
  "os_Create path = os_call (\<lambda>w.
     let p = path_Clean path in
     if \<not> parent_exists p (s_dirs w) then Inl OsNotExist
     else if List.member (s_dirs w) p then Inl OsFailed
     else Inr ((), w\<lparr>s_files := put_file p (s_files w)\<rparr>))"

text \<open>Reading, writing or closing an open file.\<close>

definition os_Transfer :: "('z, unit) osm" where
  "os_Transfer = os_call (\<lambda>w. Inr ((), w))"

text \<open>\<^verbatim>\<open>if err := os.Remove(path); err != nil && !os.IsNotExist(err) { return err }\<close>\<close>

definition remove_if_there :: "string \<Rightarrow> ('z, unit) osm" where
  "remove_if_there path =
     andThen (attempt (os_Remove path)) (\<lambda>r.
     case r of
       Inl e \<Rightarrow> if e = OsNotExist then ret () else raise e
     | Inr _ \<Rightarrow> ret ())"

section \<open>Storing\<close>

record upload_input =
  in_Name :: string
  in_Mime :: string
  in_Size :: int

record processed_file =
  pf_Kind :: string
  pf_Mime :: string
  pf_DisplayName :: string
  pf_Size :: int
  pf_Path :: string

record upload_batch =
  ub_ownerID :: string
  ub_files :: "processed_file list"
  ub_moved :: "string list"
  ub_reserved :: "64 word"
  ub_closed :: bool

text \<open>The database of the service, with its errors among the others.\<close>

definition from_store :: "('z storage_world_scheme, store_error, 'a) action \<Rightarrow> ('z, 'a) osm" where
  "from_store m = map_error AttachStore m"

text \<open>Reading a field of the world.\<close>

definition peek :: "('w \<Rightarrow> 'a) \<Rightarrow> ('w, 'e, 'a) action" where
  "peek f w = (Inr (f w), w)"

text \<open>
  \<open>disk\<close> is \<^verbatim>\<open>s.Disk\<close>: \<open>None\<close> for nil, else what \<^verbatim>\<open>FreeBytes\<close> does. The sums of
  the database are \<^verbatim>\<open>int64\<close>; converting to and from \<^verbatim>\<open>uint64\<close> keeps the bits.
\<close>

definition over_quota :: "attachment_limits \<Rightarrow> 64 word \<Rightarrow> 64 word \<Rightarrow> 64 word \<Rightarrow> 64 word \<Rightarrow> 64 word \<Rightarrow> bool" where
  "over_quota effective owner daily whole pending bytes =
     (let dailyExceeded = (MaxUserDailyBytes effective > 0 \<and> daily + bytes > MaxUserDailyBytes effective) in
      owner + pending + bytes > MaxUserStoredBytes effective \<or> dailyExceeded
      \<or> whole + pending + bytes > MaxTotalBytes effective)"

definition reserve_quota ::
  "attachment_limits \<Rightarrow> ('z, 64 word) osm option \<Rightarrow> string \<Rightarrow> 64 word \<Rightarrow> ('z, unit) osm" where
  "reserve_quota limits disk ownerID bytes =
     andThen (from_store (SumForOwner ownerID)) (\<lambda>owner.
     andThen clock (\<lambda>now.
     andThen (from_store (SumCreatedSince ownerID (now - 24 * hour))) (\<lambda>daily.
     andThen (from_store SumAll) (\<lambda>stored_all.
     andThen (from_store (UserCreatedAt ownerID)) (\<lambda>createdAt.
     andThen clock (\<lambda>now.
     andThen (peek s_reserved) (\<lambda>pending.
     if over_quota (EffectiveLimits limits createdAt now) (of_int owner) (of_int daily) (of_int stored_all)
          pending bytes
     then raise ErrQuotaExceeded
     else
     andThen (case disk of
        None \<Rightarrow> ret ()
      | Some FreeBytes \<Rightarrow>
          andThen FreeBytes (\<lambda>free.
          if free < MinFreeBytes limits \<or> free - MinFreeBytes limits < bytes then raise ErrLowDisk
          else ret ())) (\<lambda>_ w.
     (Inr (), w\<lparr>s_reserved := s_reserved w + bytes\<rparr>)))))))))"

definition release :: "upload_batch \<Rightarrow> ('z, upload_batch) osm" where
  "release b w =
     (if ub_reserved b = 0 then (Inr b, w)
      else (Inr (b\<lparr>ub_reserved := 0\<rparr>), w\<lparr>s_reserved := s_reserved w - ub_reserved b\<rparr>))"

definition batch_Rollback :: "upload_batch \<Rightarrow> ('z, upload_batch) osm" where
  "batch_Rollback b =
     andThen (for_each (\<lambda>f. ignoring (os_Remove (pf_Path f))) (ub_files b)) (\<lambda>_.
     andThen (for_each (\<lambda>p. ignoring (os_Remove p)) (ub_moved b)) (\<lambda>_.
     if \<not> ub_closed b then andThen (release b) (\<lambda>b. ret (b\<lparr>ub_closed := True\<rparr>)) else ret b))"

definition fits :: "attachment_limits \<Rightarrow> 'i upload_input_scheme \<Rightarrow> bool" where
  "fits limits i \<longleftrightarrow> \<not> (in_Size i \<le> 0 \<or> in_Size i > sint (MaxInputMediaBytes limits)
     \<and> in_Size i > sint (MaxArchiveBytes limits))"

text \<open>
  The loop of \<^verbatim>\<open>Prepare\<close>. \<open>open_input\<close> is \<^verbatim>\<open>input.Open\<close>, \<open>process\<close> is
  \<^verbatim>\<open>s.Processor.Process\<close>.
\<close>

fun prepare_files ::
  "('i upload_input_scheme \<Rightarrow> ('z, 'r) osm) \<Rightarrow> ('r \<Rightarrow> string \<Rightarrow> int \<Rightarrow> string \<Rightarrow> ('z, processed_file) osm)
   \<Rightarrow> 'i upload_input_scheme list \<Rightarrow> upload_batch \<Rightarrow> ('z, upload_batch) osm" where
  "prepare_files open_input process [] b = ret b"
| "prepare_files open_input process (i # inputs) b =
     andThen (attempt (open_input i)) (\<lambda>opened.
     case opened of
       Inl e \<Rightarrow> andThen (batch_Rollback b) (\<lambda>_. raise e)
     | Inr reader \<Rightarrow>
         andThen (attempt (process reader (in_Name i) (in_Size i) (in_Mime i))) (\<lambda>r.
         case r of
           Inl e \<Rightarrow> andThen (batch_Rollback b) (\<lambda>_. raise e)
         | Inr f \<Rightarrow> prepare_files open_input process inputs (b\<lparr>ub_files := ub_files b @ [f]\<rparr>)))"

definition Prepare ::
  "attachment_limits \<Rightarrow> ('z, 64 word) osm option \<Rightarrow> ('i upload_input_scheme \<Rightarrow> ('z, 'r) osm)
   \<Rightarrow> ('r \<Rightarrow> string \<Rightarrow> int \<Rightarrow> string \<Rightarrow> ('z, processed_file) osm)
   \<Rightarrow> string \<Rightarrow> 'i upload_input_scheme list \<Rightarrow> ('z, upload_batch) osm" where
  "Prepare limits disk open_input process ownerID inputs =
     (if inputs = [] \<or> int (length inputs) > MaxFilesPerMessage limits then raise ErrTooMany
      else if \<not> list_all (fits limits) inputs then raise ErrTooLarge
      else
        let bytes = sum_list (map (\<lambda>_. MaxArchiveBytes limits) inputs) in
        andThen (reserve_quota limits disk ownerID bytes) (\<lambda>_.
        prepare_files open_input process inputs
          \<lparr>ub_ownerID = ownerID, ub_files = [], ub_moved = [], ub_reserved = bytes, ub_closed = False\<rparr>))"

definition randomID :: "('z, string) osm" where
  "randomID =
     andThen (read_full 18) (\<lambda>b.
     case b of None \<Rightarrow> raise (AttachStore ErrRandom) | Some bytes \<Rightarrow> ret (''att_'' @ hex_encode bytes))"

definition or_discard :: "('z, 'a) osm \<Rightarrow> string \<Rightarrow> ('z, 'a) osm" where
  "or_discard m target =
     andThen (attempt m) (\<lambda>r.
     case r of Inl e \<Rightarrow> andThen (ignoring (os_Remove target)) (\<lambda>_. raise e) | Inr x \<Rightarrow> ret x)"

definition moveFile :: "string \<Rightarrow> string \<Rightarrow> ('z, unit) osm" where
  "moveFile source target =
     andThen (attempt (os_Rename source target)) (\<lambda>r.
     case r of
       Inr _ \<Rightarrow> ret ()
     | Inl e \<Rightarrow>
         if e \<noteq> OsCrossDevice then raise e
         else
         andThen (os_Stat source) (\<lambda>_.
         andThen (os_Open source) (\<lambda>_.
         andThen (os_Create target) (\<lambda>_.
         andThen (or_discard os_Transfer target) (\<lambda>_.
         andThen (or_discard os_Transfer target) (\<lambda>_.
         os_Remove source))))))"

text \<open>
  The loop of \<^verbatim>\<open>Commit\<close>. The batch is the mutable object of the code: it is returned with
  the error too, since the caller rolls it back again.
\<close>

definition give_up :: "upload_batch \<Rightarrow> attach_error \<Rightarrow> ('z, (attach_error + attachment list) \<times> upload_batch) osm" where
  "give_up b e = andThen (batch_Rollback b) (\<lambda>b. ret (Inl e, b))"

fun commit_files ::
  "string \<Rightarrow> attachment_limits \<Rightarrow> string \<Rightarrow> string \<Rightarrow> time \<Rightarrow> processed_file list \<Rightarrow> upload_batch
   \<Rightarrow> attachment list \<Rightarrow> ('z, (attach_error + attachment list) \<times> upload_batch) osm" where
  "commit_files base limits mid gid now [] b items =
     andThen (release b) (\<lambda>b. ret (Inr items, b\<lparr>ub_closed := True\<rparr>))"
| "commit_files base limits mid gid now (f # fs) b items =
     andThen (attempt randomID) (\<lambda>r.
     case r of
       Inl e \<Rightarrow> give_up b e
     | Inr aid \<Rightarrow>
         let dir = path_Join [base, take 2 aid] in
         andThen (attempt (os_MkdirAll dir)) (\<lambda>r.
         case r of
           Inl e \<Rightarrow> give_up b e
         | Inr _ \<Rightarrow>
             let target = path_Join [dir, aid] in
             andThen (attempt (moveFile (pf_Path f) target)) (\<lambda>r.
             case r of
               Inl e \<Rightarrow> give_up b e
             | Inr _ \<Rightarrow>
                 commit_files base limits mid gid now fs (b\<lparr>ub_moved := ub_moved b @ [target]\<rparr>)
                   (items @ [\<lparr>att_ID = aid, MessageID = mid, att_GroupID = gid, OwnerID = ub_ownerID b,
                      att_Kind = pf_Kind f, Mime = pf_Mime f, att_Name = pf_DisplayName f,
                      Size = pf_Size f, Path = target, att_CreatedAt = now,
                      att_ExpiresAt = now + Retention limits\<rparr>]))))"

definition batch_Commit ::
  "string \<Rightarrow> attachment_limits \<Rightarrow> upload_batch \<Rightarrow> string \<Rightarrow> string \<Rightarrow> time
   \<Rightarrow> ('z, (attach_error + attachment list) \<times> upload_batch) osm" where
  "batch_Commit base limits b mid gid now =
     (if ub_closed b then ret (Inl ErrProcessing, b)
      else
      andThen (attempt (os_MkdirAll base)) (\<lambda>r.
      case r of
        Inl e \<Rightarrow> give_up b e
      | Inr _ \<Rightarrow> commit_files base limits mid gid now (ub_files b) b []))"

section \<open>Cleaning up\<close>

definition check_file :: "string \<Rightarrow> ('z, unit) osm" where
  "check_file path =
     andThen (from_store (HasPath path)) (\<lambda>exists.
     if \<not> exists then remove_if_there path
     else
     andThen (attempt (os_Stat path)) (\<lambda>r.
     case r of Inl e \<Rightarrow> if e = OsNotExist then ret () else raise e | Inr _ \<Rightarrow> ret ()))"

definition check_dir :: "string \<Rightarrow> string \<Rightarrow> ('z, unit) osm" where
  "check_dir base name =
     andThen (os_ReadDir (path_Join [base, name])) (\<lambda>files.
     for_each (\<lambda>(file, isDir). if isDir then ret () else check_file (path_Join [base, name, file])) files)"

definition removeOrphans :: "string \<Rightarrow> ('z, unit) osm" where
  "removeOrphans base =
     andThen (attempt (os_ReadDir base)) (\<lambda>r.
     case r of
       Inl e \<Rightarrow> if e = OsNotExist then ret () else raise e
     | Inr entries \<Rightarrow> for_each (\<lambda>(name, isDir). if \<not> isDir then ret () else check_dir base name) entries)"

definition RunOnce ::
  "string \<Rightarrow> int \<Rightarrow> (time \<Rightarrow> int \<Rightarrow> ('z, unit) osm) option \<Rightarrow> time \<Rightarrow> ('z, unit) osm" where
  "RunOnce base batchSize deleteRequests now =
     andThen (case deleteRequests of None \<Rightarrow> ret () | Some RunDueDeletes \<Rightarrow> RunDueDeletes now batchSize) (\<lambda>_.
     andThen (from_store (attachments_DeleteExpired now batchSize)) (\<lambda>items.
     andThen (for_each (\<lambda>item.
        andThen (remove_if_there (Path item)) (\<lambda>_.
        from_store (attachments_Delete (att_ID item)))) items) (\<lambda>_.
     removeOrphans base)))"

section \<open>The account page\<close>

definition deleteGracePeriod :: duration where "deleteGracePeriod = 5 * minute"

record quota_snapshot =
  StoredBytes :: int
  DailyBytes :: int
  MaxInputMedia :: "64 word"
  MaxArchive :: "64 word"
  MaxOutputMedia :: "64 word"
  MaxFiles :: int
  MaxUserStored :: "64 word"
  MaxUserDaily :: "64 word"
  MaxTotal :: "64 word"
  MinFree :: "64 word"
  quota_Retention :: duration
  PendingDelete :: "attachment_delete_request option"

definition Quotas :: "attachment_limits \<Rightarrow> string \<Rightarrow> ('z, quota_snapshot) osm" where
  "Quotas limits userID =
     andThen (from_store (SumForOwner userID)) (\<lambda>stored.
     andThen clock (\<lambda>now.
     andThen (from_store (SumCreatedSince userID (now - 24 * hour))) (\<lambda>daily.
     andThen (from_store (UserCreatedAt userID)) (\<lambda>createdAt.
     andThen clock (\<lambda>now.
     let effective = EffectiveLimits limits createdAt now in
     andThen (attempt (from_store (GetDeleteRequest userID))) (\<lambda>r.
     andThen (case r of
        Inl e \<Rightarrow> if e = AttachStore ErrDeleteRequestNotFound then ret None else raise e
      | Inr pending \<Rightarrow> ret (if request_ID pending \<noteq> [] then Some pending else None)) (\<lambda>pending.
     ret \<lparr>StoredBytes = stored, DailyBytes = daily, MaxInputMedia = MaxInputMediaBytes effective,
          MaxArchive = MaxArchiveBytes effective, MaxOutputMedia = MaxOutputMediaBytes effective,
          MaxFiles = MaxFilesPerMessage effective, MaxUserStored = MaxUserStoredBytes effective,
          MaxUserDaily = MaxUserDailyBytes effective, MaxTotal = MaxTotalBytes effective,
          MinFree = MinFreeBytes limits, quota_Retention = Retention effective,
          PendingDelete = pending\<rparr>)))))))"

definition ScheduleDeleteAll :: "string \<Rightarrow> time \<Rightarrow> ('z, attachment_delete_request) osm" where
  "ScheduleDeleteAll userID now = from_store (CreateDeleteRequest userID now (now + deleteGracePeriod))"

definition CancelDeleteAll :: "string \<Rightarrow> ('z, unit) osm" where
  "CancelDeleteAll userID =
     map_error (\<lambda>e. if e = AttachStore ErrDeleteRequestNotFound then NoDeleteRequest else e)
       (from_store (CancelDeleteRequest userID))"

text \<open>\<open>publish\<close> is the publisher's \<^verbatim>\<open>PublishMessageDeleted\<close>, \<open>None\<close> for nil.\<close>

definition runDelete ::
  "(string \<Rightarrow> string \<Rightarrow> ('z, unit) osm) option \<Rightarrow> attachment_delete_request \<Rightarrow> ('z, unit) osm" where
  "runDelete publisher request =
     andThen (from_store (ListUserAttachmentFiles (request_UserID request))) (\<lambda>paths.
     andThen (for_each remove_if_there paths) (\<lambda>_.
     andThen (from_store (DeleteUserAttachmentMessages (request_UserID request))) (\<lambda>deleted.
     andThen (case publisher of
        None \<Rightarrow> ret ()
      | Some publish \<Rightarrow> for_each (\<lambda>m. publish (att_GroupID m) (MessageID m)) deleted) (\<lambda>_.
     from_store (DeleteDeleteRequest (request_ID request))))))"

text \<open>A request that fails is logged and tried again at the next run.\<close>

definition RunDueDeletes ::
  "(string \<Rightarrow> string \<Rightarrow> ('z, unit) osm) option \<Rightarrow> time \<Rightarrow> int \<Rightarrow> ('z, unit) osm" where
  "RunDueDeletes publisher now batchSize =
     andThen (from_store (ListDueDeleteRequests now batchSize)) (\<lambda>requests.
     for_each (\<lambda>r. ignoring (runDelete publisher r)) requests)"

end
