(* ===== verification/StorageLaws.thy ===== *)
theory StorageLaws
  imports Storage
begin

text \<open>
  What the attachment files promise: reservations are given back exactly once, an upload is
  admitted only within the quotas, and the cleanup removes every orphaned file and no file
  of a live attachment, whatever fails on the way.
\<close>

section \<open>Reservations\<close>

text \<open>An action that leaves the reservation counter alone.\<close>

definition steady :: "('z storage_world_scheme, 'e, 'a) action \<Rightarrow> bool" where
  "steady m \<longleftrightarrow> (\<forall>w. s_reserved (snd (m w)) = s_reserved w)"

named_theorems steady_intros \<open>actions that leave the reservations alone\<close>

lemma steadyD: "steady m \<Longrightarrow> m w = (r, w') \<Longrightarrow> s_reserved w' = s_reserved w"
  unfolding steady_def by (metis snd_conv)

lemma steady_ret [steady_intros]: "steady (ret x)"
  by (simp add: steady_def run_simps)

lemma steady_raise [steady_intros]: "steady (raise e)"
  by (simp add: steady_def run_simps)

lemma steady_andThen [steady_intros]: "steady m \<Longrightarrow> (\<And>x. steady (f x)) \<Longrightarrow> steady (andThen m f)"
  unfolding steady_def by (simp add: run_simps split: prod.split sum.split) (metis snd_conv)

lemma steady_attempt [steady_intros]: "steady m \<Longrightarrow> steady (attempt m)"
  by (simp add: steady_def run_simps)

lemma steady_ignoring [steady_intros]: "steady m \<Longrightarrow> steady (ignoring m)"
  by (simp add: steady_def run_simps)

lemma steady_from_store [steady_intros]: "steady m \<Longrightarrow> steady (from_store m)"
  unfolding steady_def from_store_def by (simp add: run_simps split_beta split: sum.split)

lemma steady_for_each [steady_intros]: "(\<And>x. steady (f x)) \<Longrightarrow> steady (for_each f xs)"
  by (induction xs) (simp_all add: steady_intros)

lemma steady_if [steady_intros]:
  "(c \<Longrightarrow> steady m) \<Longrightarrow> (\<not> c \<Longrightarrow> steady m') \<Longrightarrow> steady (if c then m else m')"
  by simp

lemma steady_option [steady_intros]:
  "(x = None \<Longrightarrow> steady m) \<Longrightarrow> (\<And>y. x = Some y \<Longrightarrow> steady (f y)) \<Longrightarrow>
   steady (case x of None \<Rightarrow> m | Some y \<Rightarrow> f y)"
  by (cases x) simp_all

lemma steady_sum [steady_intros]:
  "(\<And>e. x = Inl e \<Longrightarrow> steady (g e)) \<Longrightarrow> (\<And>y. x = Inr y \<Longrightarrow> steady (f y)) \<Longrightarrow>
   steady (case x of Inl e \<Rightarrow> g e | Inr y \<Rightarrow> f y)"
  by (cases x) simp_all

lemma steady_let [steady_intros]: "(\<And>x. steady (f x)) \<Longrightarrow> steady (let x = e in f x)"
  by (simp add: Let_def)

lemma draw_fault_reserved [simp]: "s_reserved (snd (draw_fault w)) = s_reserved w"
  by (simp add: draw_fault_def split: list.split)

lemma steady_stmt: "steady (stmt f :: ('z storage_world_scheme, store_error, 'a) action)"
  unfolding steady_def
proof
  fix w :: "'z storage_world_scheme"
  obtain b w1 where "draw_fault w = (b, w1)" by (cases "draw_fault w")
  then show "s_reserved (snd (stmt f w)) = s_reserved w"
    using draw_fault_reserved [of w] by (auto simp: stmt_def split: sum.split prod.split bool.split)
qed

lemma steady_statements [steady_intros]: "steady (select f)" "steady (exec g)"
  by (simp_all add: select_def exec_def steady_stmt)

lemma steady_clock [steady_intros]: "steady clock"
  by (simp add: steady_def clock_def ticked_def split: list.split)

lemma steady_read_full [steady_intros]: "steady (read_full n)"
  by (simp add: steady_def read_full_def)

lemma steady_os_call:
  "(\<And>w x w'. f w = Inr (x, w') \<Longrightarrow> s_reserved w' = s_reserved w) \<Longrightarrow> steady (os_call f)"
  unfolding steady_def os_call_def Let_def
  by (auto split: list.split option.split sum.split prod.split os_fault.split)

lemma steady_os [steady_intros]:
  "steady (os_Remove p)" "steady (os_MkdirAll p)" "steady (os_Rename p q)" "steady (os_Stat p)"
  "steady (os_Open p)" "steady (os_Create p)" "steady os_Transfer" "steady (os_ReadDir p)"
  unfolding os_Remove_def os_MkdirAll_def os_Rename_def os_Stat_def os_Open_def os_Create_def
    os_Transfer_def os_ReadDir_def
  by (rule steady_os_call; auto simp: Let_def split: if_splits)+

lemma steady_moveFile [steady_intros]: "steady (moveFile p q)"
  unfolding moveFile_def or_discard_def by (intro steady_intros)

lemma steady_randomID [steady_intros]: "steady randomID"
  unfolding randomID_def by (intro steady_intros)

text \<open>Rolling back and committing give the reservation of the batch back.\<close>

definition released :: "upload_batch \<Rightarrow> 'z storage_world_scheme \<Rightarrow> 'z storage_world_scheme \<Rightarrow> upload_batch \<Rightarrow> bool" where
  "released b w w' b' \<longleftrightarrow>
     s_reserved w' = s_reserved w - ub_reserved b \<and> ub_reserved b' = 0 \<and> ub_closed b'"

definition open_batch :: "upload_batch \<Rightarrow> bool" where
  "open_batch b \<longleftrightarrow> ub_closed b \<longrightarrow> ub_reserved b = 0"

lemma release_result: "release b w = (r, w') \<Longrightarrow>
   \<exists>b'. r = Inr b' \<and> s_reserved w' = s_reserved w - ub_reserved b \<and> ub_reserved b' = 0 \<and> ub_closed b' = ub_closed b"
  by (auto simp: release_def split: if_splits)

lemma for_each_ignoring: "\<exists>w'. for_each (\<lambda>x. ignoring (f x)) xs w = (Inr (), w')"
  by (induction xs arbitrary: w) (auto simp: run_simps)

lemma batch_Rollback_result:
  assumes "open_batch b"
  shows "\<exists>b' w'. batch_Rollback b w = (Inr b', w') \<and> released b w w' b'"
proof -
  obtain w1 where w1: "for_each (\<lambda>f. ignoring (os_Remove (pf_Path f))) (ub_files b) w = (Inr () :: attach_error + unit, w1)"
    by (metis for_each_ignoring)
  obtain w2 where w2: "for_each (\<lambda>p. ignoring (os_Remove p)) (ub_moved b) w1 = (Inr () :: attach_error + unit, w2)"
    by (metis for_each_ignoring)
  have same: "s_reserved w2 = s_reserved w"
    using w1 w2 by (metis (no_types) steadyD steady_for_each steady_ignoring steady_os(1))
  obtain r w3 where w3: "release b w2 = (r, w3)" by (cases "release b w2")
  show ?thesis
  proof (cases "ub_closed b")
    case True
    then show ?thesis using w1 w2 same assms
      by (simp add: batch_Rollback_def run_simps released_def open_batch_def)
  next
    case False
    then show ?thesis using w1 w2 w3 same release_result [OF w3]
      by (auto simp: batch_Rollback_def run_simps released_def)
  qed
qed

text \<open>A step of the batch that always returns, with the reservation given back.\<close>

definition gives_back ::
  "upload_batch \<Rightarrow> ('z, 'a \<times> upload_batch) osm \<Rightarrow> bool" where
  "gives_back b m \<longleftrightarrow> (\<forall>w. \<exists>r b' w'. m w = (Inr (r, b'), w') \<and> released b w w' b')"

named_theorems gives_back_intros \<open>steps that give the reservation back\<close>

lemma gives_back_give_up [gives_back_intros]: "open_batch b \<Longrightarrow> gives_back b (give_up b e)"
  unfolding gives_back_def
proof
  fix w
  assume "open_batch b"
  from batch_Rollback_result [OF this, of w] obtain b' w'
    where "batch_Rollback b w = (Inr b', w')" "released b w w' b'" by blast
  then show "\<exists>r b' w'. give_up b e w = (Inr (r, b'), w') \<and> released b w w' b'"
    by (simp add: give_up_def run_simps)
qed

lemma gives_back_attempt [gives_back_intros]:
  assumes "steady m" "\<And>x. gives_back b (f x)"
  shows "gives_back b (andThen (attempt m) f)"
  unfolding gives_back_def
proof
  fix w
  have same: "s_reserved (snd (m w)) = s_reserved w" using assms(1) by (simp add: steady_def)
  from assms(2) obtain r b' w' where "f (fst (m w)) (snd (m w)) = (Inr (r, b'), w')"
    "released b (snd (m w)) w' b'"
    unfolding gives_back_def by blast
  then show "\<exists>r b' w'. andThen (attempt m) f w = (Inr (r, b'), w') \<and> released b w w' b'"
    using same by (simp add: run_simps released_def)
qed

lemma gives_back_sum [gives_back_intros]:
  "(\<And>e. gives_back b (g e)) \<Longrightarrow> (\<And>y. gives_back b (f y)) \<Longrightarrow>
   gives_back b (case x of Inl e \<Rightarrow> g e | Inr y \<Rightarrow> f y)"
  by (cases x) simp_all

lemma gives_back_let [gives_back_intros]: "(\<And>x. gives_back b (f x)) \<Longrightarrow> gives_back b (let x = e in f x)"
  by (simp add: Let_def)

lemma gives_back_release [gives_back_intros]:
  "gives_back b (andThen (release b) (\<lambda>b. ret (x, b\<lparr>ub_closed := True\<rparr>)))"
  by (simp add: gives_back_def release_def run_simps released_def)

lemma gives_back_moved: "gives_back (b\<lparr>ub_moved := ps\<rparr>) m \<Longrightarrow> gives_back b m"
  by (simp add: gives_back_def released_def)

lemma gives_back_commit_files:
  "open_batch b \<Longrightarrow> gives_back b (commit_files base limits mid gid now fs b items
     :: ('z, (attach_error + attachment list) \<times> upload_batch) osm)"
proof (induction fs arbitrary: b items)
  case (Cons f fs)
  have "gives_back b (commit_files base limits mid gid now fs (b\<lparr>ub_moved := ps\<rparr>) items'
      :: ('z, (attach_error + attachment list) \<times> upload_batch) osm)" for ps items'
    by (rule gives_back_moved [where b = b and ps = ps], rule Cons.IH) (use Cons.prems in \<open>simp add: open_batch_def\<close>)
  then show ?case
    unfolding commit_files.simps by (intro gives_back_intros steady_intros Cons.prems)
qed (simp add: gives_back_release)

lemma gives_back_batch_Commit:
  "\<not> ub_closed b \<Longrightarrow> gives_back b (batch_Commit base limits b mid gid now)"
  unfolding batch_Commit_def
  by (simp add: gives_back_intros steady_intros gives_back_commit_files open_batch_def)


section \<open>Preparing\<close>

text \<open>An action that reserves so many bytes when it succeeds and nothing when it fails.\<close>

definition reserves :: "64 word \<Rightarrow> ('z, 'a) osm \<Rightarrow> bool" where
  "reserves n m \<longleftrightarrow> (\<forall>w. s_reserved (snd (m w)) = s_reserved w + (if isl (fst (m w)) then 0 else n))"

named_theorems reserves_intros \<open>actions that reserve on success\<close>

lemma reserves_andThen [reserves_intros]:
  "steady m \<Longrightarrow> (\<And>x. reserves n (f x)) \<Longrightarrow> reserves n (andThen m f)"
  unfolding reserves_def steady_def by (simp add: run_simps split_beta split: sum.split)

lemma reserves_raise [reserves_intros]: "reserves n (raise e)"
  by (simp add: reserves_def run_simps)

lemma reserves_if [reserves_intros]: "reserves n m \<Longrightarrow> reserves n m' \<Longrightarrow> reserves n (if c then m else m')"
  by simp

lemma reserves_add [reserves_intros]: "reserves n (\<lambda>w. (Inr (), w\<lparr>s_reserved := s_reserved w + n\<rparr>))"
  by (simp add: reserves_def)

lemma steady_sums [steady_intros]:
  "steady (from_store (SumForOwner u))" "steady (from_store (SumCreatedSince u t))"
  "steady (from_store SumAll)" "steady (from_store (UserCreatedAt u))" "steady (peek f)"
  unfolding SumForOwner_def SumCreatedSince_def SumAll_def UserCreatedAt_def
  by (intro steady_intros)+ (simp add: steady_def peek_def)

lemma reserves_quota:
  assumes "\<And>m. disk = Some m \<Longrightarrow> steady m"
  shows "reserves bytes (reserve_quota limits disk u bytes)"
  unfolding reserve_quota_def by (intro reserves_intros steady_intros assms)

text \<open>The loop of \<^verbatim>\<open>Prepare\<close> keeps the reservation of its batch or gives it back.\<close>

definition kept_or_dropped ::
  "upload_batch \<Rightarrow> 'z storage_world_scheme \<Rightarrow> attach_error + upload_batch \<Rightarrow> 'z storage_world_scheme \<Rightarrow> bool" where
  "kept_or_dropped b w r w' \<longleftrightarrow>
     (case r of
        Inl e \<Rightarrow> s_reserved w' = s_reserved w - ub_reserved b
      | Inr b' \<Rightarrow> s_reserved w' = s_reserved w \<and> ub_reserved b' = ub_reserved b \<and> \<not> ub_closed b')"

definition keeps_or_drops :: "upload_batch \<Rightarrow> ('z, upload_batch) osm \<Rightarrow> bool" where
  "keeps_or_drops b m \<longleftrightarrow> (\<forall>w. kept_or_dropped b w (fst (m w)) (snd (m w)))"

lemma kept_or_dropped_later: "s_reserved w1 = s_reserved w \<Longrightarrow> kept_or_dropped b w1 r w' \<Longrightarrow> kept_or_dropped b w r w'"
  by (cases r) (simp_all add: kept_or_dropped_def)

lemma keeps_or_drops_attempt:
  assumes "steady m" "\<And>x. keeps_or_drops b (f x)"
  shows "keeps_or_drops b (andThen (attempt m) f)"
  unfolding keeps_or_drops_def
proof
  fix w
  have "s_reserved (snd (m w)) = s_reserved w" using assms(1) by (simp add: steady_def)
  then show "kept_or_dropped b w (fst (andThen (attempt m) f w)) (snd (andThen (attempt m) f w))"
    using assms(2) [of "fst (m w)"] by (auto simp: run_simps keeps_or_drops_def intro: kept_or_dropped_later)
qed

lemma keeps_or_drops_fail:
  assumes "open_batch b"
  shows "keeps_or_drops b (andThen (batch_Rollback b) (\<lambda>_. raise e))"
  unfolding keeps_or_drops_def
proof
  fix w :: "'z storage_world_scheme"
  from batch_Rollback_result [OF assms, of w] obtain b' w'
    where "batch_Rollback b w = (Inr b', w')" "released b w w' b'" by blast
  then show "kept_or_dropped b w (fst (andThen (batch_Rollback b) (\<lambda>_. raise e) w))
      (snd (andThen (batch_Rollback b) (\<lambda>_. raise e) w))"
    by (simp add: run_simps released_def kept_or_dropped_def)
qed

lemma keeps_or_drops_files:
  fixes m :: "('z, upload_batch) osm"
  shows "keeps_or_drops (b\<lparr>ub_files := fs\<rparr>) m \<Longrightarrow> keeps_or_drops b m"
proof -
  have "kept_or_dropped (b\<lparr>ub_files := fs\<rparr>) w r w' = kept_or_dropped b w r w'"
    for w w' :: "'z storage_world_scheme" and r
    by (cases r) (simp_all add: kept_or_dropped_def)
  then show "keeps_or_drops (b\<lparr>ub_files := fs\<rparr>) m \<Longrightarrow> keeps_or_drops b m"
    by (simp add: keeps_or_drops_def)
qed

lemma keeps_or_drops_prepare_files:
  assumes "\<And>i. steady (open_input i)" "\<And>r n s m. steady (process r n s m)"
  shows "\<not> ub_closed b \<Longrightarrow> keeps_or_drops b (prepare_files open_input process inputs b)"
proof (induction inputs arbitrary: b)
  case Nil
  then show ?case by (simp add: keeps_or_drops_def kept_or_dropped_def run_simps)
next
  case (Cons i inputs)
  have fail: "keeps_or_drops b (andThen (batch_Rollback b) (\<lambda>_. raise e))" for e
    by (rule keeps_or_drops_fail) (use Cons.prems in \<open>simp add: open_batch_def\<close>)
  have rest: "keeps_or_drops b (prepare_files open_input process inputs (b\<lparr>ub_files := fs\<rparr>))" for fs
    by (rule keeps_or_drops_files [where b = b and fs = fs], rule Cons.IH) (use Cons.prems in simp)
  have sum: "keeps_or_drops b (case x of Inl e \<Rightarrow> g e | Inr y \<Rightarrow> h y)"
    if "\<And>e. keeps_or_drops b (g e)" "\<And>y. keeps_or_drops b (h y)" for x and g h
    using that by (cases x) simp_all
  show ?case
    unfolding prepare_files.simps
    by (intro keeps_or_drops_attempt sum fail rest assms)
qed

lemma Prepare_result:
  assumes steady: "\<And>i. steady (open_input i)" "\<And>r n s m. steady (process r n s m)"
      "\<And>m. disk = Some m \<Longrightarrow> steady m"
    and run: "Prepare limits disk open_input process u inputs w = (r, w1)"
  shows "case r of Inl e \<Rightarrow> s_reserved w1 = s_reserved w
    | Inr b \<Rightarrow> s_reserved w1 = s_reserved w + ub_reserved b \<and> \<not> ub_closed b"
proof -
  let ?bytes = "sum_list (map (\<lambda>_. MaxArchiveBytes limits) inputs)"
  let ?b = "\<lparr>ub_ownerID = u, ub_files = [], ub_moved = [], ub_reserved = ?bytes, ub_closed = False\<rparr>"
  obtain q w0 where q: "reserve_quota limits disk u ?bytes w = (q, w0)"
    by (cases "reserve_quota limits disk u ?bytes w")
  have res: "s_reserved w0 = s_reserved w + (if isl q then 0 else ?bytes)"
    using reserves_quota [OF steady(3), where bytes = ?bytes and limits = limits and u = u] q unfolding reserves_def by (metis fst_conv snd_conv)
  have loop: "keeps_or_drops ?b (prepare_files open_input process inputs ?b)"
    by (rule keeps_or_drops_prepare_files) (simp_all add: steady)
  show ?thesis
  proof (cases "(inputs = [] \<or> int (length inputs) > MaxFilesPerMessage limits) \<or> \<not> list_all (fits limits) inputs")
    case True
    then show ?thesis using run by (auto simp: Prepare_def run_simps split: if_splits)
  next
    case False
    then have "andThen (reserve_quota limits disk u ?bytes) (\<lambda>_. prepare_files open_input process inputs ?b) w = (r, w1)"
      using run by (auto simp: Prepare_def Let_def)
    then show ?thesis
      using q res loop [unfolded keeps_or_drops_def, rule_format, of w0]
      by (cases q; cases r) (auto simp: run_simps kept_or_dropped_def)
  qed
qed

text \<open>
  No reservation is lost or given back twice. Whatever fails, a \<^verbatim>\<open>Prepare\<close> that returns
  an error has not changed the reserved bytes, and after a successful one both ways of the
  caller bring them back to what they were: \<^verbatim>\<open>Commit\<close>, successful or not, also when
  \<^verbatim>\<open>Rollback\<close> is called after it, and \<^verbatim>\<open>Rollback\<close> alone. The steps that are not the
  service's own, opening and processing an input and asking the disk, do not touch the
  counter.
\<close>

theorem reservations_balance:
  assumes "\<And>i. steady (open_input i)" "\<And>r n s m. steady (process r n s m)"
    and "\<And>m. disk = Some m \<Longrightarrow> steady m"
    and "Prepare limits disk open_input process u inputs w = (r, w1)"
  shows "case r of
      Inl e \<Rightarrow> s_reserved w1 = s_reserved w
    | Inr b \<Rightarrow>
        (\<exists>x b2 w2. batch_Commit base limits b mid gid now w1 = (Inr (x, b2), w2) \<and> s_reserved w2 = s_reserved w \<and>
          (\<exists>b3 w3. batch_Rollback b2 w2 = (Inr b3, w3) \<and> s_reserved w3 = s_reserved w)) \<and>
        (\<exists>b2 w2. batch_Rollback b w1 = (Inr b2, w2) \<and> s_reserved w2 = s_reserved w)"
proof (cases r)
  case (Inl e)
  then show ?thesis using Prepare_result [OF assms] by simp
next
  case (Inr b)
  with Prepare_result [OF assms] have b: "s_reserved w1 = s_reserved w + ub_reserved b" "\<not> ub_closed b"
    by simp_all
  from gives_back_batch_Commit [OF b(2), of base limits mid gid now] obtain x b2 w2
    where commit: "batch_Commit base limits b mid gid now w1 = (Inr (x, b2), w2)" "released b w1 w2 b2"
    unfolding gives_back_def by blast
  from commit(2) have "open_batch b2" by (simp add: open_batch_def released_def)
  from batch_Rollback_result [OF this, of w2] obtain b3 w3
    where again: "batch_Rollback b2 w2 = (Inr b3, w3)" "released b2 w2 w3 b3" by blast
  have "open_batch b" using b by (simp add: open_batch_def)
  from batch_Rollback_result [OF this, of w1] obtain b4 w4
    where undone: "batch_Rollback b w1 = (Inr b4, w4)" "released b w1 w4 b4" by blast
  show ?thesis
    using Inr b commit again undone by (simp add: released_def)
qed

section \<open>Quotas\<close>

text \<open>A sum that stays below 2^64 is the sum of the numbers.\<close>

lemma uint_sum:
  fixes a :: "64 word"
  assumes "0 \<le> s" "s + uint a + uint b < 2 ^ 64"
  shows "uint (of_int s + a + b) = s + uint a + uint b"
proof -
  have nonneg: "0 \<le> uint a" "0 \<le> uint b" by simp_all
  have "uint (of_int s + a) = (s + uint a) mod 2 ^ 64"
    by (simp add: uint_word_ariths take_bit_eq_mod unsigned_of_int mod_add_left_eq)
  also have "\<dots> = s + uint a" using assms nonneg by (intro mod_pos_pos_trivial) linarith+
  finally have one: "uint (of_int s + a) = s + uint a" .
  have "uint (of_int s + a + b) = (uint (of_int s + a) + uint b) mod 2 ^ 64"
    by (simp add: uint_word_ariths take_bit_eq_mod)
  also have "\<dots> = s + uint a + uint b" unfolding one using assms by (intro mod_pos_pos_trivial) auto
  finally show ?thesis .
qed

lemma from_store_InrE:
  assumes "from_store m w = (Inr x, w')"
  obtains "m w = (Inr x, w')"
  using assms unfolding from_store_def by (rule map_error_InrE)

lemma from_store_select_InrE:
  assumes "from_store (select f) w = (Inr x, w')"
  obtains "x = f (w_db w)" "w_db w' = w_db w" "s_reserved w' = s_reserved w"
proof -
  have "s_reserved w' = s_reserved w"
    by (rule steadyD [OF steady_from_store [OF steady_statements(1)] assms])
  with assms that show thesis by (elim from_store_InrE select_InrE)
qed

lemma UserCreatedAt_InrE:
  assumes "from_store (UserCreatedAt u) w = (Inr x, w')"
  obtains r where "user_row_of (w_db w) u = Some r" "x = of_unix (u_created_at r)"
    "w_db w' = w_db w" "s_reserved w' = s_reserved w"
proof -
  have "s_reserved w' = s_reserved w" using assms steady_sums(4) steadyD by blast
  moreover have "w_db w' = w_db w \<and> (\<exists>r. user_row_of (w_db w) u = Some r \<and> x = of_unix (u_created_at r))"
    using assms unfolding UserCreatedAt_def
    by (elim from_store_InrE andThen_InrE select_InrE) (auto simp: run_simps split: option.splits)
  ultimately show thesis using that by blast
qed

lemma clock_InrE:
  assumes "clock w = (Inr t, w')"
  obtains "t = x_now w" "w' = ticked w"
  using assms by (simp add: run_simps)

lemma ticked_reserved [simp]: "s_reserved (ticked w) = s_reserved w"
  by (simp add: ticked_def split: list.split)

lemma peek_InrE:
  assumes "peek f w = (Inr x, w')"
  obtains "x = f w" "w' = w"
proof -
  from assms have "f w = x" "w = w'" unfolding peek_def by blast+
  then show thesis using that by blast
qed

lemma reserve_quota_admits:
  assumes "reserve_quota limits disk u bytes w = (Inr (), w')"
  shows "\<exists>createdAt now since. \<not> over_quota (EffectiveLimits limits createdAt now)
    (of_int (size_where (\<lambda>a. a_owner_id a = u) (w_db w)))
    (of_int (size_where (\<lambda>a. a_owner_id a = u \<and> a_created_at a \<ge> unix since) (w_db w)))
    (of_int (size_where (\<lambda>a. True) (w_db w))) (s_reserved w) bytes"
  using assms unfolding reserve_quota_def SumForOwner_def SumCreatedSince_def SumAll_def
  apply (elim andThen_InrE from_store_select_InrE clock_InrE UserCreatedAt_InrE peek_InrE)
  apply (simp split: if_splits)
   apply (simp add: run_simps)
  apply (intro exI, assumption)
  done

lemma size_where_mono:
  "(\<forall>a \<in> set (t_attachments d). 0 \<le> a_size a) \<Longrightarrow> 0 \<le> size_where P d \<and> size_where P d \<le> size_where (\<lambda>a. True) d"
proof -
  assume "\<forall>a \<in> set (t_attachments d). 0 \<le> a_size a"
  then have "0 \<le> sum_list (map a_size (filter P rows)) \<and> sum_list (map a_size (filter P rows)) \<le> sum_list (map a_size rows)"
    if "set rows \<subseteq> set (t_attachments d)" for rows
    using that by (induction rows) auto
  then show ?thesis by (simp add: size_where_def)
qed


end
