(* ===== verification/CleanupLaws.thy ===== *)
theory CleanupLaws
  imports StorageLaws
begin

text \<open>
  The cleanup of the attachment files: it never removes the file of a row that has not
  expired, whatever fails, and when it returns without an error every file two levels below
  the storage directory has its row.
\<close>

section \<open>What a step leaves of the files\<close>

text \<open>A later world: the same database, and files and directories only removed.\<close>

definition calmer :: "'z storage_world_scheme \<Rightarrow> 'z storage_world_scheme \<Rightarrow> bool" where
  "calmer w w' \<longleftrightarrow> w_db w' = w_db w \<and> set (s_files w') \<subseteq> set (s_files w) \<and> set (s_dirs w') \<subseteq> set (s_dirs w)"

lemma calmer_refl [simp]: "calmer w w"
  by (simp add: calmer_def)

lemma calmer_trans: "calmer w w1 \<Longrightarrow> calmer w1 w2 \<Longrightarrow> calmer w w2"
  by (auto simp: calmer_def)

definition calms :: "('z storage_world_scheme, 'e, 'a) action \<Rightarrow> bool" where
  "calms m \<longleftrightarrow> (\<forall>w. calmer w (snd (m w)))"

named_theorems calms_intros \<open>actions that only remove files\<close>

lemma calmsD: "calms m \<Longrightarrow> m w = (r, w') \<Longrightarrow> calmer w w'"
  unfolding calms_def by (metis snd_conv)

lemma calms_ret [calms_intros]: "calms (ret x)"
  by (simp add: calms_def run_simps)

lemma calms_raise [calms_intros]: "calms (raise e)"
  by (simp add: calms_def run_simps)

lemma calms_andThen [calms_intros]: "calms m \<Longrightarrow> (\<And>x. calms (f x)) \<Longrightarrow> calms (andThen m f)"
  unfolding calms_def by (auto simp: run_simps split_beta split: sum.split intro: calmer_trans)

lemma calms_attempt [calms_intros]: "calms m \<Longrightarrow> calms (attempt m)"
  by (simp add: calms_def run_simps)

lemma calms_from_store [calms_intros]: "calms m \<Longrightarrow> calms (from_store m)"
  unfolding calms_def from_store_def by (simp add: run_simps split_beta split: sum.split)

lemma calms_for_each [calms_intros]: "(\<And>x. calms (f x)) \<Longrightarrow> calms (for_each f xs)"
  by (induction xs) (simp_all add: calms_intros)

lemma calms_if [calms_intros]: "calms m \<Longrightarrow> calms m' \<Longrightarrow> calms (if c then m else m')"
  by simp

lemma calms_sum [calms_intros]:
  "(\<And>e. calms (g e)) \<Longrightarrow> (\<And>y. calms (f y)) \<Longrightarrow> calms (case x of Inl e \<Rightarrow> g e | Inr y \<Rightarrow> f y)"
  by (cases x) simp_all

lemma calms_prod [calms_intros]: "(\<And>a b. calms (f a b)) \<Longrightarrow> calms (case p of (a, b) \<Rightarrow> f a b)"
  by (cases p) simp

lemma calms_select [calms_intros]: "calms (select f :: ('z storage_world_scheme, store_error, 'a) action)"
  unfolding calms_def
proof
  fix w :: "'z storage_world_scheme"
  show "calmer w (snd (select f w))"
    by (auto simp: select_def stmt_def draw_fault_def calmer_def split: list.split bool.split)
qed

lemma calms_os_call:
  "(\<And>w x w'. f w = Inr (x, w') \<Longrightarrow> calmer w w') \<Longrightarrow> calms (os_call f)"
  unfolding calms_def calmer_def os_call_def Let_def
  by (auto split: list.split option.split sum.split prod.split os_fault.split) (fastforce+)?

lemma calms_os [calms_intros]:
  "calms (os_Remove p)" "calms (os_Stat p)" "calms (os_ReadDir p)"
  unfolding os_Remove_def os_Stat_def os_ReadDir_def
  by (rule calms_os_call; auto simp: Let_def calmer_def split: if_splits)+

lemma calms_check [calms_intros]:
  "calms (remove_if_there p)" "calms (check_file p)" "calms (check_dir base name)" "calms (removeOrphans base)"
  unfolding remove_if_there_def check_file_def check_dir_def removeOrphans_def HasPath_def
  by (intro calms_intros)+

lemma calms_elements:
  "calms ((\<lambda>(name, isDir). if \<not> isDir then ret () else check_dir base name) entry)"
  "calms ((\<lambda>(file, isDir). if isDir then ret () else check_file (path_Join [base, name, file])) entry)"
  by (cases entry; simp add: calms_intros)+

text \<open>Each element of a loop that returned was handled, between the start and the end.\<close>

lemma for_each_done:
  assumes "\<And>x. calms (f x)" "for_each f xs w = (Inr (), w')" "x \<in> set xs"
  obtains w1 w2 where "f x w1 = (Inr (), w2)" "calmer w w1" "calmer w2 w'"
  using assms(2,3)
proof (induction xs arbitrary: w thesis)
  case (Cons y ys)
  from Cons.prems(2) obtain u w1 where y: "f y w = (Inr u, w1)" and rest: "for_each f ys w1 = (Inr (), w')"
    by (auto elim: andThen_InrE)
  have u: "u = ()" by simp
  have later: "calmer w1 w'"
    using calmsD [of "for_each f ys"] rest calms_for_each [of f] assms(1) by metis
  show ?case
  proof (cases "x = y")
    case True
    then show ?thesis using Cons.prems(1) [of w w1] y u later by simp
  next
    case False
    then have "x \<in> set ys" using Cons.prems(3) by simp
    from Cons.IH [OF _ rest this] Cons.prems(1) show ?thesis
      using calmer_trans [OF calmsD [OF assms(1) y]] by metis
  qed
qed simp

section \<open>No orphan is left\<close>

lemma child_of_Some:
  "child_of d p = Some n \<Longrightarrow> n \<noteq> [] \<and> slash \<notin> set n \<and>
     p = (if d = ''.'' then n else if d = ''/'' then slash # n else d @ slash # n)"
  unfolding child_of_def Let_def has_prefix_def
  by (auto split: if_splits) (metis append_Cons append_Nil append_assoc append_take_drop_id)+

lemma has_prefix_one: "slash \<notin> set n \<Longrightarrow> take (Suc 0) n \<noteq> [slash]"
  by (cases n) auto

text \<open>A cleaned path below a directory is what \<^verbatim>\<open>filepath.Join\<close> of directory and name gives.\<close>

lemma Join_child:
  assumes "child_of (path_Clean b) q = Some n" "path_Clean q = q" "b \<noteq> []"
  shows "path_Clean (b @ slash # n) = q"
proof -
  from child_of_Some [OF assms(1)] have n: "n \<noteq> []" "slash \<notin> set n"
    and q: "q = (if path_Clean b = ''.'' then n else if path_Clean b = ''/'' then slash # n
      else path_Clean b @ slash # n)" by blast+
  have "path_Clean (b @ slash # n) = path_Clean (path_Clean b @ slash # n)"
    using path_Clean_below [OF assms(3)] by simp
  also have "\<dots> = path_Clean q"
  proof -
    have dot: "path_Clean (''.'' @ slash # n) = path_Clean n"
      using n by (simp add: path_Clean_def rooted_def has_prefix_def clean_segments_def clean_step_def
          has_prefix_one)
    have top: "path_Clean (''/'' @ slash # n) = path_Clean (slash # n)"
      by (simp add: path_Clean_def rooted_def has_prefix_def clean_segments_def clean_step_def)
    show ?thesis using q dot top by (auto split: if_splits)
  qed
  finally show ?thesis using assms(2) by simp
qed

lemma os_call_InrE:
  assumes "os_call f w = (Inr x, w')"
  obtains w1 where "f w1 = Inr (x, w')" "w1 = w\<lparr>s_os_faults := drop 1 (s_os_faults w)\<rparr>"
  using assms by (auto simp: os_call_def Let_def split: list.splits option.splits os_fault.splits sum.splits)

lemma os_call_result:
  "os_call f w = (r, w') \<Longrightarrow> w' = w\<lparr>s_os_faults := drop 1 (s_os_faults w)\<rparr>
    \<or> (\<exists>x. r = Inr x \<and> f (w\<lparr>s_os_faults := drop 1 (s_os_faults w)\<rparr>) = Inr (x, w'))"
  by (auto simp: os_call_def Let_def split: list.splits option.splits os_fault.splits sum.splits)

lemma os_ReadDir_entries:
  assumes "os_ReadDir p w = (Inr entries, w')"
  shows "set entries = (\<lambda>n. (n, False)) ` set (List.map_filter (child_of (path_Clean p)) (s_files w))
      \<union> (\<lambda>n. (n, True)) ` set (List.map_filter (child_of (path_Clean p)) (s_dirs w))"
proof -
  from assms obtain w1 where "(let p = path_Clean p in
     if List.member (s_dirs w1) p then
       Inr (sort_key fst (map (\<lambda>n. (n, False)) (List.map_filter (child_of p) (s_files w1))
          @ map (\<lambda>n. (n, True)) (List.map_filter (child_of p) (s_dirs w1))), w1)
     else Inl (if List.member (s_files w1) p then OsFailed else OsNotExist)) = Inr (entries, w')"
    "w1 = w\<lparr>s_os_faults := drop 1 (s_os_faults w)\<rparr>"
    unfolding os_ReadDir_def by (rule os_call_InrE)
  then show ?thesis by (auto simp: Let_def split: if_splits)
qed

lemma andThen_attempt_E:
  assumes "andThen (attempt m) f w = (y, w')"
  obtains x w1 where "m w = (x, w1)" "f x w1 = (y, w')"
  using assms by (cases "m w") (auto simp: run_simps)

lemma remove_if_there_gone:
  assumes "remove_if_there p w = (Inr (), w')"
  shows "path_Clean p \<notin> set (s_files w')"
proof -
  obtain r w1 where run: "os_Remove p w = (r, w1)" and
    rest: "(case r of Inl e \<Rightarrow> if e = OsNotExist then ret () else raise e | Inr _ \<Rightarrow> ret ()) w1 = (Inr (), w')"
    using assms unfolding remove_if_there_def by (rule andThen_attempt_E)
  show ?thesis
  proof (cases r)
    case (Inl e)
    then have "e = OsNotExist \<and> w' = w1"
      using rest by (auto simp: run_simps split: if_splits)
    then show ?thesis using run Inl
      by (auto simp: os_Remove_def os_call_def Let_def
          split: list.splits option.splits os_fault.splits if_splits)
  next
    case (Inr u)
    then have "w' = w1" using rest by (auto simp: run_simps)
    then show ?thesis using run Inr unfolding os_Remove_def
      by (auto simp: Let_def elim!: os_call_InrE split: if_splits)
  qed
qed

lemma check_file_done:
  assumes "check_file p w = (Inr (), w')" "path_Clean p \<in> set (s_files w')"
  shows "has_path p (w_db w)"
proof (rule ccontr)
  assume none: "\<not> has_path p (w_db w)"
  from assms(1) obtain e w1 where e: "from_store (HasPath p) w = (Inr e, w1)" and
    rest: "(if \<not> e then remove_if_there p else andThen (attempt (os_Stat p)) (\<lambda>r.
       case r of Inl e \<Rightarrow> if e = OsNotExist then ret () else raise e | Inr _ \<Rightarrow> ret ())) w1 = (Inr (), w')"
    unfolding check_file_def by (rule andThen_InrE)
  from e have "e = has_path p (w_db w)"
    unfolding HasPath_def by (rule from_store_select_InrE)
  then have "remove_if_there p w1 = (Inr (), w')" using rest none by simp
  then show False using remove_if_there_gone assms(2) by blast
qed

lemma in_map_filter: "y \<in> set (List.map_filter f xs) \<longleftrightarrow> (\<exists>x \<in> set xs. f x = Some y)"
  by (induction xs) (auto simp: List.map_filter_def split: option.splits)

text \<open>A file two levels below the storage directory.\<close>

definition stored_below :: "string \<Rightarrow> string \<Rightarrow> 'z storage_world_scheme \<Rightarrow> bool" where
  "stored_below base p w \<longleftrightarrow> p \<in> set (s_files w) \<and> path_Clean p = p \<and>
     (\<exists>dir name leaf. dir \<in> set (s_dirs w) \<and> path_Clean dir = dir \<and>
        child_of (path_Clean base) dir = Some name \<and> child_of dir p = Some leaf)"

lemma removeOrphans_complete:
  assumes run: "removeOrphans base w = (Inr (), w')" and base: "base \<noteq> []"
    and below: "stored_below base p w'" and "path_Clean base \<in> set (s_dirs w')"
  shows "has_path p (w_db w')"
proof -
  obtain dir name leaf where p: "p \<in> set (s_files w')" "path_Clean p = p" and
    dir: "dir \<in> set (s_dirs w')" "path_Clean dir = dir" and
    name: "child_of (path_Clean base) dir = Some name" and leaf: "child_of dir p = Some leaf"
    using below by (auto simp: stored_below_def)
  have nonempty: "name \<noteq> []" "leaf \<noteq> []" "dir \<noteq> []"
    using child_of_Some [OF name] child_of_Some [OF leaf] by (auto split: if_splits)
  from run obtain r w1 where read: "os_ReadDir base w = (r, w1)" and
    rest: "(case r of Inl e \<Rightarrow> if e = OsNotExist then ret () else raise e
     | Inr entries \<Rightarrow> for_each (\<lambda>(name, isDir). if \<not> isDir then ret () else check_dir base name) entries) w1 = (Inr (), w')"
    unfolding removeOrphans_def by (rule andThen_attempt_E)
  have calm: "calmer w w'" by (rule calmsD [OF calms_check(4) run])
  have "r \<noteq> Inl OsNotExist"
    using read calm assms(4)
    by (auto simp: os_ReadDir_def os_call_def Let_def calmer_def
        split: list.splits option.splits os_fault.splits if_splits)
  then obtain entries where entries: "r = Inr entries"
    using rest by (cases r) (auto simp: run_simps split: if_splits)
  have "dir \<in> set (s_dirs w)" using calm dir by (auto simp: calmer_def)
  then have dir_entry: "(name, True) \<in> set entries"
    using os_ReadDir_entries [of base w entries w1] read entries name by (force simp: in_map_filter)
  have dirs: "for_each (\<lambda>(name, isDir). if \<not> isDir then ret () else check_dir base name) entries w1 = (Inr (), w')"
    using rest entries by simp
  obtain w2 w3 where check: "check_dir base name w2 = (Inr (), w3)" and later: "calmer w3 w'"
    by (rule for_each_done [OF calms_elements(1) dirs dir_entry]) simp
  have join_dir: "path_Join [base, name] = dir"
    using Join_child [OF name dir(2) base] base nonempty by (simp add: path_Join_def)
  have "path_Join [base, name, leaf] = path_Clean ((base @ slash # name) @ slash # leaf)"
    using base nonempty by (simp add: path_Join_def)
  also have "\<dots> = path_Clean (path_Clean (base @ slash # name) @ slash # leaf)"
    using path_Clean_below [of "base @ slash # name" leaf] by simp
  also have "\<dots> = path_Clean (dir @ slash # leaf)"
    using Join_child [OF name dir(2) base] by simp
  also have "\<dots> = p"
    using Join_child [of dir p leaf] dir(2) leaf p(2) nonempty by simp
  finally have join_leaf: "path_Join [base, name, leaf] = p" .
  from check obtain files w4 where read2: "os_ReadDir dir w2 = (Inr files, w4)" and
    loop: "for_each (\<lambda>(file, isDir). if isDir then ret () else check_file (path_Join [base, name, file])) files w4 = (Inr (), w3)"
    unfolding check_dir_def join_dir by (rule andThen_InrE)
  have calm2: "calmer w2 w3" by (rule calmsD [OF calms_check(3) check])
  have "p \<in> set (s_files w2)" using p calm2 later by (auto simp: calmer_def)
  then have file_entry: "(leaf, False) \<in> set files"
    using os_ReadDir_entries [OF read2] leaf dir(2) by (force simp: in_map_filter)
  obtain w5 w6 where "check_file p w5 = (Inr (), w6)" "calmer w4 w5" "calmer w6 w3"
    by (rule for_each_done [OF calms_elements(2) loop file_entry]) (simp add: join_leaf)
  moreover have "p \<in> set (s_files w6)" using p later \<open>calmer w6 w3\<close> by (auto simp: calmer_def)
  moreover have "calmer w5 w6"
    by (rule calmsD [OF calms_check(2) \<open>check_file p w5 = (Inr (), w6)\<close>])
  ultimately have "has_path p (w_db w5)" "w_db w5 = w_db w'"
    using check_file_done [of p w5 w6] p(2) later by (auto simp: calmer_def)
  then show ?thesis by simp
qed

text \<open>
  C39: A cleanup that returns without an error leaves no orphan. Every file two levels below
  the storage directory, where the uploads put theirs, then has its attachment row: files of
  deleted messages, groups and accounts, whose rows went with them, are gone.
\<close>

theorem cleanup_no_orphans:
  assumes "RunOnce base batchSize deleteRequests now w = (Inr (), w')" "base \<noteq> []"
    and "stored_below base p w'" "path_Clean base \<in> set (s_dirs w')"
  shows "has_path p (w_db w')"
proof -
  obtain w1 where "removeOrphans base w1 = (Inr (), w')"
    using assms(1) unfolding RunOnce_def by (elim andThen_InrE) blast
  then show ?thesis by (rule removeOrphans_complete [OF _ assms(2-4)])
qed

section \<open>No live file is lost\<close>

text \<open>A property of the world that an action keeps, also when it fails.\<close>

definition guards :: "('z storage_world_scheme \<Rightarrow> bool) \<Rightarrow> ('z storage_world_scheme, 'e, 'a) action \<Rightarrow> bool" where
  "guards Q m \<longleftrightarrow> (\<forall>w. Q w \<longrightarrow> Q (snd (m w)))"

named_theorems guards_intros \<open>how properties of the world are kept\<close>

lemma guards_ret [guards_intros]: "guards Q (ret x)"
  by (simp add: guards_def run_simps)

lemma guards_raise [guards_intros]: "guards Q (raise e)"
  by (simp add: guards_def run_simps)

lemma guards_andThen: "guards Q m \<Longrightarrow> (\<And>x. guards Q (f x)) \<Longrightarrow> guards Q (andThen m f)"
  unfolding guards_def by (simp add: run_simps split_beta split: sum.split)

text \<open>The same when the second action relies on what the first returned.\<close>

lemma guards_andThen_result:
  assumes "guards Q m" "\<And>w x w1. Q w \<Longrightarrow> m w = (Inr x, w1) \<Longrightarrow> Q w1 \<Longrightarrow> Q (snd (f x w1))"
  shows "guards Q (andThen m f)"
  unfolding guards_def
proof (intro allI impI)
  fix w assume "Q w"
  obtain r w1 where r: "m w = (r, w1)" by (cases "m w")
  then have "Q w1" using assms(1) \<open>Q w\<close> unfolding guards_def by (metis snd_conv)
  then show "Q (snd (andThen m f w))"
    using r assms(2) [OF \<open>Q w\<close>] by (cases r) (auto simp: run_simps)
qed

lemma guards_attempt [guards_intros]: "guards Q m \<Longrightarrow> guards Q (attempt m)"
  by (simp add: guards_def run_simps)

lemma guards_from_store [guards_intros]: "guards Q m \<Longrightarrow> guards Q (from_store m)"
  unfolding guards_def from_store_def by (simp add: run_simps split_beta split: sum.split)

lemma guards_for_each [guards_intros]: "(\<And>x. x \<in> set xs \<Longrightarrow> guards Q (f x)) \<Longrightarrow> guards Q (for_each f xs)"
  by (induction xs) (simp_all add: guards_intros guards_andThen)

lemma guards_if [guards_intros]:
  "(c \<Longrightarrow> guards Q m) \<Longrightarrow> (\<not> c \<Longrightarrow> guards Q m') \<Longrightarrow> guards Q (if c then m else m')"
  by simp

lemma guards_sum [guards_intros]:
  "(\<And>e. guards Q (g e)) \<Longrightarrow> (\<And>y. guards Q (f y)) \<Longrightarrow> guards Q (case x of Inl e \<Rightarrow> g e | Inr y \<Rightarrow> f y)"
  by (cases x) simp_all

text \<open>The row of an attachment and its file.\<close>

definition live :: "attachment_row \<Rightarrow> 'z storage_world_scheme \<Rightarrow> bool" where
  "live a w \<longleftrightarrow> a \<in> set (t_attachments (w_db w)) \<and> a_path a \<in> set (s_files w)"

lemma draw_fault_files:
  "draw_fault w = (b, w1) \<Longrightarrow> w_db w1 = w_db w \<and> s_files w1 = s_files w"
  by (auto simp: draw_fault_def split: list.splits)

lemma guards_stmt:
  assumes "\<And>d x d'. a \<in> set (t_attachments d) \<Longrightarrow> f d = Inr (x, d') \<Longrightarrow> a \<in> set (t_attachments d')"
  shows "guards (live a) (stmt f :: ('z storage_world_scheme, store_error, 'a) action)"
  unfolding guards_def
proof (intro allI impI)
  fix w :: "'z storage_world_scheme"
  assume "live a w"
  obtain b w1 where w1: "draw_fault w = (b, w1)" by (cases "draw_fault w")
  have "live a w1" using \<open>live a w\<close> draw_fault_files [OF w1] by (simp add: live_def)
  then show "live a (snd (stmt f w))"
    using w1 assms by (auto simp: stmt_def live_def split: bool.split sum.split)
qed

lemma guardsD: "guards Q m \<Longrightarrow> Q w \<Longrightarrow> Q (snd (m w))"
  by (simp add: guards_def)

lemma guards_select [guards_intros]: "guards (live a) (select f)"
  unfolding select_def by (rule guards_stmt) auto

lemma guards_os_call:
  fixes f :: "'z storage_world_scheme \<Rightarrow> attach_error + 'a \<times> 'z storage_world_scheme"
  shows "(\<And>w x w'. live a w \<Longrightarrow> f w = Inr (x, w') \<Longrightarrow> live a w') \<Longrightarrow> guards (live a) (os_call f)"
  unfolding guards_def
proof (intro allI impI)
  fix w :: "'z storage_world_scheme"
  assume keep: "\<And>w x w'. live a w \<Longrightarrow> f w = Inr (x, w') \<Longrightarrow> live a w'" and live: "live a w"
  have w1: "live a (w\<lparr>s_os_faults := drop 1 (s_os_faults w)\<rparr>)" using live by (simp add: live_def)
  obtain r w2 where run: "os_call f w = (r, w2)" by (cases "os_call f w")
  have "live a w2"
    using os_call_result [OF run]
  proof
    assume "w2 = w\<lparr>s_os_faults := drop 1 (s_os_faults w)\<rparr>"
    with w1 show ?thesis by (simp only:)
  next
    assume "\<exists>x. r = Inr x \<and> f (w\<lparr>s_os_faults := drop 1 (s_os_faults w)\<rparr>) = Inr (x, w2)"
    with keep [OF w1] show ?thesis by blast
  qed
  then show "live a (snd (os_call f w))" by (simp only: run snd_conv)
qed

lemma guards_os [guards_intros]:
  "guards (live a) (os_Stat p)" "guards (live a) (os_ReadDir p)"
  "path_Clean p \<noteq> a_path a \<Longrightarrow> guards (live a) (os_Remove p)"
  unfolding os_Stat_def os_ReadDir_def os_Remove_def
  by (rule guards_os_call; auto simp: Let_def live_def split: if_splits)+

lemma guards_remove [guards_intros]: "path_Clean p \<noteq> a_path a \<Longrightarrow> guards (live a) (remove_if_there p)"
  unfolding remove_if_there_def by (intro guards_andThen guards_intros)

lemma guards_check_file:
  assumes "path_Clean p = p"
  shows "guards (live a) (check_file p)"
  unfolding check_file_def
proof (rule guards_andThen_result)
  show "guards (live a) (from_store (HasPath p))"
    unfolding HasPath_def by (intro guards_intros)
  fix w e w1
  assume "live a w" "from_store (HasPath p) w = (Inr e, w1)" and w1: "live a w1"
  then have e: "e = has_path p (w_db w1)"
    unfolding HasPath_def by (auto elim!: from_store_select_InrE)
  have stat: "guards (live a) (andThen (attempt (os_Stat p)) (\<lambda>r.
      case r of Inl e \<Rightarrow> if e = OsNotExist then ret () else raise e | Inr _ \<Rightarrow> ret ()))"
    by (intro guards_andThen guards_intros)
  have "guards (live a) (remove_if_there p)" if "\<not> e"
    using that e w1 assms by (intro guards_remove) (auto simp: has_path_def live_def list_ex_iff)
  with stat show "live a (snd ((if \<not> e then remove_if_there p else andThen (attempt (os_Stat p)) (\<lambda>r.
      case r of Inl e \<Rightarrow> if e = OsNotExist then ret () else raise e | Inr _ \<Rightarrow> ret ())) w1))"
    by (intro guardsD [where Q = "live a"] guards_if w1; blast)
qed

lemma guards_removeOrphans: "base \<noteq> [] \<Longrightarrow> guards (live a) (removeOrphans base)"
  unfolding removeOrphans_def check_dir_def
  by (intro guards_andThen guards_intros; clarsimp)
    (intro conjI impI guards_andThen guards_intros; clarsimp; intro conjI impI guards_intros guards_check_file; simp)


section \<open>Examples\<close>

definition photo :: attachment_row where
  "photo = \<lparr>a_id = ''att_1'', a_message_id = ''m1'', a_group_id = ''g'', a_owner_id = ''u1'', a_kind = ''image'',
     a_mime = ''image/jpeg'', a_name = ''p'', a_size = 100, a_path = ''/a/at/att_1'', a_created_at = 60,
     a_expires_at = 1000\<rparr>"

definition photo_db :: database where
  "photo_db = chat_db\<lparr>t_attachments := [photo]\<rparr>"

text \<open>A disk with files below \<^verbatim>\<open>/a/at\<close>.\<close>

definition on_disk :: "database \<Rightarrow> time \<Rightarrow> string list \<Rightarrow> 8 word list \<Rightarrow> storage_world" where
  "on_disk d now files tape = \<lparr>w_db = d, w_faults = [], x_now = now, x_ticks = [], x_tape = tape,
     x_voice_faults = [], x_voice_calls = [], s_files = files, s_dirs = [''/a'', ''/a/at''],
     s_os_faults = [], s_reserved = 0\<rparr>"

lemma on_disk_simps [simp]:
  "w_db (on_disk d now files tape) = d" "quiet (on_disk d now files tape)"
  "s_files (on_disk d now files tape) = files" "s_reserved (on_disk d now files tape) = 0"
  by (simp_all add: on_disk_def quiet_def)

lemma photo_db_wf: "wf_db photo_db"
  by (simp add: photo_db_def photo_def chat_example wf_db_def keys_unique_def references_ok_def
      replies_ok_def refs_def)

lemma cleanup_no_orphans_witness:
  "let w' = snd (RunOnce ''/a'' 10 None minute (on_disk photo_db minute [''/a/at/att_1'', ''/a/at/att_2''] []))
   in s_files w' = [''/a/at/att_1''] \<and> has_path ''/a/at/att_1'' (w_db w')"
proof -
  let ?run = "RunOnce ''/a'' 10 None minute (on_disk photo_db minute [''/a/at/att_1'', ''/a/at/att_2''] [])"
  have ok: "fst ?run = Inr ()" and files: "s_files (snd ?run) = [''/a/at/att_1'']"
    and dirs: "path_Clean ''/a'' \<in> set (s_dirs (snd ?run))" "''/a/at'' \<in> set (s_dirs (snd ?run))"
    by code_simp+
  have paths: "path_Clean ''/a/at/att_1'' = ''/a/at/att_1''" "path_Clean ''/a/at'' = ''/a/at''"
    "child_of (path_Clean ''/a'') ''/a/at'' = Some ''at''" "child_of ''/a/at'' ''/a/at/att_1'' = Some ''att_1''"
    by code_simp+
  have below: "stored_below ''/a'' ''/a/at/att_1'' (snd ?run)"
    unfolding stored_below_def using files dirs(2) paths by (metis list.set_intros(1))
  show ?thesis
    using cleanup_no_orphans [OF run_result [OF ok] _ below dirs(1)] files by (simp add: Let_def)
qed


section \<open>A race between an upload and the cleanup\<close>

text \<open>
  An upload moves its file into the storage directory before its row is written. A cleanup
  that runs in between takes the file for an orphan: the message is stored with an
  attachment whose file is gone.
\<close>

definition pending_upload :: upload_batch where
  "pending_upload = \<lparr>ub_ownerID = ''u1'', ub_files = [\<lparr>pf_Kind = ''file'', pf_Mime = ''text/plain'',
     pf_DisplayName = ''n'', pf_Size = 5, pf_Path = ''/a/upload''\<rparr>], ub_moved = [], ub_reserved = 0,
     ub_closed = False\<rparr>"

definition some_limits :: attachment_limits where
  "some_limits = \<lparr>MaxInputMediaBytes = 100, MaxArchiveBytes = 50, MaxOutputMediaBytes = 10,
     MaxFilesPerMessage = 3, MaxUserStoredBytes = 500, MaxUserDailyBytes = 200, MaxTotalBytes = 5000,
     MinFreeBytes = 0, Retention = hour, StorageDir = ''/a''\<rparr>"

definition post :: group_message where
  "post = \<lparr>msg_ID = ''m2'', msg_GroupID = ''g'', Kind = [], Event = [], Author = no_user\<lparr>user_ID := ''u1''\<rparr>,
     Body = [], msg_CreatedAt = minute, ReplyTo = None, Read = False, Attachments = []\<rparr>"

definition racing :: "attachment list \<times> storage_world" where
  "racing =
     (let (r, w1) = batch_Commit ''/a'' some_limits pending_upload ''m2'' ''g'' minute
            (on_disk chat_db minute [''/a/upload''] (replicate 18 0));
          items = (case r of Inr (Inr items, b) \<Rightarrow> items | _ \<Rightarrow> []);
          w2 = snd (RunOnce ''/a'' 10 None minute w1) in
      (items, snd (AddMessageWithAttachments post items w2)))"

lemma upload_races_cleanup:
  "map Path (fst racing) = [''/a/at/att_000000000000000000000000000000000000'']
   \<and> map a_path (t_attachments (w_db (snd racing))) = map Path (fst racing)
   \<and> s_files (snd racing) = []"
  by code_simp


definition text_input :: upload_input where
  "text_input = \<lparr>in_Name = ''n'', in_Mime = [], in_Size = 5\<rparr>"

definition as_text :: "unit \<Rightarrow> string \<Rightarrow> int \<Rightarrow> string \<Rightarrow> (unit, processed_file) osm" where
  "as_text r name k mime = ret \<lparr>pf_Kind = ''file'', pf_Mime = ''text/plain'', pf_DisplayName = name,
     pf_Size = k, pf_Path = ''/a/upload''\<rparr>"

lemma reservations_balance_witness:
  "\<exists>b. fst (Prepare some_limits None (\<lambda>i. ret ()) as_text ''u1'' [text_input] (on_disk photo_db minute [] [])) = Inr b
     \<and> (\<exists>x b2 w2. batch_Commit ''/a'' some_limits b ''m2'' ''g'' minute
           (snd (Prepare some_limits None (\<lambda>i. ret ()) as_text ''u1'' [text_input] (on_disk photo_db minute [] [])))
           = (Inr (x, b2), w2) \<and> s_reserved w2 = 0)"
proof -
  let ?run = "Prepare some_limits None (\<lambda>i. ret ()) as_text ''u1'' [text_input] (on_disk photo_db minute [] [])"
  have "\<not> isl (fst ?run)" by code_simp
  then obtain b where b: "fst ?run = Inr b" by (cases "fst ?run") auto
  have steps: "steady (ret () :: (unit, unit) osm)" "steady (as_text r n k m)" for r n k m
    unfolding as_text_def by (intro steady_intros)+
  show ?thesis
    using reservations_balance [OF _ _ _ run_result [OF b], of "''/a''" "''m2''" "''g''" minute] steps b
    by auto
qed

end
