(* ===== verification/Welcome.thy ===== *)
theory Welcome
  imports Storage
begin

text \<open>
  \<^verbatim>\<open>store/welcomecache\<close> and \<^verbatim>\<open>Store.WelcomeStats\<close>: the counts the start page shows, kept
  for an hour. Here is also the world of the application service: beside what the storage
  sees, the cache of the store and the salts the password hashes take from their own random
  source.
\<close>

record welcome_cache =
  cache_stats :: welcome_stats
  updatedAt :: time

record app_world = storage_world +
  a_welcome :: welcome_cache
  a_salts :: "string list"

definition welcomecache_TTL :: duration where "welcomecache_TTL = hour"

definition new_cache :: welcome_cache where
  "new_cache = \<lparr>cache_stats = \<lparr>Messages_count = 0, NewUsers = 0, NewGroups = 0\<rparr>, updatedAt = zero_time\<rparr>"

definition Cache_Get ::
  "time \<Rightarrow> ('z app_world_scheme, 'e, welcome_stats) action \<Rightarrow> ('z app_world_scheme, 'e, welcome_stats) action" where
  "Cache_Get now refresh =
     andThen (peek a_welcome) (\<lambda>c.
     if updatedAt c \<noteq> zero_time \<and> now - updatedAt c < welcomecache_TTL then ret (cache_stats c)
     else
     andThen refresh (\<lambda>stats w.
     (Inr stats, w\<lparr>a_welcome := \<lparr>cache_stats = stats, updatedAt = now\<rparr>\<rparr>)))"

definition count_welcome :: "time \<Rightarrow> ('z, welcome_stats) dbm" where
  "count_welcome now = transaction
     (let cutoff = unix (now - 24 * hour) in
      andThen (select (\<lambda>d. count_rows (\<lambda>m. m_created_at m \<ge> cutoff) (t_messages d))) (\<lambda>messages.
      andThen (select (\<lambda>d. count_rows (\<lambda>u. u_created_at u \<ge> cutoff) (t_users d))) (\<lambda>users.
      andThen (select (\<lambda>d. count_rows (\<lambda>g. g_created_at g \<ge> cutoff) (t_groups d))) (\<lambda>groups.
      ret (Commit \<lparr>Messages_count = messages, NewUsers = users, NewGroups = groups\<rparr>)))))"

definition WelcomeStats :: "string \<Rightarrow> time \<Rightarrow> ('z app_world_scheme, store_error, welcome_stats) action" where
  "WelcomeStats userID now =
     andThen (select (\<lambda>d. user_row_of d userID)) (\<lambda>row.
     case row of
       None \<Rightarrow> raise ErrNotFound
     | Some _ \<Rightarrow> Cache_Get now (count_welcome now))"

section \<open>The hour\<close>

lemma peek_run [run_simps]: "peek f w = (Inr (f w), w)"
  by (simp add: peek_def)

lemma count_welcome_result:
  assumes "count_welcome now w = (Inr stats, w1)"
  shows "w_db w1 = w_db w"
    and "stats = \<lparr>Messages_count = count_rows (\<lambda>m. m_created_at m \<ge> unix (now - 24 * hour)) (t_messages (w_db w)),
       NewUsers = count_rows (\<lambda>u. u_created_at u \<ge> unix (now - 24 * hour)) (t_users (w_db w)),
       NewGroups = count_rows (\<lambda>g. g_created_at g \<ge> unix (now - 24 * hour)) (t_groups (w_db w))\<rparr>"
  using assms unfolding count_welcome_def Let_def
  by (elim transaction_InrE run_elims; simp; elim run_elims; auto simp: run_simps)+

lemma Cache_Get_fresh:
  assumes "Cache_Get now refresh w = (Inr stats, w1)" "now \<noteq> zero_time"
  shows "updatedAt (a_welcome w1) \<noteq> zero_time \<and> cache_stats (a_welcome w1) = stats"
  using assms
  by (auto simp: Cache_Get_def run_simps split: if_splits prod.splits sum.splits)

lemma Cache_Get_hit:
  assumes "updatedAt (a_welcome w) \<noteq> zero_time" "now < updatedAt (a_welcome w) + welcomecache_TTL"
  shows "Cache_Get now refresh w = (Inr (cache_stats (a_welcome w)), w)"
  using assms by (simp add: Cache_Get_def run_simps)

end
