(* ===== verification/App.thy ===== *)
theory App
  imports Welcome
begin

text \<open>
  \<^verbatim>\<open>internal/app\<close>: the service behind the account and room endpoints and its periodic
  cleanup. It reads the clock, draws identifiers, calls the store and the voice gateway and
  turns the errors of the store into its own. Password hashes (bcrypt), SHA-256 and the text
  of a join token are not code of the repository: they are the parameters in \<open>crypto\<close>.
\<close>

section \<open>The service\<close>

datatype app_error =
    ErrUnauthorized
  | ErrInvalidCredentials
  | App_ErrNotFound
  | App_ErrForbidden
  | App_ErrRoomFull
  | ErrRoomCodeUnavailable
  | ErrLiveKitUnavailable
  | ErrEmailTaken
  | RandomFailed
  | HashFailed
  | TokenFailed
  | GatewayFailed
  | AppStore store_error

text \<open>
  \<open>password_hash salt p\<close> is \<^verbatim>\<open>bcrypt.GenerateFromPassword\<close>, which refuses long passwords;
  \<open>password_matches\<close> is \<^verbatim>\<open>CompareHashAndPassword\<close>.
\<close>

record crypto =
  sha256 :: "string \<Rightarrow> string"
  password_hash :: "string \<Rightarrow> string \<Rightarrow> string option"
  password_matches :: "string \<Rightarrow> string \<Rightarrow> bool"
  token_text :: "string \<Rightarrow> user \<Rightarrow> duration \<Rightarrow> string"
  public_url :: string

record service =
  roomTTL :: duration
  tokenTTL :: duration
  sessionTTL :: duration
  sessionIdleTTL :: duration
  svc_maxMembers :: int

definition New_Service :: "duration \<Rightarrow> duration \<Rightarrow> int \<Rightarrow> service" where
  "New_Service room token members =
     \<lparr>roomTTL = room, tokenTTL = token, sessionTTL = 7 * (24 * hour), sessionIdleTTL = 24 * hour,
      svc_maxMembers = members\<rparr>"

definition WithSessionPolicy :: "service \<Rightarrow> duration \<Rightarrow> duration \<Rightarrow> service" where
  "WithSessionPolicy s absoluteTTL idleTTL = s\<lparr>sessionTTL := absoluteTTL, sessionIdleTTL := idleTTL\<rparr>"

fun translateStoreError :: "app_error \<Rightarrow> app_error" where
  "translateStoreError (AppStore ErrNotFound) = App_ErrNotFound"
| "translateStoreError (AppStore ErrForbidden) = App_ErrForbidden"
| "translateStoreError (AppStore ErrRoomFull) = App_ErrRoomFull"
| "translateStoreError e = e"

type_synonym ('z, 'a) appm = "('z app_world_scheme, app_error, 'a) action"

definition from_db :: "('z app_world_scheme, store_error, 'a) action \<Rightarrow> ('z, 'a) appm" where
  "from_db m = map_error AppStore m"

text \<open>\<open>or_else m h\<close>: \<^verbatim>\<open>x, err := m; if err != nil { return h(err) }\<close>.\<close>

definition or_else :: "('z, 'a) appm \<Rightarrow> (app_error \<Rightarrow> app_error) \<Rightarrow> ('z, 'a) appm" where
  "or_else m h = map_error h m"

definition translated :: "('z app_world_scheme, store_error, 'a) action \<Rightarrow> ('z, 'a) appm" where
  "translated m = or_else (from_db m) translateStoreError"

section \<open>Accounts\<close>

record created_user =
  account :: user
  SessionToken :: string

fun at_sign :: "nat \<Rightarrow> string \<Rightarrow> nat option" where
  "at_sign i [] = None"
| "at_sign i (r # rs) = (if r = CHR ''@'' \<and> i > 0 then Some i else at_sign (i + 1) rs)"

definition emailName :: "string \<Rightarrow> string" where
  "emailName email = (case at_sign 0 email of Some i \<Rightarrow> take i email | None \<Rightarrow> email)"

definition defaultAvatar :: string where "defaultAvatar = []"

definition random_bytes :: "nat \<Rightarrow> ('z, 8 word list) appm" where
  "random_bytes n =
     andThen (read_full n) (\<lambda>b. case b of None \<Rightarrow> raise RandomFailed | Some bytes \<Rightarrow> ret bytes)"

definition newSessionToken :: "crypto \<Rightarrow> ('z, string \<times> string) appm" where
  "newSessionToken c =
     andThen (random_bytes 32) (\<lambda>tokenBytes.
     let token = base64_url tokenBytes in ret (token, sha256 c token))"

text \<open>\<^verbatim>\<open>GenerateFromPassword\<close> with the next salt.\<close>

definition GenerateFromPassword :: "crypto \<Rightarrow> string \<Rightarrow> ('z, string) appm" where
  "GenerateFromPassword c password w =
     (case a_salts w of
        [] \<Rightarrow> (Inl HashFailed, w)
      | salt # salts \<Rightarrow>
          (case password_hash c salt password of
             None \<Rightarrow> (Inl HashFailed, w\<lparr>a_salts := salts\<rparr>)
           | Some h \<Rightarrow> (Inr h, w\<lparr>a_salts := salts\<rparr>)))"

definition Register :: "crypto \<Rightarrow> service \<Rightarrow> string \<Rightarrow> string \<Rightarrow> ('z, created_user) appm" where
  "Register c s email password =
     andThen (random_bytes 16) (\<lambda>idBytes.
     andThen (GenerateFromPassword c password) (\<lambda>passwordHash.
     andThen clock (\<lambda>now.
     let u = \<lparr>user_ID = ''usr_'' @ hex_encode idBytes, Email = email, DisplayName = emailName email,
              Avatar = defaultAvatar, user_CreatedAt = now, Security = None\<rparr> in
     andThen (newSessionToken c) (\<lambda>(token, tokenHash).
     andThen (or_else (from_db (CreateUserWithSession u passwordHash tokenHash (now + sessionTTL s)))
        (\<lambda>e. if e = AppStore ErrConflict then ErrEmailTaken else e)) (\<lambda>_.
     ret \<lparr>account = u, SessionToken = token\<rparr>)))))"

definition Login :: "crypto \<Rightarrow> service \<Rightarrow> string \<Rightarrow> string \<Rightarrow> ('z, created_user) appm" where
  "Login c s email password =
     andThen (or_else (from_db (UserByEmail email))
        (\<lambda>e. if translateStoreError e = App_ErrNotFound then ErrInvalidCredentials else e)) (\<lambda>(u, passwordHash).
     if \<not> password_matches c passwordHash password then raise ErrInvalidCredentials
     else
     andThen (newSessionToken c) (\<lambda>(token, tokenHash).
     andThen clock (\<lambda>now.
     andThen (translated (CreateSession (user_ID u) tokenHash now (now + sessionTTL s))) (\<lambda>_.
     ret \<lparr>account = u, SessionToken = token\<rparr>))))"

definition Authenticate :: "crypto \<Rightarrow> service \<Rightarrow> string \<Rightarrow> ('z, user) appm" where
  "Authenticate c s token =
     (if token = [] then raise ErrUnauthorized
      else
      andThen clock (\<lambda>now.
      let hash = sha256 c token in
      andThen (or_else (from_db (UserBySessionHash hash now (now - sessionIdleTTL s)))
        (\<lambda>e. if translateStoreError e = App_ErrNotFound then ErrUnauthorized else e)) (\<lambda>u.
      andThen (or_else (from_db (TouchSession hash (user_ID u) now))
        (\<lambda>e. if e = AppStore ErrNotFound then ErrUnauthorized else e)) (\<lambda>_.
      andThen (translated (SecurityState (user_ID u) hash now)) (\<lambda>state.
      ret (u\<lparr>Security := Some state\<rparr>))))))"

definition Logout :: "crypto \<Rightarrow> string \<Rightarrow> ('z, unit) appm" where
  "Logout c token =
     (if token = [] then ret () else from_db (RevokeSession (sha256 c token)))"

definition UpdateProfile :: "user \<Rightarrow> string \<Rightarrow> string \<Rightarrow> ('z, user) appm" where
  "UpdateProfile u displayName avatar = translated (Store_UpdateProfile (user_ID u) displayName avatar)"

definition Welcome_page :: "string \<Rightarrow> ('z, welcome_stats) appm" where
  "Welcome_page userID = andThen clock (\<lambda>now. from_db (WelcomeStats userID now))"

definition DeleteAvatar :: "user \<Rightarrow> ('z, user) appm" where
  "DeleteAvatar u = translated (Store_UpdateProfile (user_ID u) (DisplayName u) defaultAvatar)"

definition ChangePassword :: "crypto \<Rightarrow> user \<Rightarrow> string \<Rightarrow> string \<Rightarrow> ('z, unit) appm" where
  "ChangePassword c u token password =
     andThen clock (\<lambda>now.
     andThen (translated (SecurityState (user_ID u) (sha256 c token) now)) (\<lambda>state.
     if \<not> CanManage state then raise App_ErrForbidden
     else
     andThen (GenerateFromPassword c password) (\<lambda>hash.
     from_db (Store_ChangePassword (user_ID u) hash))))"

definition App_SecuritySessions :: "crypto \<Rightarrow> service \<Rightarrow> user \<Rightarrow> string \<Rightarrow> ('z, session list) appm" where
  "App_SecuritySessions c s u token =
     (let hash = sha256 c token in
      andThen clock (\<lambda>now.
      andThen (translated (SecurityState (user_ID u) hash now)) (\<lambda>state.
      if \<not> CanManage state then raise App_ErrForbidden
      else
      andThen (from_db (ReviewNewSessions (user_ID u) hash)) (\<lambda>_.
      andThen clock (\<lambda>now.
      from_db (SecuritySessions (user_ID u) hash now (sessionIdleTTL s)))))))"

definition App_RevokeSecuritySession :: "crypto \<Rightarrow> user \<Rightarrow> string \<Rightarrow> string \<Rightarrow> ('z, unit) appm" where
  "App_RevokeSecuritySession c u token sid =
     andThen clock (\<lambda>now.
     andThen (translated (SecurityState (user_ID u) (sha256 c token) now)) (\<lambda>state.
     if \<not> CanManage state then raise App_ErrForbidden
     else translated (RevokeSecuritySession (user_ID u) sid)))"

text \<open>A gateway call whose error is returned.\<close>

definition gateway_or :: "app_error \<Rightarrow> voice_call \<Rightarrow> ('z, unit) appm" where
  "gateway_or e call = andThen (gateway call) (\<lambda>ok. if ok then ret () else raise e)"

definition DeleteUser :: "user \<Rightarrow> ('z, unit) appm" where
  "DeleteUser u =
     andThen (from_db (OwnedRoomCodes (user_ID u))) (\<lambda>codes.
     andThen (for_each (\<lambda>code. gateway_or GatewayFailed (GatewayDeleteRoom code)) codes) (\<lambda>_.
     translated (Store_DeleteUser (user_ID u))))"

definition CleanupBannedUser :: "user \<Rightarrow> ('z, unit) appm" where
  "CleanupBannedUser u =
     andThen clock (\<lambda>now.
     andThen (from_db (Store_CleanupBannedUser (user_ID u) now 100)) (\<lambda>roomNames.
     for_each (\<lambda>roomName. gateway_or GatewayFailed (GatewayRemoveParticipant roomName (user_ID u))) roomNames))"

section \<open>Rooms\<close>

record join_result =
  LiveKitURL :: string
  AccessToken :: string
  RoomCode :: string

definition code_alphabet :: string where "code_alphabet = ''ABCDEFGHJKLMNPQRSTUVWXYZ23456789''"

definition roomCode :: "('z, string) appm" where
  "roomCode =
     andThen (random_bytes 26) (\<lambda>random.
     ret (map (\<lambda>value. code_alphabet ! (unat value mod length code_alphabet)) random))"

definition App_GetRoom :: "service \<Rightarrow> string \<Rightarrow> string \<Rightarrow> ('z, room) appm" where
  "App_GetRoom s code userID =
     andThen clock (\<lambda>now. translated (GetRoom code userID now (svc_maxMembers s)))"

fun try_codes :: "service \<Rightarrow> user \<Rightarrow> nat \<Rightarrow> ('z, room) appm" where
  "try_codes s owner 0 = raise ErrRoomCodeUnavailable"
| "try_codes s owner (Suc n) =
     andThen roomCode (\<lambda>code.
     andThen clock (\<lambda>now.
     andThen (attempt (InsertRoom code (user_ID owner) now (roomTTL s))) (\<lambda>r.
     case r of
       Inr _ \<Rightarrow> App_GetRoom s code (user_ID owner)
     | Inl e \<Rightarrow> if e \<noteq> ErrConflict then raise (translateStoreError (AppStore e)) else try_codes s owner n)))"

definition CreateRoom :: "service \<Rightarrow> user \<Rightarrow> ('z, room) appm" where
  "CreateRoom s owner = try_codes s owner 100"

fun minDuration :: "duration \<Rightarrow> duration list \<Rightarrow> duration" where
  "minDuration result [] = result"
| "minDuration result (v # vs) = minDuration (if v < result then v else result) vs"

definition App_JoinRoom :: "crypto \<Rightarrow> service \<Rightarrow> string \<Rightarrow> user \<Rightarrow> ('z, join_result) appm" where
  "App_JoinRoom c s code u =
     andThen clock (\<lambda>now.
     andThen (translated (JoinRoom code (user_ID u) now (svc_maxMembers s))) (\<lambda>room.
     let ttl = minDuration (tokenTTL s) [ExpiresAt room - now] in
     if ttl \<le> 0 then raise App_ErrNotFound
     else
     andThen (gateway_or TokenFailed (GatewayJoinToken code (user_ID u) ttl)) (\<lambda>_.
     ret \<lparr>LiveKitURL = public_url c, AccessToken = token_text c code u ttl, RoomCode = code\<rparr>)))"

definition App_LeaveRoom :: "string \<Rightarrow> user \<Rightarrow> ('z, unit) appm" where
  "App_LeaveRoom code u =
     andThen clock (\<lambda>now.
     andThen (translated (LeaveRoom code (user_ID u) now)) (\<lambda>_.
     andThen (gateway (GatewayRemoveParticipant code (user_ID u))) (\<lambda>_.
     ret ())))"

text \<open>The callback of \<^verbatim>\<open>DeleteRoom\<close>: its error reaches the caller through the store.\<close>

definition end_call :: "string \<Rightarrow> ('z app_world_scheme, store_error, unit) action" where
  "end_call code =
     andThen (gateway (GatewayDeleteRoom code)) (\<lambda>ok. if ok then ret () else raise ErrCallback)"

definition App_DeleteRoom :: "string \<Rightarrow> user \<Rightarrow> ('z, unit) appm" where
  "App_DeleteRoom code u =
     andThen clock (\<lambda>now.
     or_else (from_db (DeleteRoom code (user_ID u) now (end_call code)))
       (\<lambda>e. translateStoreError (if e = AppStore ErrCallback then ErrLiveKitUnavailable else e)))"

section \<open>Cleanup\<close>

record cleanup_stats =
  InactiveUsersDeleted :: int

text \<open>One room of a cleanup loop; a gateway that fails skips it (\<^verbatim>\<open>continue\<close>).\<close>

definition end_room ::
  "(string \<Rightarrow> ('z app_world_scheme, store_error, unit) action) \<Rightarrow> string \<Rightarrow> ('z, unit) appm" where
  "end_room delete code =
     andThen (gateway (GatewayDeleteRoom code)) (\<lambda>ok.
     if \<not> ok then ret () else ignoring (delete code))"

definition cleanupExpiredRooms :: "time \<Rightarrow> ('z, unit) appm" where
  "cleanupExpiredRooms now =
     andThen (attempt (ExpiredRoomCodes now)) (\<lambda>r.
     case r of
       Inl _ \<Rightarrow> ret ()
     | Inr codes \<Rightarrow> for_each (end_room (\<lambda>code. DeleteExpiredRoom code now)) codes)"

definition deleteEmptyRooms :: "time \<Rightarrow> duration \<Rightarrow> ('z, unit) appm" where
  "deleteEmptyRooms now grace =
     andThen (attempt (EmptyRoomCodes (now - grace))) (\<lambda>r.
     case r of
       Inl _ \<Rightarrow> ret ()
     | Inr codes \<Rightarrow> for_each (end_room (\<lambda>code. DeleteEmptyRoom code (now - grace))) codes)"

text \<open>\<open>attachmentCleanup\<close> is \<^verbatim>\<open>RunOnce\<close> of the attachment cleanup, if there is one.\<close>

definition App_cleanup ::
  "(time \<Rightarrow> ('z app_world_scheme, attach_error, unit) action) option \<Rightarrow> ('z, unit) appm" where
  "App_cleanup attachmentCleanup =
     andThen clock (\<lambda>now.
     andThen (case attachmentCleanup of None \<Rightarrow> ret () | Some run \<Rightarrow> ignoring (run now)) (\<lambda>_.
     andThen (deleteEmptyRooms now (2 * minute)) (\<lambda>_.
     andThen (cleanupExpiredRooms now) (\<lambda>_.
     andThen (ignoring (DeleteExpiredSessions now)) (\<lambda>_.
     ignoring (DeleteInactiveUsers (now - 7 * (24 * hour))))))))"

text \<open>\<open>ticks\<close> is how often the ticker fires before the context ends.\<close>

definition RunCleanup ::
  "(time \<Rightarrow> ('z app_world_scheme, attach_error, unit) action) option \<Rightarrow> nat \<Rightarrow> ('z, unit) appm" where
  "RunCleanup attachmentCleanup ticks =
     andThen (App_cleanup attachmentCleanup) (\<lambda>_.
     for_each (\<lambda>_. App_cleanup attachmentCleanup) [0..<ticks])"

definition EmergencyCleanup :: "int \<Rightarrow> ('z, cleanup_stats) appm" where
  "EmergencyCleanup batchSize =
     (let batchSize = (if batchSize < 1 then 500 else batchSize) in
      andThen clock (\<lambda>now.
      andThen (deleteEmptyRooms now 0) (\<lambda>_.
      andThen (cleanupExpiredRooms now) (\<lambda>_.
      andThen (attempt (DeleteInactiveUsersBatch (now - 7 * (24 * hour)) batchSize)) (\<lambda>r.
      ret \<lparr>InactiveUsersDeleted = (case r of Inl _ \<Rightarrow> 0 | Inr count \<Rightarrow> count)\<rparr>)))))"

end
