(* ===== verification/AppLaws.thy ===== *)
theory AppLaws
  imports App
begin

text \<open>
  What the application service guarantees beyond its store: whose session a token is, that
  what registration hands out works, who may change a password, how long a join token lasts,
  which identifiers rooms get, and that the cleanup ends calls before it forgets rooms.
\<close>

section \<open>Inverting the service's steps\<close>

lemma now_InrE:
  assumes "clock w = (Inr x, w1)"
  obtains "x = x_now w" "w1 = ticked w"
  using assms by (simp add: clock_def)

lemma or_else_InrE:
  assumes "or_else m h w = (Inr x, w1)"
  obtains "m w = (Inr x, w1)"
  using assms unfolding or_else_def by (elim map_error_InrE)

lemma from_db_InrE:
  assumes "from_db m w = (Inr x, w1)"
  obtains "m w = (Inr x, w1)"
  using assms unfolding from_db_def by (elim map_error_InrE)

lemma translated_InrE:
  assumes "translated m w = (Inr x, w1)"
  obtains "m w = (Inr x, w1)"
  using assms unfolding translated_def by (elim or_else_InrE from_db_InrE)

lemma gateway_or_InrE:
  assumes "gateway_or e call w = (Inr x, w1)"
  obtains "gateway call w = (Inr True :: app_error + bool, w1)"
  using assms unfolding gateway_or_def
  by (elim andThen_InrE) (auto simp: run_simps split: if_splits)

lemmas app_elims = andThen_InrE now_InrE or_else_InrE from_db_InrE translated_InrE gateway_or_InrE

lemma gateway_ran: "gateway c w = (r, w1) \<Longrightarrow>
  w_db w1 = w_db w \<and> x_voice_calls w1 = x_voice_calls w @ [c] \<and> x_now w1 = x_now w"
  by (auto simp: gateway_def Let_def split: list.splits)

section \<open>Authentication\<close>

lemma UserBySessionHash_result:
  assumes "UserBySessionHash hash now cutoff w = (Inr u, w1)"
  shows "\<exists>ses row. session_of hash (w_db w) = Some ses \<and> unix now < ses_expires_at ses \<and>
    unix cutoff < ses_last_seen_at ses \<and> user_row_of (w_db w) (ses_user_id ses) = Some row \<and>
    u = full_user row \<and> w_db w1 = w_db w"
  using assms unfolding UserBySessionHash_def userBySessionQuery_def session_of_def [symmetric]
  by (elim andThen_InrE select_InrE) (auto simp: run_simps split: option.splits if_splits)

lemma TouchSession_result:
  assumes "TouchSession hash userID now w = (Inr x, w1)"
  shows "w_db w1 = see_user userID (unix now) (snd (see_session hash userID (unix now) (w_db w)))"
  using assms unfolding TouchSession_def
  by (elim transaction_InrE andThen_InrE exec_count_InrE; simp split: if_splits; elim run_elims; auto simp: run_simps)

lemma SecurityState_result:
  assumes "SecurityState userID hash now w = (Inr st, w1)"
  shows "\<exists>ses. ses \<in> set (t_sessions (w_db w)) \<and> ses_token_hash ses = hash \<and> ses_user_id ses = userID \<and>
    CanManage st = (of_unix (ses_created_at ses) + 24 * hour \<le> now) \<and> w_db w1 = w_db w"
proof -
  obtain row w2 where read: "row = map_option ses_created_at
      (find (\<lambda>s. ses_user_id s = userID \<and> ses_token_hash s = hash) (t_sessions (w_db w)))" "w_db w2 = w_db w"
    and rest: "(case row of None \<Rightarrow> raise ErrNotFound
     | Some created \<Rightarrow>
         let canManage = (now - of_unix created \<ge> 24 * hour) in
         if \<not> canManage then ret \<lparr>CanManage = False, Alert = False\<rparr>
         else
         andThen (select (\<lambda>d. list_ex (\<lambda>s. ses_user_id s = userID \<and> ses_created_at s > created
           \<and> ses_reviewed_at s = None) (t_sessions d))) (\<lambda>alert.
         ret \<lparr>CanManage = True, Alert = alert\<rparr>)) w2 = (Inr st, w1)"
    using assms unfolding SecurityState_def by (elim andThen_InrE select_InrE) auto
  have "row \<noteq> None"
    using rest by (cases row) (simp_all add: raise_run)
  then obtain ses where found: "find (\<lambda>s. ses_user_id s = userID \<and> ses_token_hash s = hash) (t_sessions (w_db w)) = Some ses"
      and row: "row = Some (ses_created_at ses)"
    unfolding read(1) by auto
  then have ses: "row = Some (ses_created_at ses)" "ses \<in> set (t_sessions (w_db w))"
      "ses_token_hash ses = hash" "ses_user_id ses = userID"
    by (auto simp: find_Some_iff)
  have "CanManage st = (of_unix (ses_created_at ses) + 24 * hour \<le> now) \<and> w_db w1 = w_db w2"
    using rest unfolding ses(1) Let_def option.case
    by (cases "24 * hour \<le> now - of_unix (ses_created_at ses)")
      (simp_all add: algebra_simps, (elim andThen_InrE select_InrE ret_InrE; simp)+)
  then show ?thesis using ses read(2) by auto
qed

text \<open>
  C25: a request is authenticated only as the owner of its session, which was neither expired
  nor idle at the instant the clock showed, and doing so renews the idle limit of exactly that
  session. Whatever fails, nobody is authenticated without such a session.
\<close>

theorem Authenticate_valid:
  assumes wf: "wf_db (w_db w)" and run: "Authenticate c s token w = (Inr u, w1)"
  shows "\<exists>ses. session_of (sha256 c token) (w_db w) = Some ses \<and> user_ID u = ses_user_id ses \<and>
    unix (x_now w) < ses_expires_at ses \<and> unix (x_now w - sessionIdleTTL s) < ses_last_seen_at ses \<and>
    session_of (sha256 c token) (w_db w1) = Some (ses\<lparr>ses_last_seen_at := unix (x_now w)\<rparr>) \<and>
    (\<forall>other. other \<noteq> sha256 c token \<longrightarrow> session_of other (w_db w1) = session_of other (w_db w))"
proof -
  let ?h = "sha256 c token" and ?now = "x_now w"
  obtain u0 w2 w3 st where u0: "UserBySessionHash ?h ?now (?now - sessionIdleTTL s) (ticked w) = (Inr u0, w2)"
    and touch: "TouchSession ?h (user_ID u0) ?now w2 = (Inr (), w3)"
    and st: "SecurityState (user_ID u0) ?h ?now w3 = (Inr st, w1)" and u: "u = u0\<lparr>Security := Some st\<rparr>"
    using run unfolding Authenticate_def Let_def
    by (auto split: if_splits elim!: app_elims ret_InrE raise_InrE)
  obtain ses row where ses: "session_of ?h (w_db w) = Some ses" "unix ?now < ses_expires_at ses"
      "unix (?now - sessionIdleTTL s) < ses_last_seen_at ses"
      "user_row_of (w_db w) (ses_user_id ses) = Some row" "u0 = full_user row" and db2: "w_db w2 = w_db w"
    using UserBySessionHash_result [OF u0] by auto
  have id: "user_ID u0 = ses_user_id ses"
    using ses(4,5) by (auto simp: user_row_of_def dest: row_with_SomeD)
  have key: "ses_token_hash ses = ?h"
    using ses(1) by (auto simp: session_of_def dest: row_with_SomeD)
  have db: "w_db w1 = see_user (user_ID u0) (unix ?now) (snd (see_session ?h (user_ID u0) (unix ?now) (w_db w)))"
    using TouchSession_result [OF touch] SecurityState_result [OF st] db2 by auto
  have after: "session_of other (w_db w1) =
      map_option (\<lambda>r. if ses_token_hash r = ?h \<and> ses_user_id r = user_ID u0
        then r\<lparr>ses_last_seen_at := unix ?now\<rparr> else r) (session_of other (w_db w))" for other
    unfolding session_of_def db see_user_def see_session_def Let_def
    by (simp add: row_with_update)
  have "session_of other (w_db w1) = session_of other (w_db w)" if "other \<noteq> ?h" for other
    using that unfolding after by (cases "session_of other (w_db w)") (auto simp: session_of_def dest: row_with_SomeD)
  moreover have "session_of ?h (w_db w1) = Some (ses\<lparr>ses_last_seen_at := unix ?now\<rparr>)"
    using ses(1) id key by (simp add: after)
  ultimately show ?thesis using ses id by (simp add: u)
qed

section \<open>Registration and login\<close>

lemma CreateUserWithSession_result:
  assumes "CreateUserWithSession u passwordHash tokenHash expiresAt w = (Inr x, w1)"
  shows "let created = unix (user_CreatedAt u);
       row = \<lparr>u_id = user_ID u, u_email = Email u, u_display_name = DisplayName u,
           u_avatar = Avatar u, u_password_hash = passwordHash, u_token_hash = tokenHash,
           u_created_at = created, u_last_seen_at = created, u_welcome_seen_at = created\<rparr>;
       ses = \<lparr>ses_token_hash = tokenHash, ses_user_id = user_ID u, ses_created_at = created,
           ses_last_seen_at = created, ses_expires_at = unix expiresAt,
           ses_reviewed_at = Some created\<rparr> in
     \<exists>d. insert_user row (w_db w) = Some d \<and> insert_session ses d = Some (w_db w1)"
  using assms unfolding CreateUserWithSession_def Let_def
  by (elim transaction_InrE run_elims; auto simp: run_simps)

lemma random_bytes_InrE:
  assumes "random_bytes n w = (Inr bytes, w1)"
  obtains "length bytes = n" "w_db w1 = w_db w" "x_now w1 = x_now w" "x_tape w = bytes @ x_tape w1"
    "w_faults w1 = w_faults w" "x_voice_calls w1 = x_voice_calls w"
  using assms unfolding random_bytes_def read_full_def
  by (auto simp: run_simps split: option.splits if_splits)

lemma GenerateFromPassword_InrE:
  assumes "GenerateFromPassword c password w = (Inr h, w1)"
  obtains salt where "password_hash c salt password = Some h" "w_db w1 = w_db w" "x_now w1 = x_now w"
  using assms unfolding GenerateFromPassword_def by (auto split: list.splits option.splits)

lemma newSessionToken_InrE:
  assumes "newSessionToken c w = (Inr (token, hash), w1)"
  obtains bytes where "length bytes = 32" "token = base64_url bytes" "hash = sha256 c token" "w_db w1 = w_db w"
    "x_now w1 = x_now w"
  using assms unfolding newSessionToken_def Let_def
  by (elim andThen_InrE random_bytes_InrE) (auto simp: run_simps)

lemma base64_url_Nil: "base64_url bs = [] \<longleftrightarrow> bs = []"
  by (cases bs rule: base64_url.cases) (simp_all add: Let_def)

lemma Register_result:
  assumes "Register c s email password w = (Inr acc, w1)"
  obtains salt h w2 where "password_hash c salt password = Some h" "w_db w2 = w_db w"
    "Email (account acc) = email" "user_CreatedAt (account acc) = x_now w" "SessionToken acc \<noteq> []"
    "CreateUserWithSession (account acc) h (sha256 c (SessionToken acc)) (x_now w + sessionTTL s) w2 = (Inr (), w1)"
proof -
  obtain idBytes wa h wb where 1: "random_bytes 16 w = (Inr idBytes, wa)"
    and 2: "GenerateFromPassword c password wa = (Inr h, wb)"
    and rest: "(let u = \<lparr>user_ID = ''usr_'' @ hex_encode idBytes, Email = email, DisplayName = emailName email,
              Avatar = defaultAvatar, user_CreatedAt = x_now wb, Security = None\<rparr> in
     andThen (newSessionToken c) (\<lambda>(token, tokenHash).
     andThen (or_else (from_db (CreateUserWithSession u h tokenHash (x_now wb + sessionTTL s)))
        (\<lambda>e. if e = AppStore ErrConflict then ErrEmailTaken else e)) (\<lambda>_.
     ret \<lparr>account = u, SessionToken = token\<rparr>))) (ticked wb) = (Inr acc, w1)"
    using assms unfolding Register_def by (elim andThen_InrE now_InrE) auto
  obtain token hash wc where 3: "newSessionToken c (ticked wb) = (Inr (token, hash), wc)"
    and 4: "CreateUserWithSession (account acc) h hash (x_now wb + sessionTTL s) wc = (Inr (), w1)"
    and acc: "acc = \<lparr>account = \<lparr>user_ID = ''usr_'' @ hex_encode idBytes, Email = email,
       DisplayName = emailName email, Avatar = defaultAvatar, user_CreatedAt = x_now wb, Security = None\<rparr>,
       SessionToken = token\<rparr>"
    using rest unfolding Let_def
    by (elim andThen_InrE) (auto elim!: andThen_InrE or_else_InrE from_db_InrE ret_InrE)
  obtain salt where "password_hash c salt password = Some h" "w_db wb = w_db wa" "x_now wb = x_now wa"
    using 2 by (elim GenerateFromPassword_InrE)
  moreover have "w_db wa = w_db w" "x_now wa = x_now w"
    using 1 by (auto elim: random_bytes_InrE)
  moreover have "hash = sha256 c token" "token \<noteq> []" "w_db wc = w_db wb"
    using 3 by (auto elim!: newSessionToken_InrE simp: base64_url_Nil)
  ultimately show thesis using that [of salt h wc] 4 acc by simp
qed

lemma TouchSession_quiet:
  assumes "quiet w" "0 < count_rows (\<lambda>r. ses_token_hash r = hash \<and> ses_user_id r = userID) (t_sessions (w_db w))"
  shows "TouchSession hash userID now w =
    (Inr (), w\<lparr>w_db := see_user userID (unix now) (snd (see_session hash userID (unix now) (w_db w)))\<rparr>)"
  using assms by (simp add: TouchSession_def transaction_quiet run_simps see_session_def Let_def)

lemma SecurityState_quiet:
  assumes "quiet w" "ses \<in> set (t_sessions (w_db w))"
  shows "\<exists>st. SecurityState (ses_user_id ses) (ses_token_hash ses) now w = (Inr st, w)"
proof -
  obtain r where "find (\<lambda>s. ses_user_id s = ses_user_id ses \<and> ses_token_hash s = ses_token_hash ses)
      (t_sessions (w_db w)) = Some r"
    using assms(2) by (cases "find (\<lambda>s. ses_user_id s = ses_user_id ses \<and> ses_token_hash s = ses_token_hash ses)
      (t_sessions (w_db w))") (auto simp: find_None_iff)
  then show ?thesis
    using assms(1) by (simp add: SecurityState_def run_simps Let_def)
qed

lemma UserBySessionHash_quiet:
  assumes "quiet w" "row_with ses_token_hash hash (t_sessions (w_db w)) = Some ses"
    "user_row_of (w_db w) (ses_user_id ses) = Some row"
    "unix now < ses_expires_at ses" "unix cutoff < ses_last_seen_at ses"
  shows "UserBySessionHash hash now cutoff w = (Inr (full_user row), w)"
  using assms by (simp add: UserBySessionHash_def userBySessionQuery_def run_simps)

lemma app_run [run_simps]:
  "from_db m w = (case m w of (Inl e, w1) \<Rightarrow> (Inl (AppStore e), w1) | (Inr x, w1) \<Rightarrow> (Inr x, w1))"
  "or_else n h w = (case n w of (Inl e, w1) \<Rightarrow> (Inl (h e), w1) | (Inr x, w1) \<Rightarrow> (Inr x, w1))"
  "translated m w = (case m w of (Inl e, w1) \<Rightarrow> (Inl (translateStoreError (AppStore e)), w1) | (Inr x, w1) \<Rightarrow> (Inr x, w1))"
  by (auto simp: from_db_def or_else_def translated_def run_simps split: prod.split sum.split)

text \<open>
  Registration works. Once an account was created, the token handed out authenticates
  exactly that account, under the name before the \<^verbatim>\<open>@\<close> of its address, at every instant
  before the absolute and the idle limit of the session.
\<close>

lemma Register_authenticates:
  assumes wf: "wf_db (w_db w)" and run: "Register c s email password w = (Inr acc, w1)"
    and later: "w_db w2 = w_db w1" "quiet w2"
    and limits: "unix (x_now w2) < unix (x_now w + sessionTTL s)"
      "unix (x_now w2 - sessionIdleTTL s) < unix (x_now w)"
  shows "\<exists>st. fst (Authenticate c s (SessionToken acc) w2) =
    Inr ((account acc)\<lparr>user_CreatedAt := of_unix (unix (x_now w)), Security := Some st\<rparr>)"
proof -
  obtain salt h w0 where acc: "w_db w0 = w_db w" "Email (account acc) = email"
    "user_CreatedAt (account acc) = x_now w" "SessionToken acc \<noteq> []"
    and create: "CreateUserWithSession (account acc) h (sha256 c (SessionToken acc)) (x_now w + sessionTTL s) w0
      = (Inr (), w1)"
    using run by (rule Register_result)
  let ?u = "account acc" and ?h = "sha256 c (SessionToken acc)" and ?t = "unix (x_now w)"
  define row where "row = \<lparr>u_id = user_ID ?u, u_email = Email ?u, u_display_name = DisplayName ?u,
      u_avatar = Avatar ?u, u_password_hash = h, u_token_hash = ?h, u_created_at = ?t,
      u_last_seen_at = ?t, u_welcome_seen_at = ?t\<rparr>"
  define ses where "ses = \<lparr>ses_token_hash = ?h, ses_user_id = user_ID ?u, ses_created_at = ?t,
      ses_last_seen_at = ?t, ses_expires_at = unix (x_now w + sessionTTL s), ses_reviewed_at = Some ?t\<rparr>"
  obtain d where ins: "insert_user row (w_db w) = Some d" "insert_session ses d = Some (w_db w1)"
    using CreateUserWithSession_result [OF create] acc unfolding Let_def row_def ses_def by auto
  have users: "t_users (w_db w1) = t_users (w_db w) @ [row]" "user_ID ?u \<notin> u_id ` set (t_users (w_db w))"
    and sessions: "t_sessions (w_db w1) = t_sessions (w_db w) @ [ses]" "?h \<notin> ses_token_hash ` set (t_sessions (w_db w))"
    using ins by (auto simp: insert_user_def insert_session_def list_all_fresh row_def ses_def list_all_iff dest: sym)
  have at: "row_with ses_token_hash ?h (t_sessions (w_db w1)) = Some ses"
    "user_row_of (w_db w1) (user_ID ?u) = Some row"
    using users(2) sessions(2)
    by (auto simp: user_row_of_def users(1) sessions(1) row_with_None [THEN iffD2] row_def ses_def)
  have mine: "0 < count_rows (\<lambda>r. ses_token_hash r = ?h \<and> ses_user_id r = user_ID ?u) (t_sessions (w_db w1))"
    by (simp add: sessions(1) ses_def add_nonneg_pos)
  define w3 where "w3 = (ticked w2)\<lparr>w_db := see_user (user_ID ?u) (unix (x_now w2))
      (snd (see_session ?h (user_ID ?u) (unix (x_now w2)) (w_db w1)))\<rparr>"
  have "quiet w3" using later by (simp add: w3_def)
  have seen: "ses\<lparr>ses_last_seen_at := unix (x_now w2)\<rparr> \<in> set (t_sessions (w_db w3))"
    by (simp add: w3_def see_user_def see_session_def Let_def sessions(1)) (simp add: ses_def)
  obtain st where st: "SecurityState (user_ID ?u) ?h (x_now w2) w3 = (Inr st, w3)"
    using SecurityState_quiet [OF \<open>quiet w3\<close> seen, of "x_now w2"] by (auto simp: ses_def)
  have auth: "UserBySessionHash ?h (x_now w2) (x_now w2 - sessionIdleTTL s) (ticked w2) = (Inr (full_user row), ticked w2)"
    using later at limits by (intro UserBySessionHash_quiet [where ses = ses]) (simp_all add: ses_def)
  have touch: "TouchSession ?h (user_ID ?u) (x_now w2) (ticked w2) = (Inr (), w3)"
    unfolding w3_def using later mine by (subst TouchSession_quiet) simp_all
  have id: "user_ID (full_user row) = user_ID ?u" by (simp add: row_def)
  have "full_user row = ?u\<lparr>user_CreatedAt := of_unix ?t, Security := None\<rparr>"
    by (simp add: row_def full_user_def dated_user_def named_user_def no_user_def)
  then have "fst (Authenticate c s (SessionToken acc) w2) =
      Inr (?u\<lparr>user_CreatedAt := of_unix ?t, Security := Some st\<rparr>)"
    using acc(4) by (simp add: Authenticate_def run_simps Let_def auth touch id st)
  then show ?thesis by blast
qed

text \<open>
  login says nothing about accounts. A wrong password and an address that has no account
  give the same error, and neither changes the world.
\<close>

theorem Login_refuses:
  assumes "quiet w"
    and "case row_with u_email email (t_users (w_db w)) of
      None \<Rightarrow> True | Some r \<Rightarrow> \<not> password_matches c (u_password_hash r) password"
  shows "Login c s email password w = (Inl ErrInvalidCredentials, w)"
  using assms by (auto simp: Login_def UserByEmail_def run_simps split: option.splits)

section \<open>Changing the password\<close>

text \<open>
  C30: only an established session changes the password: \<^verbatim>\<open>ChangePassword\<close> succeeds only with a
  token whose session belongs to the account and is at least 24 hours old, and it changes
  nothing but that account's hash, to one of the new password.
\<close>

theorem ChangePassword_established:
  assumes "ChangePassword c u token password w = (Inr (), w1)"
  shows "\<exists>ses salt h. ses \<in> set (t_sessions (w_db w)) \<and> ses_token_hash ses = sha256 c token \<and>
    ses_user_id ses = user_ID u \<and> of_unix (ses_created_at ses) + 24 * hour \<le> x_now w \<and>
    password_hash c salt password = Some h \<and> w_db w1 = set_password (user_ID u) h (w_db w)"
proof -
  obtain st wa h wb where st: "SecurityState (user_ID u) (sha256 c token) (x_now w) (ticked w) = (Inr st, wa)"
    and manage: "CanManage st" and h: "GenerateFromPassword c password wa = (Inr h, wb)"
    and put: "Store_ChangePassword (user_ID u) h wb = (Inr (), w1)"
    using assms unfolding ChangePassword_def
    by (auto elim!: app_elims raise_InrE split: if_splits)
  have "w_db w1 = set_password (user_ID u) h (w_db wb)"
    using put unfolding Store_ChangePassword_def
    by (elim andThen_InrE exec_count_InrE; simp split: if_splits; elim run_elims; simp)
  moreover obtain salt where "password_hash c salt password = Some h" "w_db wb = w_db wa"
    using h by (elim GenerateFromPassword_InrE)
  moreover obtain ses where "ses \<in> set (t_sessions (w_db w))" "ses_token_hash ses = sha256 c token"
      "ses_user_id ses = user_ID u" "of_unix (ses_created_at ses) + 24 * hour \<le> x_now w" "w_db wa = w_db w"
    using SecurityState_result [OF st] manage by auto
  ultimately show ?thesis
    by (intro exI [of _ ses] exI [of _ salt] exI [of _ h]) simp
qed

section \<open>Rooms\<close>

lemma GetRoom_result:
  assumes "GetRoom code userID now maxMembers w = (Inr rm, w1)"
  shows "\<exists>r u. live_room code (unix now) (w_db w) = Some (r, u) \<and> member_of code userID (w_db w) \<and>
    ExpiresAt rm = of_unix (r_expires_at r) \<and> Code rm = r_code r \<and> room_Owner rm = dated_user u \<and> w_db w1 = w_db w"
  using assms unfolding GetRoom_def
  by (elim andThen_InrE select_InrE)
    (auto simp: raise_run member_of_def split: option.splits if_splits prod.splits
      elim!: andThen_InrE select_InrE ret_InrE)

text \<open>
  C29: how long a join token lasts. Whoever gets one is a member of the room, and the token ends
  neither later than the configured limit nor later than the room itself.
\<close>

theorem JoinRoom_token:
  assumes run: "App_JoinRoom c s code u w = (Inr res, w1)"
  shows "\<exists>ttl r. 0 < ttl \<and> ttl \<le> tokenTTL s \<and> r \<in> set (t_rooms (w_db w1)) \<and> r_code r = code \<and>
    x_now w + ttl \<le> of_unix (r_expires_at r) \<and> member_of code (user_ID u) (w_db w1) \<and>
    last (x_voice_calls w1) = GatewayJoinToken code (user_ID u) ttl \<and>
    AccessToken res = token_text c code u ttl"
proof -
  obtain rm wa where join: "JoinRoom code (user_ID u) (x_now w) (svc_maxMembers s) (ticked w) = (Inr rm, wa)"
    and rest: "(let ttl = minDuration (tokenTTL s) [ExpiresAt rm - x_now w] in
     if ttl \<le> 0 then raise App_ErrNotFound
     else
     andThen (gateway_or TokenFailed (GatewayJoinToken code (user_ID u) ttl)) (\<lambda>_.
     ret \<lparr>LiveKitURL = public_url c, AccessToken = token_text c code u ttl, RoomCode = code\<rparr>)) wa = (Inr res, w1)"
    using run unfolding App_JoinRoom_def by (elim andThen_InrE now_InrE translated_InrE) auto
  obtain wb where "GetRoom code (user_ID u) (x_now w) (svc_maxMembers s) wb = (Inr rm, wa)"
    using join unfolding JoinRoom_alt by (elim andThen_InrE)
  then obtain r o2 where r: "live_room code (unix (x_now w)) (w_db wa) = Some (r, o2)"
    "member_of code (user_ID u) (w_db wa)" "ExpiresAt rm = of_unix (r_expires_at r)"
    using GetRoom_result by metis
  have row: "r \<in> set (t_rooms (w_db wa)) \<and> r_code r = code"
    using r(1) by (auto simp: live_room_def split: option.splits if_splits dest: row_with_SomeD)
  define ttl where "ttl = minDuration (tokenTTL s) [ExpiresAt rm - x_now w]"
  have ttl: "ttl \<le> tokenTTL s" "x_now w + ttl \<le> of_unix (r_expires_at r)"
    by (simp_all add: ttl_def r(3))
  have pos: "0 < ttl" and call: "gateway (GatewayJoinToken code (user_ID u) ttl) wa = (Inr True :: app_error + bool, w1)"
    and res: "res = \<lparr>LiveKitURL = public_url c, AccessToken = token_text c code u ttl, RoomCode = code\<rparr>"
    using rest unfolding ttl_def [symmetric] Let_def
    by (auto split: if_splits elim!: andThen_InrE gateway_or_InrE ret_InrE raise_InrE)
  from gateway_ran [OF call] have "w_db w1 = w_db wa" "last (x_voice_calls w1) = GatewayJoinToken code (user_ID u) ttl"
    by simp_all
  then show ?thesis using pos ttl row r(2) res by auto
qed

lemma roomCode_result:
  assumes "roomCode w = (Inr code, w1)"
  shows "length code = 26 \<and> set code \<subseteq> set code_alphabet \<and> w_db w1 = w_db w \<and> x_now w1 = x_now w"
proof -
  have nth: "code_alphabet ! (n mod length code_alphabet) \<in> set code_alphabet" for n
    by (rule nth_mem) (simp add: code_alphabet_def)
  show ?thesis
    using assms nth unfolding roomCode_def
    by (elim andThen_InrE random_bytes_InrE) (auto simp: run_simps)
qed

lemma try_codes_result:
  assumes "try_codes s owner n w = (Inr rm, w1)"
  shows "\<exists>code wa wb now. length code = 26 \<and> set code \<subseteq> set code_alphabet \<and> w_db wa = w_db w \<and>
    InsertRoom code (user_ID owner) now (roomTTL s) wa = (Inr (), wb) \<and>
    App_GetRoom s code (user_ID owner) wb = (Inr rm, w1)"
  using assms
proof (induction n arbitrary: w)
  case 0
  then show ?case by (simp add: raise_run)
next
  case (Suc n)
  obtain code wa where code: "roomCode w = (Inr code, wa)"
    and run: "(case fst (InsertRoom code (user_ID owner) (x_now wa) (roomTTL s) (ticked wa)) of
       Inl e \<Rightarrow> if e \<noteq> ErrConflict then raise (translateStoreError (AppStore e)) else try_codes s owner n
     | Inr _ \<Rightarrow> App_GetRoom s code (user_ID owner))
     (snd (InsertRoom code (user_ID owner) (x_now wa) (roomTTL s) (ticked wa))) = (Inr rm, w1)"
    using Suc.prems by (auto elim!: andThen_InrE now_InrE simp: attempt_run)
  obtain r wb where ins: "InsertRoom code (user_ID owner) (x_now wa) (roomTTL s) (ticked wa) = (r, wb)"
    by fastforce
  note rest = run [unfolded ins fst_conv snd_conv]
  have ok: "length code = 26 \<and> set code \<subseteq> set code_alphabet" "w_db wa = w_db w"
    using roomCode_result [OF code] by simp_all
  show ?case
  proof (cases r)
    case (Inr x)
    with ins rest ok show ?thesis by (intro exI conjI) auto
  next
    case (Inl e)
    with ins ok have same: "w_db wb = w_db w" using InsertRoom.failure by fastforce
    from Inl rest have "try_codes s owner n wb = (Inr rm, w1)" by (simp add: raise_run split: if_splits)
    from Suc.IH [OF this] same show ?thesis by simp
  qed
qed

text \<open>
  a new room has a code nobody had: \<^verbatim>\<open>CreateRoom\<close> returns a room of its caller under 26
  characters of the alphabet that no room of the database carried when it was called, and the
  rooms there were before are untouched.
\<close>

theorem CreateRoom_fresh:
  assumes "CreateRoom s owner w = (Inr rm, w1)"
  shows "length (Code rm) = 26 \<and> set (Code rm) \<subseteq> set code_alphabet \<and>
    Code rm \<notin> r_code ` set (t_rooms (w_db w)) \<and> member_of (Code rm) (user_ID owner) (w_db w1) \<and>
    (\<exists>r. t_rooms (w_db w1) = t_rooms (w_db w) @ [r] \<and> r_code r = Code rm \<and> r_owner_id r = user_ID owner)"
proof -
  obtain code wa wb now where code: "length code = 26" "set code \<subseteq> set code_alphabet" "w_db wa = w_db w"
    and ins: "InsertRoom code (user_ID owner) now (roomTTL s) wa = (Inr (), wb)"
    and get: "App_GetRoom s code (user_ID owner) wb = (Inr rm, w1)"
    using try_codes_result [OF assms [unfolded CreateRoom_def]] by blast
  have get': "GetRoom code (user_ID owner) (x_now wb) (svc_maxMembers s) (ticked wb) = (Inr rm, w1)"
    using get unfolding App_GetRoom_def by (elim andThen_InrE now_InrE translated_InrE) simp
  have "Code rm = code" "member_of code (user_ID owner) (w_db w1)" "w_db w1 = w_db wb"
    using GetRoom_result [OF get'] by (auto simp: live_room_def split: option.splits if_splits dest: row_with_SomeD)
  moreover have "create_room code (user_ID owner) now (roomTTL s) (w_db w) = Inr ((), w_db wb)"
    using InsertRoom.outcome [OF ins] code(3) by simp
  then have "code \<notin> r_code ` set (t_rooms (w_db w)) \<and>
    (\<exists>r. t_rooms (w_db wb) = t_rooms (w_db w) @ [r] \<and> r_code r = code \<and> r_owner_id r = user_ID owner)"
    by (auto simp: create_room_def insert_room_row_Some insert_room_member_Some split: option.splits
        dest!: sym [of _ "w_db wb"])
  ultimately show ?thesis using code by simp
qed

section \<open>Calls end before rooms and accounts go\<close>

lemma stmt_calls [simp]:
  "x_voice_calls (snd (stmt f w)) = x_voice_calls w" "x_voice_faults (snd (stmt f w)) = x_voice_faults w"
  by (auto simp: stmt_def draw_fault_def split: list.split sum.split prod.split bool.split)

lemma statements_calls [simp]:
  "x_voice_calls (snd (exec h w)) = x_voice_calls w" "x_voice_calls (snd (exec_count k w)) = x_voice_calls w"
  "x_voice_calls (snd (select g w)) = x_voice_calls w"
  by (simp_all add: exec_def exec_count_def select_def)

lemma gateway_or_result:
  assumes "gateway_or e c w = (r, w1)"
  shows "(r = Inr () \<or> r = Inl e) \<and> w_db w1 = w_db w \<and> x_voice_calls w1 = x_voice_calls w @ [c]"
proof -
  obtain r1 w2 where call: "(gateway c w :: (app_error + bool) \<times> _) = (r1, w2)" by fastforce
  moreover from call obtain b where "r1 = Inr b"
    by (auto simp: gateway_def Let_def split: list.splits)
  ultimately show ?thesis
    using assms gateway_ran [OF call] by (auto simp: gateway_or_def run_simps split: if_splits)
qed

lemma end_calls_result:
  assumes "for_each (\<lambda>code. gateway_or e (GatewayDeleteRoom code)) codes w = (r, w1)"
  shows "w_db w1 = w_db w \<and> set (x_voice_calls w) \<subseteq> set (x_voice_calls w1) \<and> (r = Inr () \<or> r = Inl e) \<and>
    (r = Inr () \<longrightarrow> GatewayDeleteRoom ` set codes \<subseteq> set (x_voice_calls w1))"
  using assms
proof (induction codes arbitrary: w)
  case (Cons code codes)
  obtain r1 w2 where call: "gateway_or e (GatewayDeleteRoom code) w = (r1, w2)" by fastforce
  note ran = gateway_or_result [OF call]
  show ?case
  proof (cases "r1 = Inr ()")
    case True
    with Cons.prems call have "for_each (\<lambda>code. gateway_or e (GatewayDeleteRoom code)) codes w2 = (r, w1)"
      by (simp add: andThen_run)
    from Cons.IH [OF this] ran show ?thesis by auto
  next
    case False
    with Cons.prems call ran have "w1 = w2 \<and> r = Inl e" by (auto simp: andThen_run)
    with ran show ?thesis by auto
  qed
qed (simp add: run_simps)

lemma Store_DeleteUser_result:
  assumes "Store_DeleteUser userID w = (Inr (), w1)"
  shows "w_db w1 = delete_users (\<lambda>u. u_id u = userID) (w_db w)"
  using assms unfolding Store_DeleteUser_def
  by (elim andThen_InrE exec_count_InrE; simp split: if_splits; elim run_elims; simp)

lemma Store_DeleteUser_calls: "x_voice_calls (snd (Store_DeleteUser userID w)) = x_voice_calls w"
proof -
  let ?m = "exec_count (\<lambda>d. (count_rows (\<lambda>u. u_id u = userID) (t_users d), delete_users (\<lambda>u. u_id u = userID) d))"
  obtain r w2 where run: "?m w = (r, w2)" by fastforce
  then have "x_voice_calls w2 = x_voice_calls w" by (metis snd_conv statements_calls(2))
  with run show ?thesis
    by (auto simp: Store_DeleteUser_def andThen_run raise_run ret_run split: sum.split)
qed


section \<open>The periodic cleanup\<close>

lemma end_room_quiet:
  assumes "quiet w" "x_voice_faults w = []"
    and "\<And>v. quiet v \<Longrightarrow> delete code v = (Inr (), v\<lparr>w_db := g (w_db v)\<rparr>)"
  shows "end_room delete code w =
    (Inr (), w\<lparr>x_voice_calls := x_voice_calls w @ [GatewayDeleteRoom code], w_db := g (w_db w)\<rparr>)"
  using assms by (simp add: end_room_def run_simps gateway_def Let_def quiet_def)

lemma end_rooms_quiet:
  assumes "quiet w" "x_voice_faults w = []"
    and "\<And>code v. quiet v \<Longrightarrow> delete code v = (Inr (), v\<lparr>w_db := delete_rooms (\<lambda>r. r_code r = code \<and> P r) (w_db v)\<rparr>)"
  shows "\<exists>w1. for_each (end_room delete) codes w = (Inr (), w1) \<and> quiet w1 \<and> x_voice_faults w1 = [] \<and>
    t_rooms (w_db w1) = filter (\<lambda>r. \<not> (r_code r \<in> set codes \<and> P r)) (t_rooms (w_db w)) \<and>
    t_sessions (w_db w1) = t_sessions (w_db w) \<and> t_users (w_db w1) = t_users (w_db w) \<and>
    x_voice_calls w1 = x_voice_calls w @ map GatewayDeleteRoom codes"
  using assms(1,2)
proof (induction codes arbitrary: w)
  case Nil
  then show ?case by (simp add: run_simps)
next
  case (Cons code codes)
  let ?w = "w\<lparr>x_voice_calls := x_voice_calls w @ [GatewayDeleteRoom code],
      w_db := delete_rooms (\<lambda>r. r_code r = code \<and> P r) (w_db w)\<rparr>"
  have step: "end_room delete code w = (Inr (), ?w)"
    using Cons.prems assms(3) by (intro end_room_quiet)
  have "quiet ?w" "x_voice_faults ?w = []" using Cons.prems by (simp_all add: quiet_def)
  from Cons.IH [OF this] obtain w1 where "for_each (end_room delete) codes ?w = (Inr (), w1)" "quiet w1"
    "x_voice_faults w1 = []"
    "t_rooms (w_db w1) = filter (\<lambda>r. \<not> (r_code r \<in> set codes \<and> P r)) (t_rooms (w_db ?w))"
    "t_sessions (w_db w1) = t_sessions (w_db ?w)" "t_users (w_db w1) = t_users (w_db ?w)"
    "x_voice_calls w1 = x_voice_calls ?w @ map GatewayDeleteRoom codes"
    by blast
  with step show ?case
    by (intro exI [of _ w1]) (auto simp: andThen_run t_rooms_delete_rooms intro!: filter_cong)
qed

lemma cleanup_rooms_quiet:
  assumes "quiet w" "x_voice_faults w = []"
  shows "\<exists>w1. cleanupExpiredRooms now w = (Inr (), w1) \<and> quiet w1 \<and> x_voice_faults w1 = [] \<and>
    t_rooms (w_db w1) = filter (\<lambda>r. \<not> r_expires_at r \<le> unix now) (t_rooms (w_db w)) \<and>
    t_sessions (w_db w1) = t_sessions (w_db w) \<and> t_users (w_db w1) = t_users (w_db w) \<and>
    x_voice_calls w1 = x_voice_calls w @
      map (GatewayDeleteRoom \<circ> r_code) (filter (\<lambda>r. r_expires_at r \<le> unix now) (t_rooms (w_db w)))"
    (is ?expired)
    and "\<exists>w1. deleteEmptyRooms now grace w = (Inr (), w1) \<and> quiet w1 \<and> x_voice_faults w1 = [] \<and>
    t_rooms (w_db w1) = filter (\<lambda>r. \<not> empty_since (unix (now - grace)) r) (t_rooms (w_db w)) \<and>
    t_sessions (w_db w1) = t_sessions (w_db w) \<and> t_users (w_db w1) = t_users (w_db w) \<and>
    x_voice_calls w1 = x_voice_calls w @
      map (GatewayDeleteRoom \<circ> r_code) (filter (empty_since (unix (now - grace))) (t_rooms (w_db w)))"
    (is ?empty)
proof -
  have rows: "filter (\<lambda>r. \<not> (r_code r \<in> set (map r_code (filter P rs)) \<and> P r)) rs = filter (\<lambda>r. \<not> P r) rs"
    for P and rs :: "room_row list"
    by (auto intro!: filter_cong)
  have "\<And>code v. quiet v \<Longrightarrow> DeleteExpiredRoom code now v =
      (Inr (), v\<lparr>w_db := delete_rooms (\<lambda>r. r_code r = code \<and> r_expires_at r \<le> unix now) (w_db v)\<rparr>)"
    by (simp add: DeleteExpiredRoom_def run_simps)
  from end_rooms_quiet [OF assms this, of "map r_code (filter (\<lambda>r. r_expires_at r \<le> unix now) (t_rooms (w_db w)))",
    unfolded rows]
  show ?expired using assms
    by (simp add: cleanupExpiredRooms_def ExpiredRoomCodes_def andThen_run attempt_run select_quiet)
  have "\<And>code v. quiet v \<Longrightarrow> DeleteEmptyRoom code (now - grace) v =
      (Inr (), v\<lparr>w_db := delete_rooms (\<lambda>r. r_code r = code \<and> empty_since (unix (now - grace)) r) (w_db v)\<rparr>)"
    by (simp add: DeleteEmptyRoom_def run_simps)
  from end_rooms_quiet [OF assms this, of "map r_code (filter (empty_since (unix (now - grace))) (t_rooms (w_db w)))",
    unfolded rows]
  show ?empty using assms
    by (simp add: deleteEmptyRooms_def EmptyRoomCodes_def andThen_run attempt_run select_quiet)
qed

lemma delete_users_subset:
  "set (t_rooms (delete_users P d)) \<subseteq> set (t_rooms d)" "set (t_sessions (delete_users P d)) \<subseteq> set (t_sessions d)"
  by (auto simp: delete_users_def Let_def t_rooms_delete_rooms)


section \<open>Concretely\<close>

text \<open>A service with readable stand-ins for the hashes, and a world that runs it.\<close>

definition plain_crypto :: crypto where
  "plain_crypto = \<lparr>sha256 = (\<lambda>s. s), password_hash = (\<lambda>salt p. Some (salt @ p)),
     password_matches = (\<lambda>h p. h = ''$'' @ p), token_text = (\<lambda>code u ttl. code), public_url = ''wss://v''\<rparr>"

definition small_service :: service where
  "small_service = New_Service hour minute 2"

definition serving :: "database \<Rightarrow> time \<Rightarrow> 8 word list \<Rightarrow> app_world" where
  "serving d now tape = \<lparr>w_db = d, w_faults = [], x_now = now, x_ticks = [], x_tape = tape,
     x_voice_faults = [], x_voice_calls = [], s_files = [], s_dirs = [], s_os_faults = [], s_reserved = 0,
     a_welcome = new_cache, a_salts = [''$'']\<rparr>"

lemma serving_simps [simp]:
  "w_db (serving d now tape) = d" "quiet (serving d now tape)" "x_now (serving d now tape) = now"
  "x_voice_faults (serving d now tape) = []"
  by (simp_all add: serving_def quiet_def)

definition someone :: user where
  "someone = no_user\<lparr>user_ID := ''u1''\<rparr>"

lemma ran: "\<not> isl (fst p) \<Longrightarrow> \<exists>x w1. p = (Inr x, w1)"
  by (cases p; cases "fst p") auto

lemma Authenticate_valid_witness:
  "\<exists>ses. session_of ''t1'' one_session = Some ses \<and> unix minute < ses_expires_at ses"
proof -
  have "\<not> isl (fst (Authenticate plain_crypto small_service ''t1'' (serving one_session minute [])))"
    by code_simp
  then obtain u w1 where "Authenticate plain_crypto small_service ''t1'' (serving one_session minute []) = (Inr u, w1)"
    using ran by blast
  from Authenticate_valid [OF _ this] show ?thesis
    by (auto simp: plain_crypto_def)
qed

lemma Register_example:
  "\<exists>acc w1. Register plain_crypto small_service ''a@b'' ''pw'' (serving empty_db hour (replicate 48 7)) = (Inr acc, w1)
   \<and> quiet w1"
  by (simp add: Register_def random_bytes_def read_full_def GenerateFromPassword_def newSessionToken_def
      Let_def CreateUserWithSession_def transaction_quiet run_simps serving_def plain_crypto_def quiet_def
      ticked_def insert_user_def insert_session_def guarded_def has_user_def empty_db_def)

lemma Register_authenticates_witness:
  "\<exists>acc w1 st. Register plain_crypto small_service ''a@b'' ''pw'' (serving empty_db hour (replicate 48 7)) = (Inr acc, w1)
   \<and> fst (Authenticate plain_crypto small_service (SessionToken acc) (w1\<lparr>x_now := 2 * hour\<rparr>)) =
     Inr ((account acc)\<lparr>user_CreatedAt := hour, Security := Some st\<rparr>)"
proof -
  obtain acc w1 where run: "Register plain_crypto small_service ''a@b'' ''pw''
      (serving empty_db hour (replicate 48 7)) = (Inr acc, w1)" "quiet w1"
    using Register_example by blast
  have limits: "unix (2 * hour) < unix (hour + sessionTTL small_service)"
    "unix (2 * hour - sessionIdleTTL small_service) < unix hour" "of_unix (unix hour) = hour"
    by code_simp+
  have "quiet (w1\<lparr>x_now := 2 * hour\<rparr>)" using run(2) by (simp add: quiet_def)
  with Register_authenticates [OF _ run(1), of "w1\<lparr>x_now := 2 * hour\<rparr>"] run(1) limits
  show ?thesis by simp
qed

lemma Login_refuses_witness:
  "fst (Login plain_crypto small_service ''a@b'' ''wrong'' (serving two_users hour [])) = Inl ErrInvalidCredentials \<and>
   fst (Login plain_crypto small_service ''nobody'' ''wrong'' (serving two_users hour [])) = Inl ErrInvalidCredentials"
  using Login_refuses [where w = "serving two_users hour []" and email = "''a@b''" and c = plain_crypto and password = "''wrong''" and s = small_service]
    Login_refuses [where w = "serving two_users hour []" and email = "''nobody''" and c = plain_crypto and password = "''wrong''" and s = small_service]
  by (simp add: two_users_def plain_crypto_def)

lemma ChangePassword_established_witness:
  "\<exists>ses \<in> set (t_sessions one_session). of_unix (ses_created_at ses) + 24 * hour \<le> 25 * hour"
proof -
  have "fst (ChangePassword plain_crypto someone ''t1'' ''new'' (serving one_session (25 * hour) [])) = Inr ()"
    by code_simp
  from ChangePassword_established [OF run_result [OF this]] show ?thesis by auto
qed

lemma JoinRoom_token_witness:
  "\<exists>ttl (r :: room_row). ttl \<le> minute \<and> r_code r = ''R'' \<and> 59 * minute + 30 * second + ttl \<le> of_unix (r_expires_at r)"
proof -
  let ?w = "serving one_room (59 * minute + 30 * second) []"
  have "\<not> isl (fst (App_JoinRoom plain_crypto small_service ''R'' someone ?w))"
    by code_simp
  then obtain res w1 where "App_JoinRoom plain_crypto small_service ''R'' someone ?w = (Inr res, w1)"
    using ran by blast
  from JoinRoom_token [OF this] obtain ttl and r :: room_row where "ttl \<le> tokenTTL small_service" "r_code r = ''R''"
    "x_now ?w + ttl \<le> of_unix (r_expires_at r)"
    by blast
  then show ?thesis
    by (intro exI [of _ ttl] exI [of _ r]) (simp add: small_service_def New_Service_def)
qed

lemma one_code:
  "try_codes s owner 100 = andThen roomCode (\<lambda>code.
     andThen clock (\<lambda>now.
     andThen (attempt (InsertRoom code (user_ID owner) now (roomTTL s))) (\<lambda>r.
     case r of
       Inr _ \<Rightarrow> App_GetRoom s code (user_ID owner)
     | Inl e \<Rightarrow> if e \<noteq> ErrConflict then raise (translateStoreError (AppStore e)) else try_codes s owner 99)))"
proof -
  have "(100 :: nat) = Suc 99" by simp
  then show ?thesis by (simp only: try_codes.simps)
qed

lemma CreateRoom_example:
  "\<exists>rm w1. CreateRoom small_service someone (serving two_users hour (replicate 26 5)) = (Inr rm, w1)"
  by (simp add: CreateRoom_def one_code roomCode_def random_bytes_def read_full_def
      InsertRoom.quiet_run as_specified_def create_room_def insert_room_row_Some insert_room_row_def
      insert_room_member_def guarded_def App_GetRoom_def GetRoom_def live_room_def user_row_of_def has_user_def
      run_simps serving_def quiet_def ticked_def small_service_def New_Service_def someone_def no_user_def
      two_users_def empty_db_def)

lemma CreateRoom_fresh_witness:
  "\<exists>rm w1. CreateRoom small_service someone (serving two_users hour (replicate 26 5)) = (Inr rm, w1) \<and> length (Code rm) = 26"
proof -
  obtain rm w1 where run: "CreateRoom small_service someone (serving two_users hour (replicate 26 5)) = (Inr rm, w1)"
    using CreateRoom_example by blast
  from CreateRoom_fresh [OF this] run show ?thesis by blast
qed



end
