(* ===== verification/Similarity.thy ===== *)
theory Similarity
  imports Paths Model
begin

text \<open>
  \<^verbatim>\<open>antispam/similarity.go\<close> and the content tests of \<^verbatim>\<open>antispam/guard.go\<close>: when two
  messages count as the same and when one looks like spam by itself. The two regular
  expressions are matchers on runes; a fingerprint is written with whole runes, so it is
  compared as its list of runes.
\<close>

section \<open>The patterns\<close>

definition rune_of :: "char \<Rightarrow> rune" where "rune_of c = bt c"

definition rs_of :: "string \<Rightarrow> rune list" where "rs_of s = map rune_of s"

text \<open>A lower case letter under \<^verbatim>\<open>(?i)\<close>: its two cases, and U+017F for \<open>s\<close>.\<close>

definition folds :: "rune \<Rightarrow> rune \<Rightarrow> bool" where
  "folds c r \<longleftrightarrow> r = c \<or> (97 \<le> c \<and> c \<le> 122 \<and> r = c - 32) \<or> (c = 115 \<and> r = 383)"

fun match_folded :: "rune list \<Rightarrow> rune list \<Rightarrow> rune list option" where
  "match_folded [] rs = Some rs"
| "match_folded (c # cs) [] = None"
| "match_folded (c # cs) (r # rs) = (if folds c r then match_folded cs rs else None)"

text \<open>The ASCII word characters of \<^verbatim>\<open>\b\<close> and the ASCII space of \<^verbatim>\<open>\s\<close>.\<close>

definition word_rune :: "rune \<Rightarrow> bool" where
  "word_rune r \<longleftrightarrow> 48 \<le> r \<and> r \<le> 57 \<or> 65 \<le> r \<and> r \<le> 90 \<or> 97 \<le> r \<and> r \<le> 122 \<or> r = 95"

definition regexp_space :: "rune \<Rightarrow> bool" where
  "regexp_space r \<longleftrightarrow> r = 9 \<or> r = 10 \<or> r = 12 \<or> r = 13 \<or> r = 32"

definition colon_slashes :: "rune list \<Rightarrow> rune list option" where
  "colon_slashes rs = match_folded (rs_of ''://'') rs"

text \<open>\<^verbatim>\<open>(?i)\bhttps?://|\bwww\.\<close> at a position: what follows the match.\<close>

definition link_at :: "rune option \<Rightarrow> rune list \<Rightarrow> rune list option" where
  "link_at prev rs =
     (if (case prev of None \<Rightarrow> False | Some p \<Rightarrow> word_rune p) then None
      else
        (case match_folded (rs_of ''http'') rs of
           Some rest \<Rightarrow>
             (case Option.bind (match_folded (rs_of ''s'') rest) colon_slashes of
                Some r \<Rightarrow> Some r
              | None \<Rightarrow> colon_slashes rest)
         | None \<Rightarrow> match_folded (rs_of ''www.'') rs))"

definition mention_rune :: "unicode \<Rightarrow> rune \<Rightarrow> bool" where
  "mention_rune u r \<longleftrightarrow> IsLetter u r \<or> IsNumber u r \<or> r = 95"

definition mention_name :: "unicode \<Rightarrow> rune list \<Rightarrow> rune list option" where
  "mention_name u rs =
     (if 2 \<le> length (takeWhile (mention_rune u) rs) then Some (dropWhile (mention_rune u) rs) else None)"

text \<open>\<^verbatim>\<open>(^|\s)@[\pL\pN_]{2,}\<close>\<close>

definition mention_at :: "unicode \<Rightarrow> rune option \<Rightarrow> rune list \<Rightarrow> rune list option" where
  "mention_at u prev rs =
     (case rs of
        [] \<Rightarrow> None
      | r # rest \<Rightarrow>
          if prev = None \<and> r = 64 then mention_name u rest
          else if regexp_space r then
            (case rest of [] \<Rightarrow> None | a # name \<Rightarrow> if a = 64 then mention_name u name else None)
          else None)"

text \<open>
  The successive matches of a pattern from left to right, each replaced: their number
  (\<^verbatim>\<open>FindAllStringIndex\<close>) and the text (\<^verbatim>\<open>ReplaceAllString\<close>).
\<close>

function (sequential) scan_matches ::
  "(rune option \<Rightarrow> rune list \<Rightarrow> rune list option) \<Rightarrow> rune list \<Rightarrow> rune option \<Rightarrow> rune list \<Rightarrow> nat \<times> rune list" where
  "scan_matches m new prev [] = (0, [])"
| "scan_matches m new prev (r # rs) =
     (case m prev (r # rs) of
        Some rest \<Rightarrow>
          if length rest \<le> length rs then
            (case scan_matches m new (Some ((r # rs) ! (length rs - length rest))) rest of
               (n, out) \<Rightarrow> (Suc n, new @ out))
          else (0, [])
      | None \<Rightarrow> (case scan_matches m new (Some r) rs of (n, out) \<Rightarrow> (n, r # out)))"
  by pat_completeness auto
termination by (relation "measure (\<lambda>(m, new, prev, rs). length rs)") auto

definition countMatches :: "(rune option \<Rightarrow> rune list \<Rightarrow> rune list option) \<Rightarrow> string \<Rightarrow> int" where
  "countMatches m body = int (fst (scan_matches m [] None (runes body)))"

section \<open>Content\<close>

definition normalize_body :: "unicode \<Rightarrow> string \<Rightarrow> string" where
  "normalize_body u body = ToLower u (TrimSpace body)"

definition newline :: char where "newline = char_of (10 :: nat)"

fun repeated_line :: "(string \<Rightarrow> nat) \<Rightarrow> string list \<Rightarrow> bool" where
  "repeated_line seen [] = False"
| "repeated_line seen (l # ls) =
     (if length l < 8 then repeated_line seen ls
      else if seen l + 1 \<ge> 4 then True
      else repeated_line (seen(l := seen l + 1)) ls)"

definition hasRepeatedLine :: "unicode \<Rightarrow> string \<Rightarrow> bool" where
  "hasRepeatedLine u body = repeated_line (\<lambda>_. 0) (map (normalize_body u) (split_on newline body))"

fun rune_run :: "rune \<Rightarrow> nat \<Rightarrow> rune list \<Rightarrow> bool" where
  "rune_run lastRune run [] = False"
| "rune_run lastRune run (r # rs) =
     (if r = lastRune then (if run + 1 > 24 then True else rune_run lastRune (run + 1) rs)
      else rune_run r 1 rs)"

definition dominantRepeatedRune :: "string \<Rightarrow> bool" where
  "dominantRepeatedRune body = rune_run 0 0 (runes body)"

definition looksLikeContentSpam :: "unicode \<Rightarrow> int \<Rightarrow> int \<Rightarrow> string \<Rightarrow> bool" where
  "looksLikeContentSpam u maxLinks maxMentions body =
     (if countMatches link_at body > maxLinks \<or> countMatches (mention_at u) body > maxMentions then True
      else count_list body newline > 40 \<or> hasRepeatedLine u body \<or> dominantRepeatedRune body)"

section \<open>Fingerprints\<close>

fun squeeze :: "unicode \<Rightarrow> bool \<Rightarrow> rune \<Rightarrow> nat \<Rightarrow> rune list \<Rightarrow> rune list" where
  "squeeze u lastSpace lastRune run [] = []"
| "squeeze u lastSpace lastRune run (r # rs) =
     (if IsLetter u r \<or> IsDigit u r then
        (if r = lastRune then
           (if run + 1 > 2 then squeeze u lastSpace lastRune (run + 1) rs
            else r # squeeze u False lastRune (run + 1) rs)
         else r # squeeze u False r 1 rs)
      else if \<not> lastSpace then 32 # squeeze u True lastRune run rs
      else squeeze u lastSpace lastRune run rs)"

definition trim_runes :: "rune list \<Rightarrow> rune list" where
  "trim_runes rs = rev (dropWhile IsSpace (rev (dropWhile IsSpace rs)))"

definition fingerprint :: "unicode \<Rightarrow> string \<Rightarrow> rune list" where
  "fingerprint u body =
     (let body = runes (ToLower u body);
          body = snd (scan_matches link_at (rs_of '' link '') None body);
          body = snd (scan_matches (mention_at u) (rs_of '' mention '') None body) in
      trim_runes (squeeze u True 0 0 body))"

text \<open>\<^verbatim>\<open>strings.Fields\<close>\<close>

fun fields_from :: "rune list \<Rightarrow> rune list \<Rightarrow> rune list list" where
  "fields_from acc [] = (if acc = [] then [] else [acc])"
| "fields_from acc (r # rs) =
     (if IsSpace r then (if acc = [] then fields_from [] rs else acc # fields_from [] rs)
      else fields_from (acc @ [r]) rs)"

definition token_set :: "rune list \<Rightarrow> rune list list" where
  "token_set rs = remdups (filter (\<lambda>p. length p > 2) (fields_from [] rs))"

text \<open>
  The quotient of two small counts is a \<^verbatim>\<open>float64\<close> in the code; compared with 0.84 it
  rounds to the same side as the fraction as long as a message has fewer than a million words.
\<close>

definition tokenScore :: "rune list \<Rightarrow> rune list \<Rightarrow> rat" where
  "tokenScore left right =
     (let leftSet = token_set left; rightSet = token_set right in
      if leftSet = [] \<or> rightSet = [] then 0
      else
        let shared = length (filter (\<lambda>p. List.member rightSet p) leftSet);
            size = max (length leftSet) (length rightSet) in
        of_nat shared / of_nat size)"

fun starts_with :: "rune list \<Rightarrow> rune list \<Rightarrow> bool" where
  "starts_with [] rs = True"
| "starts_with (p # ps) [] = False"
| "starts_with (p # ps) (r # rs) = (p = r \<and> starts_with ps rs)"

fun contains :: "rune list \<Rightarrow> rune list \<Rightarrow> bool" where
  "contains [] needle = starts_with needle []"
| "contains (r # rs) needle = (starts_with needle (r # rs) \<or> contains rs needle)"

definition nearlySame :: "rune list \<Rightarrow> rune list \<Rightarrow> bool" where
  "nearlySame left right =
     (if left = [] \<or> right = [] then False
      else if left = right \<or> filter (\<lambda>r. r \<noteq> 32) left = filter (\<lambda>r. r \<noteq> 32) right then True
      else if tokenScore left right \<ge> 84 / 100 then True
      else
        \<bar>int (length left) - int (length right)\<bar> \<le> 4 \<and> (contains left right \<or> contains right left))"

fun count_similar :: "unicode \<Rightarrow> rune list \<Rightarrow> group_message list \<Rightarrow> int \<Rightarrow> string list \<Rightarrow> int \<times> int" where
  "count_similar u target [] similar users = (similar, int (length users))"
| "count_similar u target (item # items) similar users =
     (if \<not> nearlySame target (fingerprint u (Body item)) then count_similar u target items similar users
      else count_similar u target items (similar + 1) (List.insert (user_ID (Author item)) users))"

definition countSimilarMessages :: "unicode \<Rightarrow> string \<Rightarrow> group_message list \<Rightarrow> int \<times> int" where
  "countSimilarMessages u body messages =
     (let target = fingerprint u body in
      if target = [] then (0, 0) else count_similar u target messages 1 [])"

section \<open>Laws\<close>

lemma starts_with_iff: "starts_with ps rs \<longleftrightarrow> (\<exists>zs. rs = ps @ zs)"
  by (induction ps rs rule: starts_with.induct) auto

lemma contains_iff: "contains rs needle \<longleftrightarrow> (\<exists>xs ys. rs = xs @ needle @ ys)"
proof (induction rs)
  case Nil
  show ?case by (auto simp: starts_with_iff)
next
  case (Cons r rs)
  have "(\<exists>xs ys. r # rs = xs @ needle @ ys) \<longleftrightarrow> (\<exists>ys. r # rs = needle @ ys) \<or> (\<exists>xs ys. rs = xs @ needle @ ys)"
    by (auto simp: Cons_eq_append_conv)
  with Cons show ?case by (simp add: starts_with_iff)
qed

lemma tokenScore_commute: "tokenScore left right = tokenScore right left"
proof -
  have shared: "length (filter (List.member ys) xs) = card (set xs \<inter> set ys)"
    if "distinct xs" for xs ys :: "rune list list"
  proof -
    have "{p. List.member ys p} = set ys" by auto
    then show ?thesis using distinct_length_filter [OF that, of "List.member ys"] by (simp add: Int_commute)
  qed
  have "distinct (token_set rs)" for rs by (simp add: token_set_def)
  then show ?thesis
    unfolding tokenScore_def Let_def
    by (simp only: shared max.commute [of "length (token_set left)"] Int_commute [of "set (token_set left)"] disj_commute)
qed

text \<open>Being nearly the same is symmetric, and holds of every fingerprint but the empty one with itself.\<close>

lemma nearlySame_sym: "nearlySame left right = nearlySame right left"
  by (auto simp: nearlySame_def tokenScore_commute [of left right] abs_minus_commute)

lemma nearlySame_refl: "nearlySame left left \<longleftrightarrow> left \<noteq> []"
  by (simp add: nearlySame_def)

text \<open>The early exit of the loop over the lines changes nothing.\<close>

lemma repeated_line_iff:
  "(\<forall>l. seen l < 4) \<Longrightarrow> repeated_line seen ls \<longleftrightarrow> (\<exists>l. 8 \<le> length l \<and> 4 \<le> seen l + count_list ls l)"
proof (induction ls arbitrary: seen)
  case Nil
  then show ?case by (simp add: not_le)
next
  case (Cons l ls)
  show ?case
  proof (cases "length l < 8")
    case True
    then have "8 \<le> length k \<and> 4 \<le> seen k + count_list ls k \<longleftrightarrow> 8 \<le> length k \<and> 4 \<le> seen k + count_list (l # ls) k" for k
      by auto
    then show ?thesis using True Cons.IH [OF Cons.prems] by simp
  next
    case long: False
    show ?thesis
    proof (cases "seen l + 1 \<ge> 4")
      case True
      with long show ?thesis by (auto intro!: exI [of _ l])
    next
      case False
      then have "\<forall>k. (seen(l := seen l + 1)) k < 4" using Cons.prems by auto
      from Cons.IH [OF this] have "repeated_line (seen(l := seen l + 1)) ls \<longleftrightarrow>
        (\<exists>k. 8 \<le> length k \<and> 4 \<le> (seen(l := seen l + 1)) k + count_list ls k)" .
      moreover have "(seen(l := seen l + 1)) k + count_list ls k = seen k + count_list (l # ls) k" for k
        by simp
      ultimately show ?thesis using long False by simp
    qed
  qed
qed

lemma hasRepeatedLine_iff:
  "hasRepeatedLine u body \<longleftrightarrow>
     (\<exists>l. 8 \<le> length l \<and> 4 \<le> count_list (map (normalize_body u) (split_on newline body)) l)"
  by (simp add: hasRepeatedLine_def repeated_line_iff)

end
