(* ===== verification/Antispam.thy ===== *)
theory Antispam
  imports App Limiter Messages Similarity
begin

text \<open>
  \<^verbatim>\<open>antispam/guard.go\<close> and \<^verbatim>\<open>antispam/context.go\<close>: the guard every message passes. It asks
  the store for a cooldown, the limiter for tokens and the recent messages for repetitions,
  warns an account once and then refuses it, and counts warnings against its group.
\<close>

datatype guard_error =
    ErrMessageTooLong
  | ErrMessageWarning
  | ErrMessageRateLimited
  | GuardStore store_error

record guard_result =
  IsolateFlag :: bool

definition no_isolation :: guard_result where "no_isolation = \<lparr>IsolateFlag = False\<rparr>"

text \<open>\<open>g_warned\<close> is the map \<^verbatim>\<open>warned\<close> of the running process.\<close>

record guard_world = app_world +
  g_warned :: "string \<Rightarrow> time option"

type_synonym ('z, 'a) guardm = "('z guard_world_scheme, guard_error, 'a) action"

definition guard_db :: "('z guard_world_scheme, store_error, 'a) action \<Rightarrow> ('z, 'a) guardm" where
  "guard_db m = map_error GuardStore m"

definition groupSpamWindow :: duration where "groupSpamWindow = 30 * (24 * hour)"
definition groupSpamWarningLimit :: int where "groupSpamWarningLimit = 3"

definition warnOnce :: "abuse_config \<Rightarrow> string \<Rightarrow> time \<Rightarrow> ('z guard_world_scheme, 'e, guard_error) action" where
  "warnOnce cfg userID now w =
     (if (case g_warned w userID of None \<Rightarrow> False | Some until \<Rightarrow> until > now)
      then (Inr ErrMessageRateLimited, w)
      else (Inr ErrMessageWarning,
        w\<lparr>g_warned := (g_warned w)(userID := Some (now + l_refill (MessageLimit cfg)))\<rparr>))"

definition clearWarning :: "string \<Rightarrow> ('z guard_world_scheme, 'e, unit) action" where
  "clearWarning userID w = (Inr (), w\<lparr>g_warned := (g_warned w)(userID := None)\<rparr>)"

definition violation_steps :: "duration list" where
  "violation_steps = [minute, 5 * minute, 30 * minute, 2 * hour]"

text \<open>\<^verbatim>\<open>violation\<close> returns its result with an error: the pair of both.\<close>

definition guard_violation ::
  "abuse_config \<Rightarrow> string \<Rightarrow> string \<Rightarrow> guard_result \<Rightarrow> time \<Rightarrow> ('z, guard_result \<times> guard_error option) guardm" where
  "guard_violation cfg groupID userID result now =
     andThen (warnOnce cfg userID now) (\<lambda>err.
     if err = ErrMessageRateLimited then
       andThen (guard_db (RecordMessageViolation groupID userID now violation_steps)) (\<lambda>_.
       ret (result, Some err))
     else ret (result, Some err))"

definition evaluateGroup ::
  "unicode \<Rightarrow> abuse_config \<Rightarrow> string \<Rightarrow> string \<Rightarrow> string \<Rightarrow> time \<Rightarrow> ('z, guard_result) guardm" where
  "evaluateGroup u cfg groupID body reason now =
     (let window = l_refill (MessageLimit cfg);
          window = (if window \<le> 0 then minute else window) in
      andThen (guard_db (Store_Messages groupID (now - window) 40 [])) (\<lambda>messages.
      case countSimilarMessages u body messages of (similar, users) \<Rightarrow>
      if similar < 3 \<or> users < 2 then ret no_isolation
      else
      andThen (guard_db (CreateGroupSpamWarning groupID reason now similar users window groupSpamWindow)) (\<lambda>(warnings, created).
      if \<not> created then ret no_isolation
      else ret \<lparr>IsolateFlag = (warnings \<ge> groupSpamWarningLimit)\<rparr>)))"

text \<open>The tail every violation shares.\<close>

definition report ::
  "unicode \<Rightarrow> abuse_config \<Rightarrow> string \<Rightarrow> string \<Rightarrow> string \<Rightarrow> string \<Rightarrow> time
   \<Rightarrow> ('z, guard_result \<times> guard_error option) guardm" where
  "report u cfg groupID userID body reason now =
     andThen (evaluateGroup u cfg groupID body reason now) (\<lambda>result.
     guard_violation cfg groupID userID result now)"

definition purge_and_report ::
  "unicode \<Rightarrow> abuse_config \<Rightarrow> string \<Rightarrow> string \<Rightarrow> string \<Rightarrow> string \<Rightarrow> time
   \<Rightarrow> ('z, guard_result \<times> guard_error option) guardm" where
  "purge_and_report u cfg groupID userID body reason now =
     andThen (guard_db (DeleteRecentMessagesByAuthor groupID userID (now - l_refill (MessageLimit cfg)) 20)) (\<lambda>_.
     report u cfg groupID userID body reason now)"

definition message_limit :: "abuse_config \<Rightarrow> user \<Rightarrow> time \<Rightarrow> limit" where
  "message_limit cfg user now =
     (let limit = MessageLimit cfg in
      if now - user_CreatedAt user < NewAccountAge cfg
      then limit\<lparr>l_capacity := min (l_capacity limit) (NewAccountMessageCap cfg)\<rparr>
      else limit)"

definition check_steps ::
  "unicode \<Rightarrow> abuse_config \<Rightarrow> string \<Rightarrow> user \<Rightarrow> string \<Rightarrow> ('z, guard_result \<times> guard_error option) guardm" where
  "check_steps u cfg groupID user body =
     (if RuneCountInString body > MaxMessageRunes cfg then raise ErrMessageTooLong
      else
      andThen clock (\<lambda>now.
      andThen (guard_db (MessageCooldown groupID (user_ID user) now)) (\<lambda>until.
      if until > now then raise ErrMessageRateLimited
      else
      andThen
        (if MinMessageInterval cfg > 0 then
           andThen (guard_db (Allow cfg ''message:interval'' (Subject ''user'' (user_ID user))
              \<lparr>l_capacity = 1, l_refill = MinMessageInterval cfg\<rparr>)) (\<lambda>decision.
           if \<not> Allowed decision then raise ErrMessageRateLimited else ret ())
         else ret ()) (\<lambda>_.
      let normalized = normalize_body u body;
          since = now - l_refill (MessageLimit cfg) in
      andThen
        (if normalized \<noteq> [] then guard_db (DeleteRecentRepeatedMessages groupID (user_ID user) normalized since 20)
         else ret 0) (\<lambda>deleted.
      if deleted > 0 then report u cfg groupID (user_ID user) body ''repeated_messages'' now
      else
      andThen (guard_db (Store_Messages groupID since 20 [])) (\<lambda>recent.
      if (case countSimilarMessages u body recent of (similar, users) \<Rightarrow> similar \<ge> 3 \<and> users \<ge> 2)
      then purge_and_report u cfg groupID (user_ID user) body ''near_duplicate_messages'' now
      else if looksLikeContentSpam u (MaxLinks cfg) (MaxMentions cfg) body
      then purge_and_report u cfg groupID (user_ID user) body ''content_spam'' now
      else
        let limit = message_limit cfg user now in
        andThen (guard_db (Allow cfg ''message:user'' (Subject ''user'' (user_ID user)) limit)) (\<lambda>decision.
        if \<not> Allowed decision
        then purge_and_report u cfg groupID (user_ID user) body ''message_rate_limit'' now
        else
        andThen (guard_db (Allow cfg ''message:group'' groupID
           \<lparr>l_capacity = l_capacity limit * 2, l_refill = l_refill limit\<rparr>)) (\<lambda>decision.
        if \<not> Allowed decision
        then purge_and_report u cfg groupID (user_ID user) body ''group_rate_limit'' now
        else
        andThen (clearWarning (user_ID user)) (\<lambda>_.
        ret (no_isolation, None))))))))))"

definition Guard_Check ::
  "unicode \<Rightarrow> abuse_config \<Rightarrow> string \<Rightarrow> user \<Rightarrow> string
   \<Rightarrow> ('z guard_world_scheme, 'e, guard_result \<times> guard_error option) action" where
  "Guard_Check u cfg groupID user body =
     andThen (attempt (check_steps u cfg groupID user body)) (\<lambda>r.
     case r of Inl e \<Rightarrow> ret (no_isolation, Some e) | Inr x \<Rightarrow> ret x)"

definition Guard_Reserve ::
  "abuse_config \<Rightarrow> string \<Rightarrow> string \<Rightarrow> string \<Rightarrow> string \<Rightarrow> ('z, string \<times> bool) guardm" where
  "Guard_Reserve cfg groupID userID key responseID =
     (if TrimSpace key = [] then ret (responseID, True)
      else
      andThen clock (\<lambda>now.
      guard_db (ReserveIdempotencyKey (''message:'' @ groupID) userID key responseID now (IdempotencyTTL cfg))))"

end
