(* ===== verification/Views.thy ===== *)
theory Views
  imports Model
begin

text \<open>
  \<^verbatim>\<open>publicview\<close>: the shapes the interface shows to other users. Each view drops what is
  private: the address and security state of an account, the disk path and owner of an
  attachment, and, except for the group's own pages, the invite token.
\<close>

section \<open>Shapes\<close>

text \<open>
  Voice rooms, members and warnings are shown with all the fields they have in the model, so
  their shapes are the model's own records.
\<close>

record public_user =
  pu_ID :: string
  pu_DisplayName :: string
  pu_Avatar :: string

record self_user = public_user +
  su_Email :: string
  su_CreatedAt :: time

record attachment_view =
  av_ID :: string
  av_Kind :: string
  av_Mime :: string
  av_Name :: string
  av_Size :: int
  av_URL :: string
  av_CreatedAt :: time
  av_ExpiresAt :: time

record reference_view =
  rv_ID :: string
  rv_Kind :: string
  rv_Event :: string
  rv_Author :: public_user
  rv_Body :: string

record message_view =
  mv_ID :: string
  mv_GroupID :: string
  mv_Kind :: string
  mv_Event :: string
  mv_Author :: public_user
  mv_Body :: string
  mv_CreatedAt :: time
  mv_ReplyTo :: "reference_view option"
  mv_Read :: bool
  mv_Attachments :: "attachment_view list"

record group_view =
  gv_ID :: string
  gv_Visibility :: string
  gv_Owner :: public_user
  gv_Name :: string
  gv_Avatar :: string
  gv_InviteToken :: string
  gv_CreatedAt :: time
  gv_LastActivityAt :: time
  gv_MemberCount :: int
  gv_OnlineCount :: int
  gv_LastMessage :: "message_view option"
  gv_VoiceRooms :: "group_voice_room list"
  gv_JoinBlocked :: bool
  gv_JoinBlockedUntil :: "time option"
  gv_HistoryVisibleFrom :: "time option"

record profile_view =
  pv_Group :: group_view
  pv_Members :: "group_member list"
  pv_SpamWarnings :: "group_spam_warning list"

record room_view =
  rov_Code :: string
  rov_Owner :: public_user
  rov_CreatedAt :: time
  rov_ExpiresAt :: time
  rov_ParticipantCount :: int
  rov_MaxParticipants :: int
  rov_Members :: "member list"

section \<open>Views\<close>

definition PublicUser :: "user \<Rightarrow> public_user" where
  "PublicUser u = \<lparr>pu_ID = user_ID u, pu_DisplayName = DisplayName u, pu_Avatar = Avatar u\<rparr>"

definition OwnUser :: "user \<Rightarrow> self_user" where
  "OwnUser u = \<lparr>pu_ID = user_ID u, pu_DisplayName = DisplayName u, pu_Avatar = Avatar u,
     su_Email = Email u, su_CreatedAt = user_CreatedAt u\<rparr>"

definition view_attachment :: "attachment \<Rightarrow> attachment_view" where
  "view_attachment a = \<lparr>av_ID = att_ID a, av_Kind = att_Kind a, av_Mime = Mime a, av_Name = att_Name a,
     av_Size = Size a, av_URL = ''/v1/attachments/'' @ att_ID a, av_CreatedAt = att_CreatedAt a,
     av_ExpiresAt = att_ExpiresAt a\<rparr>"

definition view_reference :: "message_reference \<Rightarrow> reference_view" where
  "view_reference r = \<lparr>rv_ID = ref_ID r, rv_Kind = ref_Kind r, rv_Event = ref_Event r,
     rv_Author = PublicUser (ref_Author r), rv_Body = ref_Body r\<rparr>"

definition MessageView :: "group_message \<Rightarrow> message_view" where
  "MessageView m = \<lparr>mv_ID = msg_ID m, mv_GroupID = msg_GroupID m, mv_Kind = Kind m, mv_Event = Event m,
     mv_Author = PublicUser (Author m), mv_Body = Body m, mv_CreatedAt = msg_CreatedAt m,
     mv_ReplyTo = map_option view_reference (ReplyTo m), mv_Read = Read m,
     mv_Attachments = map view_attachment (Attachments m)\<rparr>"

definition Messages_views :: "group_message list \<Rightarrow> message_view list" where
  "Messages_views items = map MessageView items"

definition GroupView :: "group \<Rightarrow> group_view" where
  "GroupView g = \<lparr>gv_ID = group_ID g, gv_Visibility = Visibility g, gv_Owner = PublicUser (Owner g),
     gv_Name = Name g, gv_Avatar = group_Avatar g, gv_InviteToken = [], gv_CreatedAt = group_CreatedAt g,
     gv_LastActivityAt = LastActivityAt g, gv_MemberCount = MemberCount g, gv_OnlineCount = OnlineCount g,
     gv_LastMessage = map_option MessageView (LastMessage g), gv_VoiceRooms = VoiceRooms g,
     gv_JoinBlocked = JoinBlocked g, gv_JoinBlockedUntil = JoinBlockedUntil g,
     gv_HistoryVisibleFrom = HistoryVisibleFrom g\<rparr>"

definition GroupWithInvite :: "group \<Rightarrow> group_view" where
  "GroupWithInvite g = (GroupView g)\<lparr>gv_InviteToken := InviteToken g\<rparr>"

definition Groups_views :: "group list \<Rightarrow> group_view list" where
  "Groups_views items = map GroupView items"

definition ProfileView :: "group \<Rightarrow> group_member list \<Rightarrow> group_spam_warning list \<Rightarrow> profile_view" where
  "ProfileView g members warnings =
     \<lparr>pv_Group = GroupWithInvite g, pv_Members = members, pv_SpamWarnings = warnings\<rparr>"

definition RoomView :: "room \<Rightarrow> room_view" where
  "RoomView r = \<lparr>rov_Code = Code r, rov_Owner = PublicUser (room_Owner r), rov_CreatedAt = room_CreatedAt r,
     rov_ExpiresAt = ExpiresAt r, rov_ParticipantCount = ParticipantCount r,
     rov_MaxParticipants = MaxParticipants r, rov_Members = Members r\<rparr>"

section \<open>What a view hides\<close>

text \<open>\<open>redacted\<close> erases what must not leave the server; the views do not notice.\<close>

definition redacted_user :: "user \<Rightarrow> user" where
  "redacted_user u = u\<lparr>Email := [], user_CreatedAt := zero_time, Security := None\<rparr>"

definition redacted_attachment :: "attachment \<Rightarrow> attachment" where
  "redacted_attachment a = a\<lparr>Path := [], OwnerID := [], MessageID := [], att_GroupID := []\<rparr>"

definition redacted_message :: "group_message \<Rightarrow> group_message" where
  "redacted_message m = m\<lparr>Author := redacted_user (Author m),
     ReplyTo := map_option (\<lambda>r. r\<lparr>ref_Author := redacted_user (ref_Author r)\<rparr>) (ReplyTo m),
     Attachments := map redacted_attachment (Attachments m)\<rparr>"

definition redacted_group :: "group \<Rightarrow> group" where
  "redacted_group g = g\<lparr>Owner := redacted_user (Owner g), InviteToken := [],
     LastMessage := map_option redacted_message (LastMessage g)\<rparr>"

lemma PublicUser_redacted [simp]: "PublicUser (redacted_user u) = PublicUser u"
  by (simp add: PublicUser_def redacted_user_def)

lemma view_attachment_redacted [simp]: "view_attachment (redacted_attachment a) = view_attachment a"
  by (simp add: view_attachment_def redacted_attachment_def)

lemma view_reference_redacted [simp]:
  "view_reference (r\<lparr>ref_Author := redacted_user (ref_Author r)\<rparr>) = view_reference r"
  by (simp add: view_reference_def)

lemma MessageView_redacted [simp]: "MessageView (redacted_message m) = MessageView m"
  by (simp add: MessageView_def redacted_message_def option.map_comp comp_def)

lemma GroupView_redacted [simp]: "GroupView (redacted_group g) = GroupView g"
  by (simp add: GroupView_def redacted_group_def option.map_comp comp_def)

text \<open>
  C24: the public view of a group tells nobody an address, a session, an invitation or a place on
  disk. Two groups that differ only in those, in themselves, their owner, their last message,
  its author, the author it answers or its attachments, have the same view; so have two lists
  of messages, and no view of a group without the token holds one.
\<close>

theorem views_hide:
  "(redacted_group g = redacted_group h \<longrightarrow> GroupView g = GroupView h) \<and>
   (map redacted_message ms = map redacted_message ns \<longrightarrow> Messages_views ms = Messages_views ns) \<and>
   gv_InviteToken (GroupView g) = [] \<and> (\<forall>v \<in> set (Groups_views gs). gv_InviteToken v = [])"
proof (intro conjI impI)
  show "GroupView g = GroupView h" if "redacted_group g = redacted_group h"
    using that by (metis GroupView_redacted)
  show "Messages_views ms = Messages_views ns" if same: "map redacted_message ms = map redacted_message ns"
  proof -
    have "map MessageView (map redacted_message ms) = map MessageView (map redacted_message ns)"
      by (simp only: same)
    then show ?thesis by (simp add: Messages_views_def comp_def)
  qed
qed (auto simp: GroupView_def Groups_views_def)

definition secretive :: group where
  "secretive = \<lparr>group_ID = ''g'', Visibility = ''private'', Owner = no_user\<lparr>user_ID := ''u'', Email := ''a@b''\<rparr>,
     Name = ''n'', group_Avatar = [], InviteToken = ''inv_1'', group_CreatedAt = 0, LastActivityAt = 0,
     MemberCount = 1, OnlineCount = 0, LastMessage = None, VoiceRooms = [], JoinBlocked = False,
     JoinBlockedUntil = None, HistoryVisibleFrom = None\<rparr>"

lemma views_hide_witness:
  "GroupView secretive = GroupView (secretive\<lparr>InviteToken := ''inv_2'', Owner := no_user\<lparr>user_ID := ''u'', Email := ''c@d''\<rparr>\<rparr>)"
  using views_hide [of secretive "secretive\<lparr>InviteToken := ''inv_2'', Owner := no_user\<lparr>user_ID := ''u'', Email := ''c@d''\<rparr>\<rparr>" "[]" "[]" "[]"]
  by (simp add: secretive_def redacted_group_def redacted_user_def no_user_def)

end
