(* ===== verification/Hub.thy ===== *)
theory Hub
  imports Views "HOL-Library.Sublist" "HOL-Library.Multiset"
begin

text \<open>
  \<^verbatim>\<open>groups/hub\<close>: who is online and what they are told. A subscription is a channel of
  sixteen places; \<^verbatim>\<open>Publish\<close> puts an event into every channel of every listed user that has
  room and skips the others. The mutex makes each operation one step. A send on a closed
  channel and a second \<^verbatim>\<open>close\<close> are run-time panics, \<open>None\<close> here. The map of a user's
  channels is the list of their numbers; Go's random order over it makes no difference.
\<close>

section \<open>Events\<close>

record event_member =
  em_ID :: string
  em_DisplayName :: string
  em_Avatar :: string

datatype event_data =
    NoData
  | GroupData group_view
  | MessageData message_view
  | MemberEvent event_member
  | TypingEvent event_member bool
  | MessageReadEvent string
  | MessageDeletedEvent string
  | VoiceRoomData string

record event =
  Type :: string
  GroupID :: string
  Data :: event_data

definition event_member_of :: "user \<Rightarrow> event_member" where
  "event_member_of u = \<lparr>em_ID = user_ID u, em_DisplayName = DisplayName u, em_Avatar = Avatar u\<rparr>"

definition NewMemberEvent :: "user \<Rightarrow> event_data" where
  "NewMemberEvent u = MemberEvent (event_member_of u)"

section \<open>The hub\<close>

record channel =
  ch_queue :: "event list"
  ch_open :: bool

record hub =
  h_users :: "string \<Rightarrow> nat list option"
  h_chans :: "channel list"

definition New :: hub where
  "New = \<lparr>h_users = (\<lambda>_. None), h_chans = []\<rparr>"

definition channels :: "hub \<Rightarrow> string \<Rightarrow> nat list" where
  "channels h u = (case h_users h u of None \<Rightarrow> [] | Some is \<Rightarrow> is)"

definition Subscribe :: "string \<Rightarrow> hub \<Rightarrow> nat \<times> hub" where
  "Subscribe u h =
     (let i = length (h_chans h) in
      (i, h\<lparr>h_users := (h_users h)(u := Some (i # channels h u)),
            h_chans := h_chans h @ [\<lparr>ch_queue = [], ch_open = True\<rparr>]\<rparr>))"

text \<open>The function \<^verbatim>\<open>Subscribe\<close> returns to end the subscription.\<close>

definition Stop :: "string \<Rightarrow> nat \<Rightarrow> hub \<Rightarrow> hub option" where
  "Stop u i h =
     (let left = removeAll i (channels h u);
          users = (h_users h)(u := (if left = [] then None else Some left)) in
      if ch_open (h_chans h ! i)
      then Some (h\<lparr>h_users := users, h_chans := (h_chans h)[i := (h_chans h ! i)\<lparr>ch_open := False\<rparr>]\<rparr>)
      else None)"

definition Online :: "string \<Rightarrow> hub \<Rightarrow> bool" where
  "Online u h \<longleftrightarrow> channels h u \<noteq> []"

definition hub_capacity :: nat where "hub_capacity = 16"

text \<open>\<^verbatim>\<open>select { case ch <- event: default: }\<close>\<close>

definition deliver :: "event \<Rightarrow> channel \<Rightarrow> channel" where
  "deliver e c = (if length (ch_queue c) < hub_capacity then c\<lparr>ch_queue := ch_queue c @ [e]\<rparr> else c)"

fun send_all :: "event \<Rightarrow> nat list \<Rightarrow> channel list \<Rightarrow> channel list option" where
  "send_all e [] cs = Some cs"
| "send_all e (i # is) cs =
     (if ch_open (cs ! i) then send_all e is (cs[i := deliver e (cs ! i)]) else None)"

definition Publish :: "string list \<Rightarrow> event \<Rightarrow> hub \<Rightarrow> hub option" where
  "Publish userIDs e h =
     (case send_all e (concat (map (channels h) userIDs)) (h_chans h) of
        None \<Rightarrow> None
      | Some cs \<Rightarrow> Some (h\<lparr>h_chans := cs\<rparr>))"

text \<open>A subscriber reads its channel.\<close>

definition Receive :: "nat \<Rightarrow> hub \<Rightarrow> (event \<times> hub) option" where
  "Receive i h =
     (case ch_queue (h_chans h ! i) of
        [] \<Rightarrow> None
      | e # q \<Rightarrow> Some (e, h\<lparr>h_chans := (h_chans h)[i := (h_chans h ! i)\<lparr>ch_queue := q\<rparr>]\<rparr>))"

section \<open>The bus\<close>

text \<open>
  The hub with those who use it: each running event stream holds one subscription and ends it
  once. Two ghost fields record, per channel, what was published to its user while it was
  open and what its reader has taken.
\<close>

record bus =
  b_hub :: hub
  b_streams :: "(string \<times> nat) list"
  b_log :: "nat \<Rightarrow> event list"
  b_got :: "nat \<Rightarrow> event list"

inductive bus_step :: "bus \<Rightarrow> bus \<Rightarrow> bool" where
  subscribe: "Subscribe u (b_hub b) = (i, h) \<Longrightarrow>
     bus_step b (b\<lparr>b_hub := h, b_streams := (u, i) # b_streams b,
       b_log := (b_log b)(i := []), b_got := (b_got b)(i := [])\<rparr>)"
| stop: "(u, i) \<in> set (b_streams b) \<Longrightarrow> Stop u i (b_hub b) = Some h \<Longrightarrow>
     bus_step b (b\<lparr>b_hub := h, b_streams := removeAll (u, i) (b_streams b)\<rparr>)"
| publish: "Publish us e (b_hub b) = Some h \<Longrightarrow>
     bus_step b (b\<lparr>b_hub := h, b_log := (\<lambda>i. b_log b i @
       replicate (count_list (concat (map (channels (b_hub b)) us)) i) e)\<rparr>)"
| receive: "(u, i) \<in> set (b_streams b) \<Longrightarrow> Receive i (b_hub b) = Some (e, h) \<Longrightarrow>
     bus_step b (b\<lparr>b_hub := h, b_got := (b_got b)(i := b_got b i @ [e])\<rparr>)"

definition idle_bus :: bus where
  "idle_bus = \<lparr>b_hub = New, b_streams = [], b_log = (\<lambda>_. []), b_got = (\<lambda>_. [])\<rparr>"

inductive bus_reachable :: "bus \<Rightarrow> bool" where
  start: "bus_reachable idle_bus"
| step: "bus_reachable b \<Longrightarrow> bus_step b b' \<Longrightarrow> bus_reachable b'"

inductive_cases bus_stepE: "bus_step b b'"

section \<open>Delivery\<close>

lemma deliver_fields [simp]: "ch_open (deliver e c) = ch_open c"
  by (simp add: deliver_def)

lemma deliver_times_fields [simp]: "ch_open ((deliver e ^^ n) c) = ch_open c"
  by (induction n) simp_all

lemma send_all_open:
  assumes "\<forall>i \<in> set is. i < length cs \<and> ch_open (cs ! i)"
  shows "\<exists>cs'. send_all e is cs = Some cs' \<and> length cs' = length cs \<and>
    (\<forall>j < length cs. cs' ! j = (deliver e ^^ count_list is j) (cs ! j))"
  using assms
proof (induction "is" arbitrary: cs)
  case (Cons i "is")
  let ?cs = "cs[i := deliver e (cs ! i)]"
  have "\<forall>j \<in> set is. j < length ?cs \<and> ch_open (?cs ! j)"
    using Cons.prems by (auto simp: nth_list_update)
  from Cons.IH [OF this] obtain cs' where cs': "send_all e is ?cs = Some cs'" "length cs' = length cs"
    "\<forall>j < length cs. cs' ! j = (deliver e ^^ count_list is j) (?cs ! j)"
    by auto
  have "cs' ! j = (deliver e ^^ count_list (i # is) j) (cs ! j)" if "j < length cs" for j
    using cs'(3) that by (simp add: nth_list_update funpow_swap1)
  with cs' Cons.prems show ?case by simp
qed simp

text \<open>The order in which channels are served makes no difference.\<close>

lemma send_all_order:
  assumes "mset is = mset js" "\<forall>i \<in> set is. i < length cs \<and> ch_open (cs ! i)"
  shows "send_all e is cs = send_all e js cs"
proof -
  have "\<forall>i \<in> set js. i < length cs \<and> ch_open (cs ! i)"
    using assms by (metis mset_eq_setD)
  from send_all_open [OF assms(2), of e] send_all_open [OF this, of e]
  obtain xs ys where "send_all e is cs = Some xs" "send_all e js cs = Some ys" "length xs = length ys"
    "length xs = length cs" "\<forall>j < length cs. xs ! j = (deliver e ^^ count_list is j) (cs ! j)"
    "\<forall>j < length cs. ys ! j = (deliver e ^^ count_list js j) (cs ! j)"
    by auto
  moreover have "count_list is j = count_list js j" for j
    using assms(1) by (metis count_mset)
  ultimately show ?thesis by (simp add: list_eq_iff_nth_eq)
qed

lemma deliver_once:
  "ch_queue (deliver e c) = (if length (ch_queue c) < hub_capacity then ch_queue c @ [e] else ch_queue c)"
  by (simp add: deliver_def)

lemma deliver_queue:
  "\<exists>k \<le> n. ch_queue ((deliver e ^^ n) c) = ch_queue c @ replicate k e"
proof (induction n)
  case (Suc n)
  then obtain k where k: "k \<le> n" "ch_queue ((deliver e ^^ n) c) = ch_queue c @ replicate k e" by blast
  show ?case
  proof (cases "length (ch_queue ((deliver e ^^ n) c)) < hub_capacity")
    case True
    then have "ch_queue ((deliver e ^^ Suc n) c) = ch_queue c @ replicate (Suc k) e"
      by (simp add: deliver_once k(2) replicate_append_same)
    with k(1) show ?thesis by (intro exI [of _ "Suc k"]) simp
  next
    case False
    with k show ?thesis by (intro exI [of _ k]) (simp add: deliver_once)
  qed
qed simp

lemma deliver_bounded:
  "length (ch_queue c) \<le> hub_capacity \<Longrightarrow> length (ch_queue ((deliver e ^^ n) c)) \<le> hub_capacity"
  by (induction n) (simp_all add: deliver_once)

text \<open>A channel with room takes the event.\<close>

lemma deliver_with_room:
  "length (ch_queue c) + n \<le> hub_capacity \<Longrightarrow> ch_queue ((deliver e ^^ n) c) = ch_queue c @ replicate n e"
  by (induction n) (simp_all add: deliver_once replicate_append_same)

section \<open>What every reachable bus satisfies\<close>

text \<open>
  The subscriptions of a user are the channels of its running streams, each open, none shared
  and none overfull; what a reader has taken and what waits for it is, in order, a part of
  what was published to it.
\<close>

definition streams_of :: "bus \<Rightarrow> string \<Rightarrow> nat list" where
  "streams_of b u = map snd (filter (\<lambda>p. fst p = u) (b_streams b))"

definition registered :: "bus \<Rightarrow> bool" where
  "registered b \<longleftrightarrow> distinct (map snd (b_streams b)) \<and>
     (\<forall>u. h_users (b_hub b) u = (if streams_of b u = [] then None else Some (streams_of b u)))"

definition flows :: "bus \<Rightarrow> bool" where
  "flows b \<longleftrightarrow> (\<forall>(u, i) \<in> set (b_streams b). i < length (h_chans (b_hub b)) \<and>
     ch_open (h_chans (b_hub b) ! i) \<and> length (ch_queue (h_chans (b_hub b) ! i)) \<le> hub_capacity \<and>
     subseq (b_got b i @ ch_queue (h_chans (b_hub b) ! i)) (b_log b i))"

lemma registered_channels: "registered b \<Longrightarrow> channels (b_hub b) u = streams_of b u"
  by (auto simp: registered_def channels_def)

lemma stream_of: "(u, i) \<in> set (b_streams b) \<Longrightarrow> i \<in> set (streams_of b u)"
  by (force simp: streams_of_def)

lemma stream_ofD: "i \<in> set (streams_of b u) \<Longrightarrow> (u, i) \<in> set (b_streams b)"
  by (auto simp: streams_of_def)

lemma count_list_1_distinct: "distinct xs \<Longrightarrow> x \<in> set xs \<Longrightarrow> count_list xs x = 1"
  by (simp add: distinct_count_atmost_1 count_mset [symmetric])

lemma published_to:
  assumes "registered b" "flows b"
  shows "\<forall>i \<in> set (concat (map (channels (b_hub b)) us)). i < length (h_chans (b_hub b)) \<and> ch_open (h_chans (b_hub b) ! i)"
  using assms by (auto simp: registered_channels flows_def dest!: stream_ofD)

lemma same_stream: "registered b \<Longrightarrow> (u, i) \<in> set (b_streams b) \<Longrightarrow> (v, i) \<in> set (b_streams b) \<Longrightarrow> u = v"
  unfolding registered_def by (metis distinct_map inj_onD prod.inject snd_conv)

lemma registered_step:
  assumes "registered b" "flows b" "bus_step b b'"
  shows "registered b'"
  using assms(3)
proof (cases rule: bus_step.cases)
  case (subscribe u i h)
  then have i: "i = length (h_chans (b_hub b))" by (simp add: Subscribe_def Let_def)
  have "i \<notin> snd ` set (b_streams b)" using assms(2) i by (fastforce simp: flows_def)
  then show ?thesis
    using subscribe assms(1) registered_channels [OF assms(1), of u]
    by (auto simp: registered_def Subscribe_def Let_def streams_of_def)
next
  case (stop u i h)
  have others: "removeAll (u, i) xs = filter (\<lambda>p. p \<noteq> (u, i)) xs" for xs :: "(string \<times> nat) list"
    by (induction xs) auto
  have mine: "map snd (filter (\<lambda>p. fst p = u) (removeAll (u, i) xs)) =
      removeAll i (map snd (filter (\<lambda>p. fst p = u) xs))" for xs :: "(string \<times> nat) list"
    by (induction xs) auto
  have rest: "filter (\<lambda>p. fst p = v) (removeAll (u, i) xs) = filter (\<lambda>p. fst p = v) xs" if "v \<noteq> u"
    for v and xs :: "(string \<times> nat) list"
    using that by (induction xs) auto
  have dist: "distinct (map snd (removeAll (u, i) (b_streams b)))"
    unfolding others using assms(1) by (intro distinct_map_filter) (simp add: registered_def)
  have after: "streams_of b' v = (if v = u then removeAll i (streams_of b u) else streams_of b v)" for v
    using stop(1) mine rest [of v] by (simp add: streams_of_def)
  have hub: "b_hub b' = h" by (simp add: stop(1))
  have "h_users h = (h_users (b_hub b))(u := (if removeAll i (streams_of b u) = [] then None else Some (removeAll i (streams_of b u))))"
    using stop(3) registered_channels [OF assms(1), of u] by (auto simp: Stop_def Let_def split: if_splits)
  then have "h_users (b_hub b') v = (if streams_of b' v = [] then None else Some (streams_of b' v))" for v
    using assms(1) hub unfolding after by (simp add: registered_def)
  then show ?thesis
    using dist unfolding registered_def by (simp add: stop(1))
next
  case (publish us e h)
  then show ?thesis using assms(1)
    by (auto simp: registered_def Publish_def streams_of_def split: option.splits)
next
  case (receive u i e h)
  then show ?thesis using assms(1)
    by (auto simp: registered_def Receive_def streams_of_def split: list.splits)
qed

lemma flows_step:
  assumes "registered b" "flows b" "bus_step b b'"
  shows "flows b'"
  using assms(3)
proof (cases rule: bus_step.cases)
  case (subscribe u i h)
  then have i: "i = length (h_chans (b_hub b))" and h: "h_chans h = h_chans (b_hub b) @ [\<lparr>ch_queue = [], ch_open = True\<rparr>]"
    by (auto simp: Subscribe_def Let_def)
  have old: "j < i" if "(v, j) \<in> set (b_streams b)" for v j
    using assms(2) that by (auto simp: flows_def i)
  show ?thesis
    unfolding flows_def
  proof clarify
    fix v j assume "(v, j) \<in> set (b_streams b')"
    then consider "j = i" | "j \<noteq> i" "(v, j) \<in> set (b_streams b)" by (auto simp: subscribe(1) dest: old)
    then show "j < length (h_chans (b_hub b')) \<and> ch_open (h_chans (b_hub b') ! j) \<and>
        length (ch_queue (h_chans (b_hub b') ! j)) \<le> hub_capacity \<and>
        subseq (b_got b' j @ ch_queue (h_chans (b_hub b') ! j)) (b_log b' j)"
    proof cases
      case 1
      then show ?thesis by (simp add: subscribe(1) h i)
    next
      case 2
      then show ?thesis using assms(2) old [OF 2(2)]
        by (auto simp: subscribe(1) h flows_def nth_append i)
    qed
  qed
next
  case (stop u i h)
  have h: "h_chans h = (h_chans (b_hub b))[i := (h_chans (b_hub b) ! i)\<lparr>ch_open := False\<rparr>]"
    using stop(3) by (auto simp: Stop_def Let_def split: if_splits)
  have other: "j \<noteq> i" if "(v, j) \<in> set (removeAll (u, i) (b_streams b))" for v j
    using that same_stream [OF assms(1) stop(2), of v] by auto
  show ?thesis
    unfolding flows_def
  proof clarify
    fix v j assume vj: "(v, j) \<in> set (b_streams b')"
    then have now: "(v, j) \<in> set (removeAll (u, i) (b_streams b))" by (simp add: stop(1))
    then have "(v, j) \<in> set (b_streams b)" "j \<noteq> i" using other [OF now] by simp_all
    then show "j < length (h_chans (b_hub b')) \<and> ch_open (h_chans (b_hub b') ! j) \<and>
        length (ch_queue (h_chans (b_hub b') ! j)) \<le> hub_capacity \<and>
        subseq (b_got b' j @ ch_queue (h_chans (b_hub b') ! j)) (b_log b' j)"
      using assms(2) by (auto simp: stop(1) h flows_def)
  qed
next
  case (publish us e h)
  have hub: "b_hub b' = h" by (simp add: publish(1))
  let ?is = "concat (map (channels (b_hub b)) us)"
  obtain cs where cs: "h = (b_hub b)\<lparr>h_chans := cs\<rparr>" "length cs = length (h_chans (b_hub b))"
    "\<forall>j < length (h_chans (b_hub b)). cs ! j = (deliver e ^^ count_list ?is j) (h_chans (b_hub b) ! j)"
    using send_all_open [OF published_to [OF assms(1,2), of us], of e] publish
    by (auto simp: Publish_def split: option.splits)
  have grown: "subseq (b_got b i @ ch_queue (cs ! i)) (b_log b i @ replicate (count_list ?is i) e)"
    if old: "subseq (b_got b i @ ch_queue (h_chans (b_hub b) ! i)) (b_log b i)" and i: "i < length (h_chans (b_hub b))" for i
  proof -
    obtain k where k: "k \<le> count_list ?is i"
      "ch_queue (cs ! i) = ch_queue (h_chans (b_hub b) ! i) @ replicate k e"
      using deliver_queue cs(3) i by metis
    have "subseq (replicate k e) (replicate (count_list ?is i) e)"
      using k(1) by (metis le_add_diff_inverse replicate_add subseq_rev_drop_many subseq_order.refl)
    then show ?thesis
      using old unfolding k(2) append_assoc [symmetric] by (rule list_emb_append_mono [rotated])
  qed
  then show ?thesis
    unfolding flows_def
  proof clarify
    fix v j assume "(v, j) \<in> set (b_streams b')"
    then have "(v, j) \<in> set (b_streams b)" by (simp add: publish(1))
    then have old: "j < length (h_chans (b_hub b))" "ch_open (h_chans (b_hub b) ! j)"
      "length (ch_queue (h_chans (b_hub b) ! j)) \<le> hub_capacity"
      "subseq (b_got b j @ ch_queue (h_chans (b_hub b) ! j)) (b_log b j)"
      using assms(2) by (auto simp: flows_def)
    then show "j < length (h_chans (b_hub b')) \<and> ch_open (h_chans (b_hub b') ! j) \<and>
        length (ch_queue (h_chans (b_hub b') ! j)) \<le> hub_capacity \<and>
        subseq (b_got b' j @ ch_queue (h_chans (b_hub b') ! j)) (b_log b' j)"
      using cs grown [OF old(4) old(1)] deliver_bounded [OF old(3)] by (simp add: publish(1))
  qed
next
  case (receive u i e h)
  obtain q where q: "ch_queue (h_chans (b_hub b) ! i) = e # q"
    and h: "h_chans h = (h_chans (b_hub b))[i := (h_chans (b_hub b) ! i)\<lparr>ch_queue := q\<rparr>]"
    using receive(3) by (auto simp: Receive_def split: list.splits)
  show ?thesis
    unfolding flows_def
  proof clarify
    fix v j assume "(v, j) \<in> set (b_streams b')"
    then have "(v, j) \<in> set (b_streams b)" by (simp add: receive(1))
    then have old: "j < length (h_chans (b_hub b))" "ch_open (h_chans (b_hub b) ! j)"
      "length (ch_queue (h_chans (b_hub b) ! j)) \<le> hub_capacity"
      "subseq (b_got b j @ ch_queue (h_chans (b_hub b) ! j)) (b_log b j)"
      using assms(2) by (auto simp: flows_def)
    then show "j < length (h_chans (b_hub b')) \<and> ch_open (h_chans (b_hub b') ! j) \<and>
        length (ch_queue (h_chans (b_hub b') ! j)) \<le> hub_capacity \<and>
        subseq (b_got b' j @ ch_queue (h_chans (b_hub b') ! j)) (b_log b' j)"
      using q by (cases "j = i") (simp_all add: receive(1) h)
  qed
qed

lemma reachable_ok: "bus_reachable b \<Longrightarrow> registered b \<and> flows b"
proof (induction rule: bus_reachable.induct)
  case start
  show ?case by (simp add: registered_def flows_def idle_bus_def New_def streams_of_def)
next
  case (step b b')
  then show ?case using registered_step flows_step by blast
qed

text \<open>
  C19: the bus never panics and presence is exact. In every reachable state publishing succeeds,
  whoever is named and however often, a running stream can end its subscription, and a user is
  online exactly while one of its streams runs.
\<close>

theorem hub_never_panics:
  assumes "bus_reachable b"
  shows "Publish us e (b_hub b) \<noteq> None \<and>
    (\<forall>(u, i) \<in> set (b_streams b). Stop u i (b_hub b) \<noteq> None) \<and>
    (Online u (b_hub b) \<longleftrightarrow> (\<exists>i. (u, i) \<in> set (b_streams b)))"
proof -
  have ok: "registered b" "flows b" using reachable_ok [OF assms] by simp_all
  have "Publish us e (b_hub b) \<noteq> None"
    using send_all_open [OF published_to [OF ok, of us], of e] by (auto simp: Publish_def)
  moreover have "Stop v i (b_hub b) \<noteq> None" if "(v, i) \<in> set (b_streams b)" for v i
    using that ok(2) by (auto simp: flows_def Stop_def Let_def)
  moreover have "Online u (b_hub b) \<longleftrightarrow> (\<exists>i. (u, i) \<in> set (b_streams b))"
    unfolding Online_def registered_channels [OF ok(1)]
    using stream_of [of u _ b] stream_ofD [of _ b u] by (metis empty_iff empty_set list.set_intros(1) neq_Nil_conv)
  ultimately show ?thesis by auto
qed

text \<open>
  C20: events arrive in order and are never made up. What a stream has read and what waits in its
  channel form, in this order, a subsequence of what was published to its user since it
  subscribed; at most sixteen events wait, and a publication finds every channel with room.
\<close>

theorem hub_in_order:
  assumes "bus_reachable b" "(u, i) \<in> set (b_streams b)"
  shows "subseq (b_got b i @ ch_queue (h_chans (b_hub b) ! i)) (b_log b i) \<and>
    length (ch_queue (h_chans (b_hub b) ! i)) \<le> 16 \<and>
    (length (ch_queue (h_chans (b_hub b) ! i)) < 16 \<longrightarrow>
      (\<exists>h. Publish [u] e (b_hub b) = Some h \<and>
        ch_queue (h_chans h ! i) = ch_queue (h_chans (b_hub b) ! i) @ [e]))"
proof -
  have ok: "registered b" "flows b" using reachable_ok [OF assms(1)] by simp_all
  let ?c = "h_chans (b_hub b) ! i"
  have flow: "i < length (h_chans (b_hub b))" "length (ch_queue ?c) \<le> hub_capacity"
    "subseq (b_got b i @ ch_queue ?c) (b_log b i)"
    using ok(2) assms(2) by (auto simp: flows_def)
  have "distinct (streams_of b u)"
    using ok(1) by (auto simp: registered_def streams_of_def intro: distinct_map_filter)
  then have once: "count_list (concat (map (channels (b_hub b)) [u])) i = 1"
    using stream_of [OF assms(2)] by (simp add: registered_channels [OF ok(1)] count_list_1_distinct)
  obtain cs where cs: "send_all e (concat (map (channels (b_hub b)) [u])) (h_chans (b_hub b)) = Some cs"
    "cs ! i = (deliver e ^^ 1) ?c"
    using send_all_open [OF published_to [OF ok, of "[u]"], of e] flow(1) once by metis
  have "\<exists>h. Publish [u] e (b_hub b) = Some h \<and> ch_queue (h_chans h ! i) = ch_queue ?c @ [e]"
    if "length (ch_queue ?c) < 16"
    using that cs by (simp add: Publish_def deliver_once hub_capacity_def)
  then show ?thesis using flow by (simp add: hub_capacity_def)
qed

section \<open>A bus with one reader\<close>

definition ping :: event where
  "ping = \<lparr>Type = ''voice_updated'', GroupID = ''g'', Data = NoData\<rparr>"

definition one_reader :: bus where
  "one_reader = idle_bus\<lparr>b_hub := snd (Subscribe ''u'' New), b_streams := [(''u'', 0)],
     b_log := (\<lambda>_. [])(0 := []), b_got := (\<lambda>_. [])(0 := [])\<rparr>"

lemma one_reader_reachable: "bus_reachable one_reader"
proof -
  have "bus_step idle_bus one_reader"
    using bus_step.subscribe [of "''u''" idle_bus 0 "snd (Subscribe ''u'' New)"]
    by (simp add: one_reader_def idle_bus_def Subscribe_def Let_def New_def)
  with bus_reachable.start show ?thesis by (rule bus_reachable.step)
qed

lemma hub_never_panics_witness:
  "Publish [''u'', ''v'', ''u''] ping (b_hub one_reader) \<noteq> None \<and> Online ''u'' (b_hub one_reader)"
  using hub_never_panics [OF one_reader_reachable, of "[''u'', ''v'', ''u'']" ping "''u''"]
  by (simp add: one_reader_def)

lemma hub_in_order_witness:
  "\<exists>h. Publish [''u''] ping (b_hub one_reader) = Some h \<and> ch_queue (h_chans h ! 0) = [ping]"
  using hub_in_order [OF one_reader_reachable, of "''u''" 0 ping]
  by (simp add: one_reader_def Subscribe_def New_def Let_def)

end
