(* ===== verification/Avatar.thy ===== *)
theory Avatar
  imports Paths
begin

text \<open>
  \<^verbatim>\<open>avatar/avatar.go\<close> and \<^verbatim>\<open>avatar/multipart.go\<close>: which avatars are accepted, and how an
  uploaded picture becomes one. Decoding and encoding pictures is the standard library's
  work and a parameter; the choice of source pixels, the size limits and the loop over the
  qualities are the program's.
\<close>

section \<open>What may be stored\<close>

definition MaxUploadBytes :: int where "MaxUploadBytes = 8 * 1048576"
definition maxDataURLBytes :: int where "maxDataURLBytes = 700 * 1024"
definition maxStoredBytes :: int where "maxStoredBytes = 96 * 1024"
definition outputPixels :: int where "outputPixels = 256"
definition maxDimension :: int where "maxDimension = 4096"
definition maxSourcePixels :: int where "maxSourcePixels = 4000000"
definition maxProfileFieldBytes :: int where "maxProfileFieldBytes = 1024"

definition ValidSymbol :: "string \<Rightarrow> bool" where
  "ValidSymbol value =
     (let count = RuneCountInString value in
      if count < 1 \<or> count > 8 \<or> \<not> ValidString value then False
      else list_all (\<lambda>r. \<not> (IsControl r \<or> IsSpace r)) (runes value))"

definition ValidStored :: "string \<Rightarrow> bool" where
  "ValidStored value =
     (if value = [] then True
      else if has_prefix ''data:image/'' value then int (length value) \<le> maxDataURLBytes
      else ValidSymbol value)"

definition safeDimensions :: "int \<Rightarrow> int \<Rightarrow> bool" where
  "safeDimensions width height =
     (if width < 1 \<or> height < 1 \<or> width > maxDimension \<or> height > maxDimension then False
      else width * height \<le> maxSourcePixels)"

section \<open>Processing\<close>

text \<open>A rectangle of \<^verbatim>\<open>image.Image\<close>: its upper left corner and its size.\<close>

record bounds =
  MinX :: int
  MinY :: int
  Dx :: int
  Dy :: int

text \<open>The source pixel each pixel of the square is copied from. Quotients of non-negative numbers.\<close>

definition source_pixel :: "bounds \<Rightarrow> int \<Rightarrow> int \<Rightarrow> int \<Rightarrow> int \<times> int" where
  "source_pixel b px x y =
     (let side = min (Dx b) (Dy b);
          x0 = MinX b + (Dx b - side) sdiv 2;
          y0 = MinY b + (Dy b - side) sdiv 2 in
      (x0 + x * side sdiv px, y0 + y * side sdiv px))"

definition squareResize :: "(int \<Rightarrow> int \<Rightarrow> 'p) \<Rightarrow> bounds \<Rightarrow> int \<Rightarrow> 'p list list" where
  "squareResize img b px =
     map (\<lambda>y. map (\<lambda>x. case source_pixel b px x y of (sx, sy) \<Rightarrow> img sx sy) [0..px - 1]) [0..px - 1]"

datatype upload_error =
    AvatarTooLarge
  | AvatarInvalid
  | AvatarFormat
  | AvatarDimensions
  | UploadInvalid
  | EncoderFailed

text \<open>
  The loop of \<^verbatim>\<open>encode\<close> from a quality downwards in steps of seven to forty. \<open>jpeg\<close> is
  \<^verbatim>\<open>jpeg.Encode\<close> at a quality, \<open>None\<close> its error.
\<close>

function encode_from :: "(int \<Rightarrow> string option) \<Rightarrow> int \<Rightarrow> upload_error + string" where
  "encode_from jpeg quality =
     (if quality < 40 then Inl AvatarTooLarge
      else
        (case jpeg quality of
           None \<Rightarrow> Inl EncoderFailed
         | Some out \<Rightarrow>
             if int (length out) \<le> maxStoredBytes then Inr out else encode_from jpeg (quality - 7)))"
  by pat_completeness auto
termination by (relation "measure (\<lambda>(jpeg, q). nat (q + 7))") auto

definition avatar_encode :: "(int \<Rightarrow> string option) \<Rightarrow> upload_error + string" where
  "avatar_encode jpeg = encode_from jpeg 82"

text \<open>
  The pictures of the standard library: the detected type, the dimensions, the pixels with
  their bounds, the encoder and standard Base64.
\<close>

record 'p codec =
  DetectContentType :: "string \<Rightarrow> string"
  DecodeConfig :: "string \<Rightarrow> (int \<times> int) option"
  Decode :: "string \<Rightarrow> ((int \<Rightarrow> int \<Rightarrow> 'p) \<times> bounds) option"
  JpegEncode :: "'p list list \<Rightarrow> int \<Rightarrow> string option"
  Base64 :: "string \<Rightarrow> string"

text \<open>\<open>data\<close> is what the reader yields up to one byte over the limit, \<open>None\<close> a failed read.\<close>

definition ProcessUpload :: "'p codec \<Rightarrow> string option \<Rightarrow> int \<Rightarrow> upload_error + string" where
  "ProcessUpload c data px =
     (if px > MaxUploadBytes then Inl AvatarTooLarge
      else
        (case data of
           None \<Rightarrow> Inl AvatarInvalid
         | Some bytes \<Rightarrow>
             if bytes = [] then Inl AvatarInvalid
             else if int (length bytes) > MaxUploadBytes then Inl AvatarTooLarge
             else
               let mime = DetectContentType c bytes in
               if \<not> List.member [''image/jpeg'', ''image/png'', ''image/gif'', ''image/webp''] mime
               then Inl AvatarFormat
               else
                 (case DecodeConfig c bytes of
                    None \<Rightarrow> Inl AvatarDimensions
                  | Some (width, height) \<Rightarrow>
                      if \<not> safeDimensions width height then Inl AvatarDimensions
                      else
                        (case Decode c bytes of
                           None \<Rightarrow> Inl AvatarInvalid
                         | Some (img, b) \<Rightarrow>
                             (case avatar_encode (JpegEncode c (squareResize img b outputPixels)) of
                                Inl e \<Rightarrow> Inl e
                              | Inr encoded \<Rightarrow> Inr (''data:image/jpeg;base64,'' @ Base64 c encoded))))))"

section \<open>The profile form\<close>

record profile_parts =
  pp_DisplayName :: string
  pp_Avatar :: string
  pp_HasAvatar :: bool

text \<open>
  A part of the form: its name and its bytes, \<open>None\<close> when reading it fails. The form ends
  with \<open>True\<close> for \<^verbatim>\<open>io.EOF\<close> and \<open>False\<close> for an error of \<^verbatim>\<open>NextPart\<close>. \<^verbatim>\<open>LimitReader\<close> cuts a part one
  byte after its limit.
\<close>

fun read_parts ::
  "'p codec \<Rightarrow> bool \<Rightarrow> bool \<Rightarrow> profile_parts \<Rightarrow> (string \<times> string option) list \<Rightarrow> upload_error + profile_parts" where
  "read_parts c eof hasName parts [] = (if eof then Inr parts else Inl UploadInvalid)"
| "read_parts c eof hasName parts ((form, data) # rest) =
     (if form = ''display_name'' then
        (case map_option (take (nat (maxProfileFieldBytes + 1))) data of
           None \<Rightarrow> Inl UploadInvalid
         | Some value \<Rightarrow>
             if int (length value) > maxProfileFieldBytes then Inl UploadInvalid
             else
               read_parts c eof True (if hasName then parts else parts\<lparr>pp_DisplayName := value\<rparr>) rest)
      else if form = ''avatar'' then
        (if pp_HasAvatar parts then Inl UploadInvalid
         else
           (case map_option (take (nat (MaxUploadBytes + 1))) data of
              None \<Rightarrow> Inl AvatarInvalid
            | Some value \<Rightarrow>
                (case ProcessUpload c (Some value) (int (length value)) of
                   Inl e \<Rightarrow> Inl e
                 | Inr avatar \<Rightarrow>
                     read_parts c eof hasName (parts\<lparr>pp_Avatar := avatar, pp_HasAvatar := True\<rparr>) rest)))
      else read_parts c eof hasName parts rest)"

definition ReadMultipartProfile ::
  "'p codec \<Rightarrow> bool \<Rightarrow> (string \<times> string option) list option \<Rightarrow> upload_error + profile_parts" where
  "ReadMultipartProfile c eof form =
     (case form of
        None \<Rightarrow> Inl UploadInvalid
      | Some parts \<Rightarrow>
          read_parts c eof False \<lparr>pp_DisplayName = [], pp_Avatar = [], pp_HasAvatar = False\<rparr> parts)"

section \<open>Laws\<close>

declare encode_from.simps [simp del]

lemma sdiv_nonneg: "0 \<le> a \<Longrightarrow> 0 < b \<Longrightarrow> a sdiv b = a div (b :: int)"
  by (cases "a = 0") (simp_all add: signed_divide_int_def)

lemma zdiv_less:
  assumes "a < c * b" "0 < b"
  shows "a div b < (c :: int)"
proof (rule ccontr)
  assume "\<not> a div b < c"
  then have "c * b \<le> a div b * b" using assms(2) by (simp add: mult_right_mono)
  also have "a div b * b \<le> a" using pos_mod_sign [OF assms(2), of a] by (simp add: minus_mod_eq_div_mult [symmetric])
  finally show False using assms(1) by simp
qed

text \<open>
  The resizing never reads outside the picture: every pixel of the square comes from a
  pixel inside the bounds, whatever the picture's position and proportions.
\<close>

theorem source_pixel_inside:
  assumes "0 < Dx b" "0 < Dy b" "0 \<le> x" "x < px" "0 \<le> y" "y < px" "source_pixel b px x y = (sx, sy)"
  shows "MinX b \<le> sx \<and> sx < MinX b + Dx b \<and> MinY b \<le> sy \<and> sy < MinY b + Dy b"
proof -
  let ?s = "min (Dx b) (Dy b)"
  have px: "0 < px" and s: "0 < ?s" using assms by simp_all
  have "x * ?s < px * ?s" "y * ?s < px * ?s" using assms s by (simp_all only: mult_strict_right_mono)
  then have "x * ?s div px < ?s" "y * ?s div px < ?s"
    using px by (simp_all only: mult.commute [of px] zdiv_less)
  moreover have "0 \<le> x * ?s div px" "0 \<le> y * ?s div px"
    using assms px s by (simp_all add: pos_imp_zdiv_nonneg_iff)
  moreover have "0 \<le> (Dx b - ?s) div 2" "(Dx b - ?s) div 2 + ?s \<le> Dx b"
    "0 \<le> (Dy b - ?s) div 2" "(Dy b - ?s) div 2 + ?s \<le> Dy b"
    using s by linarith+
  moreover have "sx = MinX b + (Dx b - ?s) div 2 + x * ?s div px" "sy = MinY b + (Dy b - ?s) div 2 + y * ?s div px"
    using assms px s by (auto simp: source_pixel_def Let_def sdiv_nonneg)
  ultimately show ?thesis by linarith
qed

lemma source_pixel_inside_witness:
  "source_pixel \<lparr>MinX = -3, MinY = 2, Dx = 640, Dy = 480\<rparr> 256 255 255 = (555, 480) \<and>
   555 < (-3 :: int) + 640 \<and> (480 :: int) < 2 + 480"
proof -
  have at: "source_pixel \<lparr>MinX = -3, MinY = 2, Dx = 640, Dy = 480\<rparr> 256 255 255 = (555, 480)"
    by code_simp
  from source_pixel_inside [OF _ _ _ _ _ _ at] at show ?thesis by simp
qed

lemma encode_from_small: "encode_from jpeg q = Inr out \<Longrightarrow> int (length out) \<le> maxStoredBytes"
proof (induction jpeg q rule: encode_from.induct)
  case (1 jpeg q)
  then show ?case
    by (subst (asm) (2) encode_from.simps) (auto split: if_splits option.splits)
qed

text \<open>A processed upload is at most 96 KiB of JPEG behind its data URL prefix, within what may be stored.\<close>

lemma ProcessUpload_small:
  assumes "ProcessUpload c data px = Inr url"
  obtains encoded where "url = ''data:image/jpeg;base64,'' @ Base64 c encoded" "int (length encoded) \<le> maxStoredBytes"
  using assms encode_from_small
  by (auto simp: ProcessUpload_def avatar_encode_def Let_def split: if_splits option.splits sum.splits)

lemma ProcessUpload_storable:
  assumes "ProcessUpload c data px = Inr url"
    and "\<And>s. length (Base64 c s) = 4 * ((length s + 2) div 3)"
  shows "ValidStored url"
proof -
  obtain encoded where url: "url = ''data:image/jpeg;base64,'' @ Base64 c encoded"
    and small: "int (length encoded) \<le> maxStoredBytes"
    using assms(1) by (rule ProcessUpload_small)
  have "int (length url) \<le> maxDataURLBytes"
    using small by (simp add: url assms(2) maxStoredBytes_def maxDataURLBytes_def)
  then show ?thesis by (simp add: ValidStored_def url has_prefix_def)
qed

end
