(* ===== verification/GroupService.thy ===== *)
theory GroupService
  imports Antispam Hub Avatar VoiceRooms GroupStore
begin

text \<open>
  \<^verbatim>\<open>internal/groups\<close>: the service behind the group endpoints. It decides who may see, join,
  write to and change a group, passes every message through the guard, keeps the members
  informed through the hub and undoes uploads whose message is refused. A run-time panic is
  the error \<open>GroupPanic\<close>, which no caller catches.
\<close>

section \<open>The service\<close>

datatype group_error =
    Group_ErrNotFound
  | Group_ErrForbidden
  | ErrInvalid
  | ErrLimited
  | ErrWarned
  | Group_ErrGroupLimit
  | IsolationError time
  | ErrVoiceLimit
  | GroupRandom
  | GroupToken
  | GroupVoice
  | GroupPanic
  | GroupStore store_error
  | GroupAttach attach_error

record group_limits =
  MaxUserGroups :: int
  DiscoverMinMembers :: int

record group_cleanup_config =
  InactiveAfter :: duration
  DeleteGrace :: duration
  BatchSize :: int
  DryRun :: bool

record emergency_config =
  ec_InactiveAfter :: duration
  ec_MessageMinAge :: duration
  ec_BatchSize :: int

record emergency_stats =
  InactiveGroupsDeleted :: int
  OldMessagesDeleted :: int

text \<open>\<open>gs_unicode\<close> and \<open>gs_voice\<close> are the parameters of the standard library and of the gateway.\<close>

record group_service =
  gs_unicode :: unicode
  gs_voice :: crypto
  gs_guard :: "abuse_config option"
  gs_cleanup :: group_cleanup_config
  gs_limits :: group_limits

definition Cleanup_DefaultConfig :: group_cleanup_config where
  "Cleanup_DefaultConfig =
     \<lparr>InactiveAfter = 7 * (24 * hour), DeleteGrace = 24 * hour, BatchSize = 20, DryRun = True\<rparr>"

definition DefaultLimits :: group_limits where
  "DefaultLimits = \<lparr>MaxUserGroups = 3, DiscoverMinMembers = 5\<rparr>"

definition Groups_New :: "unicode \<Rightarrow> crypto \<Rightarrow> group_service" where
  "Groups_New u v = \<lparr>gs_unicode = u, gs_voice = v, gs_guard = None, gs_cleanup = Cleanup_DefaultConfig,
     gs_limits = DefaultLimits\<rparr>"

definition WithMessageGuard :: "group_service \<Rightarrow> abuse_config \<Rightarrow> group_service" where
  "WithMessageGuard s guard = s\<lparr>gs_guard := Some guard\<rparr>"

definition WithCleanup :: "group_service \<Rightarrow> group_cleanup_config \<Rightarrow> group_service" where
  "WithCleanup s cfg = s\<lparr>gs_cleanup := cfg\<rparr>"

definition WithLimits :: "group_service \<Rightarrow> group_limits \<Rightarrow> group_service" where
  "WithLimits s limits = s\<lparr>gs_limits := limits\<rparr>"

record group_world = guard_world +
  g_hub :: hub

type_synonym ('z, 'a) groupm = "('z group_world_scheme, group_error, 'a) action"

fun mapErr :: "group_error \<Rightarrow> group_error" where
  "mapErr (GroupStore ErrNotFound) = Group_ErrNotFound"
| "mapErr e = e"

text \<open>A call of the store whose error is returned as it is, and through \<^verbatim>\<open>mapErr\<close>.\<close>

definition store_call :: "('z group_world_scheme, store_error, 'a) action \<Rightarrow> ('z, 'a) groupm" where
  "store_call m = map_error GroupStore m"

definition mapped :: "('z group_world_scheme, store_error, 'a) action \<Rightarrow> ('z, 'a) groupm" where
  "mapped m = map_error mapErr (store_call m)"

text \<open>A call whose error has a default: \<^verbatim>\<open>if err != nil { return x }\<close>.\<close>

definition or_default :: "('z group_world_scheme, store_error, 'a) action \<Rightarrow> 'a \<Rightarrow> ('z, 'a) groupm" where
  "or_default m x = andThen (attempt m) (\<lambda>r. case r of Inl _ \<Rightarrow> ret x | Inr y \<Rightarrow> ret y)"

definition Groups_ID :: "string \<Rightarrow> ('z, string) groupm" where
  "Groups_ID pre =
     andThen (read_full 16) (\<lambda>b. case b of None \<Rightarrow> raise GroupRandom | Some bytes \<Rightarrow> ret (pre @ hex_encode bytes))"

definition group_member_check :: "string \<Rightarrow> string \<Rightarrow> ('z, bool) groupm" where
  "group_member_check gid user = or_default (IsGroupMember gid user) False"

section \<open>Events\<close>

definition hub_publish :: "string list \<Rightarrow> event \<Rightarrow> ('z, unit) groupm" where
  "hub_publish userIDs e w =
     (case Publish userIDs e (g_hub w) of
        None \<Rightarrow> (Inl GroupPanic, w)
      | Some h \<Rightarrow> (Inr (), w\<lparr>g_hub := h\<rparr>))"

text \<open>What callers hand to \<^verbatim>\<open>publishGroup\<close>: a group or a message of the model, or event data.\<close>

datatype raw_data =
    RawGroup group
  | RawMessage group_message
  | Ready event_data

fun publicEventData :: "raw_data \<Rightarrow> event_data" where
  "publicEventData (RawGroup value) = GroupData (GroupView value)"
| "publicEventData (RawMessage value) = MessageData (MessageView value)"
| "publicEventData (Ready data) = data"

definition publishGroup :: "string \<Rightarrow> string \<Rightarrow> raw_data \<Rightarrow> ('z, unit) groupm" where
  "publishGroup gid typ data =
     andThen (attempt (GroupMemberIDs gid :: ('z group_world_scheme, store_error, string list) action)) (\<lambda>r.
     case r of
       Inl _ \<Rightarrow> ret ()
     | Inr ids \<Rightarrow> hub_publish ids \<lparr>Type = typ, GroupID = gid, Data = publicEventData data\<rparr>)"

definition withOnline :: "group \<Rightarrow> ('z, group) groupm" where
  "withOnline g =
     andThen (or_default (GroupMemberIDs (group_ID g)) []) (\<lambda>ids.
     andThen (peek g_hub) (\<lambda>h.
     ret (g\<lparr>OnlineCount := OnlineCount g + int (length (filter (\<lambda>i. Online i h) ids))\<rparr>)))"

definition events_PublishMessageDeleted :: "string \<Rightarrow> string \<Rightarrow> ('z, unit) groupm" where
  "events_PublishMessageDeleted groupID messageID =
     andThen (store_call (GroupMemberIDs groupID)) (\<lambda>ids.
     hub_publish ids \<lparr>Type = ''message_deleted'', GroupID = groupID, Data = MessageDeletedEvent messageID\<rparr>)"

definition PublishMessageDeleted :: "string \<Rightarrow> string \<Rightarrow> ('z, unit) groupm" where
  "PublishMessageDeleted groupID messageID = events_PublishMessageDeleted groupID messageID"

definition publishPresence :: "string \<Rightarrow> ('z, unit) groupm" where
  "publishPresence userID =
     andThen (or_default (UserGroups userID) []) (\<lambda>items.
     for_each (\<lambda>group.
       andThen (withOnline group) (\<lambda>g.
       publishGroup (group_ID group) ''presence_updated'' (Ready (GroupData (GroupView g))))) items)"

text \<open>\<open>Subscribe\<close> and the function it returns.\<close>

definition hub_subscribe :: "string \<Rightarrow> ('z, nat) groupm" where
  "hub_subscribe userID w = (case Hub.Subscribe userID (g_hub w) of (i, h) \<Rightarrow> (Inr i, w\<lparr>g_hub := h\<rparr>))"

definition hub_stop :: "string \<Rightarrow> nat \<Rightarrow> ('z, unit) groupm" where
  "hub_stop userID i w =
     (case Stop userID i (g_hub w) of
        None \<Rightarrow> (Inl GroupPanic, w)
      | Some h \<Rightarrow> (Inr (), w\<lparr>g_hub := h\<rparr>))"

definition Groups_Subscribe :: "string \<Rightarrow> ('z, nat) groupm" where
  "Groups_Subscribe userID =
     andThen (peek (\<lambda>w. Online userID (g_hub w))) (\<lambda>wasOnline.
     andThen (hub_subscribe userID) (\<lambda>events.
     andThen (if \<not> wasOnline then publishPresence userID else ret ()) (\<lambda>_.
     ret events)))"

definition Groups_Unsubscribe :: "string \<Rightarrow> nat \<Rightarrow> ('z, unit) groupm" where
  "Groups_Unsubscribe userID events =
     andThen (hub_stop userID events) (\<lambda>_.
     andThen (peek (\<lambda>w. Online userID (g_hub w))) (\<lambda>online.
     if \<not> online then publishPresence userID else ret ()))"

definition SetTyping :: "string \<Rightarrow> user \<Rightarrow> bool \<Rightarrow> ('z, unit) groupm" where
  "SetTyping gid u active =
     andThen (group_member_check gid (user_ID u)) (\<lambda>ok.
     if \<not> ok then raise Group_ErrForbidden
     else
     andThen (store_call (GroupMemberIDs gid)) (\<lambda>ids.
     hub_publish ids \<lparr>Type = ''typing_updated'', GroupID = gid, Data = TypingEvent (event_member_of u) active\<rparr>))"

section \<open>Creating and finding groups\<close>

definition two_people :: string where "two_people = map char_of [240 :: nat, 159, 145, 165]"

definition Groups_Create :: "group_service \<Rightarrow> user \<Rightarrow> string \<Rightarrow> string \<Rightarrow> string \<Rightarrow> ('z, group) groupm" where
  "Groups_Create s u name avatar visibility =
     (let name = TrimSpace name in
      if name = [] \<or> RuneCountInString name > 80 \<or> (visibility \<noteq> ''public'' \<and> visibility \<noteq> ''private'')
      then raise ErrInvalid
      else
      andThen (Groups_ID ''grp_'') (\<lambda>gid.
      andThen (Groups_ID ''inv_'') (\<lambda>invite.
      if avatar \<noteq> [] \<and> \<not> ValidSymbol avatar then raise ErrInvalid
      else
      let avatar = (if avatar = [] then two_people else avatar) in
      andThen clock (\<lambda>now.
      andThen (map_error (\<lambda>e. if e = GroupStore ErrGroupLimit then Group_ErrGroupLimit else e)
        (store_call (Store_CreateGroup
          \<lparr>ng_ID = gid, ng_Visibility = visibility, ng_OwnerID = user_ID u, ng_Name = name,
           ng_Avatar = avatar, ng_InviteToken = invite\<rparr> now (MaxUserGroups (gs_limits s))))) (\<lambda>_.
      store_call (Store_Group gid))))))"

definition Groups_Get :: "string \<Rightarrow> user option \<Rightarrow> ('z, group) groupm" where
  "Groups_Get gid u =
     andThen (mapped (Store_Group gid)) (\<lambda>g.
     andThen
       (if Visibility g = ''private'' then
          (case u of
             None \<Rightarrow> raise Group_ErrNotFound
           | Some u \<Rightarrow>
               andThen (group_member_check gid (user_ID u)) (\<lambda>ok.
               if ok then ret () else raise Group_ErrNotFound))
        else ret ()) (\<lambda>_.
     andThen (withOnline g) (\<lambda>g.
     case u of
       None \<Rightarrow> ret g
     | Some u \<Rightarrow>
         if Visibility g = ''private'' \<and> user_ID u \<noteq> user_ID (Owner g) then
           andThen (group_member_check gid (user_ID u)) (\<lambda>ok.
           if \<not> ok then ret g
           else
           andThen (attempt (GroupMemberJoinedAt gid (user_ID u)
             :: ('z group_world_scheme, store_error, time) action)) (\<lambda>r.
           case r of
             Inl _ \<Rightarrow> ret g
           | Inr joined \<Rightarrow>
               ret (if joined > group_CreatedAt g then g\<lparr>HistoryVisibleFrom := Some joined\<rparr> else g)))
         else ret g)))"

definition Groups_List :: "user \<Rightarrow> ('z, group list) groupm" where
  "Groups_List u =
     andThen (store_call (UserGroups (user_ID u))) (\<lambda>gs. collect withOnline gs)"

definition Groups_Discover :: "group_service \<Rightarrow> string \<Rightarrow> int \<Rightarrow> int \<Rightarrow> ('z, group list) groupm" where
  "Groups_Discover s q limit offset =
     (let q = TrimSpace q in
      if (q \<noteq> [] \<and> RuneCountInString q < 2) \<or> RuneCountInString q > 80 \<or> limit < 1 \<or> limit > 50
         \<or> offset < 0 \<or> offset > 1000
      then raise ErrInvalid
      else
      andThen (store_call (DiscoverGroups (ToLower (gs_unicode s)) q (DiscoverMinMembers (gs_limits s)) limit offset)) (\<lambda>gs.
      collect withOnline gs))"

definition Groups_Invite :: "string \<Rightarrow> ('z, group) groupm" where
  "Groups_Invite token =
     andThen (mapped (GroupByInvite token)) (\<lambda>g. withOnline (g\<lparr>InviteToken := []\<rparr>))"

section \<open>Isolation\<close>

fun memberEventFrom :: "group_member list \<Rightarrow> string \<Rightarrow> event_member" where
  "memberEventFrom [] userID = \<lparr>em_ID = [], em_DisplayName = [], em_Avatar = []\<rparr>"
| "memberEventFrom (m # members) userID =
     (if member_ID (gmember m) = userID
      then \<lparr>em_ID = member_ID (gmember m), em_DisplayName = member_DisplayName (gmember m),
            em_Avatar = member_Avatar (gmember m)\<rparr>
      else memberEventFrom members userID)"

text \<open>Errors end it silently; \<open>ErrPanic\<close> is not an error but a panic of the store.\<close>

definition applyIsolation :: "string \<Rightarrow> string list \<Rightarrow> ('z, unit) groupm" where
  "applyIsolation gid candidates =
     andThen (attempt (GroupMemberIDs gid)) (\<lambda>r.
     case r of Inl (_ :: store_error) \<Rightarrow> ret () | Inr before \<Rightarrow>
     andThen (attempt (Store_GroupMembers gid [])) (\<lambda>r.
     case r of Inl (_ :: store_error) \<Rightarrow> ret () | Inr details \<Rightarrow>
     andThen clock (\<lambda>now.
     andThen (attempt (IsolateGroup gid candidates now)) (\<lambda>r.
     case r of Inl e \<Rightarrow> if e = ErrPanic then raise GroupPanic else ret () | Inr (g, removed) \<Rightarrow>
     andThen (for_each (\<lambda>i.
       let member = memberEventFrom details i in
       if em_ID member \<noteq> []
       then hub_publish before \<lparr>Type = ''member_removed'', GroupID = gid, Data = MemberEvent member\<rparr>
       else ret ()) removed) (\<lambda>_.
     hub_publish before \<lparr>Type = ''group_updated'', GroupID = gid, Data = GroupData (GroupView g)\<rparr>)))))"

definition evaluateJoinAttack :: "string \<Rightarrow> ('z, unit) groupm" where
  "evaluateJoinAttack gid =
     andThen clock (\<lambda>now.
     andThen (attempt (JoinAttackCandidates gid now)) (\<lambda>r.
     case r of
       Inl (_ :: store_error) \<Rightarrow> ret ()
     | Inr (candidates, _) \<Rightarrow> if candidates = [] then ret () else applyIsolation gid candidates))"

definition isolateMessageAttack :: "string \<Rightarrow> user \<Rightarrow> ('z, unit) groupm" where
  "isolateMessageAttack gid u =
     andThen (group_member_check gid (user_ID u)) (\<lambda>ok.
     if \<not> ok then ret () else applyIsolation gid [user_ID u])"

section \<open>Joining and leaving\<close>

definition addMembershipMessage :: "string \<Rightarrow> user \<Rightarrow> string \<Rightarrow> ('z, group_message) groupm" where
  "addMembershipMessage gid actor act =
     andThen (Groups_ID ''msg_'') (\<lambda>mid.
     andThen clock (\<lambda>now.
     let message = \<lparr>msg_ID = mid, msg_GroupID = gid, Kind = ''system'', Event = ''member_'' @ act,
           Author = actor, Body = [], msg_CreatedAt = now, ReplyTo = None, Read = False, Attachments = []\<rparr> in
     andThen (store_call (AddMessage message)) (\<lambda>_.
     andThen (publishGroup gid ''message_created'' (Ready (MessageData (MessageView message)))) (\<lambda>_.
     ret message))))"

definition Groups_Join :: "string \<Rightarrow> user \<Rightarrow> bool \<Rightarrow> string \<Rightarrow> ('z, group) groupm" where
  "Groups_Join gid u byInvite ip =
     andThen (mapped (Store_Group gid)) (\<lambda>g.
     andThen clock (\<lambda>now.
     andThen (group_member_check gid (user_ID u)) (\<lambda>alreadyMember.
     andThen (ignoring (RecordJoinEvent gid (user_ID u) ip False now)) (\<lambda>_.
     if \<not> byInvite \<and> Visibility g \<noteq> ''public'' then raise Group_ErrForbidden
     else if JoinBlocked g \<and> \<not> alreadyMember then
       (case JoinBlockedUntil g of None \<Rightarrow> raise GroupPanic | Some until \<Rightarrow> raise (IsolationError until))
     else
     andThen (mapped (Store_JoinGroup gid (user_ID u) now)) (\<lambda>_.
     andThen
       (if \<not> alreadyMember then
          andThen (ignoring (RecordJoinEvent gid (user_ID u) ip True now)) (\<lambda>_.
          evaluateJoinAttack gid)
        else ret ()) (\<lambda>_.
     andThen
       (if \<not> alreadyMember then
          andThen (addMembershipMessage gid u ''joined'') (\<lambda>_.
          publishGroup gid ''member_joined'' (Ready (NewMemberEvent u)))
        else ret ()) (\<lambda>_.
     andThen (publishGroup gid ''group_updated'' (Ready (GroupData (GroupView g)))) (\<lambda>_.
     Groups_Get gid (Some u)))))))))"

record group_profile =
  profile_Group :: group
  profile_Members :: "group_member list"
  profile_SpamWarnings :: "group_spam_warning list"

definition Groups_Profile :: "string \<Rightarrow> user \<Rightarrow> ('z, group_profile) groupm" where
  "Groups_Profile gid u =
     andThen (Groups_Get gid (Some u)) (\<lambda>group.
     andThen
       (if Visibility group = ''private'' then
          andThen (group_member_check gid (user_ID u)) (\<lambda>ok.
          if \<not> ok then raise Group_ErrForbidden else ret ())
        else ret ()) (\<lambda>_.
     andThen (store_call (Store_GroupMembers gid (user_ID (Owner group)))) (\<lambda>members.
     andThen clock (\<lambda>now.
     andThen (store_call (GroupSpamWarnings gid (now - 30 * (24 * hour)))) (\<lambda>warnings.
     ret \<lparr>profile_Group = group, profile_Members = members, profile_SpamWarnings = warnings\<rparr>)))))"

text \<open>The recipients are the keys of a map; each is told once, in whatever order.\<close>

definition PublishProfileUpdated :: "user \<Rightarrow> ('z, unit) groupm" where
  "PublishProfileUpdated u =
     andThen (attempt (UserGroups (user_ID u))) (\<lambda>r.
     case r of
       Inl (_ :: store_error) \<Rightarrow> ret ()
     | Inr groups \<Rightarrow>
         andThen (collect (\<lambda>g. or_default (GroupMemberIDs (group_ID g)) []) groups) (\<lambda>ids.
         hub_publish (remdups (user_ID u # concat ids))
           \<lparr>Type = ''profile_updated'', GroupID = [], Data = NewMemberEvent u\<rparr>))"

definition deleteGroup :: "string \<Rightarrow> string list \<Rightarrow> ('z, unit) groupm" where
  "deleteGroup gid members =
     andThen (mapped (Store_DeleteGroup gid)) (\<lambda>_.
     hub_publish members \<lparr>Type = ''group_deleted'', GroupID = gid, Data = NoData\<rparr>)"

definition Groups_Delete :: "string \<Rightarrow> user \<Rightarrow> ('z, unit) groupm" where
  "Groups_Delete gid u =
     andThen (mapped (Store_Group gid)) (\<lambda>group.
     if user_ID (Owner group) \<noteq> user_ID u then raise Group_ErrForbidden
     else
     andThen (store_call (GroupMemberIDs gid)) (\<lambda>members.
     deleteGroup gid members))"

definition Groups_Leave :: "string \<Rightarrow> user \<Rightarrow> ('z, unit) groupm" where
  "Groups_Leave gid u =
     andThen (mapped (Store_Group gid)) (\<lambda>group.
     andThen (if user_ID (Owner group) = user_ID u then ret False else group_member_check gid (user_ID u)) (\<lambda>ok.
     if \<not> ok then raise Group_ErrForbidden
     else
     andThen (store_call (GroupMemberIDs gid)) (\<lambda>members.
     andThen (mapped (Store_LeaveGroup gid (user_ID u))) (\<lambda>_.
     andThen (addMembershipMessage gid u ''left'') (\<lambda>_.
     andThen (hub_publish members \<lparr>Type = ''member_left'', GroupID = gid, Data = NewMemberEvent u\<rparr>) (\<lambda>_.
     publishGroup gid ''group_updated'' (RawGroup group)))))))"

fun removed_member :: "string \<Rightarrow> group_member list \<Rightarrow> event_member" where
  "removed_member memberID [] = \<lparr>em_ID = memberID, em_DisplayName = [], em_Avatar = []\<rparr>"
| "removed_member memberID (m # members) =
     (if member_ID (gmember m) = memberID
      then \<lparr>em_ID = member_ID (gmember m), em_DisplayName = member_DisplayName (gmember m),
            em_Avatar = member_Avatar (gmember m)\<rparr>
      else removed_member memberID members)"

definition Groups_RemoveMember :: "string \<Rightarrow> string \<Rightarrow> user \<Rightarrow> ('z, group_profile) groupm" where
  "Groups_RemoveMember gid memberID u =
     andThen (mapped (Store_Group gid)) (\<lambda>group.
     if user_ID (Owner group) \<noteq> user_ID u \<or> memberID = user_ID u \<or> memberID = user_ID (Owner group)
     then raise Group_ErrForbidden
     else
     andThen (store_call (GroupMemberIDs gid)) (\<lambda>members.
     andThen (store_call (Store_GroupMembers gid (user_ID (Owner group)))) (\<lambda>groupMembers.
     let member = removed_member memberID groupMembers in
     andThen (mapped (RemoveGroupMember gid memberID)) (\<lambda>_.
     andThen (addMembershipMessage gid u ''removed'') (\<lambda>_.
     andThen (Groups_Profile gid u) (\<lambda>updated.
     andThen (hub_publish members \<lparr>Type = ''member_removed'', GroupID = gid, Data = MemberEvent member\<rparr>) (\<lambda>_.
     andThen (hub_publish members \<lparr>Type = ''group_updated'', GroupID = gid,
         Data = GroupData (GroupView (profile_Group updated))\<rparr>) (\<lambda>_.
     ret updated))))))))"

section \<open>Messages\<close>

definition MessageHasContent :: "string \<Rightarrow> int \<Rightarrow> bool" where
  "MessageHasContent body attachmentCount \<longleftrightarrow> TrimSpace body \<noteq> [] \<or> attachmentCount > 0"

definition Groups_Messages :: "string \<Rightarrow> user option \<Rightarrow> int \<Rightarrow> ('z, group_message list) groupm" where
  "Groups_Messages gid u limit =
     andThen (mapped (Store_Group gid)) (\<lambda>group.
     andThen clock (\<lambda>now.
     let reader = (case u of None \<Rightarrow> [] | Some u \<Rightarrow> user_ID u) in
     andThen
       (if Visibility group = ''private'' then
          (case u of
             None \<Rightarrow> raise Group_ErrForbidden
           | Some u \<Rightarrow>
               andThen (group_member_check gid (user_ID u)) (\<lambda>ok.
               if \<not> ok then raise Group_ErrForbidden
               else mapped (GroupMemberJoinedAt gid (user_ID u))))
        else ret (now - 7 * (24 * hour))) (\<lambda>cutoff.
     store_call (Store_Messages gid cutoff limit reader))))"

definition MarkRead :: "string \<Rightarrow> string \<Rightarrow> string \<Rightarrow> ('z, unit) groupm" where
  "MarkRead gid userID messageID =
     andThen (group_member_check gid userID) (\<lambda>ok.
     if \<not> ok then raise Group_ErrForbidden
     else if messageID = [] then raise ErrInvalid
     else
     andThen clock (\<lambda>now.
     andThen (mapped (MarkGroupMessagesRead gid userID messageID now)) (\<lambda>receipts.
     for_each (\<lambda>receipt. hub_publish [receipt_AuthorID receipt]
       \<lparr>Type = ''message_read'', GroupID = gid, Data = MessageReadEvent (receipt_MessageID receipt)\<rparr>) receipts)))"

text \<open>The message a reply refers to: it must be of the same group.\<close>

definition reply_reference :: "string \<Rightarrow> string \<Rightarrow> ('z, message_reference option) groupm" where
  "reply_reference gid replyToID =
     (if replyToID = [] then ret None
      else
      andThen (attempt (Store_Message replyToID)) (\<lambda>r.
      case r of
        Inl (_ :: store_error) \<Rightarrow> raise ErrInvalid
      | Inr original \<Rightarrow>
          if msg_GroupID original \<noteq> gid then raise ErrInvalid
          else ret (Some \<lparr>ref_ID = msg_ID original, ref_Kind = Kind original, ref_Event = Event original,
                         ref_Author = Author original, ref_Body = Body original\<rparr>)))"

text \<open>What the guard's verdict becomes; its panics pass through.\<close>

fun verdict :: "guard_error \<Rightarrow> group_error" where
  "verdict ErrMessageWarning = ErrWarned"
| "verdict ErrMessageRateLimited = ErrLimited"
| "verdict (GuardStore ErrPanic) = GroupPanic"
| "verdict _ = ErrInvalid"

fun reserve_error :: "guard_error \<Rightarrow> group_error" where
  "reserve_error (GuardStore e) = GroupStore e"
| "reserve_error e = verdict e"

definition checked :: "group_service \<Rightarrow> abuse_config \<Rightarrow> string \<Rightarrow> user \<Rightarrow> string \<Rightarrow> ('z, unit) groupm" where
  "checked s cfg gid u body =
     andThen (Guard_Check (gs_unicode s) cfg gid u body) (\<lambda>(result, checkErr).
     case checkErr of
       None \<Rightarrow> ret ()
     | Some e \<Rightarrow>
         andThen (if IsolateFlag result then isolateMessageAttack gid u else ret ()) (\<lambda>_.
         raise (verdict e)))"

definition message_of ::
  "string \<Rightarrow> string \<Rightarrow> user \<Rightarrow> string \<Rightarrow> time \<Rightarrow> message_reference option \<Rightarrow> attachment list \<Rightarrow> group_message" where
  "message_of mid gid u body now reply items =
     \<lparr>msg_ID = mid, msg_GroupID = gid, Kind = [], Event = [], Author = u, Body = body, msg_CreatedAt = now,
      ReplyTo = reply, Read = False, Attachments = items\<rparr>"

definition send ::
  "group_service \<Rightarrow> string \<Rightarrow> user \<Rightarrow> string \<Rightarrow> message_reference option \<Rightarrow> string \<Rightarrow> ('z, group_message) groupm" where
  "send s gid u body reply idempotencyKey =
     andThen (group_member_check gid (user_ID u)) (\<lambda>ok.
     if \<not> ok then raise Group_ErrForbidden
     else
     let body = TrimSpace body in
     if \<not> MessageHasContent body 0 \<or> RuneCountInString body > 4000 then raise ErrInvalid
     else
     andThen (Groups_ID ''msg_'') (\<lambda>mid.
     andThen
       (case gs_guard s of
          None \<Rightarrow> ret (mid, True)
        | Some cfg \<Rightarrow> map_error reserve_error (Guard_Reserve cfg gid (user_ID u) idempotencyKey mid)) (\<lambda>(mid, fresh).
     if \<not> fresh then store_call (Store_Message mid)
     else
     andThen (case gs_guard s of None \<Rightarrow> ret () | Some cfg \<Rightarrow> checked s cfg gid u body) (\<lambda>_.
     andThen clock (\<lambda>now.
     let m = message_of mid gid u body now reply [] in
     andThen (store_call (AddMessage m)) (\<lambda>_.
     andThen (publishGroup gid ''message_created'' (Ready (MessageData (MessageView m)))) (\<lambda>_.
     ret m)))))))"

definition Send :: "group_service \<Rightarrow> string \<Rightarrow> user \<Rightarrow> string \<Rightarrow> string \<Rightarrow> ('z, group_message) groupm" where
  "Send s gid u body idempotencyKey = send s gid u body None idempotencyKey"

definition SendReply ::
  "group_service \<Rightarrow> string \<Rightarrow> user \<Rightarrow> string \<Rightarrow> string \<Rightarrow> string \<Rightarrow> ('z, group_message) groupm" where
  "SendReply s gid u body replyToID idempotencyKey =
     andThen (reply_reference gid replyToID) (\<lambda>reply. send s gid u body reply idempotencyKey)"

text \<open>A prepared upload with the storage it belongs to.\<close>

record attachment_batch =
  ab_base :: string
  ab_limits :: attachment_limits
  ab_batch :: upload_batch

definition roll_back :: "upload_batch \<Rightarrow> ('z, unit) groupm" where
  "roll_back b = map_error GroupAttach (andThen (batch_Rollback b) (\<lambda>_. ret ()))"

text \<open>\<^verbatim>\<open>if err != nil { batch.Rollback(); return err }\<close>\<close>

definition or_roll_back :: "('z, 'a) groupm \<Rightarrow> upload_batch \<Rightarrow> ('z, 'a) groupm" where
  "or_roll_back m b =
     andThen (attempt m) (\<lambda>r.
     case r of
       Inr x \<Rightarrow> ret x
     | Inl e \<Rightarrow> if e = GroupPanic then raise e else andThen (roll_back b) (\<lambda>_. raise e))"

definition checked_upload ::
  "group_service \<Rightarrow> abuse_config \<Rightarrow> string \<Rightarrow> user \<Rightarrow> string \<Rightarrow> upload_batch \<Rightarrow> ('z, unit) groupm" where
  "checked_upload s cfg gid u body b =
     andThen (Guard_Check (gs_unicode s) cfg gid u body) (\<lambda>(result, checkErr).
     case checkErr of
       None \<Rightarrow> ret ()
     | Some (GuardStore ErrPanic) \<Rightarrow> raise GroupPanic
     | Some e \<Rightarrow>
         andThen (roll_back b) (\<lambda>_.
         andThen (if IsolateFlag result then isolateMessageAttack gid u else ret ()) (\<lambda>_.
         raise (verdict e))))"

definition store_upload ::
  "string \<Rightarrow> user \<Rightarrow> string \<Rightarrow> message_reference option \<Rightarrow> string \<Rightarrow> attachment_batch \<Rightarrow> ('z, group_message) groupm" where
  "store_upload gid u body reply mid batch =
     andThen clock (\<lambda>now.
     andThen (map_error GroupAttach (batch_Commit (ab_base batch) (ab_limits batch) (ab_batch batch) mid gid now))
       (\<lambda>(committed, b).
     andThen (or_roll_back (case committed of Inl e \<Rightarrow> raise (GroupAttach e) | Inr items \<Rightarrow> ret items) b) (\<lambda>items.
     andThen (or_roll_back (if \<not> MessageHasContent body (int (length items)) then raise ErrInvalid else ret ()) b) (\<lambda>_.
     andThen clock (\<lambda>now.
     let m = message_of mid gid u body now reply items in
     andThen (or_roll_back (store_call (AddMessageWithAttachments m items)) b) (\<lambda>_.
     andThen (publishGroup gid ''message_created'' (Ready (MessageData (MessageView m)))) (\<lambda>_.
     ret m)))))))"

definition SendWithAttachments ::
  "group_service \<Rightarrow> string \<Rightarrow> user \<Rightarrow> string \<Rightarrow> string \<Rightarrow> attachment_batch option \<Rightarrow> string
   \<Rightarrow> ('z, group_message) groupm" where
  "SendWithAttachments s gid u body replyToID batch idempotencyKey =
     (case batch of
        None \<Rightarrow> raise ErrInvalid
      | Some batch \<Rightarrow>
          let b = ab_batch batch in
          andThen (group_member_check gid (user_ID u)) (\<lambda>ok.
          andThen (or_roll_back (if \<not> ok then raise Group_ErrForbidden else ret ()) b) (\<lambda>_.
          let body = TrimSpace body in
          andThen (or_roll_back (if RuneCountInString body > 4000 then raise ErrInvalid else ret ()) b) (\<lambda>_.
          andThen (or_roll_back (reply_reference gid replyToID) b) (\<lambda>reply.
          andThen (or_roll_back (Groups_ID ''msg_'') b) (\<lambda>mid.
          andThen
            (case gs_guard s of
               None \<Rightarrow> ret (mid, True)
             | Some cfg \<Rightarrow>
                 or_roll_back (map_error reserve_error (Guard_Reserve cfg gid (user_ID u) idempotencyKey mid)) b)
            (\<lambda>(mid, fresh).
          if \<not> fresh then andThen (roll_back b) (\<lambda>_. store_call (Store_Message mid))
          else
          andThen
            (case gs_guard s of
               None \<Rightarrow> ret ()
             | Some cfg \<Rightarrow> if body \<noteq> [] then checked_upload s cfg gid u body b else ret ()) (\<lambda>_.
          store_upload gid u body reply mid batch))))))))"

definition Groups_DeleteMessage :: "string \<Rightarrow> string \<Rightarrow> user \<Rightarrow> ('z, unit) groupm" where
  "Groups_DeleteMessage gid mid u =
     andThen (mapped (Store_Message mid)) (\<lambda>message.
     if msg_GroupID message \<noteq> gid then raise Group_ErrNotFound
     else
     andThen (group_member_check (msg_GroupID message) (user_ID u)) (\<lambda>ok.
     if \<not> ok then raise Group_ErrForbidden
     else
     andThen (mapped (Store_Group (msg_GroupID message))) (\<lambda>group.
     if user_ID (Author message) \<noteq> user_ID u \<and> user_ID (Owner group) \<noteq> user_ID u then raise Group_ErrForbidden
     else
     andThen (mapped (Store_DeleteMessage mid)) (\<lambda>_.
     publishGroup (msg_GroupID message) ''message_deleted'' (Ready (MessageDeletedEvent mid))))))"

section \<open>Voice rooms\<close>

definition maxGroupVoiceRooms :: int where "maxGroupVoiceRooms = 5"

definition roomName :: "group_voice_room \<Rightarrow> string" where
  "roomName r = ''group:'' @ voice_GroupID r @ '':'' @ voice_ID r"

record join_voice =
  jv_LiveKitURL :: string
  jv_AccessToken :: string
  jv_VoiceRoomID :: string

definition CreateVoice :: "string \<Rightarrow> user \<Rightarrow> string \<Rightarrow> ('z, group_voice_room) groupm" where
  "CreateVoice gid u name =
     andThen (mapped (Store_Group gid)) (\<lambda>g.
     if user_ID (Owner g) \<noteq> user_ID u then raise Group_ErrForbidden
     else
     let name = TrimSpace name in
     if name = [] \<or> RuneCountInString name > 80 then raise ErrInvalid
     else
     andThen (Groups_ID ''gvr_'') (\<lambda>vid.
     andThen clock (\<lambda>now.
     andThen (map_error (\<lambda>e. if e = GroupStore ErrRoomFull then ErrVoiceLimit else e)
       (store_call (CreateVoiceRoom vid gid name now maxGroupVoiceRooms))) (\<lambda>_.
     andThen (Groups_Get gid (Some u)) (\<lambda>g.
     andThen (publishGroup gid ''group_updated'' (Ready (GroupData (GroupView g)))) (\<lambda>_.
     if VoiceRooms g = [] then raise GroupPanic else ret (List.last (VoiceRooms g))))))))"

definition DeleteVoice :: "string \<Rightarrow> user \<Rightarrow> ('z, unit) groupm" where
  "DeleteVoice vid u =
     andThen (mapped (VoiceRoom vid)) (\<lambda>r.
     andThen (mapped (Store_Group (voice_GroupID r))) (\<lambda>g.
     if user_ID (Owner g) \<noteq> user_ID u then raise Group_ErrForbidden
     else
     andThen (mapped (DeleteVoiceRoom vid)) (\<lambda>_.
     andThen (gateway (GatewayDeleteRoom (roomName r))) (\<lambda>ok.
     if \<not> ok then raise GroupVoice
     else
     andThen (Groups_Get (voice_GroupID r) (Some u)) (\<lambda>updated.
     publishGroup (voice_GroupID r) ''group_updated'' (Ready (GroupData (GroupView updated))))))))"

definition Groups_JoinVoice :: "group_service \<Rightarrow> string \<Rightarrow> user \<Rightarrow> ('z, join_voice) groupm" where
  "Groups_JoinVoice s vid u =
     andThen (mapped (VoiceRoom vid)) (\<lambda>r.
     andThen (group_member_check (voice_GroupID r) (user_ID u)) (\<lambda>ok.
     if \<not> ok then raise Group_ErrForbidden
     else
     andThen clock (\<lambda>now.
     andThen (store_call (EnterVoice vid (user_ID u) now)) (\<lambda>old.
     andThen
       (if old \<noteq> [] \<and> old \<noteq> vid then
          andThen (attempt (VoiceRoom old)) (\<lambda>x.
          case x of
            Inl (_ :: store_error) \<Rightarrow> ret ()
          | Inr oldR \<Rightarrow> andThen (gateway (GatewayRemoveParticipant (roomName oldR) (user_ID u))) (\<lambda>_. ret ()))
        else ret ()) (\<lambda>_.
     andThen (gateway (GatewayJoinToken (roomName r) (user_ID u) (30 * minute))) (\<lambda>ok.
     if \<not> ok then raise GroupToken
     else
     andThen (publishGroup (voice_GroupID r) ''voice_updated'' (Ready (VoiceRoomData vid))) (\<lambda>_.
     ret \<lparr>jv_LiveKitURL = public_url (gs_voice s),
          jv_AccessToken = token_text (gs_voice s) (roomName r) u (30 * minute),
          jv_VoiceRoomID = vid\<rparr>)))))))"

definition Groups_LeaveVoice :: "string \<Rightarrow> user \<Rightarrow> ('z, unit) groupm" where
  "Groups_LeaveVoice vid u =
     andThen (mapped (VoiceRoom vid)) (\<lambda>r.
     andThen (group_member_check (voice_GroupID r) (user_ID u)) (\<lambda>ok.
     if \<not> ok then raise Group_ErrForbidden
     else
     andThen (store_call (LeaveVoice vid (user_ID u))) (\<lambda>_.
     andThen (gateway (GatewayRemoveParticipant (roomName r) (user_ID u))) (\<lambda>_.
     publishGroup (voice_GroupID r) ''voice_updated'' (Ready (VoiceRoomData vid))))))"

section \<open>Cleaning up\<close>

definition Cleanup_Run :: "time \<Rightarrow> group_cleanup_config \<Rightarrow> ('z, unit) groupm" where
  "Cleanup_Run now cfg =
     (let batch = (if BatchSize cfg < 1 then 20 else BatchSize cfg);
          inactive = (if InactiveAfter cfg \<le> 0 then 7 * (24 * hour) else InactiveAfter cfg);
          grace = (if DeleteGrace cfg \<le> 0 then 24 * hour else DeleteGrace cfg) in
      andThen (attempt (InactiveGroupCandidates (now - inactive) batch)) (\<lambda>r.
      case r of
        Inl (_ :: store_error) \<Rightarrow> ret ()
      | Inr candidates \<Rightarrow>
          if candidates = [] \<or> DryRun cfg then ret ()
          else
          andThen (attempt (ScheduleInactiveGroups (now - inactive) (now + grace) batch)) (\<lambda>r.
          case r of
            Inl (_ :: store_error) \<Rightarrow> ret ()
          | Inr _ \<Rightarrow> ignoring (DeleteScheduledGroups now (now - inactive) batch))))"

definition Cleanup_Emergency :: "time \<Rightarrow> emergency_config \<Rightarrow> ('z, emergency_stats) groupm" where
  "Cleanup_Emergency now cfg =
     (let batch = (if ec_BatchSize cfg < 1 then 500 else ec_BatchSize cfg);
          inactive = (if ec_InactiveAfter cfg \<le> 0 then 7 * (24 * hour) else ec_InactiveAfter cfg);
          age = (if ec_MessageMinAge cfg \<le> 0 then 24 * hour else ec_MessageMinAge cfg) in
      andThen (ignoring (DeleteExpiredMessages (now - 7 * (24 * hour)))) (\<lambda>_.
      andThen (or_default (purged_ids (now - inactive) batch) []) (\<lambda>groups.
      andThen (or_default (DeleteOldestMessages (now - age) batch) 0) (\<lambda>messages.
      ret \<lparr>InactiveGroupsDeleted = int (length groups), OldMessagesDeleted = messages\<rparr>))))"

definition Groups_Cleanup :: "group_service \<Rightarrow> ('z, unit) groupm" where
  "Groups_Cleanup s =
     andThen clock (\<lambda>now.
     andThen (ignoring (DeleteExpiredMessages (now - 7 * (24 * hour)))) (\<lambda>_.
     andThen clock (\<lambda>now.
     Cleanup_Run now (gs_cleanup s))))"

definition Groups_EmergencyCleanup :: "emergency_config \<Rightarrow> ('z, emergency_stats) groupm" where
  "Groups_EmergencyCleanup cfg = andThen clock (\<lambda>now. Cleanup_Emergency now cfg)"

end
