(* ===== verification/Frames.thy ===== *)
theory Frames
  imports GroupService StorageLaws
begin

text \<open>
  What the operations of the groups leave alone. A frame is a relation between the world
  before and after that holds across every effect of the store, the clock, the random source,
  the gateway and the guard: the reservations of uploads are one, the hub is another. Each
  operation is shown once, for every frame, to stay within it.
\<close>

section \<open>Frames\<close>

definition stays :: "('w \<Rightarrow> 'w \<Rightarrow> bool) \<Rightarrow> ('w, 'e, 'a) action \<Rightarrow> bool" where
  "stays R m \<longleftrightarrow> (\<forall>w. R w (snd (m w)))"

named_theorems stays_intros \<open>operations that stay within a frame\<close>

lemma staysD: "stays R m \<Longrightarrow> m w = (r, w') \<Longrightarrow> R w w'"
  unfolding stays_def by (metis snd_conv)

locale frame =
  fixes R :: "'z group_world_scheme \<Rightarrow> 'z group_world_scheme \<Rightarrow> bool"
  assumes same: "R w w"
    and trans: "R w w1 \<Longrightarrow> R w1 w2 \<Longrightarrow> R w w2"
    and store: "R w (w\<lparr>w_db := d, w_faults := fs\<rparr>)"
    and time: "R w (w\<lparr>x_now := n, x_ticks := ts\<rparr>)"
    and tape: "R w (w\<lparr>x_tape := bs\<rparr>)"
    and calls: "R w (w\<lparr>x_voice_calls := cs, x_voice_faults := vs\<rparr>)"
    and warned: "R w (w\<lparr>g_warned := g\<rparr>)"
begin

lemma store_db: "R w (w\<lparr>w_db := d\<rparr>)" and store_faults: "R w (w\<lparr>w_faults := fs\<rparr>)"
  using store [where w = w and d = d and fs = "w_faults w"] store [where w = w and d = "w_db w" and fs = fs] by simp_all

lemma stays_ret [stays_intros]: "stays R (ret x)"
  by (simp add: stays_def ret_def same)

lemma stays_raise [stays_intros]: "stays R (raise e)"
  by (simp add: stays_def raise_def same)

lemma stays_andThen [stays_intros]:
  assumes "stays R m" "\<And>x. stays R (f x)"
  shows "stays R (andThen m f)"
  unfolding stays_def
proof
  fix w
  show "R w (snd (andThen m f w))"
  proof (cases "m w")
    case (Pair r w1)
    then have "R w w1" using assms(1) by (simp add: staysD)
    then show ?thesis using Pair assms(2) trans
      by (cases r) (auto simp: andThen_run stays_def)
  qed
qed

lemma stays_attempt [stays_intros]: "stays R m \<Longrightarrow> stays R (attempt m)"
  by (simp add: stays_def attempt_run)

lemma stays_ignoring [stays_intros]: "stays R m \<Longrightarrow> stays R (ignoring m)"
  by (simp add: stays_def ignoring_run)

lemma stays_map_error [stays_intros]: "stays R m \<Longrightarrow> stays R (map_error h m)"
  unfolding stays_def by (simp add: map_error_run split_beta split: sum.split)

lemma stays_for_each [stays_intros]: "(\<And>x. stays R (f x)) \<Longrightarrow> stays R (for_each f xs)"
  by (induction xs) (simp_all add: stays_intros)

lemma stays_collect [stays_intros]: "(\<And>x. stays R (f x)) \<Longrightarrow> stays R (collect f xs)"
  by (induction xs) (simp_all add: stays_intros)

lemma stays_if [stays_intros]:
  "(c \<Longrightarrow> stays R m) \<Longrightarrow> (\<not> c \<Longrightarrow> stays R m') \<Longrightarrow> stays R (if c then m else m')"
  by simp

lemma stays_option [stays_intros]:
  "stays R m \<Longrightarrow> (\<And>y. stays R (f y)) \<Longrightarrow> stays R (case x of None \<Rightarrow> m | Some y \<Rightarrow> f y)"
  by (cases x) simp_all

lemma stays_sum [stays_intros]:
  "(\<And>e. stays R (g e)) \<Longrightarrow> (\<And>y. stays R (f y)) \<Longrightarrow> stays R (case x of Inl e \<Rightarrow> g e | Inr y \<Rightarrow> f y)"
  by (cases x) simp_all

lemma stays_prod [stays_intros]: "(\<And>x y. stays R (f x y)) \<Longrightarrow> stays R (case p of (x, y) \<Rightarrow> f x y)"
  by (cases p) simp_all

lemma stays_let [stays_intros]: "(\<And>x. stays R (f x)) \<Longrightarrow> stays R (let x = e in f x)"
  by (simp add: Let_def)

lemma frame_draw_fault: "draw_fault (w :: 'z group_world_scheme) = (b, w1) \<Longrightarrow> R w w1"
  by (auto simp: draw_fault_def same store_faults split: list.splits)

lemma stays_stmt [stays_intros]: "stays R (stmt f)"
  unfolding stays_def
proof
  fix w :: "'z group_world_scheme"
  obtain b w1 where drawn: "draw_fault w = (b, w1)" by (cases "draw_fault w")
  then show "R w (snd (stmt f w))"
    using frame_draw_fault [OF drawn] trans store_db
    by (auto simp: stmt_def split: sum.split prod.split bool.split)
qed

lemma stays_statements [stays_intros]:
  "stays R (select f)" "stays R (exec g)" "stays R (exec_count h)" "stays R (insert_into i)"
  by (simp_all add: select_def exec_def exec_count_def insert_into_def stays_stmt)

lemma stays_transaction [stays_intros]:
  assumes "stays R body"
  shows "stays R (transaction body)" "stays R (transaction_value body)"
proof -
  have "R w (snd (transaction body w)) \<and> R w (snd (transaction_value body w))" for w
  proof -
    obtain b w1 where 1: "draw_fault w = (b, w1)" by (cases "draw_fault w")
    obtain r w2 where 2: "body w1 = (r, w2)" by (cases "body w1")
    obtain c w3 where 3: "draw_fault w2 = (c, w3)" by (cases "draw_fault w2")
    have "R w w1" "R w1 w2" "R w2 w3"
      by (rule frame_draw_fault [OF 1], rule staysD [OF assms 2], rule frame_draw_fault [OF 3])
    then have "R w w1" "R w w2" "R w w3" using trans by blast+
    then show ?thesis
      using 1 2 3 trans [OF _ store_db]
      by (auto simp: transaction_def transaction_value_def split: bool.split sum.split tx_end.split)
  qed
  then show "stays R (transaction body)" "stays R (transaction_value body)"
    by (simp_all add: stays_def)
qed

lemma stays_clock [stays_intros]: "stays R clock"
  using time same by (auto simp: stays_def clock_def ticked_def split: list.split)

lemma stays_read_full [stays_intros]: "stays R (read_full n)"
  using tape by (simp add: stays_def read_full_def)

lemma stays_gateway [stays_intros]: "stays R (gateway c)"
proof -
  have "R w (w\<lparr>x_voice_calls := cs\<rparr>)" "R w (w\<lparr>x_voice_calls := cs, x_voice_faults := vs\<rparr>)" for w cs vs
    using calls [where w = w and vs = "x_voice_faults w" and cs = cs]
      calls [where w = w and vs = vs and cs = cs] by simp_all
  then show ?thesis by (auto simp: stays_def gateway_def Let_def split: list.split)
qed

lemma stays_peek [stays_intros]: "stays R (peek f)"
  by (simp add: stays_def peek_def same)

text \<open>The store.\<close>

lemma stays_reads [stays_intros]:
  "stays R (IsGroupMember gid u)" "stays R (GroupMemberIDs gid)" "stays R (GroupMemberJoinedAt gid u)"
  "stays R (Store_GroupMembers gid owner)" "stays R (Store_Group gid)" "stays R (GroupByInvite token)"
  "stays R (UserGroups u)" "stays R (DiscoverGroups lower q k n offset)" "stays R (ListForMessage mid)"
  "stays R (InactiveGroupCandidates cutoff n)" "stays R (JoinAttackCandidates gid now)"
  "stays R (GroupSpamWarnings gid since)" "stays R (VoiceRoom vid)" "stays R (MessageCooldown gid u now)"
proof -
  have scan: "stays R (scanGroup row)" for row
    unfolding scanGroup_def by (intro stays_intros)
  have hydrate: "stays R (hydrateGroup g)" for g
    unfolding hydrateGroup_def by (intro stays_intros)
  show "stays R (Store_Group gid)" "stays R (GroupByInvite token)"
    unfolding Store_Group_def GroupByInvite_def by (intro stays_intros scan hydrate)+
  have list: "stays R (listGroups tail)" for tail
    unfolding listGroups_def by (intro stays_intros scan hydrate)
  show "stays R (UserGroups u)" "stays R (DiscoverGroups lower q k n offset)"
    unfolding UserGroups_def DiscoverGroups_def by (rule list)+
qed (unfold IsGroupMember_def GroupMemberIDs_def GroupMemberJoinedAt_def Store_GroupMembers_def ListForMessage_def
    InactiveGroupCandidates_def JoinAttackCandidates_def GroupSpamWarnings_def VoiceRoom_def MessageCooldown_def Let_def,
    (intro stays_intros)+)

lemma stays_messages [stays_intros]:
  "stays R (Store_Messages gid cutoff n reader)" "stays R (Store_Message mid)"
  "stays R (AddMessageWithAttachments m items)" "stays R (AddMessage m)" "stays R (Store_DeleteMessage mid)"
  "stays R (DeleteExpiredMessages cutoff)" "stays R (DeleteRecentMessagesByAuthor gid u since n)"
  "stays R (DeleteRecentRepeatedMessages gid u body since n)" "stays R (DeleteOldestMessages olderThan n)"
  "stays R (MarkGroupMessagesRead gid u mid now)" "stays R (ReserveIdempotencyKey scope u key response now ttl)"
  "stays R (RecordMessageViolation gid u now durations)"
  "stays R (CreateGroupSpamWarning gid reason now mc uc cooldown period)"
  unfolding Store_Messages_def groupmessages_List_def Store_Message_def AddMessageWithAttachments_def AddMessage_def
    groupmessages_Add_def attachments_Add_def Store_DeleteMessage_def DeleteExpiredMessages_def
    DeleteRecentMessagesByAuthor_def DeleteRecentRepeatedMessages_def DeleteOldestMessages_def delete_listed_def
    MarkGroupMessagesRead_def ReserveIdempotencyKey_def RecordMessageViolation_def CreateGroupSpamWarning_def Let_def
  by (intro stays_intros)+

lemma stays_removeCandidates [stays_intros]: "stays R (removeCandidates gid uids)"
proof (induction uids)
  case (Cons uid uids)
  then show ?case unfolding removeCandidates.simps by (intro stays_intros)
qed (simp add: stays_ret)

lemma stays_groups [stays_intros]:
  "stays R (Store_CreateGroup new now k)" "stays R (Store_JoinGroup gid u now)" "stays R (Store_DeleteGroup gid)"
  "stays R (Store_LeaveGroup gid u)" "stays R (RemoveGroupMember gid u)" "stays R (RecordJoinEvent gid u ip ok now)"
  "stays R (ScheduleInactiveGroups cutoff due n)" "stays R (DeleteScheduledGroups now before n)"
  "stays R (purged_ids cutoff n)" "stays R (IsolateGroup gid candidates now)"
  unfolding Store_CreateGroup_def Store_JoinGroup_def Store_DeleteGroup_def Store_LeaveGroup_def RemoveGroupMember_def
    RecordJoinEvent_def ScheduleInactiveGroups_def DeleteScheduledGroups_def purged_ids_def inactive_purge_def
    delete_group_def IsolateGroup_def Let_def
  by (intro stays_intros stays_stmt)+

lemma stays_voice [stays_intros]:
  "stays R (CreateVoiceRoom vid gid name now k)" "stays R (DeleteVoiceRoom vid)" "stays R (EnterVoice vid u now)"
  "stays R (LeaveVoice vid u)"
  unfolding CreateVoiceRoom_def DeleteVoiceRoom_def EnterVoice_def LeaveVoice_def Let_def
  by (intro stays_intros)+

text \<open>The guard.\<close>

lemma stays_Allow [stays_intros]: "stays R (Allow cfg scope subject limit)"
  unfolding Allow_def TakeRateLimit_def upsertRateBucket_def Let_def by (intro stays_intros)

lemma stays_warnOnce [stays_intros]: "stays R (warnOnce cfg u now)" "stays R (clearWarning u)"
  by (simp_all add: stays_def warnOnce_def clearWarning_def warned same split: option.split)

lemma stays_guard_db [stays_intros]: "stays R m \<Longrightarrow> stays R (guard_db m)"
  unfolding guard_db_def by (rule stays_map_error)

lemma stays_report [stays_intros]:
  "stays R (report u cfg gid uid body reason now)" "stays R (purge_and_report u cfg gid uid body reason now)"
  unfolding report_def purge_and_report_def evaluateGroup_def guard_violation_def Let_def
  by (intro stays_intros)+

lemma stays_guard [stays_intros]:
  "stays R (Guard_Check u cfg gid user body)" "stays R (Guard_Reserve cfg gid uid key response)"
  unfolding Guard_Check_def check_steps_def Guard_Reserve_def Let_def
  by (intro stays_intros)+

text \<open>The helpers of the service.\<close>

lemma stays_calls [stays_intros]:
  "stays R m \<Longrightarrow> stays R (store_call m)" "stays R m \<Longrightarrow> stays R (mapped m)" "stays R m \<Longrightarrow> stays R (or_default m x)"
  unfolding store_call_def mapped_def or_default_def by (intro stays_intros; assumption)+

lemma stays_service [stays_intros]:
  "stays R (Groups_ID pre)" "stays R (group_member_check gid u)" "stays R (withOnline g)"
  "stays R (Groups_Get gid user)" "stays R (Groups_Profile gid u')" "stays R (reply_reference gid mid)"
proof -
  show member: "stays R (group_member_check gid u)" for gid u
    unfolding group_member_check_def by (intro stays_intros)
  show online: "stays R (withOnline g)" for g
    unfolding withOnline_def by (intro stays_intros)
  show get: "stays R (Groups_Get gid user)" for gid user
    unfolding Groups_Get_def by (intro stays_intros member online)
  show "stays R (Groups_ID pre)" "stays R (Groups_Profile gid u')" "stays R (reply_reference gid mid)"
    unfolding Groups_ID_def Groups_Profile_def reply_reference_def Let_def by (intro stays_intros member get)+
qed

end

section \<open>Frames beside the hub\<close>

locale hub_frame = frame +
  assumes hub: "R w (w\<lparr>g_hub := h\<rparr>)"
begin

lemma stays_publish [stays_intros]: "stays R (hub_publish ids e)"
  by (simp add: stays_def hub_publish_def hub same split: option.split)

lemma stays_publishGroup [stays_intros]: "stays R (publishGroup gid typ data)"
  unfolding publishGroup_def by (intro stays_intros)

lemma stays_isolation [stays_intros]:
  "stays R (applyIsolation gid candidates)" "stays R (isolateMessageAttack gid u)"
  unfolding applyIsolation_def isolateMessageAttack_def Let_def by (intro stays_intros)+

end

text \<open>What has been reserved for uploads, and the hub with its subscriptions.\<close>

interpretation reservations: hub_frame "\<lambda>w w'. s_reserved w' = s_reserved (w :: 'z group_world_scheme)"
  by unfold_locales simp_all

interpretation silence: frame "\<lambda>w w'. g_hub w' = g_hub (w :: 'z group_world_scheme)"
  by unfold_locales simp_all

section \<open>A world to run in\<close>

definition groups_on :: "database \<Rightarrow> time \<Rightarrow> 8 word list \<Rightarrow> group_world" where
  "groups_on d now bytes = \<lparr>w_db = d, w_faults = [], x_now = now, x_ticks = [], x_tape = bytes,
     x_voice_faults = [], x_voice_calls = [], s_files = [], s_dirs = [], s_os_faults = [], s_reserved = 0,
     a_welcome = new_cache, a_salts = [], g_warned = (\<lambda>_. None), g_hub = Hub.New\<rparr>"

lemma groups_on_simps [simp]:
  "w_db (groups_on d now bytes) = d" "quiet (groups_on d now bytes)" "x_now (groups_on d now bytes) = now"
  "x_ticks (groups_on d now bytes) = []" "x_tape (groups_on d now bytes) = bytes"
  "g_hub (groups_on d now bytes) = Hub.New" "g_warned (groups_on d now bytes) = (\<lambda>_. None)"
  by (simp_all add: groups_on_def quiet_def)

text \<open>Letters and digits of ASCII, and a gateway whose tokens name the room.\<close>

definition ascii :: unicode where
  "ascii = \<lparr>IsLetter = (\<lambda>r. 97 \<le> r \<and> r \<le> 122), IsDigit = (\<lambda>r. 48 \<le> r \<and> r \<le> 57),
     IsNumber = (\<lambda>r. 48 \<le> r \<and> r \<le> 57), lower_rune = (\<lambda>r. if 65 \<le> r \<and> r \<le> 90 then r + 32 else r)\<rparr>"

definition plain_voice :: crypto where
  "plain_voice = \<lparr>sha256 = (\<lambda>s. s), password_hash = (\<lambda>salt p. Some p), password_matches = (\<lambda>h p. h = p),
     token_text = (\<lambda>room u ttl. room), public_url = ''wss://v''\<rparr>"

definition plain_groups :: group_service where
  "plain_groups = Groups_New ascii plain_voice"

end
