(* ===== verification/UploadLaws.thy ===== *)
theory UploadLaws
  imports Frames
begin

text \<open>
  What happens to an upload that a message carries: whatever the guard, the store, the file
  system or the disk answer, its reservation is given back exactly once.
\<close>

section \<open>Steps that settle a reservation\<close>

text \<open>
  \<open>settles n m\<close>: \<open>m\<close> gives \<open>n\<close> reserved bytes back, however it ends. \<open>ends n m\<close>: so it
  does when it fails; when it goes on it leaves the reservations alone.
\<close>

definition settles :: "64 word \<Rightarrow> ('z, 'a) groupm \<Rightarrow> bool" where
  "settles n m \<longleftrightarrow> (\<forall>w. fst (m w) = Inl GroupPanic \<or> s_reserved (snd (m w)) = s_reserved w - n)"

definition ends :: "64 word \<Rightarrow> ('z, 'a) groupm \<Rightarrow> bool" where
  "ends n m \<longleftrightarrow> (\<forall>w. fst (m w) = Inl GroupPanic \<or>
     s_reserved (snd (m w)) = (if isl (fst (m w)) then s_reserved w - n else s_reserved w))"

abbreviation unreserving :: "('z, 'a) groupm \<Rightarrow> bool" where
  "unreserving m \<equiv> stays (\<lambda>w w'. s_reserved w' = s_reserved w) m"

named_theorems settle_intros \<open>how reservations are given back\<close>

lemma settles_stays: "unreserving m \<Longrightarrow> settles 0 m"
  by (simp add: settles_def stays_def)

lemma settles_andThen [settle_intros]:
  assumes "ends n m" "\<And>x. settles n (f x)"
  shows "settles n (andThen m f)"
  unfolding settles_def
proof
  fix w
  obtain r w1 where m: "m w = (r, w1)" by (cases "m w")
  then show "fst (andThen m f w) = Inl GroupPanic \<or> s_reserved (snd (andThen m f w)) = s_reserved w - n"
    using assms(1) [unfolded ends_def, rule_format, of w] assms(2) [unfolded settles_def, rule_format, of _ w1]
    by (cases r) (force simp: andThen_run)+
qed

lemma settles_first:
  assumes "settles n m" "\<And>x. unreserving (f x)"
  shows "settles n (andThen m f)"
  unfolding settles_def
proof
  fix w
  obtain r w1 where m: "m w = (r, w1)" by (cases "m w")
  then show "fst (andThen m f w) = Inl GroupPanic \<or> s_reserved (snd (andThen m f w)) = s_reserved w - n"
    using assms(1) [unfolded settles_def, rule_format, of w] assms(2) [unfolded stays_def]
    by (cases r) (auto simp: andThen_run)
qed

lemma settles_if [settle_intros]:
  "settles n m \<Longrightarrow> settles n m' \<Longrightarrow> settles n (if c then m else m')"
  by simp

lemma settles_prod [settle_intros]: "(\<And>x y. settles n (f x y)) \<Longrightarrow> settles n (case p of (x, y) \<Rightarrow> f x y)"
  by (cases p) simp

lemma settles_let [settle_intros]: "(\<And>x. settles n (f x)) \<Longrightarrow> settles n (let x = e in f x)"
  by (simp add: Let_def)

lemma ends_option [settle_intros]:
  "ends n m \<Longrightarrow> (\<And>y. ends n (f y)) \<Longrightarrow> ends n (case x of None \<Rightarrow> m | Some y \<Rightarrow> f y)"
  by (cases x) simp_all

lemma ends_if [settle_intros]: "ends n m \<Longrightarrow> ends n m' \<Longrightarrow> ends n (if c then m else m')"
  by simp

lemma ends_total:
  assumes "unreserving m" "\<And>w. \<not> isl (fst (m w))"
  shows "ends n m"
  using assms by (simp add: ends_def stays_def)

lemma ends_simple [settle_intros]:
  "ends n (ret x)" "ends n clock" "ends n (group_member_check gid u)"
proof -
  show "ends n (ret x)" "ends n clock"
    by (rule ends_total; simp add: stays_intros run_simps reservations.stays_ret reservations.stays_clock)+
  show "ends n (group_member_check gid u)"
    by (rule ends_total, rule reservations.stays_service)
      (simp add: group_member_check_def or_default_def andThen_run attempt_run ret_run split: sum.split)
qed

lemma settles_roll_back: "open_batch b \<Longrightarrow> settles (ub_reserved b) (roll_back b)"
  unfolding settles_def
proof
  fix w :: "'z group_world_scheme"
  assume "open_batch b"
  from batch_Rollback_result [OF this, of w] obtain b' w'
    where "batch_Rollback b w = (Inr b', w')" "released b w w' b'" by blast
  then show "fst (roll_back b w) = Inl GroupPanic \<or> s_reserved (snd (roll_back b w)) = s_reserved w - ub_reserved b"
    by (simp add: roll_back_def map_error_run andThen_run ret_run released_def)
qed

lemma roll_back_total: "open_batch b \<Longrightarrow> \<exists>w'. roll_back b w = (Inr (), w') \<and> s_reserved w' = s_reserved w - ub_reserved b"
  using batch_Rollback_result [of b w]
  by (auto simp: roll_back_def map_error_run andThen_run ret_run released_def)

lemma ends_or_roll_back [settle_intros]:
  assumes "open_batch b" "unreserving m"
  shows "ends (ub_reserved b) (or_roll_back m b)"
  unfolding ends_def
proof
  fix w
  obtain r w1 where m: "m w = (r, w1)" by (cases "m w")
  then have "s_reserved w1 = s_reserved w" using assms(2) by (rule staysD [rotated])
  moreover obtain w2 where "roll_back b w1 = (Inr (), w2)" "s_reserved w2 = s_reserved w1 - ub_reserved b"
    using roll_back_total [OF assms(1)] by blast
  ultimately show "fst (or_roll_back m b w) = Inl GroupPanic \<or>
      s_reserved (snd (or_roll_back m b w)) =
        (if isl (fst (or_roll_back m b w)) then s_reserved w - ub_reserved b else s_reserved w)"
    using m by (cases r) (auto simp: or_roll_back_def andThen_run attempt_run ret_run raise_run)
qed

section \<open>Sending with attachments\<close>

lemma ends_checked_upload [settle_intros]:
  assumes "open_batch b"
  shows "ends (ub_reserved b) (checked_upload s cfg gid u body b :: ('z, unit) groupm)"
  unfolding ends_def
proof
  fix w :: "'z group_world_scheme"
  let ?m = "checked_upload s cfg gid u body b"
  obtain r w1 where g: "Guard_Check (gs_unicode s) cfg gid u body w = (r :: group_error + _, w1)"
    by (cases "Guard_Check (gs_unicode s) cfg gid u body w :: (group_error + _) \<times> _")
  have same: "s_reserved w1 = s_reserved w"
    using staysD [OF reservations.stays_guard(1) g] by simp
  have total: "\<not> isl r" using g by (auto simp: Guard_Check_def andThen_run attempt_run ret_run split: sum.splits prod.splits)
  then obtain result err where r: "r = Inr (result, err)" by (cases r) auto
  obtain w2 where undone: "roll_back b w1 = (Inr (), w2)" "s_reserved w2 = s_reserved w1 - ub_reserved b"
    using roll_back_total [OF assms] by blast
  have after: "s_reserved (snd (isolateMessageAttack gid u w2)) = s_reserved w2"
    by (rule reservations.stays_isolation(2) [unfolded stays_def, rule_format])
  show "fst (?m w) = Inl GroupPanic \<or>
      s_reserved (snd (?m w)) = (if isl (fst (?m w)) then s_reserved w - ub_reserved b else s_reserved w)"
    using g r same undone after
    by (cases "isolateMessageAttack gid u w2")
      (auto simp: checked_upload_def andThen_run ret_run raise_run split: option.splits guard_error.splits
        store_error.splits sum.splits)
qed

lemma settles_Commit:
  assumes "\<not> ub_closed b" "\<And>c b'. open_batch b' \<Longrightarrow> ub_reserved b' = 0 \<Longrightarrow> settles 0 (f (c, b'))"
  shows "settles (ub_reserved b) (andThen (map_error GroupAttach (batch_Commit base limits b mid gid now)) f :: ('z, 'a) groupm)"
  unfolding settles_def
proof
  fix w :: "'z group_world_scheme"
  from gives_back_batch_Commit [OF assms(1), of base limits mid gid now] obtain c b' w1
    where commit: "batch_Commit base limits b mid gid now w = (Inr (c, b'), w1)" "released b w w1 b'"
    unfolding gives_back_def by blast
  then have "settles 0 (f (c, b'))"
    by (intro assms(2)) (simp_all add: open_batch_def released_def)
  then show "fst (andThen (map_error GroupAttach (batch_Commit base limits b mid gid now)) f w) = Inl GroupPanic \<or>
      s_reserved (snd (andThen (map_error GroupAttach (batch_Commit base limits b mid gid now)) f w)) = s_reserved w - ub_reserved b"
    using commit by (auto simp: andThen_run map_error_run settles_def released_def)
qed

lemma settles_store_upload:
  assumes "\<not> ub_closed (ab_batch batch)"
  shows "settles (ub_reserved (ab_batch batch)) (store_upload gid u body reply mid batch)"
proof -
  have rest: "ends 0 (or_roll_back m b')" if "open_batch b'" "ub_reserved b' = 0" "unreserving m" for m b'
    using ends_or_roll_back [OF that(1,3)] that(2) by simp
  have last: "settles 0 (andThen (or_roll_back (store_call (AddMessageWithAttachments m items)) b') (\<lambda>_.
      andThen (publishGroup gid ''message_created'' data) (\<lambda>_. ret x)))"
    if "open_batch b'" "ub_reserved b' = 0" for b' m items data x
    by (rule settles_andThen [OF rest [OF that]]; (rule settles_stays)?; intro stays_intros)
  show ?thesis
    unfolding store_upload_def
    by (rule settles_andThen [OF ends_simple(2)], rule settles_Commit [OF assms], unfold prod.case Let_def,
        rule settles_andThen, rule rest, assumption, assumption, intro stays_intros,
        rule settles_andThen, rule rest, assumption, assumption, intro stays_intros,
        rule settles_andThen, rule ends_simple, rule last)
qed

text \<open>
  C17: An upload is accounted for exactly once. Whenever \<^verbatim>\<open>SendWithAttachments\<close> returns, with
  the message, with the message an earlier request with the same key produced, or with any
  error (a stranger, a reply to another group, a used up random source, a refusal of the
  guard with its isolation of the group, a failing store, file system or commit), the bytes
  reserved for the batch have been given back, whatever failed in between.
\<close>

theorem upload_gives_back:
  assumes "SendWithAttachments s gid u body replyToID (Some batch) key w = (r, w1)"
    and "\<not> ub_closed (ab_batch batch)" and "r \<noteq> Inl GroupPanic"
  shows "s_reserved w1 = s_reserved w - ub_reserved (ab_batch batch)"
proof -
  let ?b = "ab_batch batch"
  have opened: "open_batch ?b" using assms(2) by (simp add: open_batch_def)
  have again: "settles (ub_reserved ?b) (andThen (roll_back ?b) (\<lambda>_. store_call (Store_Message mid)))" for mid
    by (rule settles_first [OF settles_roll_back [OF opened]]) (intro stays_intros)
  have "settles (ub_reserved ?b) (SendWithAttachments s gid u body replyToID (Some batch) key)"
    unfolding SendWithAttachments_def option.case Let_def
    by (intro settle_intros again settles_store_upload assms(2) opened; intro stays_intros)
  then show ?thesis using assms(1,3) unfolding settles_def by (metis fst_conv snd_conv)
qed

definition pending_upload :: attachment_batch where
  "pending_upload = \<lparr>ab_base = ''/data'',
     ab_limits = \<lparr>MaxInputMediaBytes = 9, MaxArchiveBytes = 9, MaxOutputMediaBytes = 9, MaxFilesPerMessage = 1,
       MaxUserStoredBytes = 9, MaxUserDailyBytes = 0, MaxTotalBytes = 9, MinFreeBytes = 0, Retention = hour,
       StorageDir = ''/data''\<rparr>,
     ab_batch = \<lparr>ub_ownerID = ''u1'', ub_files = [], ub_moved = [], ub_reserved = 7, ub_closed = False\<rparr>\<rparr>"

lemma upload_gives_back_witness:
  "s_reserved (snd (SendWithAttachments plain_groups ''g'' no_user ''hi'' [] (Some pending_upload) ''k''
     ((groups_on empty_db 0 [])\<lparr>s_reserved := 7\<rparr>))) = 0"
proof -
  let ?w = "(groups_on empty_db 0 [])\<lparr>s_reserved := 7\<rparr>"
  obtain r w1 where run: "SendWithAttachments plain_groups ''g'' no_user ''hi'' [] (Some pending_upload) ''k'' ?w = (r, w1)"
    by (cases "SendWithAttachments plain_groups ''g'' no_user ''hi'' [] (Some pending_upload) ''k'' ?w")
  have "fst (SendWithAttachments plain_groups ''g'' no_user ''hi'' [] (Some pending_upload) ''k'' ?w) = Inl Group_ErrForbidden"
    by (simp add: SendWithAttachments_def quiet_def Let_def group_member_check_def or_default_def IsGroupMember_def
      or_roll_back_def roll_back_def batch_Rollback_def release_def pending_upload_def empty_db_def run_simps groups_on_def)
  then have "r = Inl Group_ErrForbidden" using run by simp
  then show ?thesis
    using upload_gives_back [OF run] run by (simp add: pending_upload_def)
qed

end
