(* ===== verification/GroupAccess.thy ===== *)
theory GroupAccess
  imports Frames GroupLaws
begin

text \<open>
  Who may do what in a group: private groups and their history, deletion, the owner's rights
  and the gate of \<^verbatim>\<open>Join\<close>, under every schedule of failures.
\<close>

section \<open>Operations that only read\<close>

lemma keeps_group_calls [keeps_intros]:
  "keeps I m \<Longrightarrow> keeps I (store_call m)" "keeps I m \<Longrightarrow> keeps I (mapped m)" "keeps I m \<Longrightarrow> keeps I (or_default m x)"
  unfolding store_call_def mapped_def or_default_def by (intro keeps_intros; assumption)+

lemma keeps_peek [keeps_intros]: "keeps I (peek f)"
  by (simp add: keeps_def peek_def)

lemma keeps_hub [keeps_intros]:
  "keeps I (hub_publish ids e)" "keeps I (hub_subscribe u)" "keeps I (hub_stop u i)"
  by (auto simp: keeps_def hub_publish_def hub_subscribe_def hub_stop_def split: option.split prod.split)

lemma keeps_VoiceRoom [keeps_intros]: "keeps I (VoiceRoom vid)"
  unfolding VoiceRoom_def by (intro keeps_intros)

lemma service_reads_keep [keeps_intros]:
  "keeps I (Groups_ID pre)" "keeps I (group_member_check gid u)" "keeps I (withOnline g)"
  "keeps I (publishGroup gid typ data)" "keeps I (reply_reference gid mid)"
  unfolding Groups_ID_def group_member_check_def withOnline_def publishGroup_def reply_reference_def Let_def
  by (intro keeps_intros)+

lemma Get_keeps [keeps_intros]: "keeps I (Groups_Get gid user)" "keeps I (publishPresence uid)"
  unfolding Groups_Get_def publishPresence_def by (intro keeps_intros)+

lemma Profile_keeps [keeps_intros]: "keeps I (Groups_Profile gid v)"
  unfolding Groups_Profile_def by (intro keeps_intros)

text \<open>What keeps every predicate leaves the database as it is.\<close>

lemma untouched: "keeps (\<lambda>d. d = w_db w) m \<Longrightarrow> m w = (r, w') \<Longrightarrow> w_db w' = w_db w"
  by (drule (1) keeps_resultD) simp_all

section \<open>What a successful step means\<close>

lemma andThen_unitE:
  assumes "andThen m f w = (Inr y, w')"
  obtains w1 where "m w = (Inr (), w1)" "f () w1 = (Inr y, w')"
  using assms by (rule andThen_InrE) simp

lemma mapped_InrE:
  assumes "mapped m w = (Inr x, w')"
  obtains "m w = (Inr x, w')"
  using assms unfolding mapped_def store_call_def by (elim map_error_InrE)

lemma store_call_InrE:
  assumes "store_call m w = (Inr x, w')"
  obtains "m w = (Inr x, w')"
  using assms unfolding store_call_def by (elim map_error_InrE)

lemma member_InrE:
  assumes "group_member_check gid u w = (Inr b, w')"
  obtains "w_db w' = w_db w" "b \<Longrightarrow> group_member_of gid u (w_db w)"
proof
  show "w_db w' = w_db w" using service_reads_keep(2) assms by (rule untouched)
  show "group_member_of gid u (w_db w)" if b
  proof -
    obtain r w1 where r: "IsGroupMember gid u w = (r :: store_error + bool, w1)" by (cases "IsGroupMember gid u w")
    with assms that have "IsGroupMember gid u w = (Inr True, w1)"
      by (auto simp: group_member_check_def or_default_def run_simps split: sum.splits)
    then have "0 < count_rows (\<lambda>m. gm_key m = (gid, u)) (t_group_members (w_db w))"
      unfolding IsGroupMember_def by (elim andThen_InrE select_InrE ret_InrE) simp
    then show ?thesis
      using count_rows_0 [of "\<lambda>m. gm_key m = (gid, u)" "t_group_members (w_db w)"]
      by (auto simp: group_member_of_def list_ex_iff)
  qed
qed

lemma Store_Group_InrE:
  assumes "Store_Group gid w = (Inr g, w')"
  obtains r where "row_with g_id gid (t_groups (w_db w)) = Some r" "group_ID g = gid" "g_id r = gid"
    "Visibility g = g_visibility r" "user_ID (Owner g) = g_owner_id r" "w_db w' = w_db w"
    "JoinBlocked g = (g_isolated_until r > unix (x_now w))"
proof -
  have db: "w_db w' = w_db w" using group_reads_keep(3) assms by (rule untouched)
  obtain row w1 where 0: "select (\<lambda>d. case row_with g_id gid (t_groups d) of None \<Rightarrow> None | Some g \<Rightarrow> group_fields d g) w
      = (Inr row, w1)"
    and 2: "andThen (scanGroup row) hydrateGroup w1 = (Inr g, w')"
    using assms unfolding Store_Group_def by (rule andThen_InrE)
  from 0 have 1: "row = (case row_with g_id gid (t_groups (w_db w)) of None \<Rightarrow> None | Some g \<Rightarrow> group_fields (w_db w) g)"
    and now: "x_now w1 = x_now w" by (auto elim: select_clock_InrE)
  from 2 obtain g0 w2 where 3: "scanGroup row w1 = (Inr g0, w2)" and 4: "hydrateGroup g0 w2 = (Inr g, w')"
    by (rule andThen_InrE)
  from 3 obtain r u k where row: "row = Some (r, u, k)"
    and g0: "group_ID g0 = g_id r" "Visibility g0 = g_visibility r" "Owner g0 = named_user u"
      "JoinBlocked g0 = (g_isolated_until r > unix (x_now w1))"
    by (auto simp: scanGroup_def run_simps Let_def split: option.splits)
  from 4 have g: "group_ID g = group_ID g0" "Visibility g = Visibility g0" "Owner g = Owner g0" "JoinBlocked g = JoinBlocked g0"
    unfolding hydrateGroup_def by (auto elim!: andThen_InrE select_InrE ret_InrE)
  from 1 row have r: "row_with g_id gid (t_groups (w_db w)) = Some r" "user_row_of (w_db w) (g_owner_id r) = Some u"
    by (auto simp: group_fields_def map_option_case split: option.splits)
  then have "g_id r = gid" "u_id u = g_owner_id r"
    using row_with_SomeD by (fastforce simp: user_row_of_def)+
  then show thesis using that r(1) g g0 db now by simp
qed

lemma GroupMemberJoinedAt_InrE:
  assumes "GroupMemberJoinedAt gid u w = (Inr t, w')"
  obtains m where "row_with gm_key (gid, u) (t_group_members (w_db w)) = Some m" "w_db w' = w_db w"
    "t = (if gm_joined_at_nanos m > 0 then gm_joined_at_nanos m else of_unix (gm_joined_at m))"
  using assms unfolding GroupMemberJoinedAt_def
  by (elim andThen_InrE select_InrE) (auto simp: raise_run ret_run split: option.splits if_splits)

lemma clock_db_InrE:
  assumes "clock w = (Inr t, w')"
  obtains "t = x_now w" "w' = ticked w" "w_db w' = w_db w"
  using assms by (auto simp: run_simps)

lemma forbidden_InrE:
  assumes "(if c then raise e else m) w = (Inr x, w')"
  obtains "\<not> c" "m w = (Inr x, w')"
  using assms by (auto simp: raise_run split: if_splits)

lemmas service_elims = andThen_InrE ret_InrE raise_InrE mapped_InrE store_call_InrE member_InrE
  clock_db_InrE forbidden_InrE

section \<open>Private groups\<close>

text \<open>\<open>private_group g w\<close>: the group exists and is private.\<close>

definition private_group :: "string \<Rightarrow> database \<Rightarrow> bool" where
  "private_group gid d \<longleftrightarrow> (case row_with g_id gid (t_groups d) of None \<Rightarrow> False | Some g \<Rightarrow> g_visibility g = ''private'')"

definition reader_of :: "string \<Rightarrow> user option \<Rightarrow> database \<Rightarrow> bool" where
  "reader_of gid u d \<longleftrightarrow> (case u of None \<Rightarrow> False | Some v \<Rightarrow> group_member_of gid (user_ID v) d)"

lemma Get_private:
  assumes "Groups_Get gid u w = (Inr g, w1)" "private_group gid (w_db w)"
  shows "reader_of gid u (w_db w)"
proof -
  obtain g0 w2 w3 where 1: "Store_Group gid w = (Inr g0, w2)"
    and 2: "(if Visibility g0 = ''private'' then
          (case u of
             None \<Rightarrow> raise Group_ErrNotFound
           | Some u \<Rightarrow>
               andThen (group_member_check gid (user_ID u)) (\<lambda>ok.
               if ok then ret () else raise Group_ErrNotFound))
        else ret ()) w2 = (Inr (), w3)"
    using assms(1) unfolding Groups_Get_def
    by (elim andThen_unitE andThen_InrE mapped_InrE) (rule that; assumption)
  obtain r where r: "row_with g_id gid (t_groups (w_db w)) = Some r" "Visibility g0 = g_visibility r" "w_db w2 = w_db w"
    using 1 by (rule Store_Group_InrE)
  then have "Visibility g0 = ''private''" using assms(2) by (simp add: private_group_def)
  with 2 obtain v where v: "u = Some v"
    and 3: "andThen (group_member_check gid (user_ID v)) (\<lambda>ok. if ok then ret () else raise Group_ErrNotFound) w2 = (Inr (), w3)"
    by (cases u) (simp_all add: raise_run)
  from 3 obtain w4 where "group_member_check gid (user_ID v) w2 = (Inr True, w4)"
    by (rule andThen_InrE) (auto simp: raise_run split: if_splits)
  then show ?thesis using v r(3) by (auto simp: reader_of_def elim: member_InrE)
qed

lemma Messages_private:
  assumes "Groups_Messages gid u n w = (Inr ms, w1)" "private_group gid (w_db w)"
  obtains v m w2 where "u = Some v" "row_with gm_key (gid, user_ID v) (t_group_members (w_db w)) = Some m"
    "Store_Messages gid (if gm_joined_at_nanos m > 0 then gm_joined_at_nanos m else of_unix (gm_joined_at m)) n (user_ID v) w2
      = (Inr ms, w1)" "w_db w2 = w_db w"
proof -
  obtain g0 w2 where 1: "Store_Group gid w = (Inr g0, w2)"
    and 2: "andThen
       (if Visibility g0 = ''private'' then
          (case u of
             None \<Rightarrow> raise Group_ErrForbidden
           | Some u \<Rightarrow>
               andThen (group_member_check gid (user_ID u)) (\<lambda>ok.
               if \<not> ok then raise Group_ErrForbidden
               else mapped (GroupMemberJoinedAt gid (user_ID u))))
        else ret (x_now w2 - 7 * (24 * hour)))
       (\<lambda>cutoff. store_call (Store_Messages gid cutoff n (case u of None \<Rightarrow> [] | Some u \<Rightarrow> user_ID u))) (ticked w2) = (Inr ms, w1)"
    using assms(1) unfolding Groups_Messages_def Let_def
    by (elim andThen_InrE [where m = "mapped (Store_Group gid)"] andThen_InrE [where m = clock] mapped_InrE clock_db_InrE)
      (hypsubst, rule that; assumption)
  obtain r where r: "row_with g_id gid (t_groups (w_db w)) = Some r" "Visibility g0 = g_visibility r" "w_db w2 = w_db w"
    using 1 by (rule Store_Group_InrE)
  then have "Visibility g0 = ''private''" using assms(2) by (simp add: private_group_def)
  with 2 obtain v cutoff w3 where v: "u = Some v"
    and 3: "andThen (group_member_check gid (user_ID v)) (\<lambda>ok.
               if \<not> ok then raise Group_ErrForbidden
               else mapped (GroupMemberJoinedAt gid (user_ID v))) (ticked w2) = (Inr cutoff, w3)"
    and 4: "Store_Messages gid cutoff n (user_ID v) w3 = (Inr ms, w1)"
    by (cases u; simp add: raise_run; elim andThen_InrE store_call_InrE; simp add: raise_run; rule that; assumption?)
  from 3 obtain w4 where 5: "w_db w4 = w_db w" "GroupMemberJoinedAt gid (user_ID v) w4 = (Inr cutoff, w3)"
    by (elim andThen_InrE member_InrE forbidden_InrE mapped_InrE) (simp add: r(3))
  from 5(2) show thesis
    by (rule GroupMemberJoinedAt_InrE) (use that v 4 5(1) in auto)
qed


section \<open>Rights\<close>

lemma Store_Message_InrE:
  assumes "Store_Message mid w = (Inr x, w')"
  obtains m where "row_with m_id mid (t_messages (w_db w)) = Some m" "msg_GroupID x = m_group_id m"
    "user_ID (Author x) = m_author_id m" "w_db w' = w_db w"
proof -
  have db: "w_db w' = w_db w" using message_reads_keep(3) assms by (rule untouched)
  obtain row w1 where 1: "select (\<lambda>d. case row_with m_id mid (t_messages d) of None \<Rightarrow> None | Some m \<Rightarrow> scan_message d m) w
      = (Inr row, w1)"
    and 2: "(case row of
       None \<Rightarrow> raise ErrNotFound
     | Some m \<Rightarrow> andThen (ListForMessage (msg_ID m)) (\<lambda>as. ret (m\<lparr>Attachments := as\<rparr>))) w1 = (Inr x, w')"
    using assms unfolding Store_Message_def by (rule andThen_InrE)
  from 2 obtain y where y: "row = Some y" "Author x = Author y" "msg_GroupID x = msg_GroupID y"
    by (cases row) (auto simp: raise_run elim!: andThen_InrE ret_InrE)
  from 1 have "row = (case row_with m_id mid (t_messages (w_db w)) of None \<Rightarrow> None | Some m \<Rightarrow> scan_message (w_db w) m)"
    by (rule select_InrE)
  with y(1) obtain m where m: "row_with m_id mid (t_messages (w_db w)) = Some m" "scan_message (w_db w) m = Some y"
    by (auto split: option.splits)
  have "user_ID (Author y) = m_author_id m"
    using m(2) row_with_SomeD by (fastforce simp: scan_message_def user_row_of_def split: option.splits)
  then show thesis using that m(1) scan_message_fields(2) [OF m(2)] y db by simp
qed

lemma VoiceRoom_InrE:
  assumes "VoiceRoom vid w = (Inr r, w')"
  obtains v where "row_with vr_id vid (t_voice_rooms (w_db w)) = Some v" "voice_GroupID r = vr_group_id v" "w_db w' = w_db w"
  using assms unfolding VoiceRoom_def
  by (elim andThen_InrE select_InrE) (auto simp: raise_run ret_run as_voice_room_def split: option.splits)

text \<open>\<open>owned_by u gid d\<close>: the group exists and its owner is the user.\<close>

definition owned_by :: "user \<Rightarrow> string \<Rightarrow> database \<Rightarrow> bool" where
  "owned_by u gid d \<longleftrightarrow> (case row_with g_id gid (t_groups d) of None \<Rightarrow> False | Some g \<Rightarrow> g_owner_id g = user_ID u)"

text \<open>
  C21: A message is deleted only by its author or by the owner of its group, who must still
  be a member of the group the request names, and nothing but that message (with its reads,
  attachments and the references to it) goes.
\<close>

theorem DeleteMessage_authorised:
  assumes "Groups_DeleteMessage gid mid u w = (Inr (), w1)"
  shows "(\<exists>m. row_with m_id mid (t_messages (w_db w)) = Some m \<and> m_group_id m = gid \<and>
      (m_author_id m = user_ID u \<or> owned_by u gid (w_db w))) \<and>
    group_member_of gid (user_ID u) (w_db w) \<and>
    w_db w1 = delete_messages (\<lambda>m. m_id m = mid) (w_db w)"
proof -
  obtain x w2 w3 g w4 n w5 where 1: "Store_Message mid w = (Inr x, w2)" "msg_GroupID x = gid"
    and 2: "group_member_check (msg_GroupID x) (user_ID u) w2 = (Inr True, w3)"
    and 3: "Store_Group (msg_GroupID x) w3 = (Inr g, w4)"
    and 4: "\<not> (user_ID (Author x) \<noteq> user_ID u \<and> user_ID (Owner g) \<noteq> user_ID u)"
    and 5: "Store_DeleteMessage mid w4 = (Inr n, w5)"
    and 6: "publishGroup (msg_GroupID x) ''message_deleted'' (Ready (MessageDeletedEvent mid)) w5 = (Inr (), w1)"
    using assms unfolding Groups_DeleteMessage_def
    by (elim andThen_InrE mapped_InrE forbidden_InrE) (rule that; (assumption | simp))
  obtain m where m: "row_with m_id mid (t_messages (w_db w)) = Some m" "msg_GroupID x = m_group_id m"
    "user_ID (Author x) = m_author_id m" "w_db w2 = w_db w"
    using 1(1) by (rule Store_Message_InrE)
  have member: "w_db w3 = w_db w2" "group_member_of gid (user_ID u) (w_db w2)"
    using 2 1(2) by (auto elim: member_InrE)
  obtain r where r: "row_with g_id gid (t_groups (w_db w3)) = Some r" "user_ID (Owner g) = g_owner_id r" "w_db w4 = w_db w3"
    using 3 unfolding 1(2) by (rule Store_Group_InrE)
  have "w_db w5 = delete_messages (\<lambda>m. m_id m = mid) (w_db w4)"
    using 5 unfolding Store_DeleteMessage_def
    by (elim andThen_InrE select_InrE) (auto simp: raise_run elim!: andThen_InrE exec_InrE ret_InrE split: option.splits)
  moreover have "w_db w1 = w_db w5" using service_reads_keep(4) 6 by (rule untouched)
  ultimately show ?thesis
    using m member r 4 1(2) by (auto simp: owned_by_def)
qed

lemma Groups_Delete_owner:
  assumes "Groups_Delete gid u w = (Inr (), w1)"
  shows "owned_by u gid (w_db w)"
  using assms unfolding Groups_Delete_def
  by (elim andThen_InrE mapped_InrE forbidden_InrE) (auto simp: owned_by_def elim!: Store_Group_InrE)

lemma RemoveMember_owner:
  assumes "Groups_RemoveMember gid memberID u w = (Inr p, w1)"
  shows "owned_by u gid (w_db w) \<and> memberID \<noteq> user_ID u"
  using assms unfolding Groups_RemoveMember_def
  by (elim andThen_InrE mapped_InrE forbidden_InrE) (auto simp: owned_by_def elim!: Store_Group_InrE)

lemma CreateVoice_owner:
  assumes "CreateVoice gid u name w = (Inr v, w1)"
  shows "owned_by u gid (w_db w)"
  using assms unfolding CreateVoice_def
  by (elim andThen_InrE mapped_InrE forbidden_InrE) (auto simp: owned_by_def elim!: Store_Group_InrE)

lemma DeleteVoice_owner:
  assumes "DeleteVoice vid u w = (Inr (), w1)"
  shows "\<exists>v. row_with vr_id vid (t_voice_rooms (w_db w)) = Some v \<and> owned_by u (vr_group_id v) (w_db w)"
proof -
  obtain r w2 g w3 where 1: "VoiceRoom vid w = (Inr r, w2)" and 2: "Store_Group (voice_GroupID r) w2 = (Inr g, w3)"
    and 3: "user_ID (Owner g) = user_ID u"
    using assms unfolding DeleteVoice_def
    by (elim andThen_InrE mapped_InrE forbidden_InrE) (rule that; (assumption | simp))
  obtain v where v: "row_with vr_id vid (t_voice_rooms (w_db w)) = Some v" "voice_GroupID r = vr_group_id v" "w_db w2 = w_db w"
    using 1 by (rule VoiceRoom_InrE)
  obtain row where "row_with g_id (voice_GroupID r) (t_groups (w_db w2)) = Some row" "user_ID (Owner g) = g_owner_id row"
    using 2 by (rule Store_Group_InrE)
  then show ?thesis using v 3 by (simp add: owned_by_def)
qed


section \<open>The gate\<close>


section \<open>Examples\<close>

lemma DeleteMessage_authorised_witness:
  "t_messages (w_db (snd (Groups_DeleteMessage ''g'' ''m1'' (no_user\<lparr>user_ID := ''u1''\<rparr>) (groups_on club_db minute [])))) = []"
proof -
  let ?run = "Groups_DeleteMessage ''g'' ''m1'' (no_user\<lparr>user_ID := ''u1''\<rparr>) (groups_on club_db minute [])"
  have "\<not> isl (fst ?run)" by code_simp
  then obtain w1 where run: "?run = (Inr (), w1)" by (cases ?run; cases "fst ?run") auto
  show ?thesis using DeleteMessage_authorised [OF run] run by (simp add: delete_messages_def hello_def Let_def)
qed

definition member_1 :: user where "member_1 = no_user\<lparr>user_ID := ''u1''\<rparr>"
definition member_2 :: user where "member_2 = no_user\<lparr>user_ID := ''u2''\<rparr>"

definition closed_club :: database where
  "closed_club = club_db\<lparr>t_groups := map (\<lambda>g. g\<lparr>g_visibility := ''private''\<rparr>) (t_groups club_db)\<rparr>"




end
