(* ===== verification/SendLaws.thy ===== *)
theory SendLaws
  imports GroupAccess "HOL-Library.Code_Target_Nat"
begin

text \<open>
  Sending a message: what a successful \<^verbatim>\<open>send\<close> has written, that a repeated request sends
  nothing, and who is told.
\<close>

section \<open>What the guard leaves alone\<close>

text \<open>Neither the idempotency keys nor the memberships change while a message is checked and stored.\<close>

abbreviation same_keys :: "idempotency_row list \<Rightarrow> group_member_row list \<Rightarrow> database \<Rightarrow> bool" where
  "same_keys ks ms \<equiv> (\<lambda>d. t_idempotency d = ks \<and> t_group_members d = ms)"

lemma delete_messages_keys [simp]:
  "t_idempotency (delete_messages P d) = t_idempotency d" "t_group_members (delete_messages P d) = t_group_members d"
  by (simp_all add: delete_messages_def Let_def)

lemma message_inserts_keys:
  "insert_message m d = Some d' \<Longrightarrow> same_keys ks ms d \<Longrightarrow> same_keys ks ms d'"
  "insert_attachment a d = Some d' \<Longrightarrow> same_keys ks ms d \<Longrightarrow> same_keys ks ms d'"
  "insert_spam_warning s d = Some d' \<Longrightarrow> same_keys ks ms d \<Longrightarrow> same_keys ks ms d'"
  "upsert_cooldown c d = Some d' \<Longrightarrow> same_keys ks ms d \<Longrightarrow> same_keys ks ms d'"
  by (auto simp: insert_message_def insert_attachment_def insert_spam_warning_def upsert_cooldown_def guarded_def
      split: if_splits)

lemma messages_keep_keys [keeps_intros]:
  "keeps (same_keys ks ms) (AddMessageWithAttachments m items)"
  "keeps (same_keys ks ms) (DeleteRecentMessagesByAuthor g u since n)"
  "keeps (same_keys ks ms) (DeleteRecentRepeatedMessages g u body since n)"
  "keeps (same_keys ks ms) (MessageCooldown g u now)"
  "keeps (same_keys ks ms) (RecordMessageViolation g u now durations)"
  "keeps (same_keys ks ms) (CreateGroupSpamWarning g reason now mc uc cooldown period)"
  "keeps (same_keys ks ms) (Allow cfg scope subject limit)"
  unfolding AddMessageWithAttachments_def groupmessages_Add_def attachments_Add_def DeleteRecentMessagesByAuthor_def
    DeleteRecentRepeatedMessages_def delete_listed_def MessageCooldown_def RecordMessageViolation_def
    CreateGroupSpamWarning_def Allow_def TakeRateLimit_def upsertRateBucket_def Let_def
  by (intro keeps_intros; (erule (1) message_inserts_keys | simp add: touch_group_def))+

lemma guard_keeps_keys [keeps_intros]: "keeps (same_keys ks ms) (Guard_Check u cfg gid user body)"
proof -
  have warn: "keeps I (warnOnce cfg uid now)" "keeps I (clearWarning uid)" for I uid now
    by (simp_all add: keeps_def warnOnce_def clearWarning_def split: option.split)
  have reports: "keeps (same_keys ks ms) (report u cfg gid uid body reason now)"
    "keeps (same_keys ks ms) (purge_and_report u cfg gid uid body reason now)" for uid reason now
    unfolding report_def purge_and_report_def evaluateGroup_def guard_violation_def guard_db_def Let_def
    by (intro keeps_intros warn)+
  show ?thesis
    unfolding Guard_Check_def check_steps_def guard_db_def Let_def
    by (intro keeps_intros warn reports)
qed

section \<open>The steps of a successful send\<close>

lemma Groups_ID_clock: "Groups_ID pre w = (Inr i, w') \<Longrightarrow> x_now w' = x_now w \<and> x_ticks w' = x_ticks w \<and> w_db w' = w_db w"
  by (auto simp: Groups_ID_def read_full_def run_simps split: option.splits if_splits)

lemma stmt_leaves_clock: "stmt f w = (r, w') \<Longrightarrow> x_now w' = x_now w \<and> x_ticks w' = x_ticks w"
  by (metis snd_conv stmt_clock)

lemma member_clock: "group_member_check gid u w = (r, w') \<Longrightarrow> x_now w' = x_now w \<and> x_ticks w' = x_ticks w"
  by (auto simp: group_member_check_def or_default_def IsGroupMember_def run_simps select_def
      dest: stmt_leaves_clock split: sum.splits prod.splits)

text \<open>A send that returns either answers with a stored message or stores one.\<close>

lemma send_InrE:
  assumes "send s gid u body reply key w = (Inr m, w1)" and guard: "gs_guard s = Some cfg"
  obtains wa mid wb id' fresh wc where "group_member_check gid (user_ID u) w = (Inr True, wa)"
    "MessageHasContent (TrimSpace body) 0" "RuneCountInString (TrimSpace body) \<le> 4000"
    "Groups_ID ''msg_'' wa = (Inr mid, wb)"
    "Guard_Reserve cfg gid (user_ID u) key mid wb = (Inr (id', fresh), wc)"
    "\<not> fresh \<Longrightarrow> Store_Message id' wc = (Inr m, w1)"
    "fresh \<Longrightarrow> \<exists>wd we. checked s cfg gid u (TrimSpace body) wc = (Inr (), wd) \<and>
       m = message_of id' gid u (TrimSpace body) (x_now wd) reply [] \<and>
       AddMessage m (ticked wd) = (Inr (), we) \<and>
       publishGroup gid ''message_created'' (Ready (MessageData (MessageView m))) we = (Inr (), w1)"
proof -
  obtain wa mid wb p wc where 1: "group_member_check gid (user_ID u) w = (Inr True, wa)"
    "MessageHasContent (TrimSpace body) 0" "RuneCountInString (TrimSpace body) \<le> 4000"
    "Groups_ID ''msg_'' wa = (Inr mid, wb)"
    "Guard_Reserve cfg gid (user_ID u) key mid wb = (Inr p, wc)"
    and 2: "(case p of (mid, fresh) \<Rightarrow>
       if \<not> fresh then store_call (Store_Message mid)
       else andThen (checked s cfg gid u (TrimSpace body)) (\<lambda>_.
         andThen clock (\<lambda>now.
         andThen (store_call (AddMessage (message_of mid gid u (TrimSpace body) now reply []))) (\<lambda>_.
         andThen (publishGroup gid ''message_created''
           (Ready (MessageData (MessageView (message_of mid gid u (TrimSpace body) now reply []))))) (\<lambda>_.
         ret (message_of mid gid u (TrimSpace body) now reply [])))))) wc = (Inr m, w1)"
    using assms(1) unfolding send_def guard option.case Let_def
    by (elim andThen_InrE [where m = "group_member_check gid (user_ID u)"] forbidden_InrE
        andThen_InrE [where m = "Groups_ID ''msg_''"]
        andThen_InrE [where m = "map_error reserve_error (Guard_Reserve cfg gid (user_ID u) key _)"] map_error_InrE)
      (rule that; (assumption | simp))
  obtain id' fresh where p: "p = (id', fresh)" by (cases p)
  show thesis
  proof (rule that [OF 1(1-4)])
    show "Guard_Reserve cfg gid (user_ID u) key mid wb = (Inr (id', fresh), wc)" using 1(5) p by simp
    show "Store_Message id' wc = (Inr m, w1)" if "\<not> fresh"
      using 2 that by (auto simp: p elim: store_call_InrE)
    show "\<exists>wd we. checked s cfg gid u (TrimSpace body) wc = (Inr (), wd) \<and>
       m = message_of id' gid u (TrimSpace body) (x_now wd) reply [] \<and>
       AddMessage m (ticked wd) = (Inr (), we) \<and>
       publishGroup gid ''message_created'' (Ready (MessageData (MessageView m))) we = (Inr (), w1)" if "fresh"
      using 2 that unfolding p prod.case Let_def
      by (simp, elim andThen_unitE andThen_InrE clock_db_InrE store_call_InrE ret_InrE, hypsubst, intro exI conjI; (assumption | simp))
  qed
qed

lemma checked_InrE:
  assumes "checked s cfg gid u body w = (Inr (), w')"
  obtains r where "(Guard_Check (gs_unicode s) cfg gid u body :: ('z, guard_result \<times> guard_error option) groupm) w = (Inr (r, None), w')"
  using assms unfolding checked_def
  by (elim andThen_InrE) (auto simp: raise_run ret_run elim!: andThen_InrE split: prod.splits option.splits)

lemma Guard_Reserve_InrE:
  assumes "Guard_Reserve cfg gid uid key mid w = (Inr p, w')" "TrimSpace key \<noteq> []"
  obtains w0 where "w_db w0 = w_db w"
    "ReserveIdempotencyKey (''message:'' @ gid) uid key mid (x_now w) (IdempotencyTTL cfg) w0 = (Inr p, w')"
  using assms unfolding Guard_Reserve_def guard_db_def
  by (simp, elim andThen_InrE clock_db_InrE map_error_InrE, intro that [of "ticked w"]) simp_all

section \<open>Once\<close>

lemma AddMessage_db:
  assumes "AddMessage m w = (Inr (), w')"
  shows "m_id (message_row_of m) \<notin> m_id ` set (t_messages (w_db w))"
    "w_db w' = touch_group (msg_GroupID m) (unix (msg_CreatedAt m)) ((w_db w)\<lparr>t_messages := t_messages (w_db w) @ [message_row_of m]\<rparr>)"
  using AddMessage_result [OF assms [unfolded AddMessage_def]] by (auto simp: insert_message_Some)

lemma reserve_keeps_messages: "keeps (\<lambda>d. t_messages d = ms) (ReserveIdempotencyKey scope uid key response now ttl)"
  unfolding ReserveIdempotencyKey_def
  by (intro keeps_intros) (auto simp: insert_idempotency_def guarded_def split: if_splits)

lemma Store_Message_id:
  assumes "Store_Message mid w = (Inr x, w')"
  shows "msg_ID x = mid"
proof -
  obtain row w1 where 1: "select (\<lambda>d. case row_with m_id mid (t_messages d) of None \<Rightarrow> None | Some m \<Rightarrow> scan_message d m) w
      = (Inr row, w1)"
    and 2: "(case row of
       None \<Rightarrow> raise ErrNotFound
     | Some m \<Rightarrow> andThen (ListForMessage (msg_ID m)) (\<lambda>as. ret (m\<lparr>Attachments := as\<rparr>))) w1 = (Inr x, w')"
    using assms unfolding Store_Message_def by (rule andThen_InrE)
  from 2 obtain y where y: "row = Some y" "msg_ID x = msg_ID y"
    by (cases row) (auto simp: raise_run elim!: andThen_InrE ret_InrE)
  from 1 have "row = (case row_with m_id mid (t_messages (w_db w)) of None \<Rightarrow> None | Some m \<Rightarrow> scan_message (w_db w) m)"
    by (rule select_InrE)
  then show ?thesis
    using y row_with_SomeD scan_message_fields(1) by (fastforce split: option.splits)
qed

text \<open>
  C6: A repeated request sends nothing. Once a request with an idempotency key has sent a new
  message, any later request of the same user in the same group with the same key, until the
  key expires and whatever its text, that succeeds, answers with that message; it stores no
  message and tells nobody.
\<close>

theorem send_once:
  assumes wf: "wf_db (w_db w)" and guard: "gs_guard s = Some cfg" and key: "TrimSpace key \<noteq> []"
    and first: "send s gid u body reply key w = (Inr m, w1)"
    and new: "msg_ID m \<notin> m_id ` set (t_messages (w_db w))"
    and later: "t_idempotency (w_db v) = t_idempotency (w_db w1)"
      "unix (x_now v) < unix (x_now w + IdempotencyTTL cfg)"
    and again: "send s gid u body' reply' key v = (Inr m', v1)"
  shows "msg_ID m' = msg_ID m \<and> t_messages (w_db v1) = t_messages (w_db v) \<and> g_hub v1 = g_hub v"
proof -
  let ?k = "(''message:'' @ gid, user_ID u, key)"
  let ?e = "unix (x_now w + IdempotencyTTL cfg)"
  obtain wa mid wb id' fresh wc where 1: "group_member_check gid (user_ID u) w = (Inr True, wa)"
    "Groups_ID ''msg_'' wa = (Inr mid, wb)" "Guard_Reserve cfg gid (user_ID u) key mid wb = (Inr (id', fresh), wc)"
    and old: "\<not> fresh \<Longrightarrow> Store_Message id' wc = (Inr m, w1)"
    and sent: "fresh \<Longrightarrow> \<exists>wd we. checked s cfg gid u (TrimSpace body) wc = (Inr (), wd) \<and>
       m = message_of id' gid u (TrimSpace body) (x_now wd) reply [] \<and>
       AddMessage m (ticked wd) = (Inr (), we) \<and>
       publishGroup gid ''message_created'' (Ready (MessageData (MessageView m))) we = (Inr (), w1)"
    using first guard by (rule send_InrE) (rule that)
  have wa: "w_db wa = w_db w" "x_now wa = x_now w"
    using member_clock [OF 1(1)] 1(1) by (auto elim: member_InrE)
  have wb: "w_db wb = w_db w" "x_now wb = x_now w" using Groups_ID_clock [OF 1(2)] wa by simp_all
  obtain w0 where res: "w_db w0 = w_db w"
    "ReserveIdempotencyKey (''message:'' @ gid) (user_ID u) key mid (x_now w) (IdempotencyTTL cfg) w0 = (Inr (id', fresh), wc)"
    using 1(3) key by (rule Guard_Reserve_InrE) (auto simp: wb)
  have "t_messages (w_db wc) = t_messages (w_db w)"
    using keeps_resultD [OF reserve_keeps_messages res(2)] res(1) by simp
  moreover have "msg_ID m \<in> m_id ` set (t_messages (w_db wc))" if "\<not> fresh"
    using old [OF that] Store_Message_id [OF old [OF that]]
    by (elim Store_Message_InrE) (drule row_with_SomeD, force)
  ultimately have fresh: "fresh" using new by auto
  obtain wd we where 2: "checked s cfg gid u (TrimSpace body) wc = (Inr (), wd)"
    "m = message_of id' gid u (TrimSpace body) (x_now wd) reply []" "AddMessage m (ticked wd) = (Inr (), we)"
    "publishGroup gid ''message_created'' (Ready (MessageData (MessageView m))) we = (Inr (), w1)"
    using sent [OF fresh] by blast
  have "id' = mid" "reserved ?k mid ?e (w_db wc)"
    using ReserveIdempotencyKey_fresh [OF _ res(2) [unfolded fresh [THEN eqTrueI]]] wf res(1) by simp_all
  moreover have "t_idempotency (w_db w1) = t_idempotency (w_db wc)"
  proof -
    have "w_db w1 = w_db we" using service_reads_keep(4) 2(4) by (rule untouched)
    moreover have "t_idempotency (w_db we) = t_idempotency (w_db wd)"
      using AddMessage_db(2) [OF 2(3)] by (simp add: touch_group_def)
    moreover have "t_idempotency (w_db wd) = t_idempotency (w_db wc)"
      using 2(1) by (rule checked_InrE) (use keeps_resultD [OF guard_keeps_keys] in blast)
    ultimately show ?thesis by simp
  qed
  ultimately have taken: "reserved ?k (msg_ID m) ?e (w_db v)"
    using later(1) 2(2) by (simp add: reserved_def message_of_def)
  obtain va mid' vb id2 fresh2 vc where 3: "group_member_check gid (user_ID u) v = (Inr True, va)"
    "Groups_ID ''msg_'' va = (Inr mid', vb)" "Guard_Reserve cfg gid (user_ID u) key mid' vb = (Inr (id2, fresh2), vc)"
    and got: "\<not> fresh2 \<Longrightarrow> Store_Message id2 vc = (Inr m', v1)"
    using again guard by (rule send_InrE) (rule that)
  have va: "w_db va = w_db v" "x_now va = x_now v"
    using member_clock [OF 3(1)] 3(1) by (auto elim: member_InrE)
  have vb: "w_db vb = w_db v" "x_now vb = x_now v" using Groups_ID_clock [OF 3(2)] va by simp_all
  obtain v0 where res': "w_db v0 = w_db v"
    "ReserveIdempotencyKey (''message:'' @ gid) (user_ID u) key mid' (x_now v) (IdempotencyTTL cfg) v0 = (Inr (id2, fresh2), vc)"
    using 3(3) key by (rule Guard_Reserve_InrE) (auto simp: vb)
  have "id2 = msg_ID m" "\<not> fresh2"
    using ReserveIdempotencyKey_taken [OF _ later(2) res'(2)] taken res'(1) by simp_all
  then have msg: "Store_Message (msg_ID m) vc = (Inr m', v1)" using got by simp
  have "msg_ID m' = msg_ID m" using msg by (rule Store_Message_id)
  moreover have "t_messages (w_db v1) = t_messages (w_db v)"
    using keeps_resultD [OF reserve_keeps_messages res'(2)] res'(1) untouched [OF message_reads_keep(3) msg] by simp
  moreover have "g_hub v1 = g_hub v"
  proof -
    have "g_hub va = g_hub v" "g_hub vb = g_hub va" "g_hub vc = g_hub vb" "g_hub v1 = g_hub vc"
      using staysD [OF silence.stays_service(2) 3(1)] staysD [OF silence.stays_service(1) 3(2)]
        staysD [OF silence.stays_guard(2) 3(3)] staysD [OF silence.stays_messages(2) msg] by simp_all
    then show ?thesis by simp
  qed
  ultimately show ?thesis by simp
qed

section \<open>Examples\<close>

definition guarded_groups :: group_service where
  "guarded_groups = WithMessageGuard plain_groups DefaultConfig"

definition club_world :: group_world where
  "club_world = groups_on club_db (2 * hour) (replicate 32 0)"

definition club_once :: "(group_error + group_message) \<times> group_world" where
  "club_once = send guarded_groups ''g'' member_2 ''Hello'' None ''k'' club_world"

definition club_twice :: "(group_error + group_message) \<times> group_world" where
  "club_twice = send guarded_groups ''g'' member_2 ''Hi'' None ''k'' (snd club_once)"

lemma club_runs:
  "map_sum (\<lambda>_. ()) msg_ID (fst club_once) = Inr ''msg_00000000000000000000000000000000''"
  "\<not> isl (fst club_twice)" "x_now (snd club_once) = 2 * hour"
  by code_simp+

lemma send_once_witness:
  "map_sum (\<lambda>_. ()) msg_ID (fst club_twice) = Inr ''msg_00000000000000000000000000000000'' \<and>
   t_messages (w_db (snd club_twice)) = t_messages (w_db (snd club_once))"
proof -
  obtain m w1 where first: "club_once = (Inr m, w1)" and m: "msg_ID m = ''msg_00000000000000000000000000000000''"
    using club_runs(1) by (cases "fst club_once"; simp) (metis prod.collapse)
  obtain m' v1 where again: "club_twice = (Inr m', v1)"
    using club_runs(2) by (cases "fst club_twice"; simp) (metis prod.collapse)
  have "msg_ID m' = msg_ID m \<and> t_messages (w_db v1) = t_messages (w_db w1) \<and> g_hub v1 = g_hub w1"
  proof (rule send_once [of club_world])
    show "send guarded_groups ''g'' member_2 ''Hello'' None ''k'' club_world = (Inr m, w1)"
      using first by (simp add: club_once_def)
    show "send guarded_groups ''g'' member_2 ''Hi'' None ''k'' w1 = (Inr m', v1)"
      using again unfolding club_twice_def first snd_conv .
    show "gs_guard guarded_groups = Some DefaultConfig"
      by (simp add: guarded_groups_def WithMessageGuard_def)
    show "TrimSpace ''k'' \<noteq> []" by code_simp
    show "unix (x_now w1) < unix (x_now club_world + IdempotencyTTL DefaultConfig)"
      using club_runs(3) [unfolded first snd_conv] by (simp add: club_world_def DefaultConfig_def)
  qed (simp_all add: club_world_def m hello_def)
  then show ?thesis by (simp add: first again m)
qed

end
