(* ===== verification/Enforcer.thy ===== *)
theory Enforcer
  imports Limiter AppLaws "HOL-Library.Code_Target_Nat"
begin

text \<open>
  \<^verbatim>\<open>httpapi/ban/enforcer.go\<close>: what too many refused requests lead to. A client without a
  session has its address banned; an account is blocked, loses its recent traces, and after
  enough bans of the highest level within a window it is deleted. Errors are only logged by
  the callers, so those of the store are among those of the service.
\<close>

section \<open>The enforcer\<close>

definition Enforcer_Banned :: "string \<Rightarrow> ('z, bool \<times> time) appm" where
  "Enforcer_Banned ip = from_db (Banned ip)"

definition AccountBlocked :: "string \<Rightarrow> ('z, bool \<times> time) appm" where
  "AccountBlocked userID = andThen clock (\<lambda>now. from_db (AccountBlockActive userID now))"

definition enforcer_record :: "abuse_config \<Rightarrow> user \<Rightarrow> ban_result \<Rightarrow> ('z, unit) appm" where
  "enforcer_record cfg u result =
     (if Level result = 0 then ret ()
      else
      andThen (CleanupBannedUser u) (\<lambda>_.
      if Level result < int (length (IPBanSteps cfg)) then ret ()
      else
      andThen clock (\<lambda>now.
      andThen (from_db (RecordAccountBan (user_ID u) now (AccountBanWindow cfg))) (\<lambda>count.
      if count < AccountBanDeletionCount cfg then ret ()
      else DeleteUser u))))"

definition Enforcer_NoteViolation ::
  "crypto \<Rightarrow> service \<Rightarrow> abuse_config \<Rightarrow> string \<Rightarrow> string \<Rightarrow> ('z, unit) appm" where
  "Enforcer_NoteViolation c s cfg token ip =
     (if token = [] then andThen (from_db (Limiter_NoteViolation cfg ip)) (\<lambda>_. ret ())
      else
      andThen (attempt (Authenticate c s token)) (\<lambda>r.
      case r of
        Inl (_ :: app_error) \<Rightarrow> ret ()
      | Inr u \<Rightarrow>
          andThen (from_db (NoteAccountViolation cfg (user_ID u))) (\<lambda>result.
          if Level result = 0 then ret ()
          else
          andThen (from_db (SetAccountBlock (user_ID u) (Until result))) (\<lambda>_.
          enforcer_record cfg u result))))"

section \<open>Who is deleted\<close>

text \<open>The accounts and the account bans of a database.\<close>

definition accounts_are :: "string set \<Rightarrow> account_ban_row list \<Rightarrow> database \<Rightarrow> bool" where
  "accounts_are us bs d \<longleftrightarrow> u_id ` set (t_users d) = us \<and> t_account_bans d = bs"

lemma update_same_ids: "(\<And>r. u_id (f r) = u_id r) \<Longrightarrow> u_id ` set (update_where P f us) = u_id ` set us"
  by (rule update_where_key_set) simp

lemma Authenticate_keeps_accounts: "keeps (accounts_are us bs) (Authenticate c s token)"
  unfolding Authenticate_def or_else_def from_db_def translated_def UserBySessionHash_def userBySessionQuery_def
    TouchSession_def SecurityState_def Let_def
  by (intro keeps_intros) (auto simp: accounts_are_def see_user_def see_session_def Let_def update_same_ids)

lemma limiter_keeps_accounts:
  "keeps (accounts_are us bs) (NoteAccountViolation cfg userID)"
  "keeps (accounts_are us bs) (SetAccountBlock userID until)"
  unfolding NoteAccountViolation_def noteViolation_def NoteViolation_def SetAccountBlock_def Let_def
  by (intro keeps_intros; auto simp: accounts_are_def upsert_account_block_def split: if_splits option.splits)+

lemma Cleanup_keeps_accounts: "keeps (accounts_are us bs) (CleanupBannedUser u)"
  unfolding CleanupBannedUser_def from_db_def gateway_or_def Store_CleanupBannedUser_def
  by (intro keeps_intros) (auto simp: accounts_are_def mark_rooms_empty_def delete_messages_def Let_def)

lemma Authenticate_owner:
  assumes "Authenticate c s token w = (Inr u, w1)"
  obtains ses where "session_of (sha256 c token) (w_db w) = Some ses" "user_ID u = ses_user_id ses"
proof -
  obtain u0 w2 where 1: "UserBySessionHash (sha256 c token) (x_now w) (x_now w - sessionIdleTTL s) (ticked w) = (Inr u0, w2)"
    and 2: "user_ID u = user_ID u0"
    using assms unfolding Authenticate_def Let_def
    by (auto split: if_splits elim!: app_elims ret_InrE raise_InrE)
  obtain ses row where "session_of (sha256 c token) (w_db w) = Some ses" "u0 = full_user row"
      "user_row_of (w_db w) (ses_user_id ses) = Some row"
    using UserBySessionHash_result [OF 1] by auto
  then show thesis using that 2 by (auto simp: user_row_of_def dest: row_with_SomeD)
qed

lemma delete_users_ids:
  "u_id ` set (t_users (delete_users P d)) = u_id ` set (filter (\<lambda>u. \<not> P u) (t_users d))"
  by (simp add: delete_users_def delete_rooms_def delete_groups_def delete_messages_def Let_def)

lemma DeleteUser_others:
  assumes "uid \<noteq> user_ID u"
  shows "keeps (\<lambda>d. uid \<in> u_id ` set (t_users d)) (DeleteUser u)"
  unfolding DeleteUser_def from_db_def translated_def or_else_def gateway_or_def Store_DeleteUser_def OwnedRoomCodes_def
  using assms by (intro keeps_intros) (auto simp: delete_users_ids)

lemma keeps_from_db: "keeps I m \<Longrightarrow> keeps I (from_db m)"
  unfolding from_db_def by (rule keeps_map_error)

lemma anonymous_keeps_accounts: "token = [] \<Longrightarrow> keeps (accounts_are us bs) (Enforcer_NoteViolation c s cfg token ip)"
  unfolding Enforcer_NoteViolation_def from_db_def Limiter_NoteViolation_def noteViolation_def NoteViolation_def Let_def
  by simp (intro keeps_intros; simp add: accounts_are_def)

lemma RecordAccountBan_users: "keeps (\<lambda>d. uid \<in> u_id ` set (t_users d)) (RecordAccountBan userID now period)"
  unfolding RecordAccountBan_def Let_def
  by (intro keeps_intros) (auto simp: insert_account_ban_def split: if_splits)


text \<open>A configuration that bans for a second at the first violation and deletes at the first ban.\<close>

definition strict_config :: abuse_config where
  "strict_config = DefaultConfig\<lparr>IPBanThreshold := 1, IPBanSteps := [second], AccountBanDeletionCount := 1\<rparr>"

definition abused_session :: database where
  "abused_session = one_session\<lparr>
     t_users := [hd (t_users one_session)\<lparr>u_last_seen_at := 60\<rparr>, t_users one_session ! 1],
     t_sessions := [hd (t_sessions one_session)\<lparr>ses_last_seen_at := 60\<rparr>]\<rparr>"

definition abuser :: user where
  "abuser = (full_user (hd (t_users one_session)))\<lparr>Security := Some \<lparr>CanManage = False, Alert = False\<rparr>\<rparr>"

definition punished_session :: database where
  "punished_session = abused_session\<lparr>
     t_bans := [\<lparr>ib_key = ''account:u1'', ib_violations = 1, ib_window_start = 60, ib_until = 61,
                 ib_updated_at = 60, ib_ban_count = 1\<rparr>],
     t_account_blocks := [\<lparr>bl_user_id = ''u1'', bl_until = 61\<rparr>]\<rparr>"

lemma strict_steps:
  "Authenticate plain_crypto small_service ''t1'' (serving one_session minute []) = (Inr abuser, serving abused_session minute [])"
  "NoteAccountViolation strict_config ''u1'' (serving abused_session minute []) =
     (Inr \<lparr>Level = 1, Until = 61 * second\<rparr>,
      serving (punished_session\<lparr>t_account_blocks := []\<rparr>) minute [])"
  "SetAccountBlock ''u1'' (61 * second) (serving (punished_session\<lparr>t_account_blocks := []\<rparr>) minute []) =
     (Inr (), serving punished_session minute [])"
  "CleanupBannedUser abuser (serving punished_session minute []) = (Inr (), serving punished_session minute [])"
  "RecordAccountBan ''u1'' minute (AccountBanWindow strict_config) (serving punished_session minute []) =
     (Inr 1, serving (punished_session\<lparr>t_account_bans := [\<lparr>ab_user_id = ''u1'', ab_created_at = 60\<rparr>]\<rparr>) minute [])"
  "user_ID abuser = ''u1''" "AccountBanDeletionCount strict_config = 1" "IPBanSteps strict_config = [second]"
  by code_simp+

lemma serving_tick: "x_now (serving d now tape) = now" "ticked (serving d now tape) = serving d now tape"
  by (simp_all add: serving_def ticked_def)

lemma strict_run:
  "u_id ` set (t_users (w_db (snd (Enforcer_NoteViolation plain_crypto small_service strict_config ''t1'' ''1.2.3.4''
     (serving one_session minute []))))) = {''u2''}"
  by (simp add: Enforcer_NoteViolation_def enforcer_record_def andThen_run attempt_run app_run clock_run strict_steps
      serving_tick DeleteUser_def OwnedRoomCodes_def Store_DeleteUser_def run_simps,
      simp add: run_simps serving_def punished_session_def abused_session_def one_session_def two_users_def empty_db_def
        quiet_def delete_users_ids)


end
