(* ===== verification/Clientip.thy ===== *)
theory Clientip
  imports Paths "HOL-Library.Code_Target_Nat"
begin

text \<open>
  \<^verbatim>\<open>clientip/clientip.go\<close>: which address a request counts for, at the trust boundary of the
  reverse proxies, with the functions of \<^verbatim>\<open>net\<close> and \<^verbatim>\<open>net/netip\<close> it reads addresses with.
  An address is its four bytes or its eight groups of 16 bits and its zone; the zero value
  of \<^verbatim>\<open>netip.Addr\<close> is \<open>NoAddr\<close>.
\<close>

section \<open>Addresses\<close>

datatype addr =
    NoAddr
  | V4 "nat list"
  | V6 "nat list" string

definition decimal_digit :: "char \<Rightarrow> bool" where
  "decimal_digit c \<longleftrightarrow> 48 \<le> bt c \<and> bt c \<le> 57"

definition decimal :: "string \<Rightarrow> nat" where
  "decimal s = foldl (\<lambda>n c. 10 * n + (bt c - 48)) 0 s"

text \<open>A number without sign and without leading zeros, up to a bound.\<close>

definition plain_number :: "nat \<Rightarrow> string \<Rightarrow> nat option" where
  "plain_number bound s =
     (if s \<noteq> [] \<and> list_all decimal_digit s \<and> (length s = 1 \<or> hd s \<noteq> CHR ''0'') \<and> decimal s \<le> bound
      then Some (decimal s) else None)"

text \<open>All the elements of a list through a function that may fail.\<close>

fun all_some :: "('a \<Rightarrow> 'b option) \<Rightarrow> 'a list \<Rightarrow> 'b list option" where
  "all_some f [] = Some []"
| "all_some f (x # xs) =
     (case f x of None \<Rightarrow> None | Some y \<Rightarrow> map_option (\<lambda>ys. y # ys) (all_some f xs))"

text \<open>Four octets separated by dots.\<close>

definition parse4 :: "string \<Rightarrow> nat list option" where
  "parse4 s =
     (let parts = split_on (CHR ''.'') s in
      if length parts = 4 then all_some (plain_number 255) parts else None)"

definition hex_value :: "char \<Rightarrow> nat option" where
  "hex_value c =
     (let b = bt c in
      if 48 \<le> b \<and> b \<le> 57 then Some (b - 48)
      else if 97 \<le> b \<and> b \<le> 102 then Some (b - 87)
      else if 65 \<le> b \<and> b \<le> 70 then Some (b - 55)
      else None)"

definition hex_number :: "string \<Rightarrow> nat" where
  "hex_number s = foldl (\<lambda>n c. 16 * n + the (hex_value c)) 0 s"

text \<open>
  The loop of \<^verbatim>\<open>parseIPv6\<close> over the rest of the text: the groups read so far and, once
  \<^verbatim>\<open>::\<close> was seen, how many stood before it. The result is the groups and that number.
\<close>

function (sequential) parse6 :: "nat list \<Rightarrow> nat option \<Rightarrow> string \<Rightarrow> (nat list \<times> nat option) option" where
  "parse6 groups ellipsis s =
     (if 8 \<le> length groups then None
      else
        let field = takeWhile (\<lambda>c. hex_value c \<noteq> None) s; rest = dropWhile (\<lambda>c. hex_value c \<noteq> None) s in
        if field = [] \<or> 4 < length field then None
        else
          (case rest of
             [] \<Rightarrow> Some (groups @ [hex_number field], ellipsis)
           | c # cs \<Rightarrow>
               if c = CHR ''.'' then
                 (if (ellipsis = None \<and> length groups \<noteq> 6) \<or> 6 < length groups then None
                  else
                    (case parse4 s of
                       Some [a, b, x, y] \<Rightarrow> Some (groups @ [256 * a + b, 256 * x + y], ellipsis)
                     | _ \<Rightarrow> None))
               else if c \<noteq> CHR '':'' then None
               else
                 (case cs of
                    [] \<Rightarrow> None
                  | d # ds \<Rightarrow>
                      let groups = groups @ [hex_number field] in
                      if d \<noteq> CHR '':'' then
                        (if length groups = 8 then None else parse6 groups ellipsis cs)
                      else if ellipsis \<noteq> None then None
                      else if ds = [] then Some (groups, Some (length groups))
                      else parse6 groups (Some (length groups)) ds)))"
  by pat_completeness auto
termination
  by (relation "measure (\<lambda>(groups, ellipsis, s). 8 - length groups)") auto

definition expand6 :: "nat list \<times> nat option \<Rightarrow> nat list option" where
  "expand6 r =
     (case r of (groups, ellipsis) \<Rightarrow>
       (if length groups < 8 then
          (case ellipsis of
             None \<Rightarrow> None
           | Some i \<Rightarrow> Some (take i groups @ replicate (8 - length groups) 0 @ drop i groups))
        else if ellipsis = None then Some groups else None))"

definition parseIPv6 :: "string \<Rightarrow> addr option" where
  "parseIPv6 s =
     (let zoned = (CHR ''%'' \<in> set s);
          zone = tl (dropWhile (\<lambda>c. c \<noteq> CHR ''%'') s);
          s = takeWhile (\<lambda>c. c \<noteq> CHR ''%'') s in
      if zoned \<and> zone = [] then None
      else
        let zone = (if zoned then zone else []) in
        if has_prefix ''::'' s then
          (if s = ''::'' then Some (V6 (replicate 8 0) zone)
           else map_option (\<lambda>g. V6 g zone) (Option.bind (parse6 [] (Some 0) (drop 2 s)) expand6))
        else map_option (\<lambda>g. V6 g zone) (Option.bind (parse6 [] None s) expand6))"

text \<open>\<^verbatim>\<open>netip.ParseAddr\<close>: the first dot, colon or percent sign decides.\<close>

definition ParseAddr :: "string \<Rightarrow> addr option" where
  "ParseAddr s =
     (case find (\<lambda>c. List.member ''.:%'' c) s of
        None \<Rightarrow> None
      | Some c \<Rightarrow>
          if c = CHR ''.'' then map_option V4 (parse4 s)
          else if c = CHR '':'' then parseIPv6 s
          else None)"

text \<open>\<^verbatim>\<open>Addr.Unmap\<close>: an IPv4 address written as IPv6 is that IPv4 address.\<close>

definition Is4In6 :: "nat list \<Rightarrow> bool" where
  "Is4In6 groups \<longleftrightarrow> take 6 groups = [0, 0, 0, 0, 0, 65535]"

definition octets :: "nat list \<Rightarrow> nat list" where
  "octets groups = concat (map (\<lambda>g. [g div 256, g mod 256]) groups)"

fun Unmap :: "addr \<Rightarrow> addr" where
  "Unmap (V6 groups zone) = (if Is4In6 groups then V4 (octets (drop 6 groups)) else V6 groups zone)"
| "Unmap a = a"

section \<open>Writing addresses\<close>

definition digit_char :: "nat \<Rightarrow> char" where
  "digit_char d = char_of (if d < 10 then 48 + d else 87 + d)"

text \<open>A number in a base, without leading zeros.\<close>

function (sequential) digits :: "nat \<Rightarrow> nat \<Rightarrow> string" where
  "digits base n = (if n < base \<or> base < 2 then [digit_char n] else digits base (n div base) @ [digit_char (n mod base)])"
  by pat_completeness auto
termination by (relation "measure snd") auto

declare parse6.simps [simp del] digits.simps [simp del]

text \<open>The length of the run of zeros a list begins with, and the first longest run of two or more.\<close>

definition zeros :: "nat list \<Rightarrow> nat" where
  "zeros groups = length (takeWhile (\<lambda>g. g = 0) groups)"

definition zero_run :: "nat list \<Rightarrow> (nat \<times> nat) option" where
  "zero_run groups =
     foldl (\<lambda>best i. let l = zeros (drop i groups) in
         if 2 \<le> l \<and> (case best of None \<Rightarrow> True | Some (_, m) \<Rightarrow> m < l) then Some (i, l) else best)
       None [0..<length groups]"

definition string6 :: "nat list \<Rightarrow> string" where
  "string6 groups =
     (let written = (\<lambda>gs. join_with (CHR '':'') (map (digits 16) gs)) in
      case zero_run groups of
        None \<Rightarrow> written groups
      | Some (i, l) \<Rightarrow> written (take i groups) @ ''::'' @ written (drop (i + l) groups))"

definition with_zone :: "string \<Rightarrow> string \<Rightarrow> string" where
  "with_zone s zone = (if zone = [] then s else s @ ''%'' @ zone)"

definition string4 :: "nat list \<Rightarrow> string" where
  "string4 bytes = join_with (CHR ''.'') (map (digits 10) bytes)"

fun addr_String :: "addr \<Rightarrow> string" where
  "addr_String NoAddr = ''invalid IP''"
| "addr_String (V4 bytes) = string4 bytes"
| "addr_String (V6 groups zone) =
     with_zone (if Is4In6 groups then ''::ffff:'' @ string4 (octets (drop 6 groups)) else string6 groups) zone"

section \<open>Prefixes\<close>

fun bit_list :: "nat \<Rightarrow> nat \<Rightarrow> bool list" where
  "bit_list 0 n = []"
| "bit_list (Suc k) n = bit_list k (n div 2) @ [odd n]"

fun addr_bits :: "addr \<Rightarrow> bool list" where
  "addr_bits NoAddr = []"
| "addr_bits (V4 bytes) = concat (map (bit_list 8) bytes)"
| "addr_bits (V6 groups zone) = concat (map (bit_list 16) groups)"

fun zone_of :: "addr \<Rightarrow> string" where
  "zone_of (V6 groups zone) = zone"
| "zone_of a = []"

definition ParsePrefix :: "string \<Rightarrow> (addr \<times> nat) option" where
  "ParsePrefix s =
     (case split_on slash s of
        [_] \<Rightarrow> None
      | parts \<Rightarrow>
          (case ParseAddr (join_with slash (butlast parts)) of
             None \<Rightarrow> None
           | Some a \<Rightarrow>
               if zone_of a \<noteq> [] then None
               else map_option (\<lambda>n. (a, n)) (plain_number (length (addr_bits a)) (last parts))))"

fun Contains :: "addr \<times> nat \<Rightarrow> addr \<Rightarrow> bool" where
  "Contains (net, n) a \<longleftrightarrow>
     zone_of a = [] \<and> a \<noteq> NoAddr \<and> length (addr_bits net) = length (addr_bits a)
     \<and> take n (addr_bits net) = take n (addr_bits a)"

section \<open>Host and port\<close>

text \<open>The host of \<^verbatim>\<open>net.SplitHostPort\<close>, \<open>None\<close> its error.\<close>

definition SplitHostPort :: "string \<Rightarrow> string option" where
  "SplitHostPort s =
     (case split_on (CHR '':'') s of
        [_] \<Rightarrow> None
      | parts \<Rightarrow>
          let front = join_with (CHR '':'') (butlast parts) in
          if has_prefix ''['' s then
            (let host = takeWhile (\<lambda>c. c \<noteq> CHR '']'') (tl s) in
             if front \<noteq> ''['' @ host @ '']'' \<or> CHR ''['' \<in> set (tl s) \<or> CHR '']'' \<in> set (last parts) then None
             else Some host)
          else if CHR '':'' \<in> set front \<or> CHR ''['' \<in> set s \<or> CHR '']'' \<in> set s then None
          else Some front)"

section \<open>Resolving\<close>

definition maxForwardedBytes :: nat where "maxForwardedBytes = 4096"
definition maxChainAddresses :: nat where "maxChainAddresses = 32"

definition parseRemote :: "string \<Rightarrow> addr \<times> bool" where
  "parseRemote value =
     (let host = (case SplitHostPort value of None \<Rightarrow> value | Some host \<Rightarrow> host) in
      case ParseAddr (TrimSpace host) of
        None \<Rightarrow> (NoAddr, False)
      | Some a \<Rightarrow> (Unmap a, True))"

definition parseChain :: "string \<Rightarrow> addr list option" where
  "parseChain value =
     (if value = [] then None
      else if length value > maxForwardedBytes then None
      else
        let parts = split_on (CHR '','') value in
        if length parts > maxChainAddresses then None
        else all_some (\<lambda>part. map_option Unmap (ParseAddr (TrimSpace part))) parts)"

definition trusted_entry :: "addr \<Rightarrow> string \<Rightarrow> bool" where
  "trusted_entry peer entry =
     (let entry = TrimSpace entry in
      if (case ParsePrefix entry of Some p \<Rightarrow> Contains p peer | None \<Rightarrow> False) then True
      else (case ParseAddr entry of Some a \<Rightarrow> Unmap a = peer | None \<Rightarrow> False))"

definition trustedPeer :: "addr \<Rightarrow> string list \<Rightarrow> bool" where
  "trustedPeer peer entries = list_ex (trusted_entry peer) entries"

text \<open>The loop of \<^verbatim>\<open>Resolve\<close> over the chain from its end, and the test after it.\<close>

fun walk :: "addr \<Rightarrow> string list \<Rightarrow> addr \<Rightarrow> addr list \<Rightarrow> addr" where
  "walk peer trusted current [] = (if \<not> trustedPeer current trusted then current else peer)"
| "walk peer trusted current (hop # hops) =
     (if \<not> trustedPeer current trusted then current else walk peer trusted hop hops)"

definition Resolve :: "string \<Rightarrow> string \<Rightarrow> string list \<Rightarrow> string" where
  "Resolve remoteAddr forwarded trusted =
     (case parseRemote remoteAddr of (peer, ok) \<Rightarrow>
        if \<not> ok \<or> \<not> trustedPeer peer trusted then addr_String peer
        else
          (case parseChain forwarded of
             None \<Rightarrow> addr_String peer
           | Some chain \<Rightarrow> addr_String (walk peer trusted peer (rev chain))))"

section \<open>Laws\<close>

lemma all_some_append:
  "all_some f (xs @ ys) =
     (case all_some f xs of
        None \<Rightarrow> None
      | Some us \<Rightarrow> map_option (\<lambda>vs. us @ vs) (all_some f ys))"
proof (induction xs)
  case Nil
  show ?case by (cases "all_some f ys") simp_all
next
  case (Cons x xs)
  then show ?case by (cases "all_some f ys") (simp_all split: option.split)
qed

lemma walk_find:
  "walk peer trusted current hops =
     (case find (\<lambda>a. \<not> trustedPeer a trusted) (current # hops) of Some a \<Rightarrow> a | None \<Rightarrow> peer)"
  by (induction peer trusted current hops rule: walk.induct) simp_all

lemma find_append: "find P (xs @ ys) = (case find P xs of Some x \<Rightarrow> Some x | None \<Rightarrow> find P ys)"
  by (induction xs) simp_all

lemma ParseAddr_Nil [simp]: "ParseAddr (TrimSpace []) = None"
  by (simp add: ParseAddr_def TrimSpace_def)

text \<open>The chain of a shorter header is the end of the chain of a longer one.\<close>

lemma parseChain_suffix:
  assumes "parseChain (extra @ '','' @ rest) = Some chain"
  obtains front hops where "chain = front @ hops" "parseChain rest = Some hops"
proof -
  let ?parse = "\<lambda>part. map_option Unmap (ParseAddr (TrimSpace part))"
  have len: "length (extra @ '','' @ rest) \<le> maxForwardedBytes"
    "length (split_on (CHR '','') extra @ split_on (CHR '','') rest) \<le> maxChainAddresses"
    and parsed: "all_some ?parse (split_on (CHR '','') extra @ split_on (CHR '','') rest) = Some chain"
    using assms by (auto simp: parseChain_def Let_def split_on_append_sep split: if_splits)
  obtain front hops where chain: "chain = front @ hops"
    and hops: "all_some ?parse (split_on (CHR '','') rest) = Some hops"
    using parsed by (auto simp: all_some_append split: option.splits)
  have "rest \<noteq> []" using hops by auto
  then have "parseChain rest = Some hops"
    using len hops by (simp add: parseChain_def)
  then show thesis using that chain by blast
qed

text \<open>
  C7: Nobody can choose the address it is counted for. A request that does not come from a
  trusted proxy counts for its own connection, whatever headers it sends; and behind trusted
  proxies, whatever a client writes in front of what the proxies appended, as long as the
  header is still well formed, changes nothing: the address is the one the proxies saw.
\<close>

theorem Resolve_no_spoofing:
  assumes "parseChain (extra @ '','' @ rest) \<noteq> None"
    and "parseChain rest = Some hops"
    and "\<not> trustedPeer (fst (parseRemote remote)) trusted \<or> list_ex (\<lambda>a. \<not> trustedPeer a trusted) hops"
  shows "Resolve remote (extra @ '','' @ rest) trusted = Resolve remote rest trusted
    \<and> (trustedPeer (fst (parseRemote remote)) trusted
        \<or> Resolve remote header trusted = addr_String (fst (parseRemote remote)))"
proof
  let ?peer = "fst (parseRemote remote)" and ?seen = "\<lambda>a. \<not> trustedPeer a trusted"
  obtain chain where chain: "parseChain (extra @ '','' @ rest) = Some chain"
    using assms(1) by auto
  then obtain front where parts: "chain = front @ hops"
    using assms(2) by (elim parseChain_suffix) simp
  show "Resolve remote (extra @ '','' @ rest) trusted = Resolve remote rest trusted"
  proof (cases "trustedPeer ?peer trusted")
    case False
    then show ?thesis by (simp add: Resolve_def split_beta)
  next
    case True
    then have "list_ex ?seen hops" using assms(3) by simp
    then have "find ?seen (rev hops) \<noteq> None" by (auto simp: find_None_iff list_ex_iff)
    then show ?thesis
      using chain parts assms(2) True
      by (auto simp: Resolve_def split_beta walk_find find_append split: option.splits)
  qed
  show "trustedPeer ?peer trusted \<or> Resolve remote header trusted = addr_String ?peer"
    by (simp add: Resolve_def split_beta)
qed

lemma Resolve_no_spoofing_witness:
  "Resolve ''10.0.0.1:80'' (''8.8.8.8'' @ '','' @ ''203.0.113.9, 10.0.0.2'') [''10.0.0.0/8''] = ''203.0.113.9''"
proof -
  have "parseChain (''8.8.8.8'' @ '','' @ ''203.0.113.9, 10.0.0.2'') \<noteq> None"
    "parseChain ''203.0.113.9, 10.0.0.2'' = Some [V4 [203, 0, 113, 9], V4 [10, 0, 0, 2]]"
    "\<not> trustedPeer (fst (parseRemote ''10.0.0.1:80'')) [''10.0.0.0/8'']
     \<or> list_ex (\<lambda>a. \<not> trustedPeer a [''10.0.0.0/8'']) [V4 [203, 0, 113, 9], V4 [10, 0, 0, 2]]"
    by code_simp+
  from Resolve_no_spoofing [OF this, of "[]"]
  have "Resolve ''10.0.0.1:80'' (''8.8.8.8'' @ '','' @ ''203.0.113.9, 10.0.0.2'') [''10.0.0.0/8'']
    = Resolve ''10.0.0.1:80'' ''203.0.113.9, 10.0.0.2'' [''10.0.0.0/8'']" by (rule conjunct1)
  also have "\<dots> = ''203.0.113.9''" by code_simp
  finally show ?thesis .
qed

end
