(* ===== verification/Http.thy ===== *)
theory Http
  imports Enforcer GroupService Views Clientip
begin

text \<open>
  \<^verbatim>\<open>httpapi/middleware.go\<close> and the shared parts of \<^verbatim>\<open>httpapi/router.go\<close>: requests and
  responses, who a request comes from, the middleware every request passes, and how errors
  of the services become responses. A handler is an action whose result is the response it
  writes; a panic is its only error, and carries the headers set before it. The request
  identifier, which is random, the messages of errors and the logs are left out.
\<close>

section \<open>Requests and responses\<close>

text \<open>
  \<open>header\<close> is \<^verbatim>\<open>Header.Get\<close>, \<open>cookie\<close> the value of \<^verbatim>\<open>Cookie\<close>, \<open>query\<close> is \<^verbatim>\<open>Query().Get\<close>,
  \<open>url_param\<close> is \<^verbatim>\<open>chi.URLParam\<close> and \<open>ctx_user\<close> the user in the context. A body is its text
  and the limit \<^verbatim>\<open>MaxBytesReader\<close> puts on it.
\<close>

record body =
  body_text :: string
  body_max :: "int option"

record request =
  Method :: string
  URLPath :: string
  RemoteAddr :: string
  Host :: string
  TLS :: bool
  ContentLength :: int
  header :: "string \<Rightarrow> string"
  cookie :: "string \<Rightarrow> string option"
  query :: "string \<Rightarrow> string"
  req_body :: body
  url_param :: "string \<Rightarrow> string"
  ctx_user :: "user option"

text \<open>What the cookie of a session says.\<close>

record session_cookie =
  c_Value :: string
  c_Secure :: bool
  c_MaxAge :: int
  c_Expires :: time

text \<open>\<^verbatim>\<open>publicview.VoiceRoom\<close> and the answer about quotas.\<close>

record voice_view =
  vv_ID :: string
  vv_GroupID :: string
  vv_Name :: string
  vv_CreatedAt :: time
  vv_ParticipantCount :: int

record limits_response =
  q_MaxInputMediaBytes :: "64 word"
  q_MaxArchiveBytes :: "64 word"
  q_MaxOutputMediaBytes :: "64 word"
  q_MaxFilesPerMessage :: int
  q_MaxUserStoredBytes :: "64 word"
  q_MaxUserDailyBytes :: "64 word"
  q_MaxTotalBytes :: "64 word"
  q_MinFreeBytes :: "64 word"
  q_RetentionSeconds :: int

record quota_response =
  q_StoredBytes :: int
  q_DailyBytes :: int
  q_Limits :: limits_response
  q_PendingDelete :: "attachment_delete_request option"

datatype payload =
    NoBody
  | StatusBody
  | ErrorBody string
  | IsolatedBody time
  | UserBody self_user
  | WelcomeBody welcome_stats
  | SessionsBody "session list"
  | RoomBody room_view
  | JoinBody join_result
  | GroupBody group_view
  | GroupsBody "group_view list"
  | ProfileBody profile_view
  | VoiceBody voice_view
  | JoinVoiceBody join_voice
  | MessageBody message_view
  | MessagesBody "message_view list"
  | QuotaBody quota_response
  | DeleteBody attachment_delete_request
  | FileBody string
  | EventStream nat

type_synonym header_list = "(string \<times> string) list"

record response =
  status :: int
  headers :: header_list
  cookies :: "session_cookie list"
  payload :: payload

type_synonym ('z, 'a) http = "('z group_world_scheme, header_list, 'a) action"
type_synonym 'z handler = "request \<Rightarrow> ('z, response) http"

definition panic :: "('z, 'a) http" where "panic = raise []"

definition writeJSON :: "int \<Rightarrow> payload \<Rightarrow> response" where
  "writeJSON code body = \<lparr>status = code, headers = [(''Content-Type'', ''application/json'')], cookies = [], payload = body\<rparr>"

definition writeError :: "int \<Rightarrow> string \<Rightarrow> response" where
  "writeError code name = writeJSON code (ErrorBody name)"

definition no_content :: response where
  "no_content = \<lparr>status = 204, headers = [], cookies = [], payload = NoBody\<rparr>"

text \<open>\<^verbatim>\<open>w.Header().Set\<close> before the response is written.\<close>

definition with_header :: "string \<Rightarrow> string \<Rightarrow> response \<Rightarrow> response" where
  "with_header k v r = r\<lparr>headers := (k, v) # headers r\<rparr>"

definition no_store :: "response \<Rightarrow> response" where
  "no_store r = with_header ''Cache-Control'' ''no-store'' r"

text \<open>\<^verbatim>\<open>max(1, int(d.Seconds()))\<close>, written in decimal.\<close>

definition retry_seconds :: "duration \<Rightarrow> string" where
  "retry_seconds d = digits 10 (nat (max 1 (in_seconds d)))"

definition writeRetryAfter :: "time \<Rightarrow> response \<Rightarrow> ('z, response) http" where
  "writeRetryAfter until r =
     andThen clock (\<lambda>now. ret (with_header ''Retry-After'' (retry_seconds (until - now)) r))"

section \<open>Errors\<close>

fun writeAppError :: "app_error \<Rightarrow> response" where
  "writeAppError ErrInvalidCredentials = writeError 401 ''invalid_credentials''"
| "writeAppError ErrUnauthorized = writeError 401 ''unauthorized''"
| "writeAppError ErrEmailTaken = writeError 409 ''email_taken''"
| "writeAppError App_ErrForbidden = writeError 403 ''forbidden''"
| "writeAppError App_ErrNotFound = writeError 404 ''not_found''"
| "writeAppError App_ErrRoomFull = writeError 409 ''room_full''"
| "writeAppError ErrRoomCodeUnavailable = writeError 503 ''room_code_unavailable''"
| "writeAppError ErrLiveKitUnavailable = writeError 502 ''livekit_unavailable''"
| "writeAppError _ = writeError 500 ''internal_error''"

fun writeGroupError :: "group_error \<Rightarrow> ('z, response) http" where
  "writeGroupError (IsolationError until) =
     writeRetryAfter until (writeJSON 423 (IsolatedBody until))"
| "writeGroupError Group_ErrNotFound = ret (writeError 404 ''not_found'')"
| "writeGroupError Group_ErrForbidden = ret (writeError 403 ''forbidden'')"
| "writeGroupError ErrInvalid = ret (writeError 400 ''validation_error'')"
| "writeGroupError ErrWarned = ret (writeError 409 ''spam_warning'')"
| "writeGroupError ErrLimited = ret (writeError 429 ''rate_limited'')"
| "writeGroupError Group_ErrGroupLimit = ret (writeError 409 ''group_limit'')"
| "writeGroupError ErrVoiceLimit = ret (writeError 409 ''voice_room_limit'')"
| "writeGroupError GroupPanic = panic"
| "writeGroupError (GroupStore ErrPanic) = panic"
| "writeGroupError _ = ret (writeError 500 ''internal_error'')"

text \<open>
  A call of the application service, and of the group service, whose error is written; the
  panic of a group operation goes on.
\<close>

definition with_app :: "('z, 'a) appm \<Rightarrow> ('a \<Rightarrow> ('z app_world_scheme, header_list, response) action)
   \<Rightarrow> ('z app_world_scheme, header_list, response) action" where
  "with_app m k = andThen (attempt m) (\<lambda>r. case r of
       Inl e \<Rightarrow> if e = AppStore ErrPanic then raise [] else ret (writeAppError e)
     | Inr x \<Rightarrow> k x)"

definition with_group :: "('z, 'a) groupm \<Rightarrow> ('a \<Rightarrow> ('z, response) http) \<Rightarrow> ('z, response) http" where
  "with_group m k = andThen (attempt m) (\<lambda>r. case r of Inl e \<Rightarrow> writeGroupError e | Inr x \<Rightarrow> k x)"

section \<open>Who a request comes from\<close>

definition sessionCookieName :: string where "sessionCookieName = ''threaden_session''"

definition hasSessionCookie :: "request \<Rightarrow> bool" where
  "hasSessionCookie r \<longleftrightarrow>
     (case cookie r sessionCookieName of None \<Rightarrow> False | Some value \<Rightarrow> value \<noteq> [])"

text \<open>\<^verbatim>\<open>strings.Fields\<close>: the maximal runs of runes that are not white space.\<close>

fun fields_of :: "string \<Rightarrow> (rune \<times> string) list \<Rightarrow> string list" where
  "fields_of word [] = (if word = [] then [] else [word])"
| "fields_of word ((r, s) # rest) =
     (if IsSpace r then (if word = [] then fields_of [] rest else word # fields_of [] rest)
      else fields_of (word @ s) rest)"

definition Fields :: "string \<Rightarrow> string list" where
  "Fields s = fields_of [] (segments s)"

text \<open>\<^verbatim>\<open>strings.EqualFold\<close> with a word of ASCII letters that no other rune folds to.\<close>

definition fold_ascii :: "string \<Rightarrow> string" where
  "fold_ascii s = map (\<lambda>c. if 65 \<le> bt c \<and> bt c \<le> 90 then char_of (bt c + 32) else c) s"

definition bearerToken :: "request \<Rightarrow> string" where
  "bearerToken r =
     (case Fields (header r ''Authorization'') of
        [scheme, token] \<Rightarrow> if fold_ascii scheme = ''bearer'' then token else []
      | _ \<Rightarrow> [])"

definition sessionToken :: "request \<Rightarrow> string" where
  "sessionToken r =
     (if bearerToken r \<noteq> [] then bearerToken r
      else (case cookie r sessionCookieName of None \<Rightarrow> [] | Some value \<Rightarrow> value))"

definition request_clientIP :: "request \<Rightarrow> string list \<Rightarrow> string" where
  "request_clientIP r trusted = Resolve (RemoteAddr r) (header r ''X-Forwarded-For'') trusted"

text \<open>\<^verbatim>\<open>currentUser\<close> panics without a user in the context.\<close>

definition currentUser :: "request \<Rightarrow> ('z, user) http" where
  "currentUser r = (case ctx_user r of None \<Rightarrow> panic | Some u \<Rightarrow> ret u)"

definition optionalUser :: "request \<Rightarrow> user option" where
  "optionalUser r = ctx_user r"

definition sessionSubject :: "crypto \<Rightarrow> string \<Rightarrow> string" where
  "sessionSubject c token = Subject ''session'' (hex_encode (take 8 (bytes_of (sha256 c token))))"

section \<open>Routes for the limits\<close>

definition trim_slashes :: "string \<Rightarrow> string" where
  "trim_slashes s = rev (dropWhile (\<lambda>c. c = slash) (rev (dropWhile (\<lambda>c. c = slash) s)))"

definition routeKey :: "request \<Rightarrow> string" where
  "routeKey r =
     (let parts = split_on slash (trim_slashes (URLPath r));
          n = length parts;
          under = (\<lambda>kind. parts ! 0 = ''v1'' \<and> parts ! 1 = kind) in
      if n \<ge> 4 \<and> under ''groups'' \<and> parts ! 3 = ''messages'' then Method r @ '' /v1/groups/{id}/messages''
      else if n \<ge> 4 \<and> under ''groups'' \<and> parts ! 3 = ''members'' then Method r @ '' /v1/groups/{id}/members''
      else if n \<ge> 3 \<and> under ''groups'' then Method r @ '' /v1/groups/{id}''
      else if n \<ge> 4 \<and> under ''rooms'' \<and> parts ! 3 = ''join'' then Method r @ '' /v1/rooms/{code}/join''
      else if n \<ge> 3 \<and> under ''rooms'' then Method r @ '' /v1/rooms/{code}''
      else if n \<ge> 4 \<and> under ''invites'' \<and> parts ! 3 = ''join'' then Method r @ '' /v1/invites/{token}/join''
      else if n \<ge> 3 \<and> under ''group-voice-rooms'' then Method r @ '' /v1/group-voice-rooms/{id}/join''
      else Method r @ '' '' @ URLPath r)"

end
