(* ===== verification/Middleware.thy ===== *)
theory Middleware
  imports Http
begin

text \<open>
  \<^verbatim>\<open>httpapi/middleware.go\<close> and \<^verbatim>\<open>abuseGuard\<close> of \<^verbatim>\<open>httpapi/router.go\<close>: what a request passes
  before its handler. A middleware turns a handler into a handler. \<^verbatim>\<open>RequestID\<close> and
  \<^verbatim>\<open>requestLogger\<close> change neither the response nor the state and are left out, and with them
  \<^verbatim>\<open>statusWriter\<close>, whose status is that of the response.
\<close>

section \<open>Panics, bodies and origins\<close>

text \<open>The response keeps the headers set before the panic.\<close>

definition recoverer :: "'z handler \<Rightarrow> 'z handler" where
  "recoverer next r = andThen (attempt (next r :: ('z, response) http)) (\<lambda>result.
     case result of
       Inl hs \<Rightarrow> ret ((writeError 500 ''internal_error'')\<lparr>headers := hs @ headers (writeError 500 ''internal_error'')\<rparr>)
     | Inr resp \<Rightarrow> ret resp)"

definition bodyLimit :: "int \<Rightarrow> 'z handler \<Rightarrow> 'z handler" where
  "bodyLimit maxBytes next r =
     (if ContentLength r > maxBytes then ret (writeError 413 ''body_too_large'')
      else next (r\<lparr>req_body := (req_body r)\<lparr>body_max := Some maxBytes\<rparr>\<rparr>))"

definition cors_headers :: "string list \<Rightarrow> request \<Rightarrow> header_list" where
  "cors_headers origins r =
     (let allowAll = List.member origins ''*'';
          origin = header r ''Origin'' in
      if origin \<noteq> [] \<and> (allowAll \<or> List.member origins origin) then
        (if allowAll then [(''Access-Control-Allow-Origin'', ''*'')]
         else [(''Access-Control-Allow-Origin'', origin), (''Access-Control-Allow-Credentials'', ''true''),
               (''Vary'', ''Origin'')])
        @ [(''Access-Control-Allow-Headers'', ''Authorization, Content-Type''),
           (''Access-Control-Allow-Methods'', ''GET, POST, PATCH, DELETE, OPTIONS''),
           (''Access-Control-Max-Age'', ''600'')]
      else [])"

definition add_headers :: "header_list \<Rightarrow> ('z, response) http \<Rightarrow> ('z, response) http" where
  "add_headers hs m = map_error ((@) hs) (andThen m (\<lambda>resp. ret (resp\<lparr>headers := hs @ headers resp\<rparr>)))"

definition cors :: "string list \<Rightarrow> 'z handler \<Rightarrow> 'z handler" where
  "cors origins next r =
     add_headers (cors_headers origins r)
       (if Method r = ''OPTIONS'' then ret no_content else next r)"

definition csrf_scheme :: "request \<Rightarrow> string" where
  "csrf_scheme r =
     (if TLS r \<or> header r ''X-Forwarded-Proto'' = ''https'' then ''https'' else ''http'')"

definition csrf :: "string list \<Rightarrow> 'z handler \<Rightarrow> 'z handler" where
  "csrf origins next r =
     (if List.member [''GET'', ''HEAD'', ''OPTIONS''] (Method r) \<or> bearerToken r \<noteq> [] \<or> \<not> hasSessionCookie r then next r
      else
        let origin = header r ''Origin'' in
        if origin = [] \<and> header r ''Sec-Fetch-Site'' \<noteq> ''cross-site'' then next r
        else if origin \<noteq> csrf_scheme r @ ''://'' @ Host r \<and> \<not> List.member origins origin
        then ret (writeError 403 ''csrf_rejected'')
        else next r)"

section \<open>Limits\<close>

text \<open>The result is the response that ends the request, if any.\<close>

definition allowRequest ::
  "abuse_config \<Rightarrow> string \<Rightarrow> string \<Rightarrow> limit \<Rightarrow> ('z, response option) http" where
  "allowRequest cfg scope subject limit =
     andThen (attempt (Allow cfg scope subject limit)) (\<lambda>decision.
     case decision of
       Inl (_ :: store_error) \<Rightarrow> ret (Some (writeError 500 ''internal_error''))
     | Inr decision \<Rightarrow>
         if Allowed decision then ret None
         else ret (Some (with_header ''Retry-After'' (retry_seconds (RetryAfter decision))
           (writeError 429 ''rate_limited''))))"

fun allow_all :: "abuse_config \<Rightarrow> (string \<times> string \<times> limit) list \<Rightarrow> ('z, response option) http" where
  "allow_all cfg [] = ret None"
| "allow_all cfg ((scope, subject, limit) # checks) =
     andThen (allowRequest cfg scope subject limit) (\<lambda>refused.
     case refused of Some resp \<Rightarrow> ret (Some resp) | None \<Rightarrow> allow_all cfg checks)"

definition rate_checks :: "crypto \<Rightarrow> abuse_config \<Rightarrow> request \<Rightarrow> (string \<times> string \<times> limit) list" where
  "rate_checks c cfg r =
     (let route = routeKey r;
          limit = EndpointLimit cfg route in
      [(''global'', ''service'', GlobalLimit cfg),
       (''ip:'' @ route, Subject ''ip'' (request_clientIP r (TrustedProxies cfg)), limit)]
      @ (if sessionToken r \<noteq> [] then [(''session:'' @ route, sessionSubject c (sessionToken r), limit)] else []))"

definition rateLimit :: "crypto \<Rightarrow> abuse_config \<Rightarrow> 'z handler \<Rightarrow> 'z handler" where
  "rateLimit c cfg next r =
     andThen (allow_all cfg (rate_checks c cfg r)) (\<lambda>refused.
     case refused of Some resp \<Rightarrow> ret resp | None \<Rightarrow> next r)"

definition userRateLimit :: "abuse_config \<Rightarrow> 'z handler \<Rightarrow> 'z handler" where
  "userRateLimit cfg next r =
     andThen (currentUser r) (\<lambda>u.
     andThen (allowRequest cfg (''user:'' @ routeKey r) (Subject ''user'' (user_ID u))
       (EndpointLimit cfg (routeKey r))) (\<lambda>refused.
     case refused of Some resp \<Rightarrow> ret resp | None \<Rightarrow> next r))"

section \<open>Sessions\<close>

definition authenticate :: "crypto \<Rightarrow> service \<Rightarrow> 'z handler \<Rightarrow> 'z handler" where
  "authenticate c s next r =
     (if sessionToken r = [] then ret (writeAppError ErrUnauthorized)
      else with_app (Authenticate c s (sessionToken r)) (\<lambda>u. next (r\<lparr>ctx_user := Some u\<rparr>)))"

definition optionalAuthenticate :: "crypto \<Rightarrow> service \<Rightarrow> 'z handler \<Rightarrow> 'z handler" where
  "optionalAuthenticate c s next r =
     (if sessionToken r = [] then next r
      else with_app (Authenticate c s (sessionToken r)) (\<lambda>u. next (r\<lparr>ctx_user := Some u\<rparr>)))"

section \<open>Bans\<close>

text \<open>What ends the request of someone blocked or banned. Errors are logged and let it pass.\<close>

definition account_check :: "crypto \<Rightarrow> service \<Rightarrow> string \<Rightarrow> ('z, response option) http" where
  "account_check c s token =
     andThen (attempt (Authenticate c s token)) (\<lambda>auth.
     case auth of
       Inl (_ :: app_error) \<Rightarrow> ret None
     | Inr u \<Rightarrow>
         andThen (attempt (AccountBlocked (user_ID u))) (\<lambda>answer.
         case answer of
           Inl (_ :: app_error) \<Rightarrow> ret None
         | Inr (blocked, until) \<Rightarrow>
             if blocked then andThen (writeRetryAfter until (writeError 429 ''account_blocked'')) (\<lambda>resp. ret (Some resp))
             else ret None))"

definition address_check :: "string \<Rightarrow> ('z, response option) http" where
  "address_check ip =
     andThen (attempt (Enforcer_Banned ip)) (\<lambda>answer.
     case answer of
       Inl (_ :: app_error) \<Rightarrow> ret None
     | Inr (banned, until) \<Rightarrow>
         if banned then andThen (writeRetryAfter until (writeError 429 ''ip_banned'')) (\<lambda>resp. ret (Some resp))
         else ret None)"

text \<open>
  After the handler a refusal is noted. Should noting it panic, the response has been sent;
  the text \<^verbatim>\<open>recoverer\<close> appends to it is left out.
\<close>

definition noting_refusal :: "crypto \<Rightarrow> service \<Rightarrow> abuse_config \<Rightarrow> string \<Rightarrow> string \<Rightarrow> response \<Rightarrow> ('z, response) http" where
  "noting_refusal c s cfg token ip resp =
     (if status resp = 429 then
        andThen (attempt (Enforcer_NoteViolation c s cfg token ip)) (\<lambda>noted.
        case noted of Inl (_ :: app_error) \<Rightarrow> ret resp | Inr _ \<Rightarrow> ret resp)
      else ret resp)"

definition abuseGuard :: "crypto \<Rightarrow> service \<Rightarrow> abuse_config \<Rightarrow> 'z handler \<Rightarrow> 'z handler" where
  "abuseGuard c s cfg next r =
     (let ip = request_clientIP r (TrustedProxies cfg);
          token = sessionToken r in
      andThen (if token \<noteq> [] then account_check c s token else address_check ip) (\<lambda>refused.
      case refused of
        Some resp \<Rightarrow> ret resp
      | None \<Rightarrow> andThen (next r) (\<lambda>resp. noting_refusal c s cfg token ip resp)))"

end
