(* ===== verification/Config.thy ===== *)
theory Config
  imports Clientip "HOL-Library.Word"
begin

text \<open>
  \<^verbatim>\<open>config/config.go\<close>: the settings of the server, read from the environment, a partial map
  of names to values, with the defaults the program was written with. \<^verbatim>\<open>time.ParseDuration\<close>
  is a parameter; the integer parsers of \<^verbatim>\<open>strconv\<close> are defined here.
\<close>

section \<open>Integers\<close>

text \<open>\<^verbatim>\<open>strconv.Atoi\<close>: a sign, digits, within 64 bits.\<close>

definition Atoi :: "string \<Rightarrow> int option" where
  "Atoi s =
     (let signed = has_prefix ''-'' s \<or> has_prefix ''+'' s;
          ds = (if signed then tl s else s);
          n = (if has_prefix ''-'' s then - int (decimal ds) else int (decimal ds)) in
      if ds = [] \<or> \<not> list_all decimal_digit ds \<or> n < - (2 ^ 63) \<or> n \<ge> 2 ^ 63 then None else Some n)"

definition ParseUint64 :: "string \<Rightarrow> nat option" where
  "ParseUint64 s =
     (if s = [] \<or> \<not> list_all decimal_digit s \<or> decimal s \<ge> 2 ^ 64 then None else Some (decimal s))"

section \<open>The settings\<close>

type_synonym environment = "string \<Rightarrow> string option"

datatype config_error =
    NotPositiveDuration string
  | NotPositiveInteger string
  | NotPositiveBytes string
  | NotDurations string
  | NoDurations string
  | IdleExceedsSession
  | NoStorageDir
  | BadProxy
  | EmptySetting
  | NoOrigins

record config =
  HTTPAddr :: string
  DatabasePath :: string
  cfg_LiveKitURL :: string
  LiveKitPublicURL :: string
  LiveKitAPIKey :: string
  LiveKitAPISecret :: string
  cfg_RoomTTL :: duration
  LiveKitTokenTTL :: duration
  cfg_SessionTTL :: duration
  cfg_SessionIdleTTL :: duration
  cfg_SessionCookieSecure :: bool
  MaxRoomParticipants :: int
  CORSAllowedOrigins :: "string list"
  cfg_TrustedProxies :: "string list"
  RateLimitBucketTTL :: duration
  cfg_MaxMessageRunes :: int
  MaxMessageLinks :: int
  MaxMessageMentions :: int
  InactiveGroupTTL :: duration
  GroupDeleteGrace :: duration
  GroupCleanupInterval :: duration
  GroupCleanupBatch :: int
  GroupCleanupDryRun :: bool
  LowDiskMinFreeBytes :: "64 word"
  LowDiskCheckInterval :: duration
  LowDiskCleanupBatch :: int
  LowDiskMessageMinAge :: duration
  cfg_MaxUserGroups :: int
  cfg_DiscoverMinMembers :: int
  cfg_IPBanThreshold :: int
  cfg_IPBanWindow :: duration
  cfg_IPBanSteps :: "duration list"
  cfg_IPBanEscalationForget :: duration
  cfg_AccountBanWindow :: duration
  cfg_AccountBanDeletionCount :: int
  AttachmentMaxInputMediaBytes :: "64 word"
  AttachmentMaxArchiveBytes :: "64 word"
  AttachmentMaxOutputMediaBytes :: "64 word"
  AttachmentMaxFilesPerMessage :: int
  AttachmentMaxUserStoredBytes :: "64 word"
  AttachmentMaxUserDailyBytes :: "64 word"
  AttachmentMaxTotalBytes :: "64 word"
  AttachmentRetention :: duration
  AttachmentStorageDir :: string

definition getenv :: "environment \<Rightarrow> string \<Rightarrow> string \<Rightarrow> string" where
  "getenv env name fallback = (case env name of Some value \<Rightarrow> TrimSpace value | None \<Rightarrow> fallback)"

definition duration_setting ::
  "(string \<Rightarrow> duration option) \<Rightarrow> environment \<Rightarrow> string \<Rightarrow> string \<Rightarrow> config_error + duration" where
  "duration_setting parse env name fallback =
     (case parse (getenv env name fallback) of
        None \<Rightarrow> Inl (NotPositiveDuration name)
      | Some d \<Rightarrow> if d \<le> 0 then Inl (NotPositiveDuration name) else Inr d)"

text \<open>The loop over the parts of the list.\<close>

fun duration_parts ::
  "(string \<Rightarrow> duration option) \<Rightarrow> string \<Rightarrow> duration list \<Rightarrow> string list \<Rightarrow> config_error + duration list" where
  "duration_parts parse name steps [] = Inr steps"
| "duration_parts parse name steps (part # parts) =
     (let part = TrimSpace part in
      if part = [] then duration_parts parse name steps parts
      else
        (case parse part of
           None \<Rightarrow> Inl (NotDurations name)
         | Some d \<Rightarrow>
             if d \<le> 0 then Inl (NotDurations name) else duration_parts parse name (steps @ [d]) parts))"

definition durationList ::
  "(string \<Rightarrow> duration option) \<Rightarrow> environment \<Rightarrow> string \<Rightarrow> string \<Rightarrow> config_error + duration list" where
  "durationList parse env name fallback =
     (case duration_parts parse name [] (split_on (CHR '','') (getenv env name fallback)) of
        Inl e \<Rightarrow> Inl e
      | Inr steps \<Rightarrow> if steps = [] then Inl (NoDurations name) else Inr steps)"

definition positiveInt :: "environment \<Rightarrow> string \<Rightarrow> nat \<Rightarrow> config_error + int" where
  "positiveInt env name fallback =
     (case Atoi (getenv env name (digits 10 fallback)) of
        None \<Rightarrow> Inl (NotPositiveInteger name)
      | Some value \<Rightarrow> if value < 1 then Inl (NotPositiveInteger name) else Inr value)"

definition participants :: "environment \<Rightarrow> config_error + int" where
  "participants env =
     (case Atoi (getenv env ''MAX_ROOM_PARTICIPANTS'' ''16'') of
        None \<Rightarrow> Inl (NotPositiveInteger ''MAX_ROOM_PARTICIPANTS'')
      | Some value \<Rightarrow>
          if value < 1 then Inl (NotPositiveInteger ''MAX_ROOM_PARTICIPANTS'') else Inr value)"

definition bytesValue :: "environment \<Rightarrow> string \<Rightarrow> nat \<Rightarrow> config_error + 64 word" where
  "bytesValue env name fallback =
     (case ParseUint64 (getenv env name (digits 10 fallback)) of
        None \<Rightarrow> Inl (NotPositiveBytes name)
      | Some value \<Rightarrow> if value < 1 then Inl (NotPositiveBytes name) else Inr (of_nat value))"

text \<open>\<^verbatim>\<open>strings.ToLower\<close> of a value that is compared with four words of ASCII letters.\<close>

definition boolValue :: "(string \<Rightarrow> string) \<Rightarrow> environment \<Rightarrow> string \<Rightarrow> bool \<Rightarrow> bool" where
  "boolValue lower env name fallback =
     List.member [''1'', ''true'', ''yes'', ''on'']
       (lower (getenv env name (if fallback then ''true'' else ''false'')))"

section \<open>Loading\<close>

definition or_fail :: "'e + 'a \<Rightarrow> ('a \<Rightarrow> 'e + 'b) \<Rightarrow> 'e + 'b" where
  "or_fail m f = (case m of Inl e \<Rightarrow> Inl e | Inr x \<Rightarrow> f x)"

definition listed :: "string \<Rightarrow> string list" where
  "listed value = filter (\<lambda>s. s \<noteq> []) (map TrimSpace (split_on (CHR '','') value))"

text \<open>An address, or a network that is not the whole Internet.\<close>

definition proxy_ok :: "string \<Rightarrow> bool" where
  "proxy_ok proxy =
     (case ParseAddr proxy of
        Some _ \<Rightarrow> True
      | None \<Rightarrow> (case ParsePrefix proxy of None \<Rightarrow> False | Some (_, bits) \<Rightarrow> bits \<noteq> 0))"

definition no_settings :: config where
  "no_settings =
     \<lparr>HTTPAddr = [], DatabasePath = [], cfg_LiveKitURL = [], LiveKitPublicURL = [],
     LiveKitAPIKey = [], LiveKitAPISecret = [], cfg_RoomTTL = 0, LiveKitTokenTTL = 0,
     cfg_SessionTTL = 0, cfg_SessionIdleTTL = 0, cfg_SessionCookieSecure = False,
     MaxRoomParticipants = 0, CORSAllowedOrigins = [], cfg_TrustedProxies = [],
     RateLimitBucketTTL = 0, cfg_MaxMessageRunes = 0, MaxMessageLinks = 0, MaxMessageMentions =
     0, InactiveGroupTTL = 0, GroupDeleteGrace = 0, GroupCleanupInterval = 0, GroupCleanupBatch
     = 0, GroupCleanupDryRun = False, LowDiskMinFreeBytes = 0, LowDiskCheckInterval = 0,
     LowDiskCleanupBatch = 0, LowDiskMessageMinAge = 0, cfg_MaxUserGroups = 0,
     cfg_DiscoverMinMembers = 0, cfg_IPBanThreshold = 0, cfg_IPBanWindow = 0, cfg_IPBanSteps =
     [], cfg_IPBanEscalationForget = 0, cfg_AccountBanWindow = 0, cfg_AccountBanDeletionCount =
     0, AttachmentMaxInputMediaBytes = 0, AttachmentMaxArchiveBytes = 0,
     AttachmentMaxOutputMediaBytes = 0, AttachmentMaxFilesPerMessage = 0,
     AttachmentMaxUserStoredBytes = 0, AttachmentMaxUserDailyBytes = 0, AttachmentMaxTotalBytes
     = 0, AttachmentRetention = 0, AttachmentStorageDir = []\<rparr>"

text \<open>What \<open>Load\<close> checks once every single setting was read.\<close>

definition finish_config :: "(string \<Rightarrow> string) \<Rightarrow> environment \<Rightarrow> config \<Rightarrow> config_error + config" where
  "finish_config lower env cfg =
     (let cfg = cfg\<lparr>AttachmentStorageDir := getenv env ''ATTACHMENT_STORAGE_DIR'' ''./data/attachments''\<rparr> in
      if AttachmentStorageDir cfg = [] then Inl NoStorageDir
      else
        let cfg = cfg\<lparr>GroupCleanupDryRun := boolValue lower env ''GROUP_CLEANUP_DRY_RUN'' False,
              cfg_SessionCookieSecure := boolValue lower env ''SESSION_COOKIE_SECURE'' False,
              CORSAllowedOrigins := listed (getenv env ''CORS_ALLOWED_ORIGINS'' ''*'')\<rparr>;
            proxies = listed (getenv env ''TRUSTED_PROXIES'' []) in
        if \<not> list_all proxy_ok proxies then Inl BadProxy
        else
          let cfg = cfg\<lparr>cfg_TrustedProxies := proxies\<rparr> in
          if HTTPAddr cfg = [] \<or> DatabasePath cfg = [] \<or> cfg_LiveKitURL cfg = [] \<or> LiveKitPublicURL cfg = []
            \<or> LiveKitAPIKey cfg = [] \<or> LiveKitAPISecret cfg = [] then Inl EmptySetting
          else if CORSAllowedOrigins cfg = [] then Inl NoOrigins
          else Inr cfg)"

definition Load ::
  "(string \<Rightarrow> duration option) \<Rightarrow> (string \<Rightarrow> string) \<Rightarrow> environment \<Rightarrow> config_error + config" where
  "Load parse lower env =
     (let cfg = no_settings\<lparr>
        HTTPAddr := getenv env ''HTTP_ADDR'' '':8080'',
        DatabasePath := getenv env ''DATABASE_PATH'' ''./data/app.db'',
        cfg_LiveKitURL := getenv env ''LIVEKIT_URL'' ''ws://livekit:7880'',
        LiveKitPublicURL := getenv env ''LIVEKIT_PUBLIC_URL'' ''ws://127.0.0.1:7880'',
        LiveKitAPIKey := getenv env ''LIVEKIT_API_KEY'' ''devkey'',
        LiveKitAPISecret := getenv env ''LIVEKIT_API_SECRET'' ''secret''\<rparr> in
     or_fail (duration_setting parse env ''ROOM_TTL'' ''12h'') (\<lambda>x. let cfg = cfg\<lparr>cfg_RoomTTL := x\<rparr> in
     or_fail (duration_setting parse env ''LIVEKIT_TOKEN_TTL'' ''30m'') (\<lambda>x. let cfg = cfg\<lparr>LiveKitTokenTTL := x\<rparr> in
     or_fail (duration_setting parse env ''SESSION_TTL'' ''168h'') (\<lambda>x. let cfg = cfg\<lparr>cfg_SessionTTL := x\<rparr> in
     or_fail (duration_setting parse env ''SESSION_IDLE_TTL'' ''24h'') (\<lambda>x. let cfg = cfg\<lparr>cfg_SessionIdleTTL := x\<rparr> in
     if cfg_SessionIdleTTL cfg > cfg_SessionTTL cfg then Inl IdleExceedsSession else
     or_fail (participants env) (\<lambda>x. let cfg = cfg\<lparr>MaxRoomParticipants := x\<rparr> in
     or_fail (duration_setting parse env ''RATE_LIMIT_BUCKET_TTL'' ''6h'') (\<lambda>x. let cfg = cfg\<lparr>RateLimitBucketTTL := x\<rparr> in
     or_fail (duration_setting parse env ''INACTIVE_GROUP_TTL'' ''168h'') (\<lambda>x. let cfg = cfg\<lparr>InactiveGroupTTL := x\<rparr> in
     or_fail (duration_setting parse env ''GROUP_DELETE_GRACE'' ''24h'') (\<lambda>x. let cfg = cfg\<lparr>GroupDeleteGrace := x\<rparr> in
     or_fail (duration_setting parse env ''GROUP_CLEANUP_INTERVAL'' ''1h'') (\<lambda>x. let cfg = cfg\<lparr>GroupCleanupInterval := x\<rparr> in
     or_fail (duration_setting parse env ''LOW_DISK_CHECK_INTERVAL'' ''5m'') (\<lambda>x. let cfg = cfg\<lparr>LowDiskCheckInterval := x\<rparr> in
     or_fail (duration_setting parse env ''LOW_DISK_MESSAGE_MIN_AGE'' ''24h'') (\<lambda>x. let cfg = cfg\<lparr>LowDiskMessageMinAge := x\<rparr> in
     or_fail (bytesValue env ''ATTACHMENT_MAX_INPUT_MEDIA_BYTES'' 10485760) (\<lambda>x. let cfg = cfg\<lparr>AttachmentMaxInputMediaBytes := x\<rparr> in
     or_fail (bytesValue env ''ATTACHMENT_MAX_ARCHIVE_BYTES'' 5242880) (\<lambda>x. let cfg = cfg\<lparr>AttachmentMaxArchiveBytes := x\<rparr> in
     or_fail (bytesValue env ''ATTACHMENT_MAX_OUTPUT_MEDIA_BYTES'' 1048576) (\<lambda>x. let cfg = cfg\<lparr>AttachmentMaxOutputMediaBytes := x\<rparr> in
     or_fail (bytesValue env ''ATTACHMENT_MAX_USER_STORED_BYTES'' 52428800) (\<lambda>x. let cfg = cfg\<lparr>AttachmentMaxUserStoredBytes := x\<rparr> in
     or_fail (bytesValue env ''ATTACHMENT_MAX_USER_DAILY_BYTES'' 20971520) (\<lambda>x. let cfg = cfg\<lparr>AttachmentMaxUserDailyBytes := x\<rparr> in
     or_fail (bytesValue env ''ATTACHMENT_MAX_TOTAL_BYTES'' 5368709120) (\<lambda>x. let cfg = cfg\<lparr>AttachmentMaxTotalBytes := x\<rparr> in
     or_fail (duration_setting parse env ''ATTACHMENT_RETENTION'' ''72h'') (\<lambda>x. let cfg = cfg\<lparr>AttachmentRetention := x\<rparr> in
     or_fail (positiveInt env ''MAX_MESSAGE_RUNES'' 2000) (\<lambda>x. let cfg = cfg\<lparr>cfg_MaxMessageRunes := x\<rparr> in
     or_fail (positiveInt env ''MAX_MESSAGE_LINKS'' 4) (\<lambda>x. let cfg = cfg\<lparr>MaxMessageLinks := x\<rparr> in
     or_fail (positiveInt env ''MAX_MESSAGE_MENTIONS'' 12) (\<lambda>x. let cfg = cfg\<lparr>MaxMessageMentions := x\<rparr> in
     or_fail (positiveInt env ''GROUP_CLEANUP_BATCH'' 20) (\<lambda>x. let cfg = cfg\<lparr>GroupCleanupBatch := x\<rparr> in
     or_fail (positiveInt env ''LOW_DISK_CLEANUP_BATCH'' 500) (\<lambda>x. let cfg = cfg\<lparr>LowDiskCleanupBatch := x\<rparr> in
     or_fail (bytesValue env ''LOW_DISK_MIN_FREE_BYTES'' 5368709120) (\<lambda>x. let cfg = cfg\<lparr>LowDiskMinFreeBytes := x\<rparr> in
     or_fail (positiveInt env ''MAX_USER_GROUPS'' 3) (\<lambda>x. let cfg = cfg\<lparr>cfg_MaxUserGroups := x\<rparr> in
     or_fail (positiveInt env ''DISCOVER_MIN_MEMBERS'' 5) (\<lambda>x. let cfg = cfg\<lparr>cfg_DiscoverMinMembers := x\<rparr> in
     or_fail (positiveInt env ''IP_BAN_THRESHOLD'' 10) (\<lambda>x. let cfg = cfg\<lparr>cfg_IPBanThreshold := x\<rparr> in
     or_fail (duration_setting parse env ''IP_BAN_WINDOW'' ''15m'') (\<lambda>x. let cfg = cfg\<lparr>cfg_IPBanWindow := x\<rparr> in
     or_fail (durationList parse env ''IP_BAN_STEPS'' ''10s,1m,5m,24h'') (\<lambda>x. let cfg = cfg\<lparr>cfg_IPBanSteps := x\<rparr> in
     or_fail (duration_setting parse env ''IP_BAN_ESCALATION_FORGET'' ''24h'') (\<lambda>x. let cfg = cfg\<lparr>cfg_IPBanEscalationForget := x\<rparr> in
     or_fail (duration_setting parse env ''ACCOUNT_BAN_WINDOW'' ''720h'') (\<lambda>x. let cfg = cfg\<lparr>cfg_AccountBanWindow := x\<rparr> in
     or_fail (positiveInt env ''ACCOUNT_BAN_DELETION_COUNT'' 5) (\<lambda>x. let cfg = cfg\<lparr>cfg_AccountBanDeletionCount := x\<rparr> in
     or_fail (positiveInt env ''ATTACHMENT_MAX_FILES_PER_MESSAGE'' 3) (\<lambda>x. let cfg = cfg\<lparr>AttachmentMaxFilesPerMessage := x\<rparr> in
     finish_config lower env cfg))))))))))))))))))))))))))))))))))"

section \<open>What an accepted configuration guarantees\<close>

lemma or_fail_InrE:
  assumes "or_fail m f = Inr y"
  obtains x where "m = Inr x" "f x = Inr y"
  using assms by (auto simp: or_fail_def split: sum.splits)

lemma duration_setting_pos: "duration_setting parse env name fallback = Inr d \<Longrightarrow> 0 < d"
  by (auto simp: duration_setting_def split: option.splits if_splits)

lemma positiveInt_pos: "positiveInt env name fallback = Inr n \<Longrightarrow> 1 \<le> n"
  by (auto simp: positiveInt_def split: option.splits if_splits)

lemma participants_pos: "participants env = Inr n \<Longrightarrow> 1 \<le> n"
  by (auto simp: participants_def split: option.splits if_splits)

lemma duration_parts_pos:
  "duration_parts parse name steps parts = Inr ds \<Longrightarrow> list_all (\<lambda>d. 0 < d) steps \<Longrightarrow> list_all (\<lambda>d. 0 < d) ds"
  by (induction parse name steps parts rule: duration_parts.induct)
    (auto simp: Let_def split: if_splits option.splits)

lemma durationList_pos:
  "durationList parse env name fallback = Inr ds \<Longrightarrow> ds \<noteq> [] \<and> list_all (\<lambda>d. 0 < d) ds"
  by (auto simp: durationList_def dest: duration_parts_pos split: sum.splits if_splits)

lemma decimal_bound: "ParseUint64 s = Some n \<Longrightarrow> n < 2 ^ 64"
  by (auto simp: ParseUint64_def split: if_splits)

lemma bytesValue_pos: "bytesValue env name fallback = Inr b \<Longrightarrow> b \<noteq> 0"
proof -
  assume "bytesValue env name fallback = Inr b"
  then obtain n where n: "ParseUint64 (getenv env name (digits 10 fallback)) = Some n" "1 \<le> n" "b = of_nat n"
    by (auto simp: bytesValue_def split: option.splits if_splits)
  then have "unat b = n" using decimal_bound [OF n(1)] by (simp add: unat_of_nat)
  then show "b \<noteq> 0" using n(2) by auto
qed

text \<open>The settings the components rely on, in the order of the structure.\<close>

definition positive_durations :: "config \<Rightarrow> bool" where
  "positive_durations cfg \<longleftrightarrow> list_all (\<lambda>d. 0 < d) [cfg_RoomTTL cfg, LiveKitTokenTTL cfg, cfg_SessionTTL cfg,
     cfg_SessionIdleTTL cfg, RateLimitBucketTTL cfg, InactiveGroupTTL cfg, GroupDeleteGrace cfg,
     GroupCleanupInterval cfg, LowDiskCheckInterval cfg, LowDiskMessageMinAge cfg, cfg_IPBanWindow cfg,
     cfg_IPBanEscalationForget cfg, cfg_AccountBanWindow cfg, AttachmentRetention cfg]
     \<and> list_all (\<lambda>d. 0 < d) (cfg_IPBanSteps cfg)"

definition positive_counts :: "config \<Rightarrow> bool" where
  "positive_counts cfg \<longleftrightarrow> list_all (\<lambda>n. 1 \<le> n) [MaxRoomParticipants cfg, cfg_MaxMessageRunes cfg,
     MaxMessageLinks cfg, MaxMessageMentions cfg, GroupCleanupBatch cfg, LowDiskCleanupBatch cfg,
     cfg_MaxUserGroups cfg, cfg_DiscoverMinMembers cfg, cfg_IPBanThreshold cfg, cfg_AccountBanDeletionCount cfg,
     AttachmentMaxFilesPerMessage cfg]"

definition positive_sizes :: "config \<Rightarrow> bool" where
  "positive_sizes cfg \<longleftrightarrow> list_all (\<lambda>b. b \<noteq> 0) [LowDiskMinFreeBytes cfg, AttachmentMaxInputMediaBytes cfg,
     AttachmentMaxArchiveBytes cfg, AttachmentMaxOutputMediaBytes cfg, AttachmentMaxUserStoredBytes cfg,
     AttachmentMaxUserDailyBytes cfg, AttachmentMaxTotalBytes cfg]"

definition nothing_empty :: "config \<Rightarrow> bool" where
  "nothing_empty cfg \<longleftrightarrow> list_all (\<lambda>s. s \<noteq> []) [HTTPAddr cfg, DatabasePath cfg, cfg_LiveKitURL cfg,
     LiveKitPublicURL cfg, LiveKitAPIKey cfg, LiveKitAPISecret cfg, AttachmentStorageDir cfg]
     \<and> CORSAllowedOrigins cfg \<noteq> [] \<and> cfg_IPBanSteps cfg \<noteq> []"

lemma listed_nonempty: "list_all (\<lambda>s. s \<noteq> []) (listed value)"
  by (simp add: listed_def list_all_iff)

lemma finish_config_result:
  assumes "finish_config lower env cfg = Inr final"
  shows "final = cfg\<lparr>AttachmentStorageDir := AttachmentStorageDir final, GroupCleanupDryRun := GroupCleanupDryRun final,
      cfg_SessionCookieSecure := cfg_SessionCookieSecure final, CORSAllowedOrigins := CORSAllowedOrigins final,
      cfg_TrustedProxies := cfg_TrustedProxies final\<rparr>
    \<and> list_all proxy_ok (cfg_TrustedProxies final) \<and> CORSAllowedOrigins final \<noteq> []
    \<and> list_all (\<lambda>s. s \<noteq> []) (CORSAllowedOrigins final)
    \<and> list_all (\<lambda>s. s \<noteq> []) [HTTPAddr final, DatabasePath final, cfg_LiveKitURL final, LiveKitPublicURL final,
        LiveKitAPIKey final, LiveKitAPISecret final, AttachmentStorageDir final]"
  using assms listed_nonempty unfolding finish_config_def Let_def
  by (auto split: if_splits)

text \<open>Inversion of one step of \<open>Load\<close>, remembering what its setting guarantees.\<close>

lemma get_duration:
  assumes "or_fail (duration_setting parse env name fallback) f = Inr y"
  obtains x where "0 < x" "f x = Inr y"
  using assms by (elim or_fail_InrE) (blast dest: duration_setting_pos)

lemma get_int:
  assumes "or_fail (positiveInt env name fallback) f = Inr y"
  obtains x where "1 \<le> x" "f x = Inr y"
  using assms by (elim or_fail_InrE) (blast dest: positiveInt_pos)

lemma get_participants:
  assumes "or_fail (participants env) f = Inr y"
  obtains x where "1 \<le> x" "f x = Inr y"
  using assms by (elim or_fail_InrE) (blast dest: participants_pos)

lemma get_durations:
  assumes "or_fail (durationList parse env name fallback) f = Inr y"
  obtains x where "x \<noteq> []" "list_all (\<lambda>d. 0 < d) x" "f x = Inr y"
  using assms by (elim or_fail_InrE) (blast dest: durationList_pos)

lemma get_bytes:
  assumes "or_fail (bytesValue env name fallback) f = Inr y"
  obtains x where "x \<noteq> 0" "f x = Inr y"
  using assms by (elim or_fail_InrE) (blast dest: bytesValue_pos)

lemma get_check:
  assumes "(if P then Inl e else r) = Inr y"
  obtains "\<not> P" "r = Inr y"
  using assms by (simp split: if_splits)

lemmas config_elims = get_duration get_int get_participants get_durations get_bytes get_check

lemma Load_result:
  assumes "Load parse lower env = Inr cfg"
  obtains cfg0 where "finish_config lower env cfg0 = Inr cfg"
    "positive_durations cfg0" "positive_counts cfg0" "positive_sizes cfg0"
    "cfg_SessionIdleTTL cfg0 \<le> cfg_SessionTTL cfg0" "cfg_IPBanSteps cfg0 \<noteq> []"
  using assms unfolding Load_def Let_def
  apply (elim config_elims)
  apply (rule that, assumption)
  subgoal by (simp add: positive_durations_def)
  subgoal by (simp add: positive_counts_def)
  subgoal by (simp add: positive_sizes_def)
  subgoal by simp
  subgoal by simp
  done

lemma Load_counts: "Load parse lower env = Inr cfg \<Longrightarrow> 1 \<le> MaxRoomParticipants cfg"
proof (erule Load_result)
  fix cfg0 assume fin: "finish_config lower env cfg0 = Inr cfg" and pos: "positive_counts cfg0"
  from finish_config_result [OF fin] obtain dir dry secure origins proxies where
    "cfg = cfg0\<lparr>AttachmentStorageDir := dir, GroupCleanupDryRun := dry, cfg_SessionCookieSecure := secure,
       CORSAllowedOrigins := origins, cfg_TrustedProxies := proxies\<rparr>" by blast
  with pos show ?thesis by (simp add: positive_counts_def)
qed

text \<open>
  C13: A configuration the server starts with is sound, whatever the environment holds: every
  duration and every count is positive, no size is zero, no needed text is empty, a session
  does not idle longer than it lasts, there is at least one step of a ban and all of them are
  positive, and every trusted proxy is an address or a network that is not the whole
  Internet.
\<close>

theorem Load_sound:
  assumes "Load parse lower env = Inr cfg"
  shows "positive_durations cfg \<and> positive_counts cfg \<and> positive_sizes cfg \<and> nothing_empty cfg
    \<and> cfg_SessionIdleTTL cfg \<le> cfg_SessionTTL cfg \<and> list_all proxy_ok (cfg_TrustedProxies cfg)"
proof -
  from assms obtain cfg0 where fin: "finish_config lower env cfg0 = Inr cfg"
    and base: "positive_durations cfg0" "positive_counts cfg0" "positive_sizes cfg0"
      "cfg_SessionIdleTTL cfg0 \<le> cfg_SessionTTL cfg0" "cfg_IPBanSteps cfg0 \<noteq> []"
    by (rule Load_result)
  note result = finish_config_result [OF fin]
  then obtain dir dry secure origins proxies where cfg: "cfg = cfg0\<lparr>AttachmentStorageDir := dir,
      GroupCleanupDryRun := dry, cfg_SessionCookieSecure := secure, CORSAllowedOrigins := origins,
      cfg_TrustedProxies := proxies\<rparr>" by blast
  show ?thesis
    using base result unfolding cfg
    by (simp add: positive_durations_def positive_counts_def positive_sizes_def nothing_empty_def)
qed

definition default_parse :: "string \<Rightarrow> duration option" where
  "default_parse s = Some (if s = ''168h'' then 168 * hour else if s = ''24h'' then 24 * hour else minute)"

definition default_settings :: "config_error + config" where
  "default_settings = Load default_parse (\<lambda>s. s) (\<lambda>name. None)"

lemma default_loads: "(case default_settings of Inl _ \<Rightarrow> False | Inr cfg \<Rightarrow> MaxRoomParticipants cfg = 16)"
  by code_simp

lemma Load_sound_witness:
  "case default_settings of Inl _ \<Rightarrow> False | Inr cfg \<Rightarrow> positive_counts cfg \<and> cfg_SessionIdleTTL cfg \<le> cfg_SessionTTL cfg"
proof -
  obtain cfg where run: "Load default_parse (\<lambda>s. s) (\<lambda>name. None) = Inr cfg"
    using default_loads unfolding default_settings_def by (auto split: sum.splits)
  from Load_sound [OF this] show ?thesis
    by (simp add: default_settings_def run)
qed

end
