(* ===== verification/Requests.thy ===== *)
theory Requests
  imports Middleware Config
begin

text \<open>
  What the handlers of \<^verbatim>\<open>internal/httpapi\<close> read from a request: the JSON of a body
  (\<^verbatim>\<open>decodeJSON\<close>), e-mail addresses, passwords, names, room codes and the page of a search.
  The text syntax of JSON, mail addresses and multipart forms are read by Go's libraries, the
  parameters in \<open>front\<close>; how the values are decoded into the fields of a request is here.
\<close>

section \<open>The readers\<close>

datatype json =
    JNull
  | JBool bool
  | JNumber string
  | JString string
  | JArray "json list"
  | JObject "(string \<times> json) list"

text \<open>
  \<open>read_json\<close> reads the next value of a body: what it finds is the end, the limit of the
  body, text that is not JSON, or a value and what is left.
\<close>

datatype json_read =
    JEnd
  | JTooLarge
  | JBad
  | JValue json body

record form_file = upload_input +
  ff_data :: "string option"

record form =
  form_files :: "string \<Rightarrow> form_file list"
  form_values :: "string \<Rightarrow> string list"

record 'p front =
  read_json :: "body \<Rightarrow> json_read"
  mail_ParseAddress :: "string \<Rightarrow> string option"
  profile_form :: "request \<Rightarrow> (string \<times> string option) list option \<times> bool"
  ParseMultipartForm :: "request \<Rightarrow> form option"
  front_codec :: "'p codec"
  front_unicode :: unicode

section \<open>Decoding\<close>

datatype json_kind = TextField | FlagField

datatype json_error = BodyTooLarge | InvalidJSON

text \<open>The folding under which \<^verbatim>\<open>encoding/json\<close> compares the names of fields.\<close>

definition fold_name :: "string \<Rightarrow> rune list" where
  "fold_name s = map (\<lambda>r. if 65 \<le> r \<and> r \<le> 90 then r + 32 else if r = 383 then 115
     else if r = 8490 then 107 else r) (runes s)"

type_synonym fields = "(string \<times> json_kind) list"
type_synonym decoded = "string \<Rightarrow> json"

text \<open>A later member overwrites an earlier one; null leaves the field as it is.\<close>

fun decode_members :: "fields \<Rightarrow> (string \<times> json) list \<Rightarrow> decoded \<Rightarrow> decoded option" where
  "decode_members known [] v = Some v"
| "decode_members known ((key, value) # members) v =
     (case find (\<lambda>f. fold_name (fst f) = fold_name key) known of
        None \<Rightarrow> None
      | Some (name, kind) \<Rightarrow>
          (case value of
             JNull \<Rightarrow> decode_members known members v
           | JString _ \<Rightarrow> if kind = TextField then decode_members known members (v(name := value)) else None
           | JBool _ \<Rightarrow> if kind = FlagField then decode_members known members (v(name := value)) else None
           | _ \<Rightarrow> None))"

definition decode_struct :: "fields \<Rightarrow> json \<Rightarrow> decoded option" where
  "decode_struct known value =
     (case value of
        JObject members \<Rightarrow> decode_members known members (\<lambda>_. JNull)
      | JNull \<Rightarrow> Some (\<lambda>_. JNull)
      | _ \<Rightarrow> None)"

definition decodeJSON :: "'p front \<Rightarrow> fields \<Rightarrow> request \<Rightarrow> json_error + decoded" where
  "decodeJSON f known r =
     (case read_json f (req_body r) of
        JEnd \<Rightarrow> Inl InvalidJSON
      | JTooLarge \<Rightarrow> Inl BodyTooLarge
      | JBad \<Rightarrow> Inl InvalidJSON
      | JValue value rest \<Rightarrow>
          (case decode_struct known value of
             None \<Rightarrow> Inl InvalidJSON
           | Some v \<Rightarrow>
               (case read_json f rest of
                  JEnd \<Rightarrow> Inr v
                | JTooLarge \<Rightarrow> Inl BodyTooLarge
                | _ \<Rightarrow> Inl InvalidJSON)))"

fun text_of :: "json \<Rightarrow> string" where
  "text_of (JString s) = s"
| "text_of _ = []"

fun flag_of :: "json \<Rightarrow> bool" where
  "flag_of (JBool b) = b"
| "flag_of _ = False"

section \<open>Checks\<close>

definition validDisplayName :: "string \<Rightarrow> bool" where
  "validDisplayName value \<longleftrightarrow>
     (let count = RuneCountInString value in
      if count < 1 \<or> count > 50 \<or> \<not> ValidString value then False
      else \<not> list_ex IsControl (runes value))"

definition normalizeEmail :: "'p front \<Rightarrow> string \<Rightarrow> string" where
  "normalizeEmail f value = ToLower (front_unicode f) (TrimSpace value)"

definition validEmail :: "'p front \<Rightarrow> string \<Rightarrow> bool" where
  "validEmail f value \<longleftrightarrow> mail_ParseAddress f value = Some value \<and> List.member value (CHR ''.'')"

definition validPassword :: "string \<Rightarrow> bool" where
  "validPassword value \<longleftrightarrow>
     RuneCountInString value \<ge> 6 \<and> RuneCountInString value \<le> 72 \<and> length value \<le> 72"

text \<open>\<open>^[A-HJ-NP-Z2-9]{26}$\<close>\<close>

definition room_code_char :: "char \<Rightarrow> bool" where
  "room_code_char c \<longleftrightarrow>
     (let b = bt c in 65 \<le> b \<and> b \<le> 72 \<or> 74 \<le> b \<and> b \<le> 78 \<or> 80 \<le> b \<and> b \<le> 90 \<or> 50 \<le> b \<and> b \<le> 57)"

definition roomCodePattern :: "string \<Rightarrow> bool" where
  "roomCodePattern code \<longleftrightarrow> length code = 26 \<and> list_all room_code_char code"

section \<open>Readers of the handlers\<close>

text \<open>Each gives the response that ends the request or what was read.\<close>

definition readAuth :: "'p front \<Rightarrow> request \<Rightarrow> response + string \<times> string" where
  "readAuth f r =
     (case decodeJSON f [(''email'', TextField), (''password'', TextField)] r of
        Inl BodyTooLarge \<Rightarrow> Inl (writeError 413 ''body_too_large'')
      | Inl InvalidJSON \<Rightarrow> Inl (writeError 400 ''invalid_json'')
      | Inr v \<Rightarrow>
          let email = normalizeEmail f (text_of (v ''email''));
              password = text_of (v ''password'') in
          if \<not> validEmail f email then Inl (writeError 400 ''validation_error'')
          else if \<not> validPassword password then Inl (writeError 400 ''validation_error'')
          else Inr (email, password))"

text \<open>\<^verbatim>\<open>decodeGroupJSON\<close>, and \<^verbatim>\<open>Handler.decode\<close> of the package \<^verbatim>\<open>groupchat\<close>.\<close>

definition decodeGroupJSON :: "'p front \<Rightarrow> fields \<Rightarrow> request \<Rightarrow> response + decoded" where
  "decodeGroupJSON f known r =
     (case decodeJSON f known r of
        Inl _ \<Rightarrow> Inl (writeError 400 ''invalid_json'')
      | Inr v \<Rightarrow> Inr v)"

definition validProfile :: "string \<Rightarrow> string \<Rightarrow> response + string \<times> string" where
  "validProfile name avatar =
     (let name = TrimSpace name in
      if \<not> validDisplayName name then Inl (writeError 400 ''validation_error'')
      else if \<not> ValidStored avatar then Inl (writeError 400 ''validation_error'')
      else Inr (name, avatar))"

definition form_type :: string where "form_type = ''multipart/form-data''"

definition readProfile :: "'p front \<Rightarrow> request \<Rightarrow> string \<Rightarrow> response + string \<times> string" where
  "readProfile f r currentAvatar =
     (if \<not> has_prefix form_type (header r ''Content-Type'')
      then Inl (writeError 400 ''invalid_content_type'')
      else
        (case ReadMultipartProfile (front_codec f) (snd (profile_form f r)) (fst (profile_form f r)) of
           Inl _ \<Rightarrow> Inl (writeError 400 ''upload_error'')
         | Inr parts \<Rightarrow>
             validProfile (pp_DisplayName parts) (if pp_HasAvatar parts then pp_Avatar parts else currentAvatar)))"

definition url_room_code :: "request \<Rightarrow> response + string" where
  "url_room_code r =
     (let code = url_param r ''code'' in
      if \<not> roomCodePattern code then Inl (writeError 400 ''validation_error'') else Inr code)"

text \<open>A number of the query within bounds, or its default when it is not given.\<close>

definition query_number :: "request \<Rightarrow> string \<Rightarrow> int \<Rightarrow> int \<Rightarrow> int \<Rightarrow> response + int" where
  "query_number r name initial lowest highest =
     (if query r name = [] then Inr initial
      else
        (case Atoi (query r name) of
           None \<Rightarrow> Inl (writeError 400 ''validation_error'')
         | Some parsed \<Rightarrow>
             if parsed < lowest \<or> parsed > highest then Inl (writeError 400 ''validation_error'')
             else Inr parsed))"

definition discoverPage :: "request \<Rightarrow> response + int \<times> int" where
  "discoverPage r =
     (case query_number r ''limit'' 20 1 50 of
        Inl e \<Rightarrow> Inl e
      | Inr limit \<Rightarrow>
          (case query_number r ''offset'' 0 0 1000 of
             Inl e \<Rightarrow> Inl e
           | Inr offset \<Rightarrow> Inr (limit, offset)))"

text \<open>Going on with what was read.\<close>

definition with_read :: "response + 'a \<Rightarrow> ('a \<Rightarrow> ('z, response) http) \<Rightarrow> ('z, response) http" where
  "with_read m k = (case m of Inl resp \<Rightarrow> ret resp | Inr x \<Rightarrow> k x)"

end
