(* ===== verification/Detect.thy ===== *)
theory Detect
  imports Storage "HOL-Library.Code_Target_Nat"
begin

text \<open>
  \<^verbatim>\<open>attachments/detect.go\<close>: what kind of file an upload is, from its first bytes, its name and
  the type the client claims. The sniffer of \<^verbatim>\<open>net/http\<close>, the table of \<^verbatim>\<open>mime\<close> and the case
  map are the standard library's: the parameter \<open>sniffing\<close>.
\<close>

section \<open>Signatures\<close>

record sniffing =
  sn_unicode :: unicode
  sniff :: "string \<Rightarrow> string"
  TypeByExtension :: "string \<Rightarrow> string"

definition byte_at :: "string \<Rightarrow> nat \<Rightarrow> nat" where
  "byte_at s i = bt (s ! i)"

definition text_at :: "nat \<Rightarrow> string \<Rightarrow> string \<Rightarrow> bool" where
  "text_at i t s \<longleftrightarrow> take (length t) (drop i s) = t"

text \<open>\<^verbatim>\<open>archive.Signature\<close>\<close>

definition Signature :: "string \<Rightarrow> bool" where
  "Signature header \<longleftrightarrow>
     length header \<ge> 4 \<and>
       (header ! 0 = CHR ''P'' \<and> header ! 1 = CHR ''K'' \<and> byte_at header 2 = 3 \<and> byte_at header 3 = 4
        \<or> length header \<ge> 2 \<and> byte_at header 0 = 31 \<and> byte_at header 1 = 139
        \<or> length header \<ge> 265 \<and> text_at 257 ''ustar'' header)"

definition archiveMime :: "string \<Rightarrow> string" where
  "archiveMime header =
     (if length header \<ge> 2 \<and> byte_at header 0 = 31 \<and> byte_at header 1 = 139 then ''application/gzip''
      else ''application/zip'')"

definition isWebM :: "string \<Rightarrow> bool" where
  "isWebM header \<longleftrightarrow> length header \<ge> 4 \<and> byte_at header 0 = 26 \<and> byte_at header 1 = 69
     \<and> byte_at header 2 = 223 \<and> byte_at header 3 = 163"

definition lower_ext :: "sniffing \<Rightarrow> string \<Rightarrow> string" where
  "lower_ext d originalName = ToLower (sn_unicode d) (path_Ext originalName)"

definition isAudioMP4 :: "sniffing \<Rightarrow> string \<Rightarrow> string \<Rightarrow> bool" where
  "isAudioMP4 d header originalName \<longleftrightarrow>
     (if length header < 12 \<or> \<not> text_at 4 ''ftyp'' header then False
      else
        let ext = lower_ext d originalName in
        ext = ''.m4a'' \<or> ext = ''.m4b'' \<or> ext = ''.m4p'' \<or> text_at 8 ''M4A '' header)"

definition is_wave :: "string \<Rightarrow> bool" where
  "is_wave header \<longleftrightarrow> length header \<ge> 12 \<and> text_at 0 ''RIFF'' header \<and> text_at 8 ''WAVE'' header"

text \<open>\<^verbatim>\<open>header[1] & 0xe0 == 0xe0\<close>: the three upper bits are set.\<close>

definition isAudio :: "sniffing \<Rightarrow> string \<Rightarrow> string \<Rightarrow> string \<Rightarrow> string \<Rightarrow> bool" where
  "isAudio d header detected originalName hint \<longleftrightarrow>
     (if has_prefix ''audio/'' hint \<and> isWebM header then True
      else if has_prefix ''audio/'' detected then True
      else if is_wave header then True
      else if length header \<ge> 4 \<and> text_at 0 ''OggS'' header then True
      else if length header \<ge> 3 \<and> text_at 0 ''ID3'' header then True
      else if length header \<ge> 2 \<and> byte_at header 0 = 255 \<and> byte_at header 1 \<ge> 224 then True
      else isAudioMP4 d header originalName)"

definition normalizeAudioMime :: "sniffing \<Rightarrow> string \<Rightarrow> string \<Rightarrow> string \<Rightarrow> string \<Rightarrow> string" where
  "normalizeAudioMime d header detected originalName hint =
     (if is_wave header then ''audio/wav''
      else if length header \<ge> 4 \<and> text_at 0 ''OggS'' header then ''audio/ogg''
      else if length header \<ge> 3 \<and> text_at 0 ''ID3'' header then ''audio/mpeg''
      else if isAudioMP4 d header originalName then ''audio/mp4''
      else if has_prefix ''audio/'' hint then hint
      else if has_prefix ''audio/'' detected then detected
      else ''audio/webm'')"

definition isVideo :: "string \<Rightarrow> string \<Rightarrow> string \<Rightarrow> bool" where
  "isVideo header detected hint \<longleftrightarrow>
     (if has_prefix ''video/'' hint \<and> isWebM header then True
      else if detected = ''video/webm'' \<or> detected = ''video/mp4'' then True
      else length header \<ge> 12 \<and> text_at 4 ''ftyp'' header)"

definition normalizeVideoMime :: "sniffing \<Rightarrow> string \<Rightarrow> string \<Rightarrow> string" where
  "normalizeVideoMime d header detected =
     (if detected = ''video/webm'' then detected
      else if length header \<ge> 12 \<and> text_at 4 ''ftyp'' header then ''video/mp4''
      else TypeByExtension d (path_Ext ''video.webm''))"

definition str_contains :: "string \<Rightarrow> string \<Rightarrow> bool" where
  "str_contains s t \<longleftrightarrow> list_ex (\<lambda>i. text_at i t s) [0..<length s + 1]"

definition refused_extensions :: string where
  "refused_extensions = ''.jpg.jpeg.png.gif.webp.bmp.svg.mp4.webm.mov.m4a.m4b.m4p.mp3.wav.ogg.opus.zip.7z.rar.tar.gz.tgz''"

definition isSafeFile :: "sniffing \<Rightarrow> string \<Rightarrow> string \<Rightarrow> bool" where
  "isSafeFile d header originalName \<longleftrightarrow>
     (if header = [] \<or> char_of (0 :: nat) \<in> set header \<or> \<not> ValidString header then False
      else if str_contains refused_extensions (lower_ext d originalName) then False
      else length header \<ge> 5 \<and> text_at 0 ''%PDF-'' header \<or> ValidString header)"

section \<open>Detection\<close>

text \<open>
  \<open>input\<close> is what the reader yields, \<open>None\<close> a failed read; \<open>mimeHint\<close> is the first of the
  hints, the empty text if there is none.
\<close>

definition Detect :: "sniffing \<Rightarrow> string option \<Rightarrow> string \<Rightarrow> string \<Rightarrow> attach_error + string \<times> string" where
  "Detect d input originalName mimeHint =
     (case input of
        None \<Rightarrow> Inl OsFailed
      | Some data \<Rightarrow>
          let header = take 512 data in
          if Signature header then Inr (''archive'', archiveMime header)
          else
            let mimeType = sniff d header;
                mimeHint = ToLower (sn_unicode d) (TrimSpace mimeHint) in
            if has_prefix ''image/'' mimeType then Inr (''image'', mimeType)
            else if isAudio d header mimeType originalName mimeHint
              then Inr (''audio'', normalizeAudioMime d header mimeType originalName mimeHint)
            else if isVideo header mimeType mimeHint then Inr (''video'', normalizeVideoMime d header mimeType)
            else if isSafeFile d header originalName then
              (if length header \<ge> 5 \<and> text_at 0 ''%PDF-'' header then Inr (''file'', ''application/pdf'')
               else Inr (''file'', ''text/plain; charset=utf-8''))
            else Inl ErrUnsupportedFormat)"

section \<open>Laws\<close>

text \<open>The types each kind may carry.\<close>

definition kind_types :: "string \<Rightarrow> string \<Rightarrow> bool" where
  "kind_types kind mimeType \<longleftrightarrow>
     (if kind = ''archive'' then List.member [''application/gzip'', ''application/zip''] mimeType
      else if kind = ''image'' then has_prefix ''image/'' mimeType
      else if kind = ''audio'' then has_prefix ''audio/'' mimeType
      else if kind = ''video'' then has_prefix ''video/'' mimeType
      else kind = ''file'' \<and> List.member [''application/pdf'', ''text/plain; charset=utf-8''] mimeType)"

lemma has_prefix_nth: "has_prefix p s \<Longrightarrow> i < length p \<Longrightarrow> s ! i = p ! i"
  unfolding has_prefix_def by (metis nth_take)

lemma has_prefix_clash:
  "has_prefix p s \<Longrightarrow> has_prefix q s \<Longrightarrow> i < length p \<Longrightarrow> i < length q \<Longrightarrow> p ! i = q ! i"
  by (metis has_prefix_nth)

lemma normalizeAudioMime_audio: "has_prefix ''audio/'' (normalizeAudioMime d header detected name hint)"
  by (simp add: normalizeAudioMime_def has_prefix_def)

lemma normalizeVideoMime_video:
  "has_prefix ''video/'' (TypeByExtension d ''.webm'') \<Longrightarrow> has_prefix ''video/'' (normalizeVideoMime d header detected)"
proof -
  assume "has_prefix ''video/'' (TypeByExtension d ''.webm'')"
  moreover have "path_Ext ''video.webm'' = ''.webm''" by code_simp
  ultimately show ?thesis by (simp add: normalizeVideoMime_def has_prefix_def)
qed

text \<open>
  C12: Whatever is uploaded under whatever name and claimed type, the type it is stored and
  later served with belongs to its kind: an image, audio or video type, one of the two
  archive types, PDF or plain text. In particular nothing is ever served as a web page or a
  script. (The table of the standard library must know WebM as a video.)
\<close>

theorem Detect_types:
  assumes "Detect d input name hint = Inr (kind, mimeType)"
    and "has_prefix ''video/'' (TypeByExtension d ''.webm'')"
  shows "kind_types kind mimeType \<and> \<not> has_prefix ''text/html'' mimeType \<and> \<not> has_prefix ''application/j'' mimeType"
proof -
  have "kind_types kind mimeType"
    using assms(1) normalizeAudioMime_audio normalizeVideoMime_video [OF assms(2)]
    by (auto simp: Detect_def Let_def kind_types_def archiveMime_def split: option.splits if_splits)
  moreover have "\<not> has_prefix ''text/html'' mimeType \<and> \<not> has_prefix ''application/j'' mimeType"
  proof (cases "kind = ''image'' \<or> kind = ''audio'' \<or> kind = ''video''")
    case True
    with calculation consider "has_prefix ''image/'' mimeType" | "has_prefix ''audio/'' mimeType" | "has_prefix ''video/'' mimeType"
      by (auto simp: kind_types_def)
    then show ?thesis
      by cases (rule conjI; rule notI; drule (1) has_prefix_clash [where i = 1]; simp)+
  next
    case False
    with calculation show ?thesis by (auto simp: kind_types_def has_prefix_def split: if_splits)
  qed
  ultimately show ?thesis by simp
qed

definition plain_sniffing :: sniffing where
  "plain_sniffing = \<lparr>sn_unicode = \<lparr>IsLetter = \<lambda>r. False, IsDigit = \<lambda>r. False, IsNumber = \<lambda>r. False, lower_rune = \<lambda>r. r\<rparr>,
     sniff = \<lambda>s. ''text/plain; charset=utf-8'', TypeByExtension = \<lambda>e. ''video/webm''\<rparr>"

lemma Detect_types_witness:
  "kind_types ''file'' ''text/plain; charset=utf-8''"
proof -
  have "Detect plain_sniffing (Some ''<script>'') ''page.html'' ''text/html'' = Inr (''file'', ''text/plain; charset=utf-8'')"
    by code_simp
  moreover have "has_prefix ''video/'' (TypeByExtension plain_sniffing ''.webm'')" by code_simp
  ultimately show ?thesis by (rule Detect_types [THEN conjunct1])
qed

text \<open>A text without an extension is refused, and so is one whose 512th byte cuts a character.\<close>

lemma no_extension_refused:
  assumes "lower_ext d name = []"
  shows "\<not> isSafeFile d header name"
  using assms by (auto simp: isSafeFile_def str_contains_def text_at_def list_ex_iff)

lemma cut_text_refused:
  "\<not> ValidString (take 512 data) \<Longrightarrow> \<not> isSafeFile d (take 512 data) name"
  by (simp add: isSafeFile_def)

lemma segments_cyrillic: "segments (concat (replicate n (encode_rune 1072)) @ s) = replicate n (1072, encode_rune 1072) @ segments s"
  by (induction n) (simp_all add: segments_encode_Cons valid_rune_def)

lemma cut_text_example:
  "ValidString (encode (97 # replicate 300 1072)) \<and> \<not> ValidString (take 512 (encode (97 # replicate 300 1072)))"
proof
  have a: "encode_rune 1072 = map char_of [208 :: nat, 176]" "encode_rune 97 = ''a''"
    by code_simp+
  have whole: "encode (97 # replicate n 1072) = encode_rune 97 @ concat (replicate n (encode_rune 1072))" for n
    by (simp add: encode_def map_replicate_const)
  show "ValidString (encode (97 # replicate 300 1072))"
    using segments_cyrillic [of 300 "[]"]
    by (simp add: whole ValidString_def segments_encode_Cons valid_rune_def RuneError_def list_all_iff)
  have len: "length (concat (replicate n (encode_rune 1072))) = 2 * n" for n
    by (simp add: a length_concat sum_list_replicate)
  have "take 512 (encode (97 # replicate 300 1072)) =
      encode_rune 97 @ concat (replicate 255 (encode_rune 1072)) @ [char_of (208 :: nat)]"
  proof -
    have "concat (replicate 300 (encode_rune 1072)) = concat (replicate 255 (encode_rune 1072)) @
        encode_rune 1072 @ concat (replicate 44 (encode_rune 1072))"
      using replicate_add [of 255 45 "encode_rune 1072"] replicate_Suc [of 44 "encode_rune 1072"] by simp
    moreover have "length (concat (replicate 255 (encode_rune 1072))) = 510" by (simp only: len)
    ultimately show ?thesis
      unfolding whole a(2) by (simp only: append_Cons append_Nil take_Cons' take_append) (simp add: a(1))
  qed
  moreover have "segments [char_of (208 :: nat)] = [(RuneError, [char_of (208 :: nat)])]"
    by code_simp
  ultimately show "\<not> ValidString (take 512 (encode (97 # replicate 300 1072)))"
    by (simp add: ValidString_def segments_encode_Cons segments_cyrillic valid_rune_def RuneError_def)
qed

end
