(* ===== verification/Archive.thy ===== *)
theory Archive
  imports Detect
begin

unbundle bit_operations_syntax

text \<open>
  \<^verbatim>\<open>attachments/archive/archive.go\<close>: which archives are accepted. The readers of the three
  formats are the standard library's: what they report about the bytes of a file is the
  parameter \<open>archive_readers\<close>. Sizes of zip entries are 64 bit words compared as the code
  compares them, unsigned and signed.
\<close>

section \<open>What the readers report\<close>

text \<open>
  An entry of a zip directory: its name, its \<^verbatim>\<open>fs.FileMode\<close> and its declared size. One call
  of \<^verbatim>\<open>tar.Reader.Next\<close>: the end, an error, or a header and whether its payload can be read.
  A gzip stream: \<open>None\<close> for a bad header, else how many bytes it yields before it ends or
  fails, and whether it fails.
\<close>

record zip_entry =
  z_Name :: string
  z_Mode :: "32 word"
  UncompressedSize64 :: "64 word"

record tar_header =
  th_Name :: string
  Typeflag :: char
  th_Size :: int

datatype tar_step =
    TarEOF
  | TarError
  | TarEntry tar_header bool

record archive_readers =
  zip_reader :: "string \<Rightarrow> zip_entry list option"
  gzip_reader :: "string \<Rightarrow> (int \<times> bool) option"
  tar_next :: "string \<Rightarrow> nat \<Rightarrow> tar_step"

datatype archive_error =
    ArchiveOs attach_error
  | ExceedsInput
  | UnknownSignature
  | ReadFailed
  | TooManyEntries
  | UnsafeEntry
  | ExpandsBeyond

section \<open>Validation\<close>

definition MaxEntries :: nat where "MaxEntries = 10000"
definition MaxExpandedBytes :: int where "MaxExpandedBytes = 100 * 1024 * 1024"

definition ModeSymlink :: "32 word" where "ModeSymlink = push_bit 27 1"
definition ModeDir :: "32 word" where "ModeDir = push_bit 31 1"

text \<open>\<^verbatim>\<open>os.ModeType\<close>: directory, symbolic link, pipe, socket, devices, irregular.\<close>

definition ModeType :: "32 word" where
  "ModeType = ModeDir OR ModeSymlink OR push_bit 25 1 OR push_bit 24 1 OR push_bit 26 1
     OR push_bit 21 1 OR push_bit 19 1"

definition unsafe_zip_entry :: "zip_entry \<Rightarrow> bool" where
  "unsafe_zip_entry e \<longleftrightarrow>
     unsafeName (z_Name e) \<or> z_Mode e AND ModeSymlink \<noteq> 0
     \<or> z_Mode e AND ModeType \<noteq> 0 \<and> \<not> (z_Mode e AND ModeDir \<noteq> 0)"

fun check_zip :: "64 word \<Rightarrow> 64 word \<Rightarrow> zip_entry list \<Rightarrow> archive_error option" where
  "check_zip maxExpanded expanded [] = None"
| "check_zip maxExpanded expanded (e # es) =
     (if unsafe_zip_entry e then Some UnsafeEntry
      else if UncompressedSize64 e > maxExpanded
        \<or> sint expanded > sint (maxExpanded - UncompressedSize64 e) then Some ExpandsBeyond
      else check_zip maxExpanded (expanded + UncompressedSize64 e) es)"

definition validateZip :: "archive_readers \<Rightarrow> string \<Rightarrow> int \<Rightarrow> archive_error option" where
  "validateZip r file maxExpanded =
     (case zip_reader r file of
        None \<Rightarrow> Some ReadFailed
      | Some entries \<Rightarrow>
          if length entries > MaxEntries then Some TooManyEntries
          else check_zip (of_int maxExpanded) 0 entries)"

text \<open>\<^verbatim>\<open>io.Copy\<close> reads at most one byte past the limit, and sees an error only up to there.\<close>

definition validateGzip :: "archive_readers \<Rightarrow> string \<Rightarrow> int \<Rightarrow> archive_error option" where
  "validateGzip r file maxExpanded =
     (case gzip_reader r file of
        None \<Rightarrow> Some ReadFailed
      | Some (bytes, fails) \<Rightarrow>
          let count = min bytes (maxExpanded + 1) in
          if fails \<and> bytes < maxExpanded + 1 then Some ReadFailed
          else if count > maxExpanded then Some ExpandsBeyond
          else None)"

definition unsafe_tar_entry :: "tar_header \<Rightarrow> bool" where
  "unsafe_tar_entry h \<longleftrightarrow> unsafeName (th_Name h) \<or> List.member ''21346'' (Typeflag h)"

text \<open>The loop: \<open>left\<close> counts down to \<open>MaxEntries\<close> headers, \<open>n\<close> is the number read so far.\<close>

fun check_tar :: "(nat \<Rightarrow> tar_step) \<Rightarrow> int \<Rightarrow> int \<Rightarrow> nat \<Rightarrow> nat \<Rightarrow> archive_error option" where
  "check_tar steps maxExpanded expanded n 0 = Some TooManyEntries"
| "check_tar steps maxExpanded expanded n (Suc left) =
     (case steps n of
        TarEOF \<Rightarrow> None
      | TarError \<Rightarrow> Some ReadFailed
      | TarEntry h readable \<Rightarrow>
          if unsafe_tar_entry h then Some UnsafeEntry
          else if th_Size h < 0 \<or> th_Size h > maxExpanded \<or> expanded > maxExpanded - th_Size h
            then Some ExpandsBeyond
          else if \<not> readable then Some ReadFailed
          else check_tar steps maxExpanded (expanded + th_Size h) (Suc n) left)"

definition validateTar :: "archive_readers \<Rightarrow> string \<Rightarrow> int \<Rightarrow> archive_error option" where
  "validateTar r file maxExpanded = check_tar (tar_next r file) maxExpanded 0 0 MaxEntries"

definition verdict_of :: "archive_error option \<Rightarrow> ('w, archive_error, unit) action" where
  "verdict_of v = (case v of None \<Rightarrow> ret () | Some e \<Rightarrow> raise e)"

text \<open>\<open>data\<close> is what the file at \<open>path\<close> holds.\<close>

definition Validate ::
  "archive_readers \<Rightarrow> string \<Rightarrow> string \<Rightarrow> int \<Rightarrow> int
   \<Rightarrow> ('z storage_world_scheme, archive_error, unit) action" where
  "Validate r path data maxBytes maxExpanded =
     (let maxExpanded = (if maxExpanded \<le> 0 \<or> maxExpanded > MaxExpandedBytes then MaxExpandedBytes else maxExpanded) in
      andThen (map_error ArchiveOs (os_Stat path)) (\<lambda>_.
      if length data = 0 \<or> int (length data) > maxBytes then raise ExceedsInput
      else
      andThen (map_error ArchiveOs (os_Open path)) (\<lambda>_.
      andThen (map_error ArchiveOs os_Transfer) (\<lambda>_.
      let header = take 512 data in
      if \<not> Signature header then raise UnknownSignature
      else
      andThen (map_error ArchiveOs os_Transfer) (\<lambda>_.
      if length header \<ge> 4 \<and> header ! 0 = CHR ''P'' \<and> header ! 1 = CHR ''K'' then
        andThen (attempt (os_Stat path)) (\<lambda>info.
        verdict_of (validateZip r (case info of Inl _ \<Rightarrow> [] | Inr _ \<Rightarrow> data) maxExpanded))
      else if length header \<ge> 2 \<and> byte_at header 0 = 31 \<and> byte_at header 1 = 139 then
        verdict_of (validateGzip r data maxExpanded)
      else verdict_of (validateTar r data maxExpanded))))))"

section \<open>Laws\<close>

lemma sint_small: "uint (x :: 64 word) \<le> MaxExpandedBytes \<Longrightarrow> sint x = uint x"
  unfolding sint_uint MaxExpandedBytes_def
  by (rule signed_take_bit_int_eq_self) (simp_all add: order_trans [OF _ uint_ge_0])

lemma uint_limit: "0 \<le> m \<Longrightarrow> m \<le> MaxExpandedBytes \<Longrightarrow> uint (of_int m :: 64 word) = m"
  by (simp add: MaxExpandedBytes_def uint_word_of_int)

text \<open>The running sum of an accepted zip directory never wraps around.\<close>

lemma zip_step:
  assumes "0 \<le> m" "m \<le> MaxExpandedBytes" "uint x \<le> m"
    and "\<not> (sz > (of_int m :: 64 word) \<or> sint x > sint ((of_int m :: 64 word) - sz))"
  shows "uint (x + sz) = uint x + uint sz \<and> uint x + uint sz \<le> m"
proof -
  let ?M = "of_int m :: 64 word"
  have M: "uint ?M = m" using assms(1,2) by (rule uint_limit)
  have sz: "uint sz \<le> m" using assms(4) M by (simp add: word_le_def not_less)
  have diff: "uint (?M - sz) = m - uint sz"
    using sz M by (simp add: uint_sub_if')
  moreover have "sint (?M - sz) = uint (?M - sz)"
    by (rule sint_small) (use diff assms(2) uint_ge_0 [of sz] in linarith)
  moreover have "sint x = uint x" by (rule sint_small) (use assms(2,3) in simp)
  ultimately have sum: "uint x + uint sz \<le> m" using assms(4) by simp
  moreover have "uint x + uint sz < 2 ^ 64" using sum assms(2) by (simp add: MaxExpandedBytes_def)
  ultimately show ?thesis by (simp add: uint_add_lem [THEN iffD1])
qed

lemma check_zip_sound:
  assumes "0 \<le> m" "m \<le> MaxExpandedBytes"
  shows "check_zip (of_int m) x es = None \<Longrightarrow> uint x \<le> m \<Longrightarrow>
    list_all (\<lambda>e. \<not> unsafe_zip_entry e) es
    \<and> uint x + sum_list (map (\<lambda>e. uint (UncompressedSize64 e)) es) \<le> m"
proof (induction es arbitrary: x)
  case (Cons e es)
  have "\<not> unsafe_zip_entry e" and fits: "\<not> (UncompressedSize64 e > (of_int m :: 64 word)
      \<or> sint x > sint ((of_int m :: 64 word) - UncompressedSize64 e))"
    and rest: "check_zip (of_int m) (x + UncompressedSize64 e) es = None"
    using Cons.prems(1) by (auto split: if_splits)
  from zip_step [OF assms Cons.prems(2) fits] Cons.IH [OF rest] \<open>\<not> unsafe_zip_entry e\<close>
  show ?case by simp
qed simp

lemma check_tar_sound:
  assumes "check_tar steps m x n left = None" "x \<le> m"
  obtains k where "k < left" "steps (n + k) = TarEOF"
    and "list_all (\<lambda>i. case steps (n + i) of TarEntry h readable \<Rightarrow> \<not> unsafe_tar_entry h \<and> readable | _ \<Rightarrow> False) [0..<k]"
    and "x + sum_list (map (\<lambda>i. case steps (n + i) of TarEntry h _ \<Rightarrow> th_Size h | _ \<Rightarrow> 0) [0..<k]) \<le> m"
  using assms
proof (induction left arbitrary: x n thesis)
  case (Suc left)
  show ?case
  proof (cases "steps n")
    case TarEOF
    then show ?thesis using Suc.prems(1) [of 0] Suc.prems(3) by simp
  next
    case TarError
    then show ?thesis using Suc.prems(2) by simp
  next
    case (TarEntry h readable)
    then have ok: "\<not> unsafe_tar_entry h" "readable" "x + th_Size h \<le> m"
      and rest: "check_tar steps m (x + th_Size h) (Suc n) left = None"
      using Suc.prems(2) by (auto split: if_splits)
    let ?ok = "\<lambda>i. case steps (n + i) of TarEntry h readable \<Rightarrow> \<not> unsafe_tar_entry h \<and> readable | _ \<Rightarrow> False"
    let ?size = "\<lambda>i. case steps (n + i) of TarEntry h _ \<Rightarrow> th_Size h | _ \<Rightarrow> 0"
    obtain k where k: "k < left" "steps (Suc n + k) = TarEOF"
      "list_all (\<lambda>i. case steps (Suc n + i) of TarEntry h readable \<Rightarrow> \<not> unsafe_tar_entry h \<and> readable | _ \<Rightarrow> False) [0..<k]"
      "(x + th_Size h) + sum_list (map (\<lambda>i. case steps (Suc n + i) of TarEntry h _ \<Rightarrow> th_Size h | _ \<Rightarrow> 0) [0..<k]) \<le> m"
      using Suc.IH [OF _ rest ok(3)] by blast
    have list: "[0..<Suc k] = 0 # map Suc [0..<k]" by (simp add: upt_conv_Cons map_Suc_upt del: upt_Suc)
    have "list_all ?ok (map Suc [0..<k])"
      using k(3) by (simp add: list.pred_map comp_def del: map_Suc_upt)
    then show ?thesis
      by (intro Suc.prems(1) [of "Suc k"])
        (use k ok TarEntry in \<open>simp_all add: list comp_def del: upt_Suc map_Suc_upt\<close>)
  qed
qed simp

definition whole_limit :: "int \<Rightarrow> int" where
  "whole_limit maxExpanded =
     (if maxExpanded \<le> 0 \<or> maxExpanded > MaxExpandedBytes then MaxExpandedBytes else maxExpanded)"

lemma whole_limit_bounds: "0 < whole_limit m" "whole_limit m \<le> MaxExpandedBytes"
  by (simp_all add: whole_limit_def MaxExpandedBytes_def)

lemma verdict_InrE:
  assumes "verdict_of v w = (Inr x, w1)"
  obtains "v = None"
  using assms by (auto simp: verdict_of_def run_simps split: option.splits)

lemma Validate_result:
  assumes "Validate r path data maxBytes maxExpanded w = (Inr x, w1)"
  shows "data \<noteq> [] \<and> int (length data) \<le> maxBytes \<and> Signature (take 512 data) \<and>
    (validateZip r data (whole_limit maxExpanded) = None \<or> validateZip r [] (whole_limit maxExpanded) = None
     \<or> validateGzip r data (whole_limit maxExpanded) = None \<or> validateTar r data (whole_limit maxExpanded) = None)"
  using assms unfolding Validate_def Let_def whole_limit_def [symmetric]
  by (auto simp: run_simps split: if_splits sum.splits prod.splits elim!: verdict_InrE)

text \<open>What may be said of an accepted file of each format, for a limit on the unpacked size.\<close>

definition unpacks_zip :: "archive_readers \<Rightarrow> string \<Rightarrow> int \<Rightarrow> bool" where
  "unpacks_zip r data limit \<longleftrightarrow>
     (case zip_reader r data of
        None \<Rightarrow> False
      | Some es \<Rightarrow>
          length es \<le> 10000
          \<and> list_all (\<lambda>e. \<not> unsafeName (z_Name e) \<and> z_Mode e AND ModeSymlink = 0) es
          \<and> sum_list (map (\<lambda>e. uint (UncompressedSize64 e)) es) \<le> limit)"

definition unpacks_gzip :: "archive_readers \<Rightarrow> string \<Rightarrow> int \<Rightarrow> bool" where
  "unpacks_gzip r data limit \<longleftrightarrow>
     (case gzip_reader r data of None \<Rightarrow> False | Some (bytes, fails) \<Rightarrow> \<not> fails \<and> bytes \<le> limit)"

definition tar_entries :: "(nat \<Rightarrow> tar_step) \<Rightarrow> nat \<Rightarrow> tar_header list" where
  "tar_entries steps k = List.map_filter (\<lambda>i. case steps i of TarEntry h _ \<Rightarrow> Some h | _ \<Rightarrow> None) [0..<k]"

definition unpacks_tar :: "archive_readers \<Rightarrow> string \<Rightarrow> int \<Rightarrow> bool" where
  "unpacks_tar r data limit \<longleftrightarrow>
     (\<exists>k < 10000. tar_next r data k = TarEOF \<and> length (tar_entries (tar_next r data) k) = k
        \<and> list_all (\<lambda>h. \<not> unsafeName (th_Name h) \<and> \<not> List.member ''21346'' (Typeflag h)) (tar_entries (tar_next r data) k)
        \<and> sum_list (map th_Size (tar_entries (tar_next r data) k)) \<le> limit)"

lemma unpacks_zip_intro:
  assumes "validateZip r data (whole_limit m) = None"
  shows "unpacks_zip r data (whole_limit m)"
proof -
  from assms obtain es where es: "zip_reader r data = Some es" "length es \<le> MaxEntries"
    and run: "check_zip (of_int (whole_limit m)) 0 es = None"
    by (auto simp: validateZip_def split: option.splits if_splits)
  from check_zip_sound [OF _ _ run] whole_limit_bounds [of m]
  have "list_all (\<lambda>e. \<not> unsafe_zip_entry e) es"
    "sum_list (map (\<lambda>e. uint (UncompressedSize64 e)) es) \<le> whole_limit m" by simp_all
  then show ?thesis using es by (auto simp: unpacks_zip_def unsafe_zip_entry_def list_all_iff MaxEntries_def)
qed

lemma unpacks_gzip_intro:
  "validateGzip r data (whole_limit m) = None \<Longrightarrow> unpacks_gzip r data (whole_limit m)"
  by (auto simp: validateGzip_def unpacks_gzip_def Let_def min_def split: option.splits if_splits)

lemma map_filter_all:
  "\<forall>i \<in> set xs. f i = Some (g i) \<Longrightarrow> List.map_filter f xs = map g xs"
  by (induction xs) (simp_all add: map_filter_simps)

lemma unpacks_tar_intro:
  assumes "validateTar r data (whole_limit m) = None"
  shows "unpacks_tar r data (whole_limit m)"
proof -
  let ?steps = "tar_next r data"
  have run: "check_tar ?steps (whole_limit m) 0 0 MaxEntries = None"
    using assms by (simp add: validateTar_def)
  obtain k where k: "k < MaxEntries" "?steps k = TarEOF"
    and ok: "list_all (\<lambda>i. case ?steps i of TarEntry h readable \<Rightarrow> \<not> unsafe_tar_entry h \<and> readable | _ \<Rightarrow> False) [0..<k]"
    and sum: "sum_list (map (\<lambda>i. case ?steps i of TarEntry h _ \<Rightarrow> th_Size h | _ \<Rightarrow> 0) [0..<k]) \<le> whole_limit m"
    using check_tar_sound [OF run] whole_limit_bounds [of m] by auto
  let ?hd = "\<lambda>i. case ?steps i of TarEntry h _ \<Rightarrow> h"
  have shape: "\<forall>i \<in> set [0..<k]. \<exists>readable. ?steps i = TarEntry (?hd i) readable \<and> \<not> unsafe_tar_entry (?hd i)"
    using ok unfolding list_all_iff by (auto split: tar_step.splits)
  have "\<forall>i \<in> set [0..<k]. (case ?steps i of TarEntry h _ \<Rightarrow> Some h | _ \<Rightarrow> None) = Some (?hd i)"
    using ok unfolding list_all_iff by (auto split: tar_step.splits)
  then have entries: "tar_entries ?steps k = map ?hd [0..<k]"
    unfolding tar_entries_def by (rule map_filter_all)
  have "sum_list (map th_Size (map ?hd [0..<k])) =
      sum_list (map (\<lambda>i. case ?steps i of TarEntry h _ \<Rightarrow> th_Size h | _ \<Rightarrow> 0) [0..<k])"
    unfolding map_map comp_def
    by (rule arg_cong [where f = sum_list], rule map_cong [OF refl]) (use shape in \<open>auto split: tar_step.splits\<close>)
  moreover have "list_all (\<lambda>h. \<not> unsafeName (th_Name h) \<and> \<not> List.member ''21346'' (Typeflag h)) (map ?hd [0..<k])"
    using shape unfolding list_all_iff unsafe_tar_entry_def by auto
  ultimately show ?thesis
    using k sum unfolding unpacks_tar_def MaxEntries_def by (intro exI [of _ k]) (simp add: entries)
qed


definition two_entries :: archive_readers where
  "two_entries = \<lparr>
     zip_reader = (\<lambda>s. if s = [] then None else Some [\<lparr>z_Name = ''a'', z_Mode = 0, UncompressedSize64 = 0\<rparr>,
       \<lparr>z_Name = ''a/b.txt'', z_Mode = 0, UncompressedSize64 = 70\<rparr>]),
     gzip_reader = (\<lambda>s. None), tar_next = (\<lambda>s n. TarError)\<rparr>"

definition disk_with :: "string list \<Rightarrow> storage_world" where
  "disk_with files = \<lparr>w_db = empty_db, w_faults = [], x_now = 0, x_ticks = [], x_tape = [], x_voice_faults = [],
     x_voice_calls = [], s_files = files, s_dirs = [''/tmp''], s_os_faults = [], s_reserved = 0\<rparr>"


end
