(* ===== verification/Processor.thy ===== *)
theory Processor
  imports Archive
begin

text \<open>
  \<^verbatim>\<open>attachments/processor.go\<close>, \<^verbatim>\<open>attachments/image/image.go\<close> and
  \<^verbatim>\<open>attachments/video/ffmpeg.go\<close>: how an upload becomes the file that is stored. Pictures are
  scaled and encoded again until they are small enough, videos go through ffmpeg, archives
  are checked, everything else is copied. The codecs, ffmpeg and the names of temporary files
  are parameters; what a temporary file holds is known to \<open>Process\<close> alone and is the value it
  carries. Errors no caller tells apart are \<open>OsFailed\<close>.
\<close>

section \<open>Pictures\<close>

record 'p imaging =
  img_config :: "string \<Rightarrow> (int \<times> int) option"
  img_decode :: "string \<Rightarrow> 'p option"
  img_bounds :: "'p \<Rightarrow> int \<times> int"
  img_scale :: "int \<Rightarrow> int \<Rightarrow> 'p \<Rightarrow> 'p"
  img_jpeg :: "'p \<Rightarrow> int \<Rightarrow> string option"

definition maxPixels :: int where "maxPixels = 16000000"
definition maxImageInput :: nat where "maxImageInput = 10 * 1024 * 1024"

definition resized :: "int \<Rightarrow> int \<Rightarrow> int \<Rightarrow> (int \<times> int) option" where
  "resized width height maxDimension =
     (if width \<le> maxDimension \<and> height \<le> maxDimension then None
      else if width \<ge> height then Some (maxDimension, height * maxDimension sdiv width)
      else Some (width * maxDimension sdiv height, maxDimension))"

definition resize :: "'p imaging \<Rightarrow> 'p \<Rightarrow> int \<Rightarrow> 'p" where
  "resize c source maxDimension =
     (case img_bounds c source of (width, height) \<Rightarrow>
        (case resized width height maxDimension of
           None \<Rightarrow> source
         | Some (width, height) \<Rightarrow> img_scale c width height source))"

text \<open>
  The inner loop tries the qualities 75, 60, 45 and 30. Its result is \<open>None\<close> when none is
  small enough, else the error or the picture.
\<close>

function try_qualities :: "'p imaging \<Rightarrow> 'p \<Rightarrow> 64 word \<Rightarrow> int \<Rightarrow> (attach_error + string) option" where
  "try_qualities c candidate maxOutput quality =
     (if quality < 30 then None
      else
        (case img_jpeg c candidate quality of
           None \<Rightarrow> Some (Inl OsFailed)
         | Some encoded \<Rightarrow>
             if of_nat (length encoded) \<le> maxOutput then Some (Inr encoded)
             else try_qualities c candidate maxOutput (quality - 15)))"
  by pat_completeness auto
termination by (relation "measure (\<lambda>(c, p, m, q). nat (q + 15))") auto

text \<open>The outer loop shrinks the longer side from 2048 by a quarter as long as it has 320 pixels.\<close>

function try_sizes :: "'p imaging \<Rightarrow> 'p \<Rightarrow> 64 word \<Rightarrow> int \<Rightarrow> attach_error + string" where
  "try_sizes c source maxOutput maxDimension =
     (if maxDimension < 320 then Inl OsFailed
      else
        (case try_qualities c (resize c source maxDimension) maxOutput 75 of
           Some r \<Rightarrow> r
         | None \<Rightarrow> try_sizes c source maxOutput (maxDimension * 3 sdiv 4)))"
  by pat_completeness auto
termination
  by (relation "measure (\<lambda>(c, p, m, d). nat d)") (auto simp: signed_divide_int_def)

declare try_qualities.simps [simp del] try_sizes.simps [simp del]

definition encodeUnderLimit :: "'p imaging \<Rightarrow> 'p \<Rightarrow> 64 word \<Rightarrow> attach_error + string" where
  "encodeUnderLimit c source maxOutput = try_sizes c source maxOutput 2048"

section \<open>Temporary files\<close>

record temporary =
  TempDir :: string
  temp_name :: "string \<Rightarrow> string \<Rightarrow> string list \<Rightarrow> string"

definition os_CreateTemp :: "temporary \<Rightarrow> string \<Rightarrow> string \<Rightarrow> ('z, string) osm" where
  "os_CreateTemp t dir pattern = os_call (\<lambda>w.
     let dir = (if dir = [] then TempDir t else dir);
         path = dir @ ''/'' @ temp_name t dir pattern (s_files w @ s_dirs w);
         p = path_Clean path in
     if \<not> parent_exists p (s_dirs w) then Inl OsNotExist
     else Inr (path, w\<lparr>s_files := put_file p (s_files w)\<rparr>))"

text \<open>\<^verbatim>\<open>if err := m; err != nil { _ = os.Remove(path); return err }\<close> is \<open>or_discard m path\<close>.\<close>

text \<open>\<open>deferred c m\<close> runs \<open>c\<close> when \<open>m\<close> has ended, and forgets its error: \<^verbatim>\<open>defer c()\<close>.\<close>

definition deferred :: "('w, 'e, unit) action \<Rightarrow> ('w, 'e, 'a) action \<Rightarrow> ('w, 'e, 'a) action" where
  "deferred c m w = (case m w of (r, w1) \<Rightarrow> (r, snd (c w1)))"

definition copyFile :: "string \<Rightarrow> ('z, unit) osm" where
  "copyFile path = andThen (os_Open path) (\<lambda>_. os_Transfer)"

text \<open>The copy of the input that archives, audio and other files are stored as.\<close>

definition keep_copy :: "temporary \<Rightarrow> string \<Rightarrow> string \<Rightarrow> ('z, string) osm" where
  "keep_copy t pattern inputPath =
     andThen (os_CreateTemp t [] pattern) (\<lambda>outputPath.
     andThen (or_discard (copyFile inputPath) outputPath) (\<lambda>_.
     andThen (or_discard os_Transfer outputPath) (\<lambda>_.
     ret outputPath)))"

section \<open>Processing\<close>

record image_result =
  ir_Path :: string
  ir_Mime :: string
  ir_Size :: int

definition image_Process ::
  "temporary \<Rightarrow> 'p imaging \<Rightarrow> string \<Rightarrow> 64 word \<Rightarrow> int \<Rightarrow> ('z, image_result) osm" where
  "image_Process t c input maxOutput maxPixelsAllowed =
     (let maxPixelsAllowed = (if maxPixelsAllowed \<le> 0 \<or> maxPixelsAllowed > maxPixels then maxPixels else maxPixelsAllowed) in
      andThen os_Transfer (\<lambda>_.
      let data = take (maxImageInput + 1) input in
      if length data > maxImageInput then raise OsFailed
      else
        (case img_config c data of
           None \<Rightarrow> raise OsFailed
         | Some (width, height) \<Rightarrow>
             if width * height > maxPixelsAllowed then raise OsFailed
             else
               (case img_decode c data of
                  None \<Rightarrow> raise OsFailed
                | Some decoded \<Rightarrow>
                    (case encodeUnderLimit c decoded maxOutput of
                       Inl e \<Rightarrow> raise e
                     | Inr encoded \<Rightarrow>
                         andThen (os_CreateTemp t [] ''threaden-image-*'') (\<lambda>path.
                         andThen (or_discard os_Transfer path) (\<lambda>_.
                         andThen (or_discard os_Transfer path) (\<lambda>_.
                         andThen (or_discard
                           (andThen (os_Stat path) (\<lambda>_.
                            if int (length encoded) > sint maxOutput then raise OsFailed else ret ())) path) (\<lambda>_.
                         ret \<lparr>ir_Path = path, ir_Mime = ''image/jpeg'', ir_Size = int (length encoded)\<rparr>)))))))))"

definition ProcessFile ::
  "temporary \<Rightarrow> 'p imaging \<Rightarrow> string \<Rightarrow> string \<Rightarrow> 64 word \<Rightarrow> ('z, image_result) osm" where
  "ProcessFile t c path data maxOutput =
     andThen (os_Open path) (\<lambda>_. image_Process t c data maxOutput maxPixels)"

text \<open>\<open>ffmpeg\<close> is the size of the file the command writes, \<open>None\<close> if it fails.\<close>

definition NewTempOutput :: "temporary \<Rightarrow> string \<Rightarrow> ('z, string) osm" where
  "NewTempOutput t dir =
     andThen (os_CreateTemp t dir ''video-*'') (\<lambda>path.
     andThen (or_discard os_Transfer path) (\<lambda>_.
     ret (path_Clean path)))"

definition FFmpeg_Process :: "(string \<Rightarrow> int option) \<Rightarrow> string \<Rightarrow> string \<Rightarrow> int \<Rightarrow> ('z, int) osm" where
  "FFmpeg_Process ffmpeg data output maxOutput =
     (case ffmpeg data of
        None \<Rightarrow> raise OsFailed
      | Some written \<Rightarrow>
          andThen (os_Stat output) (\<lambda>_.
          if written \<le> 0 \<or> written > maxOutput then raise OsFailed else ret written))"

record 'p processor =
  p_MaxInputMedia :: int
  p_MaxArchive :: int
  p_MaxOutputMedia :: int
  p_temp :: temporary
  p_sniffing :: sniffing
  p_archives :: archive_readers
  p_imaging :: "'p imaging"
  p_ffmpeg :: "string \<Rightarrow> int option"

definition maxInput :: "'p processor \<Rightarrow> int" where
  "maxInput p = (if p_MaxInputMedia p > p_MaxArchive p then p_MaxInputMedia p else p_MaxArchive p)"

definition too_large :: "'p processor \<Rightarrow> int \<Rightarrow> bool" where
  "too_large p n \<longleftrightarrow> n \<le> 0 \<or> n > p_MaxInputMedia p \<and> n > p_MaxArchive p"

text \<open>\<^verbatim>\<open>filepath.Dir\<close> of the path of a temporary file.\<close>

definition dir_of :: "string \<Rightarrow> string" where
  "dir_of path = path_Clean (join_with slash (butlast (split_on slash path)))"

text \<open>What happens to the input once its kind is known.\<close>

definition by_kind ::
  "'p processor \<Rightarrow> string \<Rightarrow> string \<Rightarrow> string \<Rightarrow> string \<Rightarrow> string \<Rightarrow> ('z, processed_file) osm" where
  "by_kind p inputPath data kind mimeType name =
     (let actualSize = int (length data);
          file = (\<lambda>k m n path. \<lparr>pf_Kind = k, pf_Mime = m, pf_DisplayName = name, pf_Size = n, pf_Path = path\<rparr>) in
      if kind = ''archive'' then
        andThen (if actualSize > p_MaxArchive p then ret (Inl ExceedsInput)
                 else attempt (Validate (p_archives p) inputPath data (p_MaxArchive p) MaxExpandedBytes)) (\<lambda>checked.
        case checked of
          Inl _ \<Rightarrow> raise ErrInvalidFormat
        | Inr _ \<Rightarrow>
            andThen (keep_copy (p_temp p) ''threaden-archive-*'' inputPath) (\<lambda>path.
            ret (file ''archive'' mimeType actualSize path)))
      else if kind = ''image'' then
        andThen (ProcessFile (p_temp p) (p_imaging p) inputPath data (of_int (p_MaxOutputMedia p))) (\<lambda>result.
        ret (file ''image'' (ir_Mime result) (ir_Size result) (ir_Path result)))
      else if kind = ''audio'' then
        andThen (keep_copy (p_temp p) ''threaden-audio-*'' inputPath) (\<lambda>path.
        ret (file ''audio'' mimeType actualSize path))
      else if kind = ''video'' then
        andThen (NewTempOutput (p_temp p) (dir_of inputPath)) (\<lambda>output.
        andThen (or_discard (FFmpeg_Process (p_ffmpeg p) data output (p_MaxOutputMedia p)) output) (\<lambda>n.
        ret (file ''video'' mimeType n output)))
      else if kind = ''file'' then
        andThen (keep_copy (p_temp p) ''threaden-file-*'' inputPath) (\<lambda>path.
        ret (file ''file'' mimeType actualSize path))
      else raise ErrUnsupportedFormat)"

text \<open>\<open>src\<close> is what the upload yields; reading it or writing the copy may fail.\<close>

definition Process :: "'p processor \<Rightarrow> string \<Rightarrow> string \<Rightarrow> int \<Rightarrow> string \<Rightarrow> ('z, processed_file) osm" where
  "Process p src originalName inputSize mimeHint =
     (if too_large p inputSize then raise ErrTooLarge
      else
      andThen (os_CreateTemp (p_temp p) [] ''threaden-upload-*'') (\<lambda>inputPath.
      deferred (ignoring (os_Remove inputPath))
        (let data = take (nat (maxInput p + 1)) src in
         andThen os_Transfer (\<lambda>_.
         andThen os_Transfer (\<lambda>_.
         andThen (os_Stat inputPath) (\<lambda>_.
         if too_large p (int (length data)) then raise ErrTooLarge
         else
         andThen (os_Open inputPath) (\<lambda>_.
         andThen (attempt (os_Transfer :: ('z, unit) osm)) (\<lambda>peeked.
         case Detect (p_sniffing p) (case peeked of Inl _ \<Rightarrow> None | Inr _ \<Rightarrow> Some data) originalName mimeHint of
           Inl e \<Rightarrow> raise e
         | Inr (kind, mimeType) \<Rightarrow>
             by_kind p inputPath data kind mimeType (SanitizeName originalName)))))))))"

section \<open>Encoding ends\<close>

text \<open>The two loops as one search through a list of sizes and qualities.\<close>

fun first_fit :: "'p imaging \<Rightarrow> 'p \<Rightarrow> 64 word \<Rightarrow> (int \<times> int) list \<Rightarrow> attach_error + string" where
  "first_fit c source maxOutput [] = Inl OsFailed"
| "first_fit c source maxOutput ((d, q) # rest) =
     (case img_jpeg c (resize c source d) q of
        None \<Rightarrow> Inl OsFailed
      | Some encoded \<Rightarrow>
          if of_nat (length encoded) \<le> maxOutput then Inr encoded else first_fit c source maxOutput rest)"

definition image_attempts :: "(int \<times> int) list" where
  "image_attempts = List.product [2048, 1536, 1152, 864, 648, 486, 364] [75, 60, 45, 30]"

lemma first_fit_qualities:
  "(case try_qualities c (resize c source d) m 75 of Some r \<Rightarrow> r | None \<Rightarrow> first_fit c source m rest) =
   first_fit c source m (map (Pair d) [75, 60, 45, 30] @ rest)"
  by (simp add: try_qualities.simps [of c _ m 75] try_qualities.simps [of c _ m 60]
      try_qualities.simps [of c _ m 45] try_qualities.simps [of c _ m 30] try_qualities.simps [of c _ m 15] split: option.split)

lemma try_sizes_step:
  "320 \<le> d \<Longrightarrow> try_sizes c source m (d * 3 sdiv 4) = first_fit c source m rest \<Longrightarrow>
   try_sizes c source m d = first_fit c source m (map (Pair d) [75, 60, 45, 30] @ rest)"
  unfolding first_fit_qualities [symmetric]
  by (simp add: try_sizes.simps [where maxDimension = d] split: option.split)

text \<open>
  C11: Encoding a picture ends after at most 28 attempts, and its result is the first of
  them, in the order of falling sizes and qualities, that is small enough; a picture it
  returns is never over the limit.
\<close>

theorem encodeUnderLimit_attempts:
  "encodeUnderLimit c source maxOutput = first_fit c source maxOutput image_attempts
   \<and> length image_attempts = 28"
proof
  have quarter: "(2048 :: int) * 3 sdiv 4 = 1536" "(1536 :: int) * 3 sdiv 4 = 1152" "(1152 :: int) * 3 sdiv 4 = 864"
    "(864 :: int) * 3 sdiv 4 = 648" "(648 :: int) * 3 sdiv 4 = 486" "(486 :: int) * 3 sdiv 4 = 364"
    "(364 :: int) * 3 sdiv 4 = 273"
    by (simp_all add: signed_divide_int_def)
  let ?fit = "\<lambda>ds. first_fit c source maxOutput (List.product ds [75, 60, 45, 30])"
  have step: "try_sizes c source maxOutput d = ?fit (d # ds)"
    if "320 \<le> d" "try_sizes c source maxOutput (d * 3 sdiv 4) = ?fit ds" for d ds
    using try_sizes_step [OF that] by simp
  have s: "try_sizes c source maxOutput 273 = ?fit []" by (simp add: try_sizes.simps)
  have s: "try_sizes c source maxOutput 364 = ?fit [364]"
    by (rule step) (simp, simp only: quarter s)
  have s: "try_sizes c source maxOutput 486 = ?fit [486, 364]"
    by (rule step) (simp, simp only: quarter s)
  have s: "try_sizes c source maxOutput 648 = ?fit [648, 486, 364]"
    by (rule step) (simp, simp only: quarter s)
  have s: "try_sizes c source maxOutput 864 = ?fit [864, 648, 486, 364]"
    by (rule step) (simp, simp only: quarter s)
  have s: "try_sizes c source maxOutput 1152 = ?fit [1152, 864, 648, 486, 364]"
    by (rule step) (simp, simp only: quarter s)
  have s: "try_sizes c source maxOutput 1536 = ?fit [1536, 1152, 864, 648, 486, 364]"
    by (rule step) (simp, simp only: quarter s)
  have s: "try_sizes c source maxOutput 2048 = ?fit [2048, 1536, 1152, 864, 648, 486, 364]"
    by (rule step) (simp, simp only: quarter s)
  show "encodeUnderLimit c source maxOutput = first_fit c source maxOutput image_attempts"
    by (simp only: encodeUnderLimit_def image_attempts_def s)
  show "length image_attempts = 28" by (simp add: image_attempts_def)
qed

lemma first_fit_small: "first_fit c source m xs = Inr encoded \<Longrightarrow> of_nat (length encoded) \<le> m"
  by (induction c source m xs rule: first_fit.induct) (auto split: option.splits if_splits)

text \<open>A picture one pixel wide and more than 2048 high is scaled to no width at all.\<close>

lemma resize_vanishes: "resized 1 2049 2048 = Some (0, 2048)"
  by (simp add: resized_def signed_divide_int_def)

section \<open>Sizes\<close>

lemma deferred_InrE:
  assumes "deferred c m w = (Inr x, w1)"
  obtains w2 where "m w = (Inr x, w2)"
  using assms by (cases "m w") (auto simp: deferred_def)

lemma attempt_InrE:
  assumes "attempt m w = (Inr r, w1)"
  obtains "m w = (r, w1)"
  using assms by (cases "m w") (simp add: attempt_def)

lemma or_discard_InrE:
  assumes "or_discard m path w = (Inr x, w1)"
  obtains "m w = (Inr x, w1)"
  using assms by (cases "m w") (auto simp: or_discard_def run_simps split: sum.splits prod.splits)

lemma ProcessFile_size:
  assumes "ProcessFile t c path data maxOutput w = (Inr r, w1)"
  shows "ir_Size r \<le> sint maxOutput"
proof -
  from assms obtain w2 where "image_Process t c data maxOutput maxPixels w2 = (Inr r, w1)"
    unfolding ProcessFile_def by (elim andThen_InrE)
  then show ?thesis
    unfolding image_Process_def Let_def
    by (auto split: if_splits option.splits prod.splits sum.splits
        elim!: andThen_InrE or_discard_InrE raise_InrE ret_InrE)
qed

lemma FFmpeg_size: "FFmpeg_Process ffmpeg data output m w = (Inr n, w1) \<Longrightarrow> n \<le> m"
  unfolding FFmpeg_Process_def
  by (auto split: option.splits if_splits elim!: andThen_InrE raise_InrE ret_InrE)

text \<open>The size an upload of a kind may have.\<close>

definition size_limit :: "'p processor \<Rightarrow> string \<Rightarrow> int" where
  "size_limit p kind =
     (if kind = ''image'' \<or> kind = ''video'' then p_MaxOutputMedia p
      else if kind = ''archive'' then p_MaxArchive p
      else max (p_MaxInputMedia p) (p_MaxArchive p))"

lemma by_kind_size:
  assumes "by_kind p inputPath data kind mimeType name w = (Inr f, w1)"
    and "\<not> too_large p n" "n = int (length data)"
    and "0 \<le> p_MaxOutputMedia p" "p_MaxOutputMedia p < 2 ^ 63"
  shows "pf_Size f \<le> size_limit p (pf_Kind f)"
proof -
  have m: "sint (of_int (p_MaxOutputMedia p) :: 64 word) = p_MaxOutputMedia p"
    using assms(4,5) by (simp add: sint_uint uint_word_of_int signed_take_bit_int_eq_self)
  have input: "int (length data) \<le> max (p_MaxInputMedia p) (p_MaxArchive p)"
    using assms(2,3) by (auto simp: too_large_def)
  consider "kind = ''archive''" | "kind = ''image''" | "kind = ''audio''" | "kind = ''video''" | "kind = ''file''"
    using assms(1) by (auto simp: by_kind_def Let_def run_simps split: if_splits)
  then show ?thesis
  proof cases
    case 2
    with assms(1) show ?thesis
      unfolding by_kind_def Let_def
      by (auto simp: m size_limit_def dest!: ProcessFile_size elim!: andThen_InrE ret_InrE)
  next
    case 4
    with assms(1) show ?thesis
      unfolding by_kind_def Let_def
      by (auto simp: size_limit_def dest!: FFmpeg_size elim!: andThen_InrE or_discard_InrE ret_InrE)
  qed (use assms(1) input in \<open>auto simp: by_kind_def Let_def size_limit_def
      elim!: andThen_InrE ret_InrE raise_InrE split: if_splits sum.splits\<close>)
qed

text \<open>
  C9: Whatever is uploaded and whatever fails on the way, a file that is accepted is within
  the limit of its kind: pictures and videos within the limit for processed media, archives
  within theirs, and everything else, which is stored as it came, within the larger of the
  limits for input.
\<close>

theorem Process_bounds:
  assumes "Process p src originalName inputSize mimeHint w = (Inr f, w1)"
    and "0 \<le> p_MaxOutputMedia p" "p_MaxOutputMedia p < 2 ^ 63"
  shows "pf_Size f \<le> size_limit p (pf_Kind f)"
  using assms(1) unfolding Process_def Let_def
  by (auto split: if_splits sum.splits prod.splits simp del: length_take
      elim!: andThen_InrE deferred_InrE raise_InrE)
    (erule by_kind_size [OF _ _ refl assms(2,3)], assumption)+

text \<open>A machine that names temporary files by ever more letters.\<close>

definition tmp_names :: temporary where
  "tmp_names = \<lparr>TempDir = ''/tmp'',
     temp_name = \<lambda>dir pattern taken. replicate (Suc (sum_list (map length taken))) (CHR ''x'')\<rparr>"

definition no_pictures :: "unit imaging" where
  "no_pictures = \<lparr>img_config = \<lambda>s. None, img_decode = \<lambda>s. None, img_bounds = \<lambda>p. (0, 0),
     img_scale = \<lambda>w h p. p, img_jpeg = \<lambda>p q. None\<rparr>"

definition small_processor :: "unit processor" where
  "small_processor = \<lparr>p_MaxInputMedia = 10, p_MaxArchive = 5, p_MaxOutputMedia = 3, p_temp = tmp_names,
     p_sniffing = plain_sniffing, p_archives = two_entries, p_imaging = no_pictures, p_ffmpeg = \<lambda>s. None\<rparr>"

lemma small_run:
  "case Process small_processor ''hello'' ''a.txt'' 5 [] (disk_with []) of (r, w1) \<Rightarrow>
     r = Inr \<lparr>pf_Kind = ''file'', pf_Mime = ''text/plain; charset=utf-8'', pf_DisplayName = ''a.txt'', pf_Size = 5,
       pf_Path = ''/tmp/xxxxxxxxxxxxxxx''\<rparr> \<and> s_files w1 = [''/tmp/xxxxxxxxxxxxxxx'']"
  by code_simp

lemma Process_bounds_witness: "(5 :: int) \<le> size_limit small_processor ''file''"
proof -
  from small_run obtain w1 where "Process small_processor ''hello'' ''a.txt'' 5 [] (disk_with []) =
     (Inr \<lparr>pf_Kind = ''file'', pf_Mime = ''text/plain; charset=utf-8'', pf_DisplayName = ''a.txt'', pf_Size = 5,
       pf_Path = ''/tmp/xxxxxxxxxxxxxxx''\<rparr>, w1)" by (auto split: prod.splits)
  from Process_bounds [OF this] show ?thesis by (simp add: small_processor_def)
qed

section \<open>Temporary files\<close>

named_theorems tidy_intros \<open>which operations touch which files\<close>

text \<open>
  For a machine on which no call fails: \<open>untouched m\<close> holds if \<open>m\<close> leaves the files alone,
  \<open>makes f m\<close> if it leaves one new file behind when it succeeds and none when it fails,
  \<open>finishes path f m\<close> if it removes the file at \<open>path\<close> when it fails and keeps it otherwise.
\<close>

definition untouched :: "('z storage_world_scheme, 'e, 'a) action \<Rightarrow> bool" where
  "untouched m \<longleftrightarrow> (\<forall>w. s_os_faults w = [] \<longrightarrow>
     s_os_faults (snd (m w)) = [] \<and> s_files (snd (m w)) = s_files w)"

definition makes :: "('a \<Rightarrow> string) \<Rightarrow> ('z, 'a) osm \<Rightarrow> bool" where
  "makes f m \<longleftrightarrow> (\<forall>w. s_os_faults w = [] \<longrightarrow> s_os_faults (snd (m w)) = [] \<and>
     (case fst (m w) of
        Inl _ \<Rightarrow> set (s_files (snd (m w))) = set (s_files w)
      | Inr x \<Rightarrow> path_Clean (f x) \<notin> set (s_files w)
          \<and> set (s_files (snd (m w))) = insert (path_Clean (f x)) (set (s_files w))))"

definition finishes :: "string \<Rightarrow> ('a \<Rightarrow> string) \<Rightarrow> ('z, 'a) osm \<Rightarrow> bool" where
  "finishes path f m \<longleftrightarrow> (\<forall>w. s_os_faults w = [] \<longrightarrow> path_Clean path \<in> set (s_files w) \<longrightarrow>
     s_os_faults (snd (m w)) = [] \<and>
     (case fst (m w) of
        Inl _ \<Rightarrow> set (s_files (snd (m w))) = set (s_files w) - {path_Clean path}
      | Inr x \<Rightarrow> path_Clean (f x) = path_Clean path \<and> set (s_files (snd (m w))) = set (s_files w)))"

lemma untouchedD: "untouched m \<Longrightarrow> s_os_faults w = [] \<Longrightarrow> m w = (r, w1) \<Longrightarrow>
  s_os_faults w1 = [] \<and> s_files w1 = s_files w"
  by (force simp: untouched_def)

lemma makesD: "makes f m \<Longrightarrow> s_os_faults w = [] \<Longrightarrow> s_os_faults (snd (m w)) = [] \<and>
     (case fst (m w) of
        Inl _ \<Rightarrow> set (s_files (snd (m w))) = set (s_files w)
      | Inr x \<Rightarrow> path_Clean (f x) \<notin> set (s_files w)
          \<and> set (s_files (snd (m w))) = insert (path_Clean (f x)) (set (s_files w)))"
  by (simp add: makes_def)

lemma finishesD: "finishes path f m \<Longrightarrow> s_os_faults w = [] \<Longrightarrow> path_Clean path \<in> set (s_files w) \<Longrightarrow>
     s_os_faults (snd (m w)) = [] \<and>
     (case fst (m w) of
        Inl _ \<Rightarrow> set (s_files (snd (m w))) = set (s_files w) - {path_Clean path}
      | Inr x \<Rightarrow> path_Clean (f x) = path_Clean path \<and> set (s_files (snd (m w))) = set (s_files w))"
  by (simp add: finishes_def)

lemma untouched_leaves [tidy_intros]:
  "untouched (ret x)" "untouched (raise e)" "untouched os_Transfer" "untouched (os_Stat p)" "untouched (os_Open p)"
  by (simp_all add: untouched_def run_simps os_Transfer_def os_Stat_def os_Open_def os_call_def Let_def)

lemma untouched_andThen [tidy_intros]:
  "untouched m \<Longrightarrow> (\<And>x. untouched (g x)) \<Longrightarrow> untouched (andThen m g)"
  by (force simp: untouched_def run_simps split: prod.split sum.split)

lemma untouched_attempt [tidy_intros]: "untouched m \<Longrightarrow> untouched (attempt m)"
  by (simp add: untouched_def run_simps)

lemma untouched_if [tidy_intros]: "untouched a \<Longrightarrow> untouched b \<Longrightarrow> untouched (if P then a else b)"
  by simp

lemma untouched_map_error [tidy_intros]: "untouched m \<Longrightarrow> untouched (map_error h m)"
  by (simp add: untouched_def run_simps split_beta split: sum.split)

lemma untouched_copyFile [tidy_intros]: "untouched (copyFile p)"
  unfolding copyFile_def by (intro tidy_intros)

lemma untouched_FFmpeg [tidy_intros]: "untouched (FFmpeg_Process ffmpeg data output m)"
  unfolding FFmpeg_Process_def by (cases "ffmpeg data") (auto intro!: tidy_intros)

lemma makes_andThen:
  fixes m :: "('z, 'a) osm"
  assumes "untouched m" "\<And>x. makes f (g x)"
  shows "makes f (andThen m g)"
  unfolding makes_def
proof (intro allI impI)
  fix w :: "'z storage_world_scheme"
  assume w: "s_os_faults w = []"
  obtain r w1 where m: "m w = (r, w1)" by (cases "m w")
  have w1: "s_os_faults w1 = []" "s_files w1 = s_files w"
    using untouchedD [OF assms(1) w m] by simp_all
  show "s_os_faults (snd (andThen m g w)) = [] \<and>
     (case fst (andThen m g w) of
        Inl _ \<Rightarrow> set (s_files (snd (andThen m g w))) = set (s_files w)
      | Inr x \<Rightarrow> path_Clean (f x) \<notin> set (s_files w)
          \<and> set (s_files (snd (andThen m g w))) = insert (path_Clean (f x)) (set (s_files w)))"
  proof (cases r)
    case (Inl e)
    then show ?thesis using m w1 by (simp add: andThen_run)
  next
    case (Inr x)
    then have run: "andThen m g w = g x w1" using m by (simp add: andThen_run)
    show ?thesis unfolding run using makesD [OF assms(2) [of x] w1(1)] unfolding w1(2) .
  qed
qed

lemma makes_raise: "makes f (raise e)"
  by (simp add: makes_def run_simps)

lemma makes_finishes:
  fixes m :: "('z, string) osm"
  assumes "makes (\<lambda>p. p) m" "\<And>p. finishes p f (g p)"
  shows "makes f (andThen m g)"
  unfolding makes_def
proof (intro allI impI)
  fix w :: "'z storage_world_scheme"
  assume w: "s_os_faults w = []"
  obtain r w1 where m: "m w = (r, w1)" by (cases "m w")
  show "s_os_faults (snd (andThen m g w)) = [] \<and>
     (case fst (andThen m g w) of
        Inl _ \<Rightarrow> set (s_files (snd (andThen m g w))) = set (s_files w)
      | Inr x \<Rightarrow> path_Clean (f x) \<notin> set (s_files w)
          \<and> set (s_files (snd (andThen m g w))) = insert (path_Clean (f x)) (set (s_files w)))"
  proof (cases r)
    case (Inl e)
    then have "andThen m g w = (Inl e, w1)" using m by (simp add: andThen_run)
    then show ?thesis using makesD [OF assms(1) w] m Inl by simp
  next
    case (Inr p)
    then have run: "andThen m g w = g p w1" using m by (simp add: andThen_run)
    have w1: "s_os_faults w1 = []" "path_Clean p \<notin> set (s_files w)"
      "set (s_files w1) = insert (path_Clean p) (set (s_files w))"
      using makesD [OF assms(1) w] m Inr by simp_all
    then have "s_os_faults (snd (g p w1)) = []"
      "case fst (g p w1) of
        Inl _ \<Rightarrow> set (s_files (snd (g p w1))) = set (s_files w1) - {path_Clean p}
      | Inr x \<Rightarrow> path_Clean (f x) = path_Clean p \<and> set (s_files (snd (g p w1))) = set (s_files w1)"
      using finishesD [OF assms(2) [of p], of w1] by simp_all
    then show ?thesis
      unfolding run using w1 by (cases "fst (g p w1)") simp_all
  qed
qed

lemma finishes_ret: "path_Clean (f x) = path_Clean p \<Longrightarrow> finishes p f (ret x)"
  by (simp add: finishes_def run_simps)

lemma or_discard_run:
  "or_discard m p w = (case m w of
     (Inl e, w1) \<Rightarrow> (Inl e, snd (os_Remove p w1)) | (Inr x, w1) \<Rightarrow> (Inr x, w1))"
  by (simp add: or_discard_def run_simps split: prod.split sum.split)

lemma os_Remove_run:
  "s_os_faults w = [] \<Longrightarrow> path_Clean p \<in> set (s_files w) \<Longrightarrow>
   os_Remove p w = (Inr (), w\<lparr>s_os_faults := [], s_files := removeAll (path_Clean p) (s_files w)\<rparr>)"
  by (simp add: os_Remove_def os_call_def Let_def)

lemma finishes_discard:
  fixes m :: "('z, 'a) osm"
  assumes "untouched m" "\<And>x. finishes p f (g x)"
  shows "finishes p f (andThen (or_discard m p) g)"
  unfolding finishes_def
proof (intro allI impI)
  fix w :: "'z storage_world_scheme"
  assume w: "s_os_faults w = []" "path_Clean p \<in> set (s_files w)"
  obtain r w1 where m: "m w = (r, w1)" by (cases "m w")
  have w1: "s_os_faults w1 = []" "s_files w1 = s_files w"
    using untouchedD [OF assms(1) w(1) m] by simp_all
  show "s_os_faults (snd (andThen (or_discard m p) g w)) = [] \<and>
     (case fst (andThen (or_discard m p) g w) of
        Inl _ \<Rightarrow> set (s_files (snd (andThen (or_discard m p) g w))) = set (s_files w) - {path_Clean p}
      | Inr x \<Rightarrow> path_Clean (f x) = path_Clean p
          \<and> set (s_files (snd (andThen (or_discard m p) g w))) = set (s_files w))"
  proof (cases r)
    case (Inl e)
    then show ?thesis
      using m w w1 os_Remove_run [of w1 p] by (simp add: andThen_run or_discard_run)
  next
    case (Inr x)
    then have run: "andThen (or_discard m p) g w = g x w1"
      using m by (simp add: andThen_run or_discard_run)
    show ?thesis
      unfolding run using finishesD [OF assms(2) [of x] w1(1)] w(2) unfolding w1(2) by simp
  qed
qed

text \<open>The names the operating system gives to temporary files are new.\<close>

definition new_names :: "temporary \<Rightarrow> bool" where
  "new_names t \<longleftrightarrow> (\<forall>dir pattern taken.
     \<not> List.member taken (path_Clean (dir @ ''/'' @ temp_name t dir pattern taken)))"

lemma makes_CreateTemp:
  assumes "new_names t"
  shows "makes (\<lambda>p. p) (os_CreateTemp t dir pattern)"
  unfolding makes_def
proof (intro allI impI)
  fix w :: "'z storage_world_scheme"
  assume w: "s_os_faults w = []"
  let ?dir = "if dir = [] then TempDir t else dir"
  let ?path = "?dir @ ''/'' @ temp_name t ?dir pattern (s_files w @ s_dirs w)"
  have "path_Clean ?path \<notin> set (s_files w)"
    using assms unfolding new_names_def List.member_iff by (metis UnCI set_append)
  moreover have "set (put_file p fs) = insert p (set fs)" for p fs
    by (auto simp: put_file_def)
  ultimately show "s_os_faults (snd (os_CreateTemp t dir pattern w)) = [] \<and>
     (case fst (os_CreateTemp t dir pattern w) of
        Inl _ \<Rightarrow> set (s_files (snd (os_CreateTemp t dir pattern w))) = set (s_files w)
      | Inr x \<Rightarrow> path_Clean x \<notin> set (s_files w)
          \<and> set (s_files (snd (os_CreateTemp t dir pattern w))) = insert (path_Clean x) (set (s_files w)))"
    using w by (simp add: os_CreateTemp_def os_call_def Let_def del: append.simps)
qed

lemma makes_keep_copy:
  "new_names t \<Longrightarrow> makes (\<lambda>p. p) (keep_copy t pattern inputPath)"
  unfolding keep_copy_def
  by (intro makes_finishes makes_CreateTemp finishes_discard finishes_ret tidy_intros) simp_all

lemma makes_ret_after:
  fixes m :: "('z, 'a) osm"
  assumes "makes g m" "\<And>x. f (h x) = g x"
  shows "makes f (andThen m (\<lambda>x. ret (h x)))"
  unfolding makes_def
proof (intro allI impI)
  fix w :: "'z storage_world_scheme"
  assume w: "s_os_faults w = []"
  obtain r w1 where m: "m w = (r, w1)" by (cases "m w")
  show "s_os_faults (snd (andThen m (\<lambda>x. ret (h x)) w)) = [] \<and>
     (case fst (andThen m (\<lambda>x. ret (h x)) w) of
        Inl _ \<Rightarrow> set (s_files (snd (andThen m (\<lambda>x. ret (h x)) w))) = set (s_files w)
      | Inr x \<Rightarrow> path_Clean (f x) \<notin> set (s_files w)
          \<and> set (s_files (snd (andThen m (\<lambda>x. ret (h x)) w))) = insert (path_Clean (f x)) (set (s_files w)))"
    using makesD [OF assms(1) w] m by (cases r) (simp_all add: andThen_run ret_run assms(2))
qed

lemma makes_if: "makes f a \<Longrightarrow> makes f b \<Longrightarrow> makes f (if P then a else b)"
  by simp

lemma makes_ProcessFile:
  assumes "new_names t"
  shows "makes ir_Path (ProcessFile t c path data m)"
proof -
  have store: "makes ir_Path (andThen (os_CreateTemp t [] ''threaden-image-*'') (\<lambda>path.
      andThen (or_discard os_Transfer path) (\<lambda>_.
      andThen (or_discard os_Transfer path) (\<lambda>_.
      andThen (or_discard (andThen (os_Stat path) (\<lambda>_. if big then raise OsFailed else ret ())) path) (\<lambda>_.
      ret \<lparr>ir_Path = path, ir_Mime = mime, ir_Size = n\<rparr>)))))" for big mime n
    by (intro makes_finishes makes_CreateTemp finishes_discard finishes_ret tidy_intros assms) simp_all
  have "makes ir_Path (image_Process t c data m k)" for k
    unfolding image_Process_def Let_def
    by (rule makes_andThen, intro tidy_intros) (simp add: makes_raise store split: option.split sum.split prod.split)
  then show ?thesis
    unfolding ProcessFile_def by (rule makes_andThen [rotated]) (intro tidy_intros)
qed

lemma makes_NewTempOutput:
  assumes "new_names t"
  shows "makes (\<lambda>p. p) (NewTempOutput t dir)"
  unfolding NewTempOutput_def
  by (intro makes_finishes makes_CreateTemp finishes_discard finishes_ret tidy_intros assms) simp_all

lemma untouched_verdict [tidy_intros]: "untouched (verdict_of v)"
  by (cases v) (simp_all add: verdict_of_def tidy_intros)

lemma untouched_Validate [tidy_intros]: "untouched (Validate r path data m n)"
  unfolding Validate_def Let_def by (intro tidy_intros)

lemma makes_by_kind:
  assumes "new_names (p_temp p)"
  shows "makes pf_Path (by_kind p inputPath data kind mimeType name)"
proof -
  have copy: "makes pf_Path (andThen (keep_copy (p_temp p) pattern inputPath) (\<lambda>path.
      ret \<lparr>pf_Kind = k, pf_Mime = m, pf_DisplayName = name, pf_Size = n, pf_Path = path\<rparr>))" for pattern k m n
    by (rule makes_ret_after [OF makes_keep_copy [OF assms]]) simp
  have picture: "makes pf_Path (andThen (ProcessFile (p_temp p) c inputPath data b) (\<lambda>r.
      ret \<lparr>pf_Kind = k, pf_Mime = ir_Mime r, pf_DisplayName = name, pf_Size = ir_Size r, pf_Path = ir_Path r\<rparr>))" for c b k
    by (rule makes_ret_after [OF makes_ProcessFile [OF assms]]) simp
  have video: "makes pf_Path (andThen (NewTempOutput (p_temp p) (dir_of inputPath)) (\<lambda>output.
      andThen (or_discard (FFmpeg_Process (p_ffmpeg p) data output b) output) (\<lambda>n.
      ret \<lparr>pf_Kind = k, pf_Mime = m, pf_DisplayName = name, pf_Size = n, pf_Path = output\<rparr>)))" for b k m
    by (intro makes_finishes makes_NewTempOutput finishes_discard finishes_ret tidy_intros assms) simp
  show ?thesis
    unfolding by_kind_def Let_def
    by (intro makes_if copy picture video makes_raise)
      (rule makes_andThen, intro tidy_intros, simp add: makes_raise copy split: sum.split)
qed

lemma makes_case_sum: "(\<And>e. makes f (a e)) \<Longrightarrow> (\<And>x. makes f (b x)) \<Longrightarrow> makes f (case r of Inl e \<Rightarrow> a e | Inr x \<Rightarrow> b x)"
  by (cases r) simp_all

text \<open>
  C10: Processing leaves nothing behind. On a machine where no call of the operating system
  fails, an upload that is refused, at whatever point, leaves the files as they were, and one
  that is accepted leaves exactly one new file, the one it reports: no temporary input, no
  half-written output.
\<close>

theorem Process_leaves_nothing:
  fixes w :: "'z storage_world_scheme"
  assumes run: "Process p src originalName inputSize mimeHint w = (r, w1)"
    and names: "new_names (p_temp p)" and calm: "s_os_faults w = []"
  shows "case r of
      Inl _ \<Rightarrow> set (s_files w1) = set (s_files w)
    | Inr f \<Rightarrow> path_Clean (pf_Path f) \<notin> set (s_files w)
        \<and> set (s_files w1) = insert (path_Clean (pf_Path f)) (set (s_files w))"
proof (cases "too_large p inputSize")
  case True
  then show ?thesis using run by (auto simp: Process_def raise_run)
next
  case False
  define body :: "string \<Rightarrow> ('z, processed_file) osm" where "body = (\<lambda>inputPath.
     let data = take (nat (maxInput p + 1)) src in
         andThen os_Transfer (\<lambda>_.
         andThen os_Transfer (\<lambda>_.
         andThen (os_Stat inputPath) (\<lambda>_.
         if too_large p (int (length data)) then raise ErrTooLarge
         else
         andThen (os_Open inputPath) (\<lambda>_.
         andThen (attempt (os_Transfer :: ('z, unit) osm)) (\<lambda>peeked.
         case Detect (p_sniffing p) (case peeked of Inl _ \<Rightarrow> None | Inr _ \<Rightarrow> Some data) originalName mimeHint of
           Inl e \<Rightarrow> raise e
         | Inr (kind, mimeType) \<Rightarrow>
             by_kind p inputPath data kind mimeType (SanitizeName originalName)))))))"
  have body: "makes pf_Path (body inputPath)" for inputPath
    unfolding body_def Let_def
    by (intro makes_andThen makes_if tidy_intros makes_raise makes_case_sum)
      (simp add: split_beta makes_by_kind [OF names])
  let ?create = "os_CreateTemp (p_temp p) [] ''threaden-upload-*''"
  obtain c w2 where create: "?create w = (c, w2)" by (cases "?create w")
  have made: "s_os_faults w2 = [] \<and> (case c of Inl _ \<Rightarrow> set (s_files w2) = set (s_files w)
      | Inr x \<Rightarrow> path_Clean x \<notin> set (s_files w) \<and> set (s_files w2) = insert (path_Clean x) (set (s_files w)))"
    using makesD [OF makes_CreateTemp [OF names] calm, of "[]" "''threaden-upload-*''"] unfolding create fst_conv snd_conv .
  have whole: "andThen ?create (\<lambda>inputPath. deferred (ignoring (os_Remove inputPath)) (body inputPath)) w = (r, w1)"
    using run False unfolding Process_def body_def Let_def by simp
  show ?thesis
  proof (cases c)
    case (Inl e)
    then show ?thesis using whole create made by (auto simp: andThen_run)
  next
    case (Inr inputPath)
    obtain b w3 where b: "body inputPath w2 = (b, w3)" by (cases "body inputPath w2")
    have r: "r = b" "w1 = snd (os_Remove inputPath w3)"
      using whole create Inr b by (simp_all add: andThen_run deferred_def ignoring_run)
    have ran: "s_os_faults w3 = [] \<and> (case b of Inl _ \<Rightarrow> set (s_files w3) = set (s_files w2)
        | Inr f \<Rightarrow> path_Clean (pf_Path f) \<notin> set (s_files w2)
          \<and> set (s_files w3) = insert (path_Clean (pf_Path f)) (set (s_files w2)))"
      using makesD [OF body [of inputPath], of w2] made unfolding b fst_conv snd_conv by blast
    have there: "path_Clean inputPath \<in> set (s_files w3)"
      using ran made Inr by (cases b) auto
    show ?thesis
      using ran made Inr os_Remove_run [OF _ there] unfolding r by (cases b) auto
  qed
qed

lemma clean_ends_with:
  assumes "real_name n"
  shows "length n \<le> length (path_Clean (dir @ slash # n))"
proof -
  have ends: "\<exists>segs. clean_segments r (dir @ slash # n) = segs @ [n]" for r
    using assms by (auto simp: clean_segments_def split_on_append_sep split_on_id real_name_def clean_step_def)
  have long: "length n \<le> length (join_with slash (segs @ [n]))" for segs
    by (cases "segs = []") (simp_all add: join_with_append)
  from ends [of True] ends [of False] show ?thesis
    unfolding path_Clean_def using long by (auto simp: le_SucI)
qed

lemma tmp_names_new: "new_names tmp_names"
  unfolding new_names_def
proof (intro allI)
  fix dir pattern :: string and taken
  let ?n = "temp_name tmp_names dir pattern taken"
  have "real_name ?n" by (simp add: tmp_names_def real_name_def)
  then have "length ?n \<le> length (path_Clean (dir @ slash # ?n))" by (rule clean_ends_with)
  moreover have "length s < length ?n" if "s \<in> set taken" for s
    using member_le_sum_list [of "length s" "map length taken"] that by (simp add: tmp_names_def)
  ultimately show "\<not> List.member taken (path_Clean (dir @ ''/'' @ ?n))"
    by (metis List.member_iff append_Cons append_Nil leD)
qed

lemma Process_leaves_nothing_witness:
  "s_files (snd (Process small_processor ''hello'' ''a.txt'' 5 [] (disk_with []))) = [''/tmp/xxxxxxxxxxxxxxx'']
   \<and> path_Clean ''/tmp/xxxxxxxxxxxxxxx'' \<notin> set (s_files (disk_with []))"
proof -
  from small_run obtain w1 where run: "Process small_processor ''hello'' ''a.txt'' 5 [] (disk_with []) =
     (Inr \<lparr>pf_Kind = ''file'', pf_Mime = ''text/plain; charset=utf-8'', pf_DisplayName = ''a.txt'', pf_Size = 5,
       pf_Path = ''/tmp/xxxxxxxxxxxxxxx''\<rparr>, w1)" and files: "s_files w1 = [''/tmp/xxxxxxxxxxxxxxx'']"
    by (auto split: prod.splits)
  from Process_leaves_nothing [OF run] files show ?thesis
    unfolding run by (simp add: small_processor_def tmp_names_new disk_with_def)
qed

end
