(* ===== verification/Handlers.thy ===== *)
theory Handlers
  imports Requests Processor
begin

text \<open>
  The handlers of the package \<^verbatim>\<open>httpapi\<close>: accounts (\<^verbatim>\<open>users.go\<close>), temporary rooms
  (\<^verbatim>\<open>rooms.go\<close>), groups (\<^verbatim>\<open>groups.go\<close>), the account page (\<^verbatim>\<open>account/handler.go\<close>), the
  download of attachments (\<^verbatim>\<open>attachment/handler.go\<close>) and the messages of a group
  (\<^verbatim>\<open>groupchat/handler.go\<close>, \<^verbatim>\<open>groupchat/multipart.go\<close>). Each reads its request, calls its service
  and writes the response.
\<close>

section \<open>What the handlers are given\<close>

text \<open>The storage of attachments with its processor; the disk is the checker's \<^verbatim>\<open>FreeBytes\<close>.\<close>

record ('q, 'w) attachments =
  st_base :: string
  st_limits :: attachment_limits
  st_disk :: "('w, attach_error, 64 word) action option"
  st_processor :: "'q processor"

record ('p, 'q, 'w) api =
  api_front :: "'p front"
  api_crypto :: crypto
  api_service :: service
  api_groups :: group_service
  api_security :: abuse_config
  api_origins :: "string list"
  api_cookie_secure :: bool
  api_attachments :: "('q, 'w) attachments option"
  api_quotas :: "attachment_limits option"

section \<open>Accounts\<close>

definition setSessionCookie :: "('p, 'q, 'w) api \<Rightarrow> string \<Rightarrow> response \<Rightarrow> ('z, response) http" where
  "setSessionCookie h token resp =
     (let ttl = sessionTTL (api_service h) in
      andThen clock (\<lambda>now.
      ret (resp\<lparr>cookies := [\<lparr>c_Value = token, c_Secure = api_cookie_secure h, c_MaxAge = in_seconds ttl,
        c_Expires = now + ttl\<rparr>]\<rparr>)))"

definition clearSessionCookie :: "('p, 'q, 'w) api \<Rightarrow> response \<Rightarrow> response" where
  "clearSessionCookie h resp =
     resp\<lparr>cookies := [\<lparr>c_Value = [], c_Secure = api_cookie_secure h, c_MaxAge = -1, c_Expires = second\<rparr>]\<rparr>"

definition writeAuth :: "('p, 'q, 'w) api \<Rightarrow> int \<Rightarrow> created_user \<Rightarrow> ('z, response) http" where
  "writeAuth h code created =
     setSessionCookie h (SessionToken created) (no_store (writeJSON code (UserBody (OwnUser (account created)))))"

definition users_register :: "('p, 'q, 'w) api \<Rightarrow> 'z handler" where
  "users_register h r =
     with_read (readAuth (api_front h) r) (\<lambda>(email, password).
     with_app (Register (api_crypto h) (api_service h) email password) (\<lambda>created.
     writeAuth h 201 created))"

definition users_login :: "('p, 'q, 'w) api \<Rightarrow> 'z handler" where
  "users_login h r =
     with_read (readAuth (api_front h) r) (\<lambda>(email, password).
     with_app (Login (api_crypto h) (api_service h) email password) (\<lambda>created.
     writeAuth h 200 created))"

definition users_logout :: "('p, 'q, 'w) api \<Rightarrow> 'z handler" where
  "users_logout h r =
     with_app (Logout (api_crypto h) (sessionToken r)) (\<lambda>_. ret (clearSessionCookie h no_content))"

definition users_me :: "'z handler" where
  "users_me r =
     andThen (currentUser r) (\<lambda>u. ret (no_store (writeJSON 200 (UserBody (OwnUser u)))))"

definition users_welcome :: "'z handler" where
  "users_welcome r =
     andThen (currentUser r) (\<lambda>u.
     with_app (Welcome_page (user_ID u)) (\<lambda>stats. ret (writeJSON 200 (WelcomeBody stats))))"

text \<open>\<^verbatim>\<open>PublishProfileUpdated\<close> returns no error.\<close>

definition profile_updated :: "user \<Rightarrow> ('z, response) http" where
  "profile_updated updated =
     andThen (attempt (PublishProfileUpdated updated)) (\<lambda>published.
     if published = Inl GroupPanic then panic
     else ret (no_store (writeJSON 200 (UserBody (OwnUser updated)))))"

definition users_updateProfile :: "('p, 'q, 'w) api \<Rightarrow> 'z handler" where
  "users_updateProfile h r =
     andThen (currentUser r) (\<lambda>u.
     with_read (readProfile (api_front h) r (Avatar u)) (\<lambda>(name, avatar).
     if name = DisplayName u \<and> avatar = Avatar u then ret (writeError 409 ''profile_unchanged'')
     else with_app (UpdateProfile u name avatar) profile_updated))"

definition users_deleteAvatar :: "'z handler" where
  "users_deleteAvatar r =
     andThen (currentUser r) (\<lambda>u.
     if Avatar u = [] then ret (writeError 409 ''profile_unchanged'')
     else with_app (DeleteAvatar u) profile_updated)"

definition users_deleteUser :: "('p, 'q, 'w) api \<Rightarrow> 'z handler" where
  "users_deleteUser h r =
     andThen (currentUser r) (\<lambda>u.
     with_app (DeleteUser u) (\<lambda>_. ret (clearSessionCookie h no_content)))"

definition users_changePassword :: "('p, 'q, 'w) api \<Rightarrow> 'z handler" where
  "users_changePassword h r =
     with_read (decodeGroupJSON (api_front h) [(''password'', TextField)] r) (\<lambda>v.
     let password = text_of (v ''password'') in
     if \<not> validPassword password then ret (writeError 400 ''validation_error'')
     else
     andThen (currentUser r) (\<lambda>u.
     with_app (ChangePassword (api_crypto h) u (sessionToken r) password) (\<lambda>_. ret no_content)))"

definition users_sessions :: "('p, 'q, 'w) api \<Rightarrow> 'z handler" where
  "users_sessions h r =
     andThen (currentUser r) (\<lambda>u.
     with_app (App_SecuritySessions (api_crypto h) (api_service h) u (sessionToken r)) (\<lambda>items.
     ret (writeJSON 200 (SessionsBody items))))"

definition users_revokeSession :: "('p, 'q, 'w) api \<Rightarrow> 'z handler" where
  "users_revokeSession h r =
     andThen (currentUser r) (\<lambda>u.
     with_app (App_RevokeSecuritySession (api_crypto h) u (sessionToken r) (url_param r ''id'')) (\<lambda>_. ret no_content))"

section \<open>Rooms\<close>

definition rooms_create :: "('p, 'q, 'w) api \<Rightarrow> 'z handler" where
  "rooms_create h r =
     andThen (currentUser r) (\<lambda>u.
     with_app (CreateRoom (api_service h) u) (\<lambda>room. ret (writeJSON 201 (RoomBody (RoomView room)))))"

definition rooms_get :: "('p, 'q, 'w) api \<Rightarrow> 'z handler" where
  "rooms_get h r =
     with_read (url_room_code r) (\<lambda>code.
     andThen (currentUser r) (\<lambda>u.
     with_app (App_GetRoom (api_service h) code (user_ID u)) (\<lambda>room.
     ret (no_store (writeJSON 200 (RoomBody (RoomView room)))))))"

definition rooms_join :: "('p, 'q, 'w) api \<Rightarrow> 'z handler" where
  "rooms_join h r =
     with_read (url_room_code r) (\<lambda>code.
     andThen (currentUser r) (\<lambda>u.
     with_app (App_JoinRoom (api_crypto h) (api_service h) code u) (\<lambda>result.
     ret (no_store (writeJSON 200 (JoinBody result))))))"

definition rooms_leave :: "'z handler" where
  "rooms_leave r =
     with_read (url_room_code r) (\<lambda>code.
     andThen (currentUser r) (\<lambda>u.
     with_app (App_LeaveRoom code u) (\<lambda>_. ret no_content)))"

definition rooms_delete :: "'z handler" where
  "rooms_delete r =
     with_read (url_room_code r) (\<lambda>code.
     andThen (currentUser r) (\<lambda>u.
     with_app (App_DeleteRoom code u) (\<lambda>_. ret no_content)))"

section \<open>Groups\<close>

definition groups_create :: "('p, 'q, 'w) api \<Rightarrow> 'z handler" where
  "groups_create h r =
     with_read (decodeGroupJSON (api_front h)
       [(''name'', TextField), (''avatar'', TextField), (''visibility'', TextField)] r) (\<lambda>v.
     andThen (currentUser r) (\<lambda>u.
     with_group (Groups_Create (api_groups h) u (text_of (v ''name'')) (text_of (v ''avatar''))
       (text_of (v ''visibility''))) (\<lambda>g.
     ret (writeJSON 201 (GroupBody (GroupWithInvite g))))))"

definition profile_body :: "group_profile \<Rightarrow> payload" where
  "profile_body p = ProfileBody (ProfileView (profile_Group p) (profile_Members p) (profile_SpamWarnings p))"

definition groups_profile :: "'z handler" where
  "groups_profile r =
     andThen (currentUser r) (\<lambda>u.
     with_group (Groups_Profile (url_param r ''id'') u) (\<lambda>p. ret (no_store (writeJSON 200 (profile_body p)))))"

definition groups_delete :: "'z handler" where
  "groups_delete r =
     andThen (currentUser r) (\<lambda>u.
     with_group (Groups_Delete (url_param r ''id'') u) (\<lambda>_. ret no_content))"

definition groups_leave :: "'z handler" where
  "groups_leave r =
     andThen (currentUser r) (\<lambda>u.
     with_group (Groups_Leave (url_param r ''id'') u) (\<lambda>_. ret no_content))"

definition groups_removeMember :: "'z handler" where
  "groups_removeMember r =
     andThen (currentUser r) (\<lambda>u.
     with_group (Groups_RemoveMember (url_param r ''id'') (url_param r ''memberID'') u) (\<lambda>p.
     ret (writeJSON 200 (profile_body p))))"

definition groups_list :: "'z handler" where
  "groups_list r =
     andThen (currentUser r) (\<lambda>u.
     with_group (Groups_List u) (\<lambda>gs. ret (writeJSON 200 (GroupsBody (Groups_views gs)))))"

definition groups_discover :: "('p, 'q, 'w) api \<Rightarrow> 'z handler" where
  "groups_discover h r =
     with_read (discoverPage r) (\<lambda>(limit, offset).
     with_group (Groups_Discover (api_groups h) (query r ''q'') limit offset) (\<lambda>gs.
     ret (writeJSON 200 (GroupsBody (Groups_views gs)))))"

definition groups_get :: "'z handler" where
  "groups_get r =
     with_group (Groups_Get (url_param r ''id'') (optionalUser r)) (\<lambda>g.
     ret (writeJSON 200 (GroupBody (GroupView g))))"

definition groups_join :: "('p, 'q, 'w) api \<Rightarrow> 'z handler" where
  "groups_join h r =
     andThen (currentUser r) (\<lambda>u.
     with_group (Groups_Join (url_param r ''id'') u False (request_clientIP r (TrustedProxies (api_security h)))) (\<lambda>g.
     ret (writeJSON 200 (GroupBody (GroupView g)))))"

definition groups_invite :: "'z handler" where
  "groups_invite r =
     with_group (Groups_Invite (url_param r ''token'')) (\<lambda>g. ret (writeJSON 200 (GroupBody (GroupView g))))"

definition groups_joinInvite :: "('p, 'q, 'w) api \<Rightarrow> 'z handler" where
  "groups_joinInvite h r =
     with_group (Groups_Invite (url_param r ''token'')) (\<lambda>preview.
     andThen (currentUser r) (\<lambda>u.
     with_group (Groups_Join (group_ID preview) u True (request_clientIP r (TrustedProxies (api_security h)))) (\<lambda>g.
     ret (writeJSON 200 (GroupBody (GroupView g))))))"

definition groups_createVoice :: "('p, 'q, 'w) api \<Rightarrow> 'z handler" where
  "groups_createVoice h r =
     with_read (decodeGroupJSON (api_front h) [(''name'', TextField)] r) (\<lambda>v.
     andThen (currentUser r) (\<lambda>u.
     with_group (CreateVoice (url_param r ''id'') u (text_of (v ''name''))) (\<lambda>room.
     ret (writeJSON 201 (VoiceBody \<lparr>vv_ID = voice_ID room, vv_GroupID = voice_GroupID room,
       vv_Name = voice_Name room, vv_CreatedAt = voice_CreatedAt room,
       vv_ParticipantCount = voice_ParticipantCount room\<rparr>)))))"

definition groups_joinVoice :: "('p, 'q, 'w) api \<Rightarrow> 'z handler" where
  "groups_joinVoice h r =
     andThen (currentUser r) (\<lambda>u.
     with_group (Groups_JoinVoice (api_groups h) (url_param r ''id'') u) (\<lambda>join.
     ret (writeJSON 200 (JoinVoiceBody join))))"

definition groups_leaveVoice :: "'z handler" where
  "groups_leaveVoice r =
     andThen (currentUser r) (\<lambda>u.
     with_group (Groups_LeaveVoice (url_param r ''id'') u) (\<lambda>_. ret no_content))"

definition groups_deleteVoice :: "'z handler" where
  "groups_deleteVoice r =
     andThen (currentUser r) (\<lambda>u.
     with_group (DeleteVoice (url_param r ''id'') u) (\<lambda>_. ret no_content))"

text \<open>
  The stream of events: what happens when it is opened and what when the client is gone. The
  body in between is what the channel of the hub receives and a comment every 20 seconds.
\<close>

definition groups_events :: "'z handler" where
  "groups_events r =
     andThen (currentUser r) (\<lambda>u.
     with_group (Groups_Subscribe (user_ID u)) (\<lambda>events.
     ret \<lparr>status = 200,
       headers = [(''Content-Type'', ''text/event-stream''), (''Cache-Control'', ''no-store''),
         (''Connection'', ''keep-alive''), (''X-Accel-Buffering'', ''no'')],
       cookies = [], payload = EventStream events\<rparr>))"

definition events_stop :: "user \<Rightarrow> nat \<Rightarrow> ('z, unit) groupm" where
  "events_stop u events = Groups_Unsubscribe (user_ID u) events"

section \<open>The account page\<close>

definition quotaResponse :: "quota_snapshot \<Rightarrow> quota_response" where
  "quotaResponse quota =
     \<lparr>q_StoredBytes = StoredBytes quota, q_DailyBytes = DailyBytes quota,
      q_Limits =
        \<lparr>q_MaxInputMediaBytes = MaxInputMedia quota, q_MaxArchiveBytes = MaxArchive quota,
         q_MaxOutputMediaBytes = MaxOutputMedia quota, q_MaxFilesPerMessage = MaxFiles quota,
         q_MaxUserStoredBytes = MaxUserStored quota, q_MaxUserDailyBytes = MaxUserDaily quota,
         q_MaxTotalBytes = MaxTotal quota, q_MinFreeBytes = MinFree quota,
         q_RetentionSeconds = in_seconds (quota_Retention quota)\<rparr>,
      q_PendingDelete = PendingDelete quota\<rparr>"

definition account_Quotas :: "attachment_limits \<Rightarrow> 'z handler" where
  "account_Quotas limits r =
     andThen (currentUser r) (\<lambda>u.
     andThen (attempt (Quotas limits (user_ID u))) (\<lambda>quota.
     case quota of
       Inl _ \<Rightarrow> ret (writeError 500 ''quota_unavailable'')
     | Inr quota \<Rightarrow> ret (writeJSON 200 (QuotaBody (quotaResponse quota)))))"

definition account_ScheduleDelete :: "'z handler" where
  "account_ScheduleDelete r =
     andThen (currentUser r) (\<lambda>u.
     andThen clock (\<lambda>now.
     andThen (attempt (ScheduleDeleteAll (user_ID u) now)) (\<lambda>request.
     case request of
       Inl _ \<Rightarrow> ret (writeError 500 ''attachment_delete_unavailable'')
     | Inr request \<Rightarrow> ret (writeJSON 202 (DeleteBody request)))))"

definition account_CancelDelete :: "'z handler" where
  "account_CancelDelete r =
     andThen (currentUser r) (\<lambda>u.
     andThen (attempt (CancelDeleteAll (user_ID u))) (\<lambda>cancelled.
     case cancelled of
       Inl e \<Rightarrow>
         if e = NoDeleteRequest then ret (writeError 409 ''attachment_delete_not_pending'')
         else ret (writeError 500 ''attachment_delete_unavailable'')
     | Inr _ \<Rightarrow> ret no_content))"

section \<open>Downloads\<close>

definition upper_hex :: string where "upper_hex = ''0123456789ABCDEF''"

text \<open>\<^verbatim>\<open>url.PathEscape\<close>\<close>

definition path_byte :: "nat \<Rightarrow> bool" where
  "path_byte b \<longleftrightarrow> 48 \<le> b \<and> b \<le> 57 \<or> 65 \<le> b \<and> b \<le> 90 \<or> 97 \<le> b \<and> b \<le> 122
     \<or> List.member (map bt ''-_.~$&+:=@'') b"

definition urlEscapeName :: "string \<Rightarrow> string" where
  "urlEscapeName name = concat (map (\<lambda>c.
     if path_byte (bt c) then [c]
     else [CHR ''%'', upper_hex ! (bt c div 16), upper_hex ! (bt c mod 16)]) name)"

definition quote2 :: string where "quote2 = [char_of (39 :: nat), char_of (39 :: nat)]"

text \<open>\<^verbatim>\<open>http.ServeContent\<close> sends the file, or the ranges of it asked for.\<close>

definition Download :: "'z handler" where
  "Download r =
     andThen (attempt (Store_Attachment (url_param r ''id''))) (\<lambda>item.
     case item of
       Inl (_ :: store_error) \<Rightarrow> ret (writeError 404 ''not_found'')
     | Inr item \<Rightarrow>
     andThen (currentUser r) (\<lambda>u.
     andThen (attempt (IsGroupMember (att_GroupID item) (user_ID u))) (\<lambda>member.
     if member \<noteq> Inr True then
       (case member of Inl (_ :: store_error) \<Rightarrow> ret (writeError 403 ''forbidden'')
        | Inr _ \<Rightarrow> ret (writeError 403 ''forbidden''))
     else
     andThen clock (\<lambda>now.
     if \<not> att_ExpiresAt item > now then ret (writeError 404 ''not_found'')
     else
     andThen (attempt (os_Open (Path item))) (\<lambda>opened.
     case opened of
       Inl (_ :: attach_error) \<Rightarrow> ret (writeError 404 ''not_found'')
     | Inr _ \<Rightarrow>
     andThen (attempt os_Transfer) (\<lambda>info.
     case info of
       Inl (_ :: attach_error) \<Rightarrow> ret (writeError 404 ''not_found'')
     | Inr _ \<Rightarrow>
         ret \<lparr>status = 200,
           headers = [(''Content-Type'', Mime item), (''X-Content-Type-Options'', ''nosniff''),
             (''Content-Disposition'', ''attachment; filename*=UTF-8'' @ quote2 @ urlEscapeName (path_Base (att_Name item)))],
           cookies = [], payload = FileBody (Path item)\<rparr>))))))"

end
