(* ===== verification/Router.thy ===== *)
theory Router
  imports Handlers
begin

text \<open>
  The messages of a group over HTTP (\<^verbatim>\<open>groupchat/handler.go\<close>, \<^verbatim>\<open>groupchat/multipart.go\<close>) and
  the routing table and the chain of middleware of \<^verbatim>\<open>httpapi/router.go\<close>. Which route a
  request takes is decided by the router of the package chi, the parameter \<open>mux\<close>.
\<close>

section \<open>Messages\<close>

definition chat_Messages :: "'z handler" where
  "chat_Messages r =
     with_read (query_number r ''limit'' 30 1 100) (\<lambda>limit.
     with_group (Groups_Messages (url_param r ''id'') (optionalUser r) limit) (\<lambda>m.
     ret (no_store (writeJSON 200 (MessagesBody (Messages_views m))))))"

text \<open>Errors of a message with attachments, whatever they are, end here.\<close>

fun writeAttachmentError :: "group_error \<Rightarrow> response" where
  "writeAttachmentError (GroupAttach ErrTooLarge) = writeError 400 ''attachment_too_large''"
| "writeAttachmentError (GroupAttach ErrTooMany) = writeError 400 ''attachment_count''"
| "writeAttachmentError (GroupAttach ErrQuotaExceeded) = writeError 413 ''attachment_quota''"
| "writeAttachmentError (GroupAttach ErrLowDisk) = writeError 507 ''attachment_storage_full''"
| "writeAttachmentError (GroupAttach ErrUnsupportedFormat) = writeError 400 ''attachment_unsupported_format''"
| "writeAttachmentError Group_ErrForbidden = writeError 403 ''forbidden''"
| "writeAttachmentError _ = writeError 400 ''attachment_invalid''"

definition formValue :: "form \<Rightarrow> string \<Rightarrow> string" where
  "formValue f key = (case form_values f key of [] \<Rightarrow> [] | value # _ \<Rightarrow> TrimSpace value)"

definition form_uploads :: "form \<Rightarrow> form_file list" where
  "form_uploads f = (if form_files f ''files[]'' = [] then form_files f ''files'' else form_files f ''files[]'')"

definition open_upload :: "form_file \<Rightarrow> ('z, string) osm" where
  "open_upload i = (case ff_data i of None \<Rightarrow> raise OsFailed | Some data \<Rightarrow> ret data)"

definition sendMultipart :: "('p, 'q, 'z group_world_scheme) api \<Rightarrow> 'z handler" where
  "sendMultipart h r =
     (case api_attachments h of
        None \<Rightarrow> ret (writeError 503 ''attachments_unavailable'')
      | Some st \<Rightarrow>
          (case ParseMultipartForm (api_front h) r of
             None \<Rightarrow> ret (writeError 400 ''invalid_multipart'')
           | Some f \<Rightarrow>
               if form_uploads f = [] \<or> length (form_uploads f) > 3 then ret (writeError 400 ''attachment_count'')
               else
               andThen (currentUser r) (\<lambda>u.
               andThen (attempt (Prepare (st_limits st) (st_disk st) open_upload (Process (st_processor st))
                 (user_ID u) (form_uploads f))) (\<lambda>prepared.
               case prepared of
                 Inl e \<Rightarrow> ret (writeAttachmentError (GroupAttach e))
               | Inr b \<Rightarrow>
                   andThen (attempt (SendWithAttachments (api_groups h) (url_param r ''id'') u
                     (formValue f ''body'') (formValue f ''reply_to_id'')
                     (Some \<lparr>ab_base = st_base st, ab_limits = st_limits st, ab_batch = b\<rparr>)
                     (header r ''Idempotency-Key''))) (\<lambda>sent.
                   case sent of
                     Inl e \<Rightarrow> if e = GroupPanic then panic else ret (writeAttachmentError e)
                   | Inr m \<Rightarrow> ret (writeJSON 201 (MessageBody (MessageView m))))))))"

definition chat_Send :: "('p, 'q, 'z group_world_scheme) api \<Rightarrow> 'z handler" where
  "chat_Send h r =
     (if has_prefix form_type (ToLower (front_unicode (api_front h)) (header r ''Content-Type''))
      then sendMultipart h r
      else
      with_read (decodeGroupJSON (api_front h) [(''body'', TextField), (''reply_to_id'', TextField)] r) (\<lambda>v.
      andThen (currentUser r) (\<lambda>u.
      with_group (SendReply (api_groups h) (url_param r ''id'') u (text_of (v ''body'')) (text_of (v ''reply_to_id''))
        (header r ''Idempotency-Key'')) (\<lambda>m.
      ret (no_store (writeJSON 201 (MessageBody (MessageView m))))))))"

definition chat_Delete :: "'z handler" where
  "chat_Delete r =
     andThen (currentUser r) (\<lambda>u.
     with_group (Groups_DeleteMessage (url_param r ''id'') (url_param r ''messageID'') u) (\<lambda>_. ret no_content))"

definition chat_Typing :: "('p, 'q, 'w) api \<Rightarrow> 'z handler" where
  "chat_Typing h r =
     with_read (decodeGroupJSON (api_front h) [(''active'', FlagField)] r) (\<lambda>v.
     andThen (currentUser r) (\<lambda>u.
     with_group (SetTyping (url_param r ''id'') u (flag_of (v ''active''))) (\<lambda>_. ret no_content)))"

definition chat_Read :: "('p, 'q, 'w) api \<Rightarrow> 'z handler" where
  "chat_Read h r =
     with_read (decodeGroupJSON (api_front h) [(''message_id'', TextField)] r) (\<lambda>v.
     andThen (currentUser r) (\<lambda>u.
     with_group (MarkRead (url_param r ''id'') (user_ID u) (text_of (v ''message_id''))) (\<lambda>_. ret no_content)))"

section \<open>Routes\<close>

definition healthz :: "'z handler" where
  "healthz r = ret (writeJSON 200 StatusBody)"

text \<open>\<^verbatim>\<open>st.Ping\<close> is a statement that reads nothing.\<close>

definition readyz :: "'z handler" where
  "readyz r =
     andThen (attempt (select (\<lambda>_. ()))) (\<lambda>pinged.
     case pinged of
       Inl (_ :: store_error) \<Rightarrow> ret (writeError 503 ''not_ready'')
     | Inr _ \<Rightarrow> ret (writeJSON 200 StatusBody))"

type_synonym 'z route = "(string \<times> string) \<times> 'z handler"

definition open_routes :: "('p, 'q, 'z group_world_scheme) api \<Rightarrow> 'z route list" where
  "open_routes h =
     [((''GET'', ''/healthz''), healthz),
      ((''GET'', ''/readyz''), readyz),
      ((''POST'', ''/v1/auth/register''), users_register h),
      ((''POST'', ''/v1/auth/login''), users_login h),
      ((''DELETE'', ''/v1/auth/logout''), users_logout h),
      ((''GET'', ''/v1/discover/groups''), groups_discover h),
      ((''GET'', ''/v1/invites/{token}''), groups_invite)]"

definition public_routes :: "'z route list" where
  "public_routes =
     [((''GET'', ''/v1/groups/{id}''), groups_get),
      ((''GET'', ''/v1/groups/{id}/messages''), chat_Messages)]"

definition quota_routes :: "('p, 'q, 'w) api \<Rightarrow> 'z route list" where
  "quota_routes h =
     (case api_quotas h of
        None \<Rightarrow> []
      | Some limits \<Rightarrow>
         [((''GET'', ''/v1/account/quotas''), account_Quotas limits),
          ((''POST'', ''/v1/account/attachments/delete-all''), account_ScheduleDelete),
          ((''DELETE'', ''/v1/account/attachments/delete-all''), account_CancelDelete)])"

definition member_routes :: "('p, 'q, 'z group_world_scheme) api \<Rightarrow> 'z route list" where
  "member_routes h =
     [((''GET'', ''/v1/me''), users_me)] @ quota_routes h @
     [((''GET'', ''/v1/welcome''), users_welcome),
      ((''PATCH'', ''/v1/me/password''), users_changePassword h),
      ((''GET'', ''/v1/me/sessions''), users_sessions h),
      ((''DELETE'', ''/v1/me/sessions/{id}''), users_revokeSession h),
      ((''PATCH'', ''/v1/me''), users_updateProfile h),
      ((''DELETE'', ''/v1/me/avatar''), users_deleteAvatar),
      ((''DELETE'', ''/v1/me''), users_deleteUser h),
      ((''POST'', ''/v1/rooms''), rooms_create h),
      ((''GET'', ''/v1/rooms/{code}''), rooms_get h),
      ((''POST'', ''/v1/rooms/{code}/join''), rooms_join h),
      ((''DELETE'', ''/v1/rooms/{code}/members/me''), rooms_leave),
      ((''DELETE'', ''/v1/rooms/{code}''), rooms_delete),
      ((''GET'', ''/v1/events''), groups_events),
      ((''GET'', ''/v1/attachments/{id}''), Download),
      ((''POST'', ''/v1/groups''), groups_create h),
      ((''GET'', ''/v1/groups''), groups_list),
      ((''GET'', ''/v1/groups/{id}/profile''), groups_profile),
      ((''DELETE'', ''/v1/groups/{id}/members/me''), groups_leave),
      ((''DELETE'', ''/v1/groups/{id}/members/{memberID}''), groups_removeMember),
      ((''DELETE'', ''/v1/groups/{id}''), groups_delete),
      ((''POST'', ''/v1/groups/{id}/members''), groups_join h),
      ((''POST'', ''/v1/invites/{token}/join''), groups_joinInvite h),
      ((''POST'', ''/v1/groups/{id}/messages''), chat_Send h),
      ((''DELETE'', ''/v1/groups/{id}/messages/{messageID}''), chat_Delete),
      ((''POST'', ''/v1/groups/{id}/read''), chat_Read h),
      ((''POST'', ''/v1/groups/{id}/typing''), chat_Typing h),
      ((''POST'', ''/v1/groups/{id}/voice-rooms''), groups_createVoice h),
      ((''POST'', ''/v1/group-voice-rooms/{id}/join''), groups_joinVoice h),
      ((''DELETE'', ''/v1/group-voice-rooms/{id}/members/me''), groups_leaveVoice),
      ((''DELETE'', ''/v1/group-voice-rooms/{id}''), groups_deleteVoice)]"

definition wrapped :: "('z handler \<Rightarrow> 'z handler) \<Rightarrow> 'z route list \<Rightarrow> 'z route list" where
  "wrapped middleware table = map (map_prod (\<lambda>key. key) middleware) table"

definition routes :: "('p, 'q, 'z group_world_scheme) api \<Rightarrow> 'z route list" where
  "routes h =
     open_routes h
     @ wrapped (optionalAuthenticate (api_crypto h) (api_service h)) public_routes
     @ wrapped (\<lambda>next. authenticate (api_crypto h) (api_service h) (userRateLimit (api_security h) next))
         (member_routes h)"

section \<open>The server\<close>

text \<open>The router's verdict: no pattern fits, none with this method, or a route with its parameters.\<close>

datatype route_match =
    NoRoute
  | WrongMethod
  | Found "string \<times> string" "string \<Rightarrow> string"

type_synonym mux = "(string \<times> string) list \<Rightarrow> request \<Rightarrow> route_match"

definition dispatch :: "mux \<Rightarrow> 'z route list \<Rightarrow> 'z handler" where
  "dispatch mux table r =
     (case mux (map fst table) r of
        WrongMethod \<Rightarrow> ret (writeError 405 ''method_not_allowed'')
      | NoRoute \<Rightarrow> ret (writeError 404 ''not_found'')
      | Found key params \<Rightarrow>
          (case map_of table key of
             None \<Rightarrow> ret (writeError 404 ''not_found'')
           | Some h \<Rightarrow> h (r\<lparr>url_param := params\<rparr>)))"

definition maxBody :: int where "maxBody = 10 * 1048576"

definition NewWithOptions :: "mux \<Rightarrow> ('p, 'q, 'z group_world_scheme) api \<Rightarrow> 'z handler" where
  "NewWithOptions mux h =
     recoverer (cors (api_origins h) (csrf (api_origins h) (bodyLimit maxBody
       (abuseGuard (api_crypto h) (api_service h) (api_security h)
         (rateLimit (api_crypto h) (api_security h)
           (dispatch mux (routes h)))))))"

end
