(* ===== verification/Invariant.thy ===== *)
theory Invariant
  imports GroupService
begin

text \<open>
  The invariant of the whole database: keys and references are intact (\<open>wf_db\<close>), no room
  holds more members than the limit and a room marked empty has none (\<open>rooms_ok\<close>), no group
  has more than five voice rooms (\<open>voice_ok\<close>), and nobody owns more groups than allowed. Most
  statements of the program only take rows away; they keep the limits for that reason.
\<close>

section \<open>The invariant\<close>

definition owners_ok :: "int \<Rightarrow> database \<Rightarrow> bool" where
  "owners_ok maxOwned d \<longleftrightarrow> 0 < maxOwned \<longrightarrow> (\<forall>u. owned_groups u d \<le> maxOwned)"

definition sound :: "int \<Rightarrow> int \<Rightarrow> database \<Rightarrow> bool" where
  "sound n k d \<longleftrightarrow> wf_db d \<and> rooms_ok n d \<and> voice_ok maxGroupVoiceRooms d \<and> owners_ok k d"

text \<open>No new rooms, members, groups or voice rooms.\<close>

definition fewer :: "database \<Rightarrow> database \<Rightarrow> bool" where
  "fewer d d' \<longleftrightarrow> set (t_rooms d') \<subseteq> set (t_rooms d) \<and> (\<forall>c. in_room c d' \<le> in_room c d)
     \<and> g_id ` set (t_groups d') \<subseteq> g_id ` set (t_groups d)
     \<and> (\<forall>g. voice_rooms_of g d' \<le> voice_rooms_of g d) \<and> (\<forall>u. owned_groups u d' \<le> owned_groups u d)"

lemma fewer_refl [simp]: "fewer d d"
  by (simp add: fewer_def)

lemma fewer_trans: "fewer d d' \<Longrightarrow> fewer d' d'' \<Longrightarrow> fewer d d''"
  unfolding fewer_def by (meson order_trans)

lemma rooms_ok_fewer: "rooms_ok n d \<Longrightarrow> fewer d d' \<Longrightarrow> rooms_ok n d'"
proof -
  assume ok: "rooms_ok n d" and less: "fewer d d'"
  show ?thesis
    unfolding rooms_ok_def
  proof (intro ballI conjI impI)
    fix r assume "r \<in> set (t_rooms d')"
    then have r: "in_room (r_code r) d \<le> n" "r_empty_since_at r \<noteq> None \<Longrightarrow> in_room (r_code r) d = 0"
      and le: "in_room (r_code r) d' \<le> in_room (r_code r) d"
      using ok less by (auto simp: rooms_ok_def fewer_def)
    then show "in_room (r_code r) d' \<le> n" by simp
    show "in_room (r_code r) d' = 0" if "r_empty_since_at r \<noteq> None"
      using r(2) [OF that] le in_room_nonneg [of "r_code r" d'] by simp
  qed
qed

lemma voice_ok_fewer: "voice_ok n d \<Longrightarrow> fewer d d' \<Longrightarrow> voice_ok n d'"
proof -
  assume ok: "voice_ok n d" and less: "fewer d d'"
  have "voice_rooms_of i d' \<le> n" if "i \<in> g_id ` set (t_groups d')" for i
  proof -
    have "i \<in> g_id ` set (t_groups d)" "voice_rooms_of i d' \<le> voice_rooms_of i d"
      using less that by (auto simp: fewer_def)
    then show ?thesis using ok by (fastforce simp: voice_ok_def)
  qed
  then show ?thesis by (simp add: voice_ok_def)
qed

lemma owners_ok_fewer: "owners_ok k d \<Longrightarrow> fewer d d' \<Longrightarrow> owners_ok k d'"
  by (auto simp: owners_ok_def fewer_def intro: order_trans)

lemma sound_fewer: "sound n k d \<Longrightarrow> wf_db d' \<Longrightarrow> fewer d d' \<Longrightarrow> sound n k d'"
  unfolding sound_def by (blast intro: rooms_ok_fewer voice_ok_fewer owners_ok_fewer)

lemma sound_wf: "sound n k d \<Longrightarrow> wf_db d"
  by (simp add: sound_def)

section \<open>Statements that create nothing limited\<close>

lemmas count_simps = in_room_def voice_rooms_of_def owned_groups_def count_rows_filter_le

lemma insert_fewer:
  "insert_user u d = Some d' \<Longrightarrow> fewer d d'" "insert_session s d = Some d' \<Longrightarrow> fewer d d'"
  "insert_group_member gm d = Some d' \<Longrightarrow> fewer d d'" "insert_message m d = Some d' \<Longrightarrow> fewer d d'"
  "upsert_voice_member vm d = Some d' \<Longrightarrow> fewer d d'" "insert_account_ban ab d = Some d' \<Longrightarrow> fewer d d'"
  "upsert_account_block bl d = Some d' \<Longrightarrow> fewer d d'" "insert_spam_warning sw d = Some d' \<Longrightarrow> fewer d d'"
  "insert_join_event je d = Some d' \<Longrightarrow> fewer d d'" "upsert_cooldown cd d = Some d' \<Longrightarrow> fewer d d'"
  "insert_idempotency i d = Some d' \<Longrightarrow> fewer d d'" "insert_attachment a d = Some d' \<Longrightarrow> fewer d d'"
  "insert_delete_request dr d = Some d' \<Longrightarrow> fewer d d'" "set_reply mid rid d = Some d' \<Longrightarrow> fewer d d'"
  "read_messages g uid now created d = Some d' \<Longrightarrow> fewer d d'"
  "mark_token uid h now' d = Inr (c, d') \<Longrightarrow> fewer d d'" "join_row g uid' now'' d = Inr (c', d') \<Longrightarrow> fewer d d'"
  by (auto simp: fewer_def count_simps insert_user_def insert_session_def insert_group_member_def insert_message_def
      upsert_voice_member_def insert_account_ban_def upsert_account_block_def insert_spam_warning_def
      insert_join_event_def upsert_cooldown_def insert_idempotency_def insert_attachment_def insert_delete_request_def
      set_reply_def read_messages_def mark_token_def join_row_def Let_def guarded_def split: if_splits option.splits)

lemma delete_rooms_fewer: "fewer d (delete_rooms P d)"
  using in_room_le_delete by (auto simp: fewer_def t_rooms_delete_rooms) (auto simp: count_simps delete_rooms_def Let_def)

lemma delete_messages_fewer: "fewer d (delete_messages P d)"
  by (auto simp: fewer_def count_simps delete_messages_def Let_def)

lemma delete_voice_rooms_fewer: "fewer d (delete_voice_rooms P d)"
  by (auto simp: fewer_def count_simps delete_voice_rooms_def Let_def)

lemma filter_fewer:
  assumes "t_rooms d' = t_rooms d" "t_room_members d' = filter P (t_room_members d)"
    "t_groups d' = filter Q (t_groups d)" "t_voice_rooms d' = t_voice_rooms d"
  shows "fewer d d'"
  using assms by (auto simp: fewer_def count_simps)

lemma delete_groups_fewer: "fewer d (delete_groups P d)"
  unfolding delete_groups_def Let_def
  by (rule fewer_trans [OF fewer_trans [OF delete_messages_fewer delete_voice_rooms_fewer]],
    rule filter_fewer [where P = "\<lambda>_. True" and Q = "\<lambda>g. \<not> P g"]) simp_all

lemma delete_users_fewer: "fewer d (delete_users P d)"
  unfolding delete_users_def Let_def
  by (rule fewer_trans [OF fewer_trans [OF fewer_trans [OF delete_rooms_fewer delete_groups_fewer] delete_messages_fewer]],
    rule filter_fewer [where P = "\<lambda>m. \<not> gone P u_id (t_users d) (rm_user_id m)" and Q = "\<lambda>_. True"]) simp_all

lemma members_fewer: "fewer d (d\<lparr>t_room_members := filter P (t_room_members d)\<rparr>)"
  by (rule filter_fewer [where Q = "\<lambda>_. True"]) simp_all

lemma count_rows_update:
  "(\<And>g. g_owner_id (f g) = g_owner_id g) \<Longrightarrow>
   count_rows (\<lambda>g. g_owner_id g = u) (update_where P f gs) = count_rows (\<lambda>g. g_owner_id g = u) gs"
  by (induction gs) auto

lemma update_groups_fewer:
  "(\<And>g. g_id (f g) = g_id g) \<Longrightarrow> (\<And>g. g_owner_id (f g) = g_owner_id g) \<Longrightarrow>
   fewer d (d\<lparr>t_groups := update_where P f (t_groups d)\<rparr>)"
  by (auto simp: fewer_def count_simps update_where_key_set count_rows_update)

lemma leaf_fewer:
  "fewer d (d\<lparr>t_users := us\<rparr>)" "fewer d (d\<lparr>t_sessions := ss\<rparr>)" "fewer d (d\<lparr>t_group_members := gms\<rparr>)"
  "fewer d (d\<lparr>t_reads := rs\<rparr>)" "fewer d (d\<lparr>t_voice_members := vms\<rparr>)" "fewer d (d\<lparr>t_buckets := bs\<rparr>)"
  "fewer d (d\<lparr>t_idempotency := is\<rparr>)" "fewer d (d\<lparr>t_bans := bbs\<rparr>)" "fewer d (d\<lparr>t_account_bans := banned\<rparr>)"
  "fewer d (d\<lparr>t_account_blocks := bls\<rparr>)" "fewer d (d\<lparr>t_spam_warnings := sws\<rparr>)" "fewer d (d\<lparr>t_join_events := jes\<rparr>)"
  "fewer d (d\<lparr>t_cooldowns := cds\<rparr>)" "fewer d (d\<lparr>t_attachments := as\<rparr>)" "fewer d (d\<lparr>t_delete_requests := drs\<rparr>)"
  "fewer d (d\<lparr>t_messages := ms\<rparr>)"
  by (auto simp: fewer_def count_simps)

text \<open>What a component cites when it shows that its operations keep the invariant.\<close>

lemma sound_inserts:
  assumes "sound n k d"
  shows "insert_user u d = Some d' \<Longrightarrow> sound n k d'" "insert_session s d = Some d' \<Longrightarrow> sound n k d'"
    "insert_group_member gm d = Some d' \<Longrightarrow> sound n k d'" "insert_message m d = Some d' \<Longrightarrow> sound n k d'"
    "upsert_voice_member vm d = Some d' \<Longrightarrow> sound n k d'" "insert_account_ban ab d = Some d' \<Longrightarrow> sound n k d'"
    "upsert_account_block bl d = Some d' \<Longrightarrow> sound n k d'" "insert_spam_warning sw d = Some d' \<Longrightarrow> sound n k d'"
    "insert_join_event je d = Some d' \<Longrightarrow> sound n k d'" "upsert_cooldown cd d = Some d' \<Longrightarrow> sound n k d'"
    "insert_idempotency i d = Some d' \<Longrightarrow> sound n k d'" "insert_attachment a d = Some d' \<Longrightarrow> sound n k d'"
    "insert_delete_request dr d = Some d' \<Longrightarrow> sound n k d'" "set_reply mid rid d = Some d' \<Longrightarrow> sound n k d'"
    "read_messages g uid now created d = Some d' \<Longrightarrow> sound n k d'"
    "mark_token uid h now' d = Inr (c, d') \<Longrightarrow> sound n k d'" "join_row g uid' now'' d = Inr (c', d') \<Longrightarrow> sound n k d'"
  using assms
  by (blast intro: sound_fewer insert_fewer wf_inserts insert_delete_request_wf set_reply_wf read_messages_wf
      mark_token_wf join_row_wf dest: sound_wf)+

lemma sound_updates:
  assumes "sound n k d"
  shows "sound n k (d\<lparr>t_sessions := filter P1 (t_sessions d)\<rparr>)"
    "sound n k (d\<lparr>t_room_members := filter P2 (t_room_members d)\<rparr>)"
    "sound n k (d\<lparr>t_group_members := filter P3 (t_group_members d)\<rparr>)"
    "sound n k (d\<lparr>t_reads := filter P4 (t_reads d)\<rparr>)"
    "sound n k (d\<lparr>t_voice_members := filter P5 (t_voice_members d)\<rparr>)"
    "sound n k (d\<lparr>t_buckets := filter P6 (t_buckets d)\<rparr>)"
    "sound n k (d\<lparr>t_idempotency := filter P7 (t_idempotency d)\<rparr>)"
    "sound n k (d\<lparr>t_bans := filter P8 (t_bans d)\<rparr>)"
    "sound n k (d\<lparr>t_account_bans := filter P9 (t_account_bans d)\<rparr>)"
    "sound n k (d\<lparr>t_account_blocks := filter P10 (t_account_blocks d)\<rparr>)"
    "sound n k (d\<lparr>t_spam_warnings := filter P11 (t_spam_warnings d)\<rparr>)"
    "sound n k (d\<lparr>t_join_events := filter P12 (t_join_events d)\<rparr>)"
    "sound n k (d\<lparr>t_cooldowns := filter P13 (t_cooldowns d)\<rparr>)"
    "sound n k (d\<lparr>t_attachments := filter P14 (t_attachments d)\<rparr>)"
    "sound n k (d\<lparr>t_delete_requests := filter P15 (t_delete_requests d)\<rparr>)"
    "sound n k (d\<lparr>t_buckets := upsert b_key b (t_buckets d)\<rparr>)"
    "sound n k (d\<lparr>t_bans := upsert ib_key ib (t_bans d)\<rparr>)"
    "sound n k (delete_rooms P16 d)" "sound n k (delete_messages P17 d)" "sound n k (delete_voice_rooms P18 d)"
    "sound n k (delete_groups P19 d)" "sound n k (delete_users P20 d)"
  by (rule sound_fewer [OF assms]; (rule wf_updates [OF sound_wf [OF assms]]
      | rule leaf_fewer members_fewer delete_rooms_fewer delete_messages_fewer delete_voice_rooms_fewer
        delete_groups_fewer delete_users_fewer))+

lemma sound_marks:
  assumes "sound n k d"
  shows "sound n k (see_user userID now d)" "sound n k (snd (see_session hash userID now d))"
    "sound n k (set_password userID h d)" "sound n k (set_profile userID name avatar d)"
    "sound n k (review_sessions userID hash d)" "sound n k (touch_group g now d)"
    "sound n k (isolate g until level now d)" "sound n k (snd (drop_member g u d))"
    "sound n k (snd (drop_young_member g u born d))" "sound n k (drop_from_voice g u d)"
    "sound n k (d\<lparr>t_groups := update_where P (\<lambda>g. g\<lparr>g_scheduled_for_deletion_at := t\<rparr>) (t_groups d)\<rparr>)"
  by (rule sound_fewer [OF assms];
    (rule see_wf touch_group_wf isolate_wf drop_wf schedule_wf, rule sound_wf [OF assms]
     | auto simp: see_user_def see_session_def set_password_def set_profile_def review_sessions_def touch_group_def
         isolate_def drop_member_def drop_young_member_def drop_from_voice_def Let_def
         leaf_fewer update_groups_fewer split: option.split))+

lemma mark_rooms_empty_sound:
  assumes "sound n k d"
  shows "sound n k (mark_rooms_empty codes now d)"
proof -
  let ?d = "mark_rooms_empty codes now d"
  have "rooms_ok n ?d"
    using assms unfolding sound_def rooms_ok_def mark_rooms_empty_def
    by simp (rule update_where_all; auto)
  moreover have "voice_ok maxGroupVoiceRooms ?d" "owners_ok k ?d" "wf_db ?d"
    using assms by (auto simp: sound_def voice_ok_def voice_rooms_of_def owners_ok_def owned_groups_def
        mark_rooms_empty_def intro!: update_rooms_wf)
  ultimately show ?thesis by (simp add: sound_def)
qed

section \<open>The store keeps the invariant\<close>

lemma users_keep_sound [keeps_intros]:
  "keeps (sound n k) (CreateUserWithSession user passwordHash tokenHash expiresAt)"
  "keeps (sound n k) (UserByEmail email)"
  "keeps (sound n k) (UserBySessionHash hash now idleCutoff)"
  "keeps (sound n k) (CreateSession userID tokenHash now expiresAt)"
  "keeps (sound n k) (TouchSession hash userID now)"
  "keeps (sound n k) (RevokeSession hash)"
  "keeps (sound n k) (SecurityState userID hash now)"
  "keeps (sound n k) (SecuritySessions userID hash now idleTTL)"
  "keeps (sound n k) (ReviewNewSessions userID hash)"
  "keeps (sound n k) (RevokeSecuritySession userID sid)"
  "keeps (sound n k) (Store_ChangePassword userID passwordHash)"
  "keeps (sound n k) (DeleteExpiredSessions now)"
  "keeps (sound n k) (Store_UpdateProfile userID displayName avatar)"
  "keeps (sound n k) (OwnedRoomCodes userID)"
  "keeps (sound n k) (Store_DeleteUser userID)"
  "keeps (sound n k) (TouchUser userID now)"
  "keeps (sound n k) (DeleteInactiveUsers cutoff)"
  "keeps (sound n k) (DeleteInactiveUsersBatch cutoff b)"
  "keeps (sound n k) (Store_CleanupBannedUser userID now messageLimit)"
  unfolding CreateUserWithSession_def UserByEmail_def UserBySessionHash_def userBySessionQuery_def
    CreateSession_def TouchSession_def RevokeSession_def SecurityState_def SecuritySessions_def
    ReviewNewSessions_def RevokeSecuritySession_def Store_ChangePassword_def
    DeleteExpiredSessions_def Store_UpdateProfile_def OwnedRoomCodes_def Store_DeleteUser_def
    TouchUser_def DeleteInactiveUsers_def DeleteInactiveUsersBatch_def Store_CleanupBannedUser_def
    Let_def
  by (intro keeps_intros keeps_stmt; (erule (1) sound_inserts
      | simp add: sound_updates sound_marks mark_rooms_empty_sound | auto simp: sound_marks))+

lemma messages_keep_sound [keeps_intros]:
  "keeps (sound n k) (AddMessageWithAttachments m items)"
  "keeps (sound n k) (Store_DeleteMessage mid)"
  "keeps (sound n k) (SetMessageReply mid replyTo)"
  "keeps (sound n k) (DeleteExpiredMessages cutoff)"
  "keeps (sound n k) (DeleteRecentMessagesByAuthor g u since b)"
  "keeps (sound n k) (DeleteRecentRepeatedMessages g u body since b)"
  "keeps (sound n k) (DeleteOldestMessages olderThan b)"
  "keeps (sound n k) (MarkGroupMessagesRead g u mid now)"
  "keeps (sound n k) (ReserveIdempotencyKey scope u key responseID now ttl)"
  "keeps (sound n k) (MessageCooldown g u now)"
  "keeps (sound n k) (RecordMessageViolation g u now durations)"
  "keeps (sound n k) (CreateGroupSpamWarning g reason now mc uc cooldown period)"
  unfolding AddMessageWithAttachments_def groupmessages_Add_def attachments_Add_def
    Store_DeleteMessage_def SetMessageReply_def DeleteExpiredMessages_def
    DeleteRecentMessagesByAuthor_def DeleteRecentRepeatedMessages_def DeleteOldestMessages_def delete_listed_def
    MarkGroupMessagesRead_def ReserveIdempotencyKey_def MessageCooldown_def
    RecordMessageViolation_def CreateGroupSpamWarning_def Let_def
  by (intro keeps_intros; (erule (1) sound_inserts | simp add: sound_updates sound_marks))+

lemma rate_keeps_sound [keeps_intros]:
  "keeps (sound n k) (TakeRateLimit key now cap rps ttl)"
  "keeps (sound n k) (NoteViolation key now period threshold steps forget)"
  "keeps (sound n k) (RecordAccountBan userID now period)"
  "keeps (sound n k) (IPBanActive key now)"
  "keeps (sound n k) (SetAccountBlock userID until)"
  "keeps (sound n k) (AccountBlockActive userID now)"
  unfolding TakeRateLimit_def NoteViolation_def RecordAccountBan_def IPBanActive_def
    SetAccountBlock_def AccountBlockActive_def upsertRateBucket_def
  by (intro keeps_intros; (erule (1) sound_inserts | simp add: sound_updates))+

lemma limiter_keeps_sound [keeps_intros]:
  "keeps (sound n k) (Allow cfg scope subject cap)"
  "keeps (sound n k) (Limiter_NoteViolation cfg ip)"
  "keeps (sound n k) (NoteAccountViolation cfg userID)"
  "keeps (sound n k) (Banned ip)"
  unfolding Allow_def Limiter_NoteViolation_def NoteAccountViolation_def noteViolation_def Banned_def
  by (intro keeps_intros)+

lemma attachments_keep_sound [keeps_intros]:
  "keeps (sound n k) (attachments_Delete aid)"
  "keeps (sound n k) (CreateDeleteRequest userID createdAt executeAt)"
  "keeps (sound n k) (CancelDeleteRequest userID)"
  "keeps (sound n k) (DeleteDeleteRequest rid)"
  "keeps (sound n k) (DeleteUserAttachmentMessages userID)"
  unfolding attachments_Delete_def CreateDeleteRequest_def deleteRequestID_def GetDeleteRequest_def
    CancelDeleteRequest_def DeleteDeleteRequest_def DeleteUserAttachmentMessages_def
  by (intro keeps_intros; (erule (1) sound_inserts | simp add: sound_updates))+

lemma groups_keep_sound [keeps_intros]:
  "keeps (sound n k) (Store_JoinGroup gid u now)"
  "keeps (sound n k) (Store_DeleteGroup gid)"
  "keeps (sound n k) (Store_LeaveGroup gid u)"
  "keeps (sound n k) (RemoveGroupMember gid u)"
  "keeps (sound n k) (ScheduleInactiveGroups cutoff at_time b)"
  "keeps (sound n k) (DeleteScheduledGroups now before b)"
  "keeps (sound n k) (DeleteInactiveGroupsNow cutoff b)"
  "keeps (sound n k) (purged_ids cutoff b)"
  "keeps (sound n k) (RecordJoinEvent gid u ip ok now)"
  "keeps (sound n k) (IsolateGroup gid candidates now)"
  unfolding Store_JoinGroup_def Store_DeleteGroup_def Store_LeaveGroup_def
    RemoveGroupMember_def ScheduleInactiveGroups_def DeleteScheduledGroups_def
    DeleteInactiveGroupsNow_def purged_ids_def inactive_purge_def delete_group_def RecordJoinEvent_def IsolateGroup_def Let_def
  by (intro keeps_intros keeps_stmt; (erule (1) sound_inserts | simp add: sound_updates sound_marks))+

section \<open>Where something is created\<close>

lemma other_limits:
  assumes "t_groups d' = t_groups d" "t_voice_rooms d' = t_voice_rooms d"
  shows "voice_ok m d' = voice_ok m d" "owners_ok k d' = owners_ok k d"
  using assms by (simp_all add: voice_ok_def voice_rooms_of_def owners_ok_def owned_groups_def)

lemma sound_rooms:
  assumes "sound n k d" "wf_db d' \<and> rooms_ok n d'" "t_groups d' = t_groups d" "t_voice_rooms d' = t_voice_rooms d"
  shows "sound n k d'"
  using assms(1,2) unfolding sound_def other_limits [OF assms(3,4)] by simp

lemma room_frames:
  "create_room code ownerID now ttl d = Inr (x, d') \<Longrightarrow> t_groups d' = t_groups d \<and> t_voice_rooms d' = t_voice_rooms d"
  "enter_room code userID now n d = Inr (y, d') \<Longrightarrow> t_groups d' = t_groups d \<and> t_voice_rooms d' = t_voice_rooms d"
  "quit_room code userID now d = Inr (z, d') \<Longrightarrow> t_groups d' = t_groups d \<and> t_voice_rooms d' = t_voice_rooms d"
  by (auto simp: create_room_def enter_room_def quit_room_def insert_room_row_Some
      insert_room_member_Some mark_occupied_def mark_empty_def without_member_def Let_def split: if_splits option.splits)

lemma room_steps_sound:
  assumes "sound n k d"
  shows "1 \<le> n \<Longrightarrow> create_room code ownerID now ttl d = Inr (x, d') \<Longrightarrow> sound n k d'"
    and "enter_room code userID now n d = Inr (y, d') \<Longrightarrow> sound n k d'"
    and "quit_room code userID now d = Inr (z, d') \<Longrightarrow> sound n k d'"
proof -
  have d: "wf_db d" "rooms_ok n d" using assms by (simp_all add: sound_def)
  show "1 \<le> n \<Longrightarrow> create_room code ownerID now ttl d = Inr (x, d') \<Longrightarrow> sound n k d'"
    by (rule sound_rooms [OF assms create_room_ok [OF d]]) (simp_all add: room_frames)
  show "enter_room code userID now n d = Inr (y, d') \<Longrightarrow> sound n k d'"
    by (rule sound_rooms [OF assms enter_room_ok [OF d]]) (simp_all add: room_frames)
  show "quit_room code userID now d = Inr (z, d') \<Longrightarrow> sound n k d'"
    by (rule sound_rooms [OF assms quit_room_ok [OF d]]) (simp_all add: room_frames)
qed

lemma rooms_keep_sound [keeps_intros]:
  "1 \<le> n \<Longrightarrow> keeps (sound n k) (InsertRoom code ownerID now ttl)"
  "keeps (sound n k) (JoinRoom code userID now n)"
  "keeps (sound n k) (LeaveRoom code userID now)"
  "keeps (sound n k) terminate \<Longrightarrow> keeps (sound n k) (DeleteRoom code userID now terminate)"
  "keeps (sound n k) (DeleteEmptyRoom code cutoff)"
  "keeps (sound n k) (DeleteExpiredRoom code now)"
  "keeps I (ExpiredRoomCodes now)" "keeps I (EmptyRoomCodes cutoff)"
proof -
  show "1 \<le> n \<Longrightarrow> keeps (sound n k) (InsertRoom code ownerID now ttl)"
    by (rule InsertRoom.preserves) (erule (2) room_steps_sound)
  have "keeps (sound n k) (enter_tx code userID now n)"
    by (rule enter.preserves) (erule (1) room_steps_sound)
  then show "keeps (sound n k) (JoinRoom code userID now n)"
    unfolding JoinRoom_alt by (intro keeps_intros)
  show "keeps (sound n k) (LeaveRoom code userID now)"
    by (rule LeaveRoom.preserves) (erule (1) room_steps_sound)
  show "keeps (sound n k) terminate \<Longrightarrow> keeps (sound n k) (DeleteRoom code userID now terminate)"
    unfolding DeleteRoom_def by (intro keeps_intros; (assumption | simp add: sound_updates))
  show "keeps (sound n k) (DeleteEmptyRoom code cutoff)" "keeps (sound n k) (DeleteExpiredRoom code now)"
    unfolding DeleteEmptyRoom_def DeleteExpiredRoom_def by (intro keeps_intros; simp add: sound_updates)+
  show "keeps I (ExpiredRoomCodes now)" "keeps I (EmptyRoomCodes cutoff)"
    unfolding ExpiredRoomCodes_def EmptyRoomCodes_def by (intro keeps_intros)+
qed

lemma create_voice_sound:
  assumes "sound n k d" "create_voice vid gid name now maxGroupVoiceRooms d = Inr (x, d')"
  shows "sound n k d'"
proof -
  let ?v = "\<lparr>vr_id = vid, vr_group_id = gid, vr_name = name, vr_created_at = unix now\<rparr>"
  have ins: "insert_voice_room ?v d = Some d'" and less: "voice_rooms_of gid d < maxGroupVoiceRooms"
    using assms(2) by (auto simp: create_voice_def split: if_splits option.splits)
  have d': "d' = d\<lparr>t_voice_rooms := t_voice_rooms d @ [?v]\<rparr>"
    using ins by (simp add: insert_voice_room_def)
  have "wf_db d'" using ins insert_voice_room_wf sound_wf [OF assms(1)] by blast
  with assms(1) less show ?thesis
    by (auto simp: sound_def d' voice_ok_def voice_rooms_of_def rooms_ok_def in_room_def owners_ok_def owned_groups_def)
qed

lemma voice_keep_sound [keeps_intros]:
  "keeps (sound n k) (CreateVoiceRoom vid groupID name now maxGroupVoiceRooms)"
  "keeps (sound n k) (DeleteVoiceRoom vid)"
  "keeps (sound n k) (EnterVoice roomID userID now)"
  "keeps (sound n k) (LeaveVoice roomID userID)"
proof -
  show "keeps (sound n k) (CreateVoiceRoom vid groupID name now maxGroupVoiceRooms)"
    by (rule CreateVoiceRoom.preserves) (erule (1) create_voice_sound)
  show "keeps (sound n k) (DeleteVoiceRoom vid)" "keeps (sound n k) (EnterVoice roomID userID now)"
    "keeps (sound n k) (LeaveVoice roomID userID)"
    unfolding DeleteVoiceRoom_def EnterVoice_def LeaveVoice_def Let_def
    by (intro keeps_intros; (erule (1) sound_inserts | simp add: sound_updates))+
qed

lemma voice_rooms_of_no_group:
  "wf_db d \<Longrightarrow> g \<notin> g_id ` set (t_groups d) \<Longrightarrow> voice_rooms_of g d = 0"
  by (auto simp: voice_rooms_of_def count_rows_0 wf_db_def references_ok_def refs_def)

lemma insert_group_sound:
  assumes "sound n k d" "insert_group g d = Some d'" and less: "0 < k \<longrightarrow> owned_groups (g_owner_id g) d < k"
  shows "sound n k d'"
proof -
  have d': "d' = d\<lparr>t_groups := t_groups d @ [g]\<rparr>" and fresh: "g_id g \<notin> g_id ` set (t_groups d)"
    using assms(2) by (auto simp: insert_group_def list_all_iff image_iff)
  have "wf_db d'" using assms(2) insert_group_wf sound_wf [OF assms(1)] by blast
  moreover have "voice_rooms_of (g_id g) d \<le> maxGroupVoiceRooms"
    using voice_rooms_of_no_group [OF sound_wf [OF assms(1)] fresh] by (simp add: maxGroupVoiceRooms_def)
  moreover have "owners_ok k d'"
    using assms(1) less by (auto simp: sound_def owners_ok_def owned_groups_def d')
  ultimately show ?thesis
    using assms(1) by (auto simp: sound_def d' voice_ok_def voice_rooms_of_def rooms_ok_def in_room_def)
qed

lemma CreateGroup_keeps_sound [keeps_intros]: "keeps (sound n k) (Store_CreateGroup new now k)"
proof (rule CreateGroup.preserves)
  fix d x d' assume d: "sound n k d" and run: "create_group new now k d = Inr (x, d')"
  obtain d1 where d1: "insert_group (group_row_of new (unix now)) d = Some d1"
    and limit: "0 < k \<longrightarrow> owned_groups (ng_OwnerID new) d < k"
    using run by (auto simp: create_group_def split: if_splits option.splits)
  have "sound n k d1"
    using insert_group_sound [OF d d1] limit by (simp add: group_row_of_def)
  then show "sound n k d'"
    using run d1 by (auto simp: create_group_def split: if_splits option.splits intro: sound_inserts)
qed

end
