(* ===== verification/KeepLaws.thy ===== *)
theory KeepLaws
  imports SendLaws Processor Enforcer Invariant
begin

text \<open>
  What the services leave of the database: every operation of the application and of the
  groups, of the storage of attachments and of the message guard keeps the invariant of the
  whole database, whatever fails on the way, if it works with the limits of the invariant.
\<close>

section \<open>The application service\<close>

lemma keeps_app_calls [keeps_intros]:
  "keeps I m \<Longrightarrow> keeps I (from_db m)" "keeps I m' \<Longrightarrow> keeps I (or_else m' h)" "keeps I m \<Longrightarrow> keeps I (translated m)"
  unfolding from_db_def or_else_def translated_def by (intro keeps_intros; assumption)+

lemma keeps_random [keeps_intros]: "keeps I (random_bytes n)" "keeps I (gateway_or e call)"
  unfolding random_bytes_def gateway_or_def by (intro keeps_intros)+

lemma keeps_hash [keeps_intros]: "keeps I (GenerateFromPassword c p)"
  by (simp add: keeps_def GenerateFromPassword_def Let_def split: list.split option.split)

lemma keeps_room_code [keeps_intros]: "keeps I roomCode" "keeps I (newSessionToken c)" "keeps I (App_GetRoom s code u)"
  unfolding roomCode_def newSessionToken_def App_GetRoom_def Let_def by (intro keeps_intros)+

lemma try_codes_sound [keeps_intros]: "1 \<le> n \<Longrightarrow> keeps (sound n k) (try_codes s owner tries)"
  by (induction tries) (auto intro!: keeps_intros simp del: try_codes.simps simp: try_codes.simps)

lemma keeps_cache: "keeps I refresh \<Longrightarrow> keeps I (andThen refresh (\<lambda>stats w. (Inr stats, w\<lparr>a_welcome := f stats\<rparr>)))"
  by (rule keeps_andThen) (simp_all add: keeps_def)

lemma welcome_keeps [keeps_intros]: "keeps I (Welcome_page u)"
  unfolding Welcome_page_def WelcomeStats_def Cache_Get_def count_welcome_def Let_def
  by (intro keeps_intros keeps_cache)

lemma app_ops_sound [keeps_intros]:
  "keeps (sound n k) (Register c s email password)"
  "keeps (sound n k) (Login c s email password)"
  "keeps (sound n k) (Authenticate c s token)"
  "keeps (sound n k) (Logout c token)"
  "keeps (sound n k) (UpdateProfile u name avatar)"
  "keeps (sound n k) (DeleteAvatar u)"
  "keeps (sound n k) (ChangePassword c u token password)"
  "keeps (sound n k) (App_SecuritySessions c s u token)"
  "keeps (sound n k) (App_RevokeSecuritySession c u token sid)"
  "keeps (sound n k) (DeleteUser u)"
  "keeps (sound n k) (CleanupBannedUser u)"
  "1 \<le> n \<Longrightarrow> keeps (sound n k) (CreateRoom s u)"
  "keeps (sound (svc_maxMembers s) k) (App_JoinRoom c s code u)"
  "keeps (sound n k) (App_LeaveRoom code u)"
  "keeps (sound n k) (App_DeleteRoom code u)"
  "keeps (sound n k) (EmergencyCleanup batch)"
  unfolding Register_def Login_def Authenticate_def Logout_def UpdateProfile_def DeleteAvatar_def ChangePassword_def
    App_SecuritySessions_def App_RevokeSecuritySession_def DeleteUser_def CleanupBannedUser_def CreateRoom_def
    App_JoinRoom_def App_LeaveRoom_def App_DeleteRoom_def EmergencyCleanup_def end_call_def cleanupExpiredRooms_def
    deleteEmptyRooms_def end_room_def Let_def
  by (intro keeps_intros; assumption)+

lemma App_cleanup_sound [keeps_intros]:
  assumes "\<And>run now. attachmentCleanup = Some run \<Longrightarrow> keeps (sound n k) (run now)"
  shows "keeps (sound n k) (App_cleanup attachmentCleanup)"
  unfolding App_cleanup_def cleanupExpiredRooms_def deleteEmptyRooms_def end_room_def
  by (intro keeps_intros assms)

section \<open>Files\<close>

text \<open>The operating system knows nothing of the database.\<close>

lemma keeps_os_call:
  "(\<And>w x w'. f w = Inr (x, w') \<Longrightarrow> w_db w' = w_db w) \<Longrightarrow> keeps I (os_call f)"
  by (fastforce simp: keeps_def os_call_def Let_def split: list.split option.split os_fault.split sum.split prod.split)

lemma os_keeps [keeps_intros]:
  "keeps I (os_Remove p)" "keeps I (os_ReadDir p)" "keeps I (os_Stat p)" "keeps I (os_MkdirAll p)"
  "keeps I (os_Rename p q)" "keeps I (os_Open p)" "keeps I (os_Create p)" "keeps I os_Transfer"
  "keeps I (os_CreateTemp t dir pat)"
  unfolding os_Remove_def os_ReadDir_def os_Stat_def os_MkdirAll_def os_Rename_def os_Open_def os_Create_def
    os_Transfer_def os_CreateTemp_def Let_def
  by (rule keeps_os_call; auto split: if_splits option.splits)+

lemma storage_calls_keep [keeps_intros]:
  "keeps I m \<Longrightarrow> keeps I (from_store m)" "keeps I m' \<Longrightarrow> keeps I (or_discard m' p)"
  "keeps I c \<Longrightarrow> keeps I m'' \<Longrightarrow> keeps I (deferred c m'')"
  "keeps I (release b)" "keeps I (remove_if_there p)" "keeps I (randomID :: ('z, string) osm)"
proof -
  show "keeps I m \<Longrightarrow> keeps I (from_store m)"
    unfolding from_store_def by (intro keeps_intros)
  show "keeps I m' \<Longrightarrow> keeps I (or_discard m' p)" "keeps I (remove_if_there p)" "keeps I (randomID :: ('z, string) osm)"
    unfolding or_discard_def remove_if_there_def randomID_def by (intro keeps_intros; assumption)+
  show "keeps I c \<Longrightarrow> keeps I m'' \<Longrightarrow> keeps I (deferred c m'')"
    by (auto simp: keeps_def deferred_def split: prod.split)
  show "keeps I (release b)"
    by (simp add: keeps_def release_def)
qed

lemma keeps_rollback [keeps_intros]: "keeps I (batch_Rollback b)"
  unfolding batch_Rollback_def by (intro keeps_intros)

lemma verdict_keeps [keeps_intros]: "keeps I (verdict_of r)"
  unfolding verdict_of_def by (intro keeps_intros)

lemma copies_keep [keeps_intros]:
  "keeps I (Validate a path data n m)" "keeps I (copyFile path)" "keeps I (NewTempOutput t dir)"
  "keeps I (FFmpeg_Process ff data output maxOut)" "keeps I (ProcessFile t c path data maxOutput)"
  unfolding Validate_def copyFile_def NewTempOutput_def FFmpeg_Process_def ProcessFile_def image_Process_def Let_def
  by (intro keeps_intros)+

lemma Process_keeps [keeps_intros]: "keeps I (keep_copy t pat path)" "keeps I (Process p src name n hint)"
proof -
  show copy: "keeps I (keep_copy t pat path)" for t pat path
    unfolding keep_copy_def by (intro keeps_intros)
  show "keeps I (Process p src name n hint)"
    unfolding Process_def by_kind_def Let_def by (intro keeps_intros copy)
qed

text \<open>\<open>reads\<close> is opening an upload, \<open>process\<close> the processor and \<open>disk\<close> the checker.\<close>

lemma prepare_files_keep:
  assumes "\<And>i. keeps I (reads i)" "\<And>rd n k m. keeps I (process rd n k m)"
  shows "keeps I (prepare_files reads process inputs b)"
  by (induction inputs arbitrary: b) (auto intro!: keeps_intros assms)

lemma Prepare_keeps:
  assumes "\<And>i. keeps I (reads i)" "\<And>rd n k m. keeps I (process rd n k m)"
    and "\<And>free. disk = Some free \<Longrightarrow> keeps I free"
  shows "keeps I (Prepare limits disk reads process ownerID inputs)"
proof -
  have "keeps I (\<lambda>w. (Inr (), w\<lparr>s_reserved := s_reserved w + bytes\<rparr>))" for bytes
    by (simp add: keeps_def)
  then show ?thesis
    unfolding Prepare_def reserve_quota_def Let_def
    by (intro keeps_intros prepare_files_keep assms)
qed

lemma commit_keeps [keeps_intros]: "keeps I (batch_Commit base limits b mid gid now)"
proof -
  have files: "keeps I (commit_files base limits mid gid now fs b items)" for fs b items
    by (induction fs arbitrary: b items)
      (auto simp: give_up_def moveFile_def Let_def intro!: keeps_intros)
  show ?thesis
    unfolding batch_Commit_def give_up_def by (intro keeps_intros files)
qed

lemma account_page_sound [keeps_intros]:
  "keeps (sound n k) (Quotas limits u)" "keeps (sound n k) (ScheduleDeleteAll u now)" "keeps (sound n k) (CancelDeleteAll u)"
  unfolding Quotas_def ScheduleDeleteAll_def CancelDeleteAll_def Let_def by (intro keeps_intros)+

lemma RunDueDeletes_sound:
  assumes "\<And>publish g m. publisher = Some publish \<Longrightarrow> keeps (sound n k) (publish g m)"
  shows "keeps (sound n k) (RunDueDeletes publisher now batch)"
  unfolding RunDueDeletes_def runDelete_def by (intro keeps_intros assms)

lemma RunOnce_sound:
  assumes "\<And>run now batch. requests = Some run \<Longrightarrow> keeps (sound n k) (run now batch)"
  shows "keeps (sound n k) (RunOnce base batch requests now)"
  unfolding RunOnce_def removeOrphans_def check_dir_def check_file_def by (intro keeps_intros assms)

section \<open>The message guard\<close>

lemma warnings_keep [keeps_intros]: "keeps I (warnOnce cfg uid now)" "keeps I (clearWarning uid)"
  by (simp_all add: keeps_def warnOnce_def clearWarning_def split: option.split)

lemma guard_sound [keeps_intros]:
  "keeps (sound n k) (Guard_Check u cfg gid user body)" "keeps (sound n k) (Guard_Reserve cfg gid uid key mid)"
proof -
  have reports: "keeps (sound n k) (report u cfg gid uid body reason now)"
    "keeps (sound n k) (purge_and_report u cfg gid uid body reason now)" for uid reason now
    unfolding report_def purge_and_report_def evaluateGroup_def guard_violation_def guard_db_def Let_def
    by (intro keeps_intros)+
  show "keeps (sound n k) (Guard_Check u cfg gid user body)" "keeps (sound n k) (Guard_Reserve cfg gid uid key mid)"
    unfolding Guard_Check_def check_steps_def Guard_Reserve_def guard_db_def Let_def
    by (intro keeps_intros reports)+
qed

section \<open>The groups\<close>

lemma roll_back_keeps [keeps_intros]: "keeps I (roll_back b)" "keeps I m \<Longrightarrow> keeps I (or_roll_back m b)"
  unfolding roll_back_def or_roll_back_def by (intro keeps_intros; assumption)+

lemma group_steps_sound [keeps_intros]:
  "keeps (sound n k) (events_PublishMessageDeleted gid mid)" "keeps (sound n k) (PublishMessageDeleted gid mid)"
  "keeps (sound n k) (applyIsolation gid ids)" "keeps (sound n k) (addMembershipMessage gid u t)"
  "keeps (sound n k) (deleteGroup gid members)" "keeps (sound n k) (PublishProfileUpdated u)"
  unfolding events_PublishMessageDeleted_def PublishMessageDeleted_def applyIsolation_def addMembershipMessage_def
    deleteGroup_def PublishProfileUpdated_def AddMessage_def Let_def
  by (intro keeps_intros)+

lemma attack_sound [keeps_intros]: "keeps (sound n k) (evaluateJoinAttack gid)" "keeps (sound n k) (isolateMessageAttack gid u)"
  unfolding evaluateJoinAttack_def isolateMessageAttack_def Let_def by (intro keeps_intros)+

lemma group_ops_sound [keeps_intros]:
  "keeps (sound n k) (Groups_Subscribe u1)" "keeps (sound n k) (Groups_Unsubscribe u1 stream)" "keeps (sound n k) (SetTyping gid u active)"
  "keeps (sound n (MaxUserGroups (gs_limits s))) (Groups_Create s u name avatar vis)" "keeps (sound n k) (Groups_List u)" "keeps (sound n k) (Groups_Discover s q l off)"
  "keeps (sound n k) (Groups_Invite token)" "keeps (sound n k) (Groups_Join gid u invited ip)" "keeps (sound n k) (Groups_Delete gid u)"
  "keeps (sound n k) (Groups_Leave gid u)" "keeps (sound n k) (Groups_RemoveMember gid mem u)"
  "keeps (sound n k) (Groups_Messages gid viewer cap)" "keeps (sound n k) (MarkRead gid u1 mid)"
  "keeps (sound n k) (Groups_DeleteMessage gid mid u)"
  unfolding Groups_Subscribe_def Groups_Unsubscribe_def SetTyping_def Groups_Create_def Groups_List_def
    Groups_Discover_def Groups_Invite_def Groups_Join_def Groups_Delete_def Groups_Leave_def Groups_RemoveMember_def
    Groups_Messages_def MarkRead_def Groups_DeleteMessage_def Let_def
  by (intro keeps_intros)+

lemma keeps_verdict:
  "(e = GuardStore ErrPanic \<Longrightarrow> keeps I m) \<Longrightarrow> (\<And>e. keeps I (f e)) \<Longrightarrow>
   keeps I (case e of GuardStore ErrPanic \<Rightarrow> m | e' \<Rightarrow> f e')"
  by (simp split: guard_error.split store_error.split)

lemma checked_sound [keeps_intros]:
  "keeps (sound n k) (checked s cfg gid u body)" "keeps (sound n k) (checked_upload s cfg gid u body b)"
  unfolding checked_def checked_upload_def by (intro keeps_intros keeps_verdict)+

lemma send_sound [keeps_intros]:
  "keeps (sound n k) (SendReply s gid u body replyTo key)"
  "keeps (sound n k) (SendWithAttachments s gid u body replyTo batch key)"
  unfolding SendReply_def send_def SendWithAttachments_def store_upload_def AddMessage_def Let_def
  by (intro keeps_intros)+

lemma voice_service_sound [keeps_intros]:
  "keeps (sound n k) (CreateVoice gid u name)" "keeps (sound n k) (DeleteVoice vid u)" "keeps (sound n k) (Groups_JoinVoice s vid u)"
  "keeps (sound n k) (Groups_LeaveVoice vid u)"
  unfolding CreateVoice_def DeleteVoice_def Groups_JoinVoice_def Groups_LeaveVoice_def Let_def
  by (intro keeps_intros)+

lemma group_cleanup_sound [keeps_intros]: "keeps (sound n k) (Groups_Cleanup s)" "keeps (sound n k) (Groups_EmergencyCleanup ec)"
  unfolding Groups_Cleanup_def Cleanup_Run_def Groups_EmergencyCleanup_def Cleanup_Emergency_def Let_def
  by (intro keeps_intros)+

section \<open>The enforcer\<close>

lemma enforcer_sound [keeps_intros]:
  "keeps (sound n k) (Enforcer_Banned ip)" "keeps (sound n k) (AccountBlocked u1)" "keeps (sound n k) (Enforcer_NoteViolation c s cfg token ip)"
  unfolding Enforcer_Banned_def AccountBlocked_def Enforcer_NoteViolation_def enforcer_record_def
  by (intro keeps_intros)+

end
