(* ===== verification/ServerLaws.thy ===== *)
theory ServerLaws
  imports Router KeepLaws
begin

text \<open>
  Every handler, every middleware and with them every request keeps the invariant of the whole
  database, whatever the request holds and whatever fails.
\<close>

section \<open>What a request keeps\<close>

lemma keeps_payload [keeps_intros]:
  "keeps I m \<Longrightarrow> (\<And>x. keeps I (k x)) \<Longrightarrow> keeps I (with_app m k)"
  "keeps I m' \<Longrightarrow> (\<And>x. keeps I (k' x)) \<Longrightarrow> keeps I (with_group m' k')"
  "(\<And>x. keeps I (k'' x)) \<Longrightarrow> keeps I (with_read rd k'')"
  "keeps I panic" "keeps I (currentUser r)" "keeps I (writeRetryAfter until resp)"
proof -
  show retry: "keeps I (writeRetryAfter until resp)" for until resp
    unfolding writeRetryAfter_def by (intro keeps_intros)
  show panic: "keeps I panic" and "keeps I (currentUser r)"
    unfolding currentUser_def panic_def by (intro keeps_intros)+
  have error: "keeps I (writeGroupError e)" for e
    by (cases e rule: writeGroupError.cases) (auto intro!: retry panic keeps_intros)
  show "keeps I m \<Longrightarrow> (\<And>x. keeps I (k x)) \<Longrightarrow> keeps I (with_app m k)"
    unfolding with_app_def by (intro keeps_intros)
  show "keeps I m' \<Longrightarrow> (\<And>x. keeps I (k' x)) \<Longrightarrow> keeps I (with_group m' k')"
    unfolding with_group_def by (intro keeps_intros error)
  show "(\<And>x. keeps I (k'' x)) \<Longrightarrow> keeps I (with_read rd k'')"
    unfolding with_read_def by (intro keeps_intros)
qed

lemma cookies_keep [keeps_intros]: "keeps I (setSessionCookie h token resp)" "keeps I (writeAuth h code created)"
  unfolding writeAuth_def setSessionCookie_def Let_def by (intro keeps_intros)+

text \<open>The invariant with the limits the services were made with.\<close>

abbreviation api_sound :: "('p, 'q, 'w) api \<Rightarrow> database \<Rightarrow> bool" where
  "api_sound h \<equiv> sound (svc_maxMembers (api_service h)) (MaxUserGroups (gs_limits (api_groups h)))"

lemma profile_updated_sound [keeps_intros]: "keeps (api_sound h) (profile_updated u)"
  unfolding profile_updated_def by (intro keeps_intros)

lemma account_handlers_sound [keeps_intros]:
  "keeps (api_sound h) (users_register h r)" "keeps (api_sound h) (users_login h r)" "keeps (api_sound h) (users_logout h r)"
  "keeps (api_sound h) (users_me r)" "keeps (api_sound h) (users_welcome r)" "keeps (api_sound h) (users_updateProfile h r)"
  "keeps (api_sound h) (users_deleteAvatar r)" "keeps (api_sound h) (users_deleteUser h r)" "keeps (api_sound h) (users_changePassword h r)"
  "keeps (api_sound h) (users_sessions h r)" "keeps (api_sound h) (users_revokeSession h r)"
  "keeps (api_sound h) (account_Quotas limits r)" "keeps (api_sound h) (account_ScheduleDelete r)" "keeps (api_sound h) (account_CancelDelete r)"
  unfolding users_register_def users_login_def users_logout_def users_me_def users_welcome_def users_updateProfile_def
    users_deleteAvatar_def users_deleteUser_def users_changePassword_def users_sessions_def users_revokeSession_def
    account_Quotas_def account_ScheduleDelete_def account_CancelDelete_def Let_def
  by (intro keeps_intros)+

lemma room_handlers_sound [keeps_intros]:
  "1 \<le> svc_maxMembers (api_service h) \<Longrightarrow> keeps (api_sound h) (rooms_create h r)" "keeps (api_sound h) (rooms_get h r)" "keeps (api_sound h) (rooms_join h r)"
  "keeps (api_sound h) (rooms_leave r)" "keeps (api_sound h) (rooms_delete r)"
  unfolding rooms_create_def rooms_get_def rooms_join_def rooms_leave_def rooms_delete_def
  by (intro keeps_intros; assumption)+

lemma group_handlers_sound [keeps_intros]:
  "keeps (api_sound h) (groups_create h r)" "keeps (api_sound h) (groups_profile r)" "keeps (api_sound h) (groups_delete r)"
  "keeps (api_sound h) (groups_leave r)" "keeps (api_sound h) (groups_removeMember r)" "keeps (api_sound h) (groups_list r)"
  "keeps (api_sound h) (groups_discover h r)" "keeps (api_sound h) (groups_get r)" "keeps (api_sound h) (groups_join h r)"
  "keeps (api_sound h) (groups_invite r)" "keeps (api_sound h) (groups_joinInvite h r)" "keeps (api_sound h) (groups_createVoice h r)"
  "keeps (api_sound h) (groups_joinVoice h r)" "keeps (api_sound h) (groups_leaveVoice r)" "keeps (api_sound h) (groups_deleteVoice r)"
  "keeps (api_sound h) (groups_events r)" "keeps (api_sound h) (events_stop u n)"
  unfolding groups_create_def groups_profile_def groups_delete_def groups_leave_def groups_removeMember_def
    groups_list_def groups_discover_def groups_get_def groups_join_def groups_invite_def groups_joinInvite_def
    groups_createVoice_def groups_joinVoice_def groups_leaveVoice_def groups_deleteVoice_def groups_events_def
    events_stop_def
  by (intro keeps_intros)+

lemma Download_keeps [keeps_intros]: "keeps I (Store_Attachment aid)" "keeps I (IsGroupMember g u)" "keeps I (Download r)"
proof -
  show a: "keeps I (Store_Attachment aid)" for aid
    unfolding Store_Attachment_def attachments_Get_def by (intro keeps_intros)
  show b: "keeps I (IsGroupMember g u)" for g u
    unfolding IsGroupMember_def by (intro keeps_intros)
  show "keeps I (Download r)"
    unfolding Download_def by (intro keeps_intros a b)
qed

text \<open>The checker of the disk is not the database.\<close>

definition disk_apart :: "(database \<Rightarrow> bool) \<Rightarrow> ('p, 'q, 'z group_world_scheme) api \<Rightarrow> bool" where
  "disk_apart I h \<longleftrightarrow> (\<forall>st free. api_attachments h = Some st \<longrightarrow> st_disk st = Some free \<longrightarrow> keeps I free)"

lemma chat_handlers_sound [keeps_intros]:
  assumes "disk_apart (api_sound h) h"
  shows "keeps (api_sound h) (chat_Messages r)" "keeps (api_sound h) (chat_Send h r)" "keeps (api_sound h) (chat_Delete r)"
    "keeps (api_sound h) (chat_Typing h r)" "keeps (api_sound h) (chat_Read h r)"
proof -
  have reads: "keeps (api_sound h) (open_upload i)" for i
    unfolding open_upload_def by (intro keeps_intros)
  have disk: "keeps (api_sound h) free" if "api_attachments h = Some st" "st_disk st = Some free" for st free
    using assms that unfolding disk_apart_def by simp
  have upload: "keeps (api_sound h) (sendMultipart h r)"
    unfolding sendMultipart_def by (intro keeps_intros Prepare_keeps reads disk)
  show "keeps (api_sound h) (chat_Messages r)" "keeps (api_sound h) (chat_Send h r)" "keeps (api_sound h) (chat_Delete r)"
    "keeps (api_sound h) (chat_Typing h r)" "keeps (api_sound h) (chat_Read h r)"
    unfolding chat_Messages_def chat_Send_def chat_Delete_def chat_Typing_def chat_Read_def
    by (intro keeps_intros upload)+
qed

lemma health_keeps [keeps_intros]: "keeps I (healthz r)" "keeps I (readyz r)"
  unfolding healthz_def readyz_def by (intro keeps_intros)+

text \<open>The middleware keeps what the handler behind it keeps.\<close>

lemma session_middleware_sound [keeps_intros]:
  assumes "\<And>r. keeps (api_sound h) (next r)"
  shows "keeps (api_sound h) (authenticate c s next r)" "keeps (api_sound h) (optionalAuthenticate c s next r)"
    "keeps (api_sound h) (userRateLimit cfg next r)"
  unfolding authenticate_def optionalAuthenticate_def userRateLimit_def allowRequest_def
  by (intro keeps_intros assms)+

lemma outer_middleware_keeps [keeps_intros]:
  assumes "\<And>r. keeps I (next r)"
  shows "keeps I (recoverer next r)" "keeps I (cors origins next r)" "keeps I (csrf origins next r)"
    "keeps I (bodyLimit n next r)"
  unfolding recoverer_def cors_def add_headers_def csrf_def bodyLimit_def Let_def
  by (intro keeps_intros assms)+

lemma limits_sound [keeps_intros]:
  assumes "\<And>r. keeps (api_sound h) (next r)"
  shows "keeps (api_sound h) (rateLimit c cfg next r)" "keeps (api_sound h) (abuseGuard c s cfg next r)"
proof -
  have all: "keeps (api_sound h) (allow_all cfg checks)" for checks
    by (induction cfg checks rule: allow_all.induct) (auto simp: allowRequest_def intro!: keeps_intros)
  show "keeps (api_sound h) (rateLimit c cfg next r)"
    unfolding rateLimit_def by (intro keeps_intros all assms)
  show "keeps (api_sound h) (abuseGuard c s cfg next r)"
    unfolding abuseGuard_def account_check_def address_check_def noting_refusal_def Let_def
    by (intro keeps_intros assms)
qed

lemma dispatch_keeps:
  assumes "\<And>key h r. (key, h) \<in> set table \<Longrightarrow> keeps I (h r)"
  shows "keeps I (dispatch mux table r)"
  unfolding dispatch_def
  by (auto intro!: keeps_intros assms dest: map_of_SomeD split: route_match.split option.split)

lemma routes_sound:
  assumes "1 \<le> svc_maxMembers (api_service h)" "disk_apart (api_sound h) h" "(key, k) \<in> set (routes h)"
  shows "keeps (api_sound h) (k r)"
proof -
  have quotas: "keeps (api_sound h) (k r)" if "(key, k) \<in> set (quota_routes h)" for key k r
    using that by (auto simp: quota_routes_def intro: keeps_intros split: option.splits)
  have member: "keeps (api_sound h) (k r)" if "(key, k) \<in> set (member_routes h)" for key k r
    using that assms(1,2) unfolding member_routes_def by (auto intro: keeps_intros chat_handlers_sound quotas)
  have public: "keeps (api_sound h) (k r)" if "(key, k) \<in> set public_routes" for key k r
    using that assms(2) unfolding public_routes_def by (auto intro: keeps_intros chat_handlers_sound)
  have visitor: "keeps (api_sound h) (k r)" if "(key, k) \<in> set (open_routes h)" for key k r
    using that unfolding open_routes_def by (auto intro: keeps_intros)
  show ?thesis
    using assms(3) unfolding routes_def wrapped_def by (auto intro!: session_middleware_sound intro: member public visitor)
qed

theorem server_keeps_sound:
  assumes "1 \<le> svc_maxMembers (api_service h)" "disk_apart (api_sound h) h"
  shows "keeps (api_sound h) (NewWithOptions mux h r)"
  unfolding NewWithOptions_def
  by (intro outer_middleware_keeps limits_sound dispatch_keeps routes_sound [OF assms])

end
