(* ===== verification/Program.thy ===== *)
theory Program
  imports ServerLaws
begin

text \<open>
  \<^verbatim>\<open>cmd/api/main.go\<close>: how the services are made from the configuration, what runs beside the
  requests (the cleanup of every minute, the cleanup of groups, the watch over the disk), and
  the states the running program can reach.
\<close>

section \<open>Wiring\<close>

text \<open>What the program takes from outside the repository.\<close>

record ('p, 'q, 'w) platform =
  pl_front :: "'p front"
  pl_crypto :: crypto
  pl_temp :: temporary
  pl_sniffing :: sniffing
  pl_archives :: archive_readers
  pl_imaging :: "'q imaging"
  pl_ffmpeg :: "string \<Rightarrow> int option"
  pl_FreeBytes :: "('w, attach_error, 64 word) action"

definition main_security :: "config \<Rightarrow> abuse_config" where
  "main_security cfg = DefaultConfig\<lparr>
     TrustedProxies := cfg_TrustedProxies cfg,
     BucketTTL := RateLimitBucketTTL cfg,
     MaxMessageRunes := cfg_MaxMessageRunes cfg,
     MaxLinks := MaxMessageLinks cfg,
     MaxMentions := MaxMessageMentions cfg,
     IPBanThreshold := cfg_IPBanThreshold cfg,
     IPBanWindow := cfg_IPBanWindow cfg,
     IPBanSteps := cfg_IPBanSteps cfg,
     IPBanEscalationForget := cfg_IPBanEscalationForget cfg,
     AccountBanWindow := cfg_AccountBanWindow cfg,
     AccountBanDeletionCount := cfg_AccountBanDeletionCount cfg\<rparr>"

definition main_service :: "config \<Rightarrow> service" where
  "main_service cfg =
     WithSessionPolicy (New_Service (cfg_RoomTTL cfg) (LiveKitTokenTTL cfg) (MaxRoomParticipants cfg))
       (cfg_SessionTTL cfg) (cfg_SessionIdleTTL cfg)"

definition main_groups :: "('p, 'q, 'w) platform \<Rightarrow> config \<Rightarrow> group_service" where
  "main_groups p cfg =
     WithCleanup
       (WithMessageGuard
         (WithLimits (Groups_New (front_unicode (pl_front p)) (pl_crypto p))
           \<lparr>MaxUserGroups = cfg_MaxUserGroups cfg, DiscoverMinMembers = cfg_DiscoverMinMembers cfg\<rparr>)
         (main_security cfg))
       \<lparr>InactiveAfter = InactiveGroupTTL cfg, DeleteGrace = GroupDeleteGrace cfg, BatchSize = GroupCleanupBatch cfg,
        DryRun = GroupCleanupDryRun cfg\<rparr>"

definition main_limits :: "config \<Rightarrow> attachment_limits" where
  "main_limits cfg =
     \<lparr>MaxInputMediaBytes = AttachmentMaxInputMediaBytes cfg, MaxArchiveBytes = AttachmentMaxArchiveBytes cfg,
      MaxOutputMediaBytes = AttachmentMaxOutputMediaBytes cfg, MaxFilesPerMessage = AttachmentMaxFilesPerMessage cfg,
      MaxUserStoredBytes = AttachmentMaxUserStoredBytes cfg, MaxUserDailyBytes = AttachmentMaxUserDailyBytes cfg,
      MaxTotalBytes = AttachmentMaxTotalBytes cfg, MinFreeBytes = LowDiskMinFreeBytes cfg,
      Retention = AttachmentRetention cfg, StorageDir = AttachmentStorageDir cfg\<rparr>"

definition main_processor :: "('p, 'q, 'w) platform \<Rightarrow> config \<Rightarrow> 'q processor" where
  "main_processor p cfg =
     \<lparr>p_MaxInputMedia = sint (AttachmentMaxInputMediaBytes cfg), p_MaxArchive = sint (AttachmentMaxArchiveBytes cfg),
      p_MaxOutputMedia = sint (AttachmentMaxOutputMediaBytes cfg), p_temp = pl_temp p, p_sniffing = pl_sniffing p,
      p_archives = pl_archives p, p_imaging = pl_imaging p, p_ffmpeg = pl_ffmpeg p\<rparr>"

definition main_api :: "('p, 'q, 'w) platform \<Rightarrow> config \<Rightarrow> ('p, 'q, 'w) api" where
  "main_api p cfg =
     \<lparr>api_front = pl_front p, api_crypto = pl_crypto p, api_service = main_service cfg,
      api_groups = main_groups p cfg, api_security = main_security cfg, api_origins = CORSAllowedOrigins cfg,
      api_cookie_secure = cfg_SessionCookieSecure cfg,
      api_attachments = Some \<lparr>st_base = AttachmentStorageDir cfg, st_limits = main_limits cfg,
        st_disk = Some (pl_FreeBytes p), st_processor = main_processor p cfg\<rparr>,
      api_quotas = Some (main_limits cfg)\<rparr>"

section \<open>Beside the requests\<close>

text \<open>What a deletion that was published fails with is only logged.\<close>

definition main_publish :: "string \<Rightarrow> string \<Rightarrow> ('z group_world_scheme, attach_error, unit) action" where
  "main_publish gid mid = map_error (\<lambda>_. OsFailed) (PublishMessageDeleted gid mid)"

definition every_minute :: "config \<Rightarrow> ('z group_world_scheme, app_error, unit) action" where
  "every_minute cfg =
     App_cleanup (Some (RunOnce (AttachmentStorageDir cfg) (LowDiskCleanupBatch cfg)
       (Some (RunDueDeletes (Some main_publish)))))"

text \<open>The passes of an emergency cleanup, ten at most; none of its parts returns an error.\<close>

fun low_disk_passes :: "nat \<Rightarrow> ('z group_world_scheme, attach_error, 64 word) action \<Rightarrow> config \<Rightarrow> 64 word
   \<Rightarrow> ('z group_world_scheme, 'e, unit) action" where
  "low_disk_passes 0 FreeBytes cfg after = ret ()"
| "low_disk_passes (Suc passes) FreeBytes cfg after =
     (if after \<ge> LowDiskMinFreeBytes cfg then ret ()
      else
      andThen (attempt (EmergencyCleanup (LowDiskCleanupBatch cfg))) (\<lambda>appStats.
      andThen (attempt (Groups_EmergencyCleanup \<lparr>ec_InactiveAfter = InactiveGroupTTL cfg,
        ec_MessageMinAge = LowDiskMessageMinAge cfg, ec_BatchSize = LowDiskCleanupBatch cfg\<rparr>)) (\<lambda>groupStats.
      andThen (attempt FreeBytes) (\<lambda>free.
      case (appStats, groupStats, free) of
        (Inr a, Inr g, Inr after) \<Rightarrow>
          if InactiveUsersDeleted a + InactiveGroupsDeleted g + OldMessagesDeleted g = 0 then ret ()
          else low_disk_passes passes FreeBytes cfg after
      | _ \<Rightarrow> ret ()))))"

definition check_disk :: "('z group_world_scheme, attach_error, 64 word) action \<Rightarrow> config
   \<Rightarrow> ('z group_world_scheme, 'e, unit) action" where
  "check_disk FreeBytes cfg =
     andThen (attempt FreeBytes) (\<lambda>free.
     case free of
       Inl _ \<Rightarrow> ret ()
     | Inr free \<Rightarrow> if free \<ge> LowDiskMinFreeBytes cfg then ret () else low_disk_passes 10 FreeBytes cfg free)"

section \<open>The states of the program\<close>

text \<open>
  The program starts on an empty database and takes its steps in any order. Between them
  anything but the database may change: time, files, failures to come, and what a restart
  forgets.
\<close>

inductive reachable ::
  "mux \<Rightarrow> ('p, 'q, 'z group_world_scheme) platform \<Rightarrow> config \<Rightarrow> 'z group_world_scheme \<Rightarrow> bool"
  for mux p cfg where
  started: "w_db w = empty_db \<Longrightarrow> reachable mux p cfg w"
| request: "reachable mux p cfg w \<Longrightarrow> NewWithOptions mux (main_api p cfg) r w = (resp, w') \<Longrightarrow> reachable mux p cfg w'"
| stream_end: "reachable mux p cfg w \<Longrightarrow> events_stop u stream w = (x, w') \<Longrightarrow> reachable mux p cfg w'"
| minute_passed: "reachable mux p cfg w \<Longrightarrow> every_minute cfg w = (y, w') \<Longrightarrow> reachable mux p cfg w'"
| group_cleanup: "reachable mux p cfg w \<Longrightarrow> Groups_Cleanup (main_groups p cfg) w = (z, w') \<Longrightarrow> reachable mux p cfg w'"
| disk_check: "reachable mux p cfg w \<Longrightarrow> check_disk (pl_FreeBytes p) cfg w = (v :: unit + unit, w')
    \<Longrightarrow> reachable mux p cfg w'"
| elsewhere: "reachable mux p cfg w \<Longrightarrow> w_db w' = w_db w \<Longrightarrow> reachable mux p cfg w'"

inductive_simps reachable_simps: "reachable mux p cfg w"

section \<open>Every reachable database is sound\<close>

lemma background_sound:
  "keeps (sound n k) (every_minute cfg)" "keeps (sound n k) free \<Longrightarrow> keeps (sound n k) (check_disk free cfg)"
proof -
  have publish: "keeps (sound n k) (main_publish g m)" for g m
    unfolding main_publish_def by (intro keeps_intros)
  show "keeps (sound n k) (every_minute cfg)"
    unfolding every_minute_def by (rule App_cleanup_sound) (auto intro!: RunOnce_sound RunDueDeletes_sound publish)
  show "keeps (sound n k) (check_disk free cfg)" if "keeps (sound n k) free"
  proof -
    have "keeps (sound n k) (low_disk_passes passes free cfg after)" for passes after
      by (induction passes arbitrary: after) (auto intro!: keeps_intros that split: sum.split)
    then show ?thesis
      unfolding check_disk_def by (intro keeps_intros that)
  qed
qed

lemma empty_sound: "sound n k empty_db"
  by (simp add: sound_def rooms_ok_def voice_ok_def owners_ok_def owned_groups_def empty_db_def empty_db_wf [unfolded empty_db_def])

text \<open>
  C1: In every state the program can reach, started with any configuration it accepts, by any
  requests, cleanups, restarts and failures in any order, the keys and references of the
  database are intact, no room holds more members than configured and none marked empty has
  members, no group has more than five voice rooms, and nobody owns more groups than
  configured.
\<close>

theorem program_sound:
  assumes "reachable mux p cfg w" "Load parse lower env = Inr cfg" "\<And>I. keeps I (pl_FreeBytes p)"
  shows "sound (MaxRoomParticipants cfg) (cfg_MaxUserGroups cfg) (w_db w)"
  (is "?I (w_db w)")
  using assms(1)
proof induction
  case (request w r resp w')
  have "1 \<le> MaxRoomParticipants cfg"
    using Load_counts [OF assms(2)] by simp
  then have "keeps (api_sound (main_api p cfg)) (NewWithOptions mux (main_api p cfg) r)"
    by (intro server_keeps_sound)
      (auto simp: main_api_def main_service_def New_Service_def WithSessionPolicy_def disk_apart_def assms(3))
  then have step: "keeps ?I (NewWithOptions mux (main_api p cfg) r)"
    by (simp add: main_api_def main_service_def New_Service_def WithSessionPolicy_def main_groups_def
        WithCleanup_def WithMessageGuard_def WithLimits_def)
  show ?case by (rule keeps_resultD [OF step request.hyps(2) request.IH])
next
  case (started w)
  then show ?case by (simp add: empty_sound)
next
  case (stream_end w u stream x w')
  have step: "keeps ?I (events_stop u stream)"
    unfolding events_stop_def by (rule keeps_intros)
  show ?case by (rule keeps_resultD [OF step stream_end.hyps(2) stream_end.IH])
next
  case (minute_passed w y w')
  show ?case by (rule keeps_resultD [OF background_sound(1) minute_passed.hyps(2) minute_passed.IH])
next
  case (group_cleanup w z w')
  have step: "keeps ?I (Groups_Cleanup (main_groups p cfg))" by (rule keeps_intros)
  show ?case by (rule keeps_resultD [OF step group_cleanup.hyps(2) group_cleanup.IH])
next
  case (disk_check w v w')
  show ?case by (rule keeps_resultD [OF background_sound(2) [OF assms(3)] disk_check.hyps(2) disk_check.IH])
qed simp

text \<open>A small platform, and a registration that reaches a program just started on it.\<close>

definition plain_front :: "unit front" where
  "plain_front =
     \<lparr>read_json = \<lambda>b. if body_text b = [] then JEnd else JValue (JObject
        [(''email'', JString ''a@b.c''), (''password'', JString ''long enough'')]) (b\<lparr>body_text := []\<rparr>),
      mail_ParseAddress = Some, profile_form = \<lambda>r. (None, False), ParseMultipartForm = \<lambda>r. None,
      front_codec = \<lparr>DetectContentType = \<lambda>s. ''image/png'', DecodeConfig = \<lambda>s. None, Decode = \<lambda>s. None,
        JpegEncode = \<lambda>p q. None, Base64 = \<lambda>s. s\<rparr>,
      front_unicode = ascii\<rparr>"

definition plain_platform :: "(unit, unit, group_world) platform" where
  "plain_platform =
     \<lparr>pl_front = plain_front, pl_crypto = plain_voice, pl_temp = tmp_names, pl_sniffing = plain_sniffing,
      pl_archives = two_entries, pl_imaging = no_pictures, pl_ffmpeg = \<lambda>path. None, pl_FreeBytes = ret 100\<rparr>"

definition registration :: request where
  "registration =
     \<lparr>Method = ''POST'', URLPath = ''/v1/auth/register'', RemoteAddr = ''192.0.2.1:4000'', Host = ''localhost'',
      TLS = False, ContentLength = 2, header = \<lambda>name. [], cookie = \<lambda>name. None, query = \<lambda>name. [],
      req_body = \<lparr>body_text = ''{}'', body_max = None\<rparr>, url_param = \<lambda>name. [], ctx_user = None\<rparr>"

lemma program_sound_witness:
  "\<exists>cfg. default_settings = Inr cfg \<and> sound (MaxRoomParticipants cfg) (cfg_MaxUserGroups cfg)
     (w_db (snd (NewWithOptions (\<lambda>table r. Found (Method r, URLPath r) (\<lambda>name. [])) (main_api plain_platform cfg)
       registration (groups_on empty_db 0 (replicate 48 7)))))"
proof -
  obtain cfg where run: "default_settings = Inr cfg"
    using default_loads by (auto split: sum.splits)
  let ?mux = "\<lambda>table r. Found (Method r, URLPath r) (\<lambda>name. [])"
  let ?run = "NewWithOptions ?mux (main_api plain_platform cfg) registration (groups_on empty_db 0 (replicate 48 7))"
  have "reachable ?mux plain_platform cfg (groups_on empty_db 0 (replicate 48 7))"
    by (rule reachable.started) simp
  then have "reachable ?mux plain_platform cfg (snd ?run)"
    by (rule reachable.request) (rule prod.collapse [symmetric])
  moreover have "keeps I (pl_FreeBytes plain_platform)" for I
    by (simp add: plain_platform_def keeps_intros)
  ultimately show ?thesis
    using program_sound run unfolding default_settings_def by blast
qed

end
