(* ===== verification/WebLaws.thy ===== *)
theory WebLaws
  imports Program CleanupLaws
begin

text \<open>
  What the HTTP layer promises: every request is answered, foreign pages and strangers change
  nothing, the room codes it hands out are codes it accepts, downloads are for members, the
  cookie of a new account opens its session; and two ways around the limits.
\<close>

section \<open>Responses\<close>

definition yields :: "('a \<Rightarrow> bool) \<Rightarrow> ('w, 'e, 'a) action \<Rightarrow> bool" where
  "yields Q m \<longleftrightarrow> (\<forall>w x w1. m w = (Inr x, w1) \<longrightarrow> Q x)"

named_theorems yields_intros \<open>what the results of the handlers are\<close>

lemma yieldsD: "yields Q m \<Longrightarrow> m w = (Inr x, w1) \<Longrightarrow> Q x"
  by (auto simp: yields_def)

lemma yields_then: "yields P m \<Longrightarrow> (\<And>x. P x \<Longrightarrow> yields Q (f x)) \<Longrightarrow> yields Q (andThen m f)"
  unfolding yields_def by (blast elim: andThen_InrE)

lemma yields_rules [yields_intros]:
  "Q x \<Longrightarrow> yields Q (ret x)" "yields Q (raise e)"
  "(\<And>x. yields Q (f x)) \<Longrightarrow> yields Q (andThen m f)"
  "(b \<Longrightarrow> yields Q m1) \<Longrightarrow> (\<not> b \<Longrightarrow> yields Q m2) \<Longrightarrow> yields Q (if b then m1 else m2)"
  "yields Q (k y) \<Longrightarrow> yields Q (let x = y in k x)"
  by (auto simp: yields_def ret_def raise_def elim!: andThen_InrE)

lemma yields_cases [yields_intros]:
  "(o1 = None \<Longrightarrow> yields Q m) \<Longrightarrow> (\<And>y. o1 = Some y \<Longrightarrow> yields Q (f y)) \<Longrightarrow> yields Q (case o1 of None \<Rightarrow> m | Some y \<Rightarrow> f y)"
  "(\<And>e. s = Inl e \<Longrightarrow> yields Q (g e)) \<Longrightarrow> (\<And>y. s = Inr y \<Longrightarrow> yields Q (k y)) \<Longrightarrow>
   yields Q (case s of Inl e \<Rightarrow> g e | Inr y \<Rightarrow> k y)"
  "(\<And>a b. p = (a, b) \<Longrightarrow> yields Q (h a b)) \<Longrightarrow> yields Q (case p of (a, b) \<Rightarrow> h a b)"
  by (auto split: option.split sum.split prod.split)

lemma yields_panic [yields_intros]: "yields Q panic"
  unfolding panic_def by (rule yields_intros)

lemma yields_map_error [yields_intros]: "yields Q m \<Longrightarrow> yields Q (map_error f m)"
  unfolding yields_def by (blast elim: map_error_InrE)

lemma yields_attempt: "yields Q m \<Longrightarrow> yields (pred_sum (\<lambda>_. True) Q) (attempt m)"
  unfolding yields_def attempt_run
proof (intro allI impI)
  fix w x w1
  assume "\<forall>w x w1. m w = (Inr x, w1) \<longrightarrow> Q x" and run: "(Inr (fst (m w)), snd (m w)) = (Inr x, w1)"
  then show "pred_sum (\<lambda>_. True) Q x"
    by (cases "m w"; cases "fst (m w)") auto
qed

lemma written [simp]:
  "status (writeJSON code b) = code" "status (writeError code name) = code" "status no_content = 204"
  "status (with_header k v resp) = status resp" "status (no_store resp) = status resp"
  "payload (writeJSON code b) = b" "payload (writeError code name) = ErrorBody name" "cookies (writeJSON code b) = []" "cookies (writeError code name) = []"
  "cookies (no_store resp) = cookies resp" "payload (no_store resp) = payload resp"
  by (simp_all add: writeJSON_def writeError_def no_content_def with_header_def no_store_def)

lemma yields_retry [yields_intros]: "Q (status resp) \<Longrightarrow> yields (\<lambda>x. Q (status x)) (writeRetryAfter until resp)"
  unfolding writeRetryAfter_def by (intro yields_intros) simp

lemma recoverer_answers: "\<exists>resp w1. recoverer next r w = (Inr resp, w1)"
  unfolding recoverer_def by (auto simp: andThen_run attempt_run ret_run split: prod.split sum.split)

text \<open>
  Every request is answered. Whatever panics in a handler or in the middleware, in
  whatever state and whatever fails, the server writes a response.
\<close>

lemma server_answers: "\<exists>resp w1. NewWithOptions mux h r w = (Inr resp, w1)"
  unfolding NewWithOptions_def by (rule recoverer_answers)

section \<open>Foreign pages\<close>

text \<open>A request of a browser for a page that is neither ours nor allowed.\<close>

definition foreign :: "string list \<Rightarrow> request \<Rightarrow> bool" where
  "foreign origins r \<longleftrightarrow>
     (header r ''Origin'' \<noteq> [] \<or> header r ''Sec-Fetch-Site'' = ''cross-site'')
     \<and> header r ''Origin'' \<noteq> csrf_scheme r @ ''://'' @ Host r \<and> \<not> List.member origins (header r ''Origin'')"

text \<open>
  C3: A foreign page cannot act for a user. A request that is not a read and carries the
  cookie of a session but no bearer token is refused, and nothing at all changes, when the
  browser says it comes from an origin that is neither the server's own nor allowed.
\<close>

theorem csrf_rejects:
  fixes w :: "'z group_world_scheme"
  assumes "hasSessionCookie r" "bearerToken r = []" "\<not> List.member [''GET'', ''HEAD'', ''OPTIONS''] (Method r)"
    and "foreign (api_origins h) r"
  shows "\<exists>resp. NewWithOptions mux h r w = (Inr resp, w) \<and> status resp = 403"
proof -
  have "Method r \<noteq> ''OPTIONS''" using assms(3) by auto
  moreover have "csrf (api_origins h) next r = ret (writeError 403 ''csrf_rejected'')" for "next" :: "'z handler"
    using assms unfolding csrf_def foreign_def Let_def by auto
  ultimately show ?thesis
    unfolding NewWithOptions_def recoverer_def cors_def add_headers_def
    by (simp add: andThen_run attempt_run ret_run map_error_run)
qed

text \<open>A server that allows one origin, and a registration another page forges for somebody logged in.\<close>

definition plain_api :: "(unit, unit, group_world) api" where
  "plain_api = main_api plain_platform (no_settings\<lparr>CORSAllowedOrigins := [''https://app.example'']\<rparr>)"

definition path_mux :: mux where
  "path_mux table r = Found (Method r, URLPath r) (\<lambda>name. [])"

definition forged :: request where
  "forged = registration\<lparr>
     cookie := \<lambda>name. if name = sessionCookieName then Some ''t1'' else None,
     header := \<lambda>name. if name = ''Origin'' then ''https://evil.example'' else []\<rparr>"

lemma csrf_rejects_witness:
  "\<exists>resp. NewWithOptions path_mux plain_api forged (groups_on empty_db 0 []) = (Inr resp, groups_on empty_db 0 [])
     \<and> status resp = 403"
proof (rule csrf_rejects)
  show "hasSessionCookie forged" "bearerToken forged = []" "\<not> List.member [''GET'', ''HEAD'', ''OPTIONS''] (Method forged)"
    by code_simp+
  show "foreign (api_origins plain_api) forged"
    by (simp add: foreign_def plain_api_def main_api_def forged_def registration_def csrf_scheme_def)
qed

section \<open>Strangers\<close>

text \<open>Databases that differ in the counters of the limits and in the bans of addresses only.\<close>

definition but_counters :: "database \<Rightarrow> database \<Rightarrow> bool" where
  "but_counters d d' \<longleftrightarrow> d'\<lparr>t_buckets := t_buckets d, t_bans := t_bans d\<rparr> = d"

lemma but_counters_updates:
  "but_counters d e \<Longrightarrow> but_counters d (e\<lparr>t_buckets := bs\<rparr>)" "but_counters d e \<Longrightarrow> but_counters d (e\<lparr>t_bans := vs\<rparr>)"
  by (simp_all add: but_counters_def)

lemma counters_keep [keeps_intros]:
  "keeps (but_counters d) (Allow cfg scope subject cap)"
  "keeps (but_counters d) (Limiter_NoteViolation cfg ip)"
  "keeps (but_counters d) (Banned ip)"
  unfolding Allow_def Limiter_NoteViolation_def noteViolation_def Banned_def TakeRateLimit_def upsertRateBucket_def
    NoteViolation_def IPBanActive_def Let_def
  by (intro keeps_intros; simp add: but_counters_updates)+

lemma anonymous_middleware_keeps:
  assumes behind: "keeps (but_counters d) (next r)" and token: "sessionToken r = []"
  shows "keeps (but_counters d) (rateLimit c cfg next r)" "keeps (but_counters d) (abuseGuard c s cfg next r)"
proof -
  have all: "keeps (but_counters d) (allow_all cfg checks)" for checks
    by (induction cfg checks rule: allow_all.induct) (auto simp: allowRequest_def intro!: keeps_intros)
  show "keeps (but_counters d) (rateLimit c cfg next r)"
    unfolding rateLimit_def by (intro keeps_intros all behind)
  show "keeps (but_counters d) (abuseGuard c s cfg next r)"
    unfolding abuseGuard_def address_check_def noting_refusal_def Enforcer_NoteViolation_def Enforcer_Banned_def Let_def token
    by simp (intro keeps_intros behind)
qed

text \<open>A refusal is one of the responses that end a request before its handler.\<close>

definition refusal :: "int \<Rightarrow> bool" where
  "refusal code \<longleftrightarrow> List.member [204, 401, 403, 413, 429, 500] code"

lemma refusals [simp]: "refusal 204" "refusal 401" "refusal 403" "refusal 413" "refusal 429" "refusal 500"
  by (simp_all add: refusal_def)

abbreviation refused :: "response option \<Rightarrow> bool" where
  "refused \<equiv> pred_option (\<lambda>resp. refusal (status resp))"

lemma checks_refuse:
  "yields refused (allowRequest cfg scope subject limit)" "yields refused (allow_all cfg checks)"
  "yields refused (account_check c s token)" "yields refused (address_check ip)"
proof -
  show one: "yields refused (allowRequest cfg scope subject limit)" for cfg scope subject limit
    unfolding allowRequest_def by (intro yields_intros) simp_all
  show "yields refused (allow_all cfg checks)"
    by (induction cfg checks rule: allow_all.induct)
      (auto intro!: yields_intros yields_then [OF one] split: option.split)
  have retry: "yields refused (andThen (writeRetryAfter until (writeError 429 name)) (\<lambda>resp. ret (Some resp)))" for until name
    by (rule yields_then [OF yields_retry [where Q = refusal]]) (auto intro!: yields_intros)
  show "yields refused (account_check c s token)" "yields refused (address_check ip)"
    unfolding account_check_def address_check_def by (intro yields_intros retry; simp)+
qed

lemma refusing_checks:
  assumes "yields (\<lambda>resp. refusal (status resp)) (next r)"
  shows "yields (\<lambda>resp. refusal (status resp)) (rateLimit c cfg next r)"
    "yields (\<lambda>resp. refusal (status resp)) (abuseGuard c s cfg next r)"
proof -
  show "yields (\<lambda>resp. refusal (status resp)) (rateLimit c cfg next r)"
    unfolding rateLimit_def by (rule yields_then [OF checks_refuse(2)]) (auto intro!: yields_intros assms)
  have check: "yields refused (if b then account_check c s token else address_check ip)" for b token ip
    by (simp add: checks_refuse)
  have noted: "refusal (status resp) \<Longrightarrow> yields (\<lambda>resp. refusal (status resp)) (noting_refusal c s cfg token ip resp)" for token ip resp
    unfolding noting_refusal_def by (intro yields_intros)
  show "yields (\<lambda>resp. refusal (status resp)) (abuseGuard c s cfg next r)"
    unfolding abuseGuard_def Let_def
    by (rule yields_then [OF check]) (auto intro!: yields_intros yields_then [OF assms] noted)
qed

lemma outer_middleware_refuses:
  assumes "yields (\<lambda>resp. refusal (status resp)) (next r)"
  shows "yields (\<lambda>resp. refusal (status resp)) (csrf origins next r)"
    "yields (\<lambda>resp. refusal (status resp)) (cors origins next r)"
    "yields (\<lambda>resp. refusal (status resp)) (recoverer next r)"
proof -
  show "yields (\<lambda>resp. refusal (status resp)) (csrf origins next r)"
    unfolding csrf_def by (intro yields_intros assms) simp
  have "yields (\<lambda>resp. refusal (status resp)) (if Method r = ''OPTIONS'' then ret no_content else next r)"
    by (intro yields_intros assms) simp
  then show "yields (\<lambda>resp. refusal (status resp)) (cors origins next r)"
    unfolding cors_def add_headers_def by (intro yields_map_error yields_then [where P = "\<lambda>resp. refusal (status resp)"])
      (auto intro!: yields_intros)
  show "yields (\<lambda>resp. refusal (status resp)) (recoverer next r)"
    unfolding recoverer_def by (rule yields_then [OF yields_attempt [OF assms]])
      (auto intro!: yields_intros split: sum.split)
qed

text \<open>The request as it reaches the router.\<close>

definition limited :: "request \<Rightarrow> request" where
  "limited r = r\<lparr>req_body := (req_body r)\<lparr>body_max := Some maxBody\<rparr>\<rparr>"

lemma limited_simps [simp]:
  "sessionToken (limited r) = sessionToken r" "routeKey (limited r) = routeKey r"
  "request_clientIP (limited r) trusted = request_clientIP r trusted" "sessionToken (r\<lparr>url_param := params\<rparr>) = sessionToken r"
  by (simp_all add: limited_def sessionToken_def bearerToken_def routeKey_def request_clientIP_def Let_def)

text \<open>No route is both open and for members.\<close>

lemma map_of_wrapped: "map_of (wrapped m table) key = map_option m (map_of table key)"
  unfolding wrapped_def by (induction table) auto

lemma member_route_found:
  fixes h :: "('p, 'q, 'z group_world_scheme) api"
  assumes "key \<in> fst ` set (member_routes h)"
  obtains k where "map_of (routes h) key =
    Some (authenticate (api_crypto h) (api_service h) (userRateLimit (api_security h) k))"
proof -
  have "key \<notin> fst ` set (open_routes h)" "key \<notin> fst ` set (public_routes :: 'z route list)"
    using assms by (auto simp: member_routes_def quota_routes_def open_routes_def public_routes_def split: option.splits)
  then have "map_of (open_routes h) key = None" "map_of (public_routes :: 'z route list) key = None"
    by (simp_all add: map_of_eq_None_iff)
  moreover obtain k where "map_of (member_routes h) key = Some k"
    using assms by (metis map_of_eq_None_iff option.exhaust)
  ultimately have "map_of (routes h) key =
    Some (authenticate (api_crypto h) (api_service h) (userRateLimit (api_security h) k))"
    unfolding routes_def by (simp add: map_add_def map_of_wrapped)
  then show thesis by (rule that)
qed

text \<open>
  C2: Strangers are turned away. A request for any route of the members that carries neither a
  cookie of a session nor a bearer token is refused, whatever it holds, whatever the state and
  whatever fails, and of the database nothing changes but the counters of the limits and the
  bans of addresses: no handler of the members runs.
\<close>

theorem strangers_turned_away:
  fixes h :: "('p, 'q, 'z group_world_scheme) api"
  assumes token: "sessionToken r = []"
    and route: "mux (map fst (routes h)) (limited r) = Found key params" "key \<in> fst ` set (member_routes h)"
    and run: "NewWithOptions mux h r w = (Inr resp, w1)"
  shows "refusal (status resp) \<and> but_counters (w_db w) (w_db w1)"
proof -
  let ?c = "api_crypto h" and ?s = "api_service h" and ?cfg = "api_security h"
  obtain k where "map_of (routes h) key = Some (authenticate ?c ?s (userRateLimit ?cfg k))"
    using route(2) by (rule member_route_found)
  then have inner: "dispatch mux (routes h) (limited r) = ret (writeAppError ErrUnauthorized)"
    by (simp add: dispatch_def route(1) authenticate_def token)
  define checked where "checked = abuseGuard ?c ?s ?cfg (rateLimit ?c ?cfg (dispatch mux (routes h)))"
  have checked: "keeps (but_counters (w_db w)) (checked (limited r))" "yields (\<lambda>resp. refusal (status resp)) (checked (limited r))"
    unfolding checked_def
    by (intro anonymous_middleware_keeps refusing_checks; simp add: inner token keeps_intros yields_intros)+
  have "keeps (but_counters (w_db w)) (NewWithOptions mux h r)"
    using checked(1) unfolding NewWithOptions_def checked_def [symmetric] recoverer_def cors_def add_headers_def
      csrf_def bodyLimit_def Let_def limited_def
    by (intro keeps_intros)
  moreover have "yields (\<lambda>resp. refusal (status resp)) (NewWithOptions mux h r)"
    using checked(2) unfolding NewWithOptions_def checked_def [symmetric]
    by (intro outer_middleware_refuses) (auto simp: bodyLimit_def limited_def intro!: yields_intros)
  ultimately show ?thesis
    using run by (auto dest: yieldsD keeps_resultD simp: but_counters_def)
qed

definition stranger :: request where
  "stranger = registration\<lparr>Method := ''DELETE'', URLPath := ''/v1/me''\<rparr>"

lemma strangers_turned_away_witness:
  "\<exists>resp w1. NewWithOptions path_mux plain_api stranger (groups_on two_users 0 []) = (Inr resp, w1)
     \<and> refusal (status resp) \<and> but_counters two_users (w_db w1)"
proof -
  let ?w = "groups_on two_users 0 []"
  obtain resp w1 where run: "NewWithOptions path_mux plain_api stranger ?w = (Inr resp, w1)"
    using recoverer_answers unfolding NewWithOptions_def by blast
  have "sessionToken stranger = []" by code_simp
  moreover have "path_mux (map fst (routes plain_api)) (limited stranger) = Found (''DELETE'', ''/v1/me'') (\<lambda>name. [])"
    by (simp add: path_mux_def limited_def stranger_def)
  moreover have "(''DELETE'', ''/v1/me'') \<in> fst ` set (member_routes plain_api)"
    by (simp add: member_routes_def)
  ultimately have "refusal (status resp) \<and> but_counters (w_db ?w) (w_db w1)"
    using run by (rule strangers_turned_away)
  with run show ?thesis by auto
qed

section \<open>Around the limits\<close>

lemma Authenticate_fails:
  assumes "session_of (sha256 c token) (w_db w) = None"
  shows "\<exists>e w1. Authenticate c s token w = (Inl e, w1) \<and> w_db w1 = w_db w"
proof -
  let ?find = "UserBySessionHash (sha256 c token) (x_now w) (x_now w - sessionIdleTTL s)"
  obtain r w1 where run: "?find (ticked w) = (r, w1)" by (cases "?find (ticked w)")
  have kept: "keeps (\<lambda>d. d = w_db w) ?find"
    unfolding UserBySessionHash_def userBySessionQuery_def by (intro keeps_intros)
  then have same: "w_db w1 = w_db w"
    using keeps_resultD [OF kept run] by simp
  obtain e where "r = Inl e"
  proof (cases r)
    case (Inr u)
    then show ?thesis using UserBySessionHash_result [of _ _ _ _ u w1] run assms by fastforce
  qed
  then have "?find (ticked w) = (Inl e, w1)" using run by simp
  note fails = this same
  show ?thesis
    by (auto simp: Authenticate_def run_simps or_else_def from_db_def Let_def fails)
qed

text \<open>
  C5: Whoever sends an invented token is in nobody's books. A text that is the token of no
  session, in place of no token, lets the request pass the check that would have stopped a
  banned address, and a refusal is noted neither for an account nor for the address: nothing
  in the database changes, whatever the configuration, the bans and the failures.
\<close>

theorem invented_token_uncounted:
  assumes "session_of (sha256 c token) (w_db w) = None" "token \<noteq> []"
  shows "fst (account_check c s token w) = Inr None \<and> w_db (snd (account_check c s token w)) = w_db w
    \<and> fst (Enforcer_NoteViolation c s cfg token ip w) = Inr () \<and> w_db (snd (Enforcer_NoteViolation c s cfg token ip w)) = w_db w"
proof -
  obtain e w1 where "Authenticate c s token w = (Inl e, w1)" "w_db w1 = w_db w"
    using Authenticate_fails [OF assms(1)] by blast
  then show ?thesis
    using assms(2) by (simp add: account_check_def Enforcer_NoteViolation_def run_simps)
qed

lemma invented_token_uncounted_witness:
  "fst (account_check plain_voice small_service ''nonsense'' (groups_on one_session minute [])) = Inr None"
proof -
  have "session_of (sha256 plain_voice ''nonsense'') (w_db (groups_on one_session minute [])) = None" by code_simp
  then show ?thesis by (rule invented_token_uncounted [THEN conjunct1]) simp
qed


section \<open>Codes and downloads\<close>

text \<open>
  C16: The code of a new room is one the handlers of rooms accept, whatever the random source
  yields and however many codes were taken: no request that names it fails its test.
\<close>

theorem CreateRoom_code_accepted:
  assumes "CreateRoom s owner w = (Inr rm, w1)" "url_param r ''code'' = Code rm"
  shows "url_room_code r = Inr (Code rm)"
proof -
  obtain code wa wb now where code: "length code = 26" "set code \<subseteq> set code_alphabet"
    and get: "App_GetRoom s code (user_ID owner) wb = (Inr rm, w1)"
    using try_codes_result [OF assms(1) [unfolded CreateRoom_def]] by blast
  have "GetRoom code (user_ID owner) (x_now wb) (svc_maxMembers s) (ticked wb) = (Inr rm, w1)"
    using get unfolding App_GetRoom_def by (elim andThen_InrE now_InrE translated_InrE) simp
  then have "Code rm = code"
    using GetRoom_result by (fastforce simp: live_room_def split: option.splits if_splits dest: row_with_SomeD)
  moreover have "list_all room_code_char code_alphabet" by code_simp
  ultimately have "roomCodePattern (Code rm)"
    using code by (auto simp: roomCodePattern_def list_all_iff)
  then show ?thesis by (simp add: url_room_code_def assms(2))
qed

lemma CreateRoom_code_accepted_witness:
  "\<exists>rm w1. CreateRoom small_service someone (serving two_users hour (replicate 26 5)) = (Inr rm, w1)
     \<and> url_room_code (registration\<lparr>url_param := \<lambda>name. Code rm\<rparr>) = Inr (Code rm)"
proof -
  obtain rm w1 where run: "CreateRoom small_service someone (serving two_users hour (replicate 26 5)) = (Inr rm, w1)"
    using CreateRoom_example by blast
  from CreateRoom_code_accepted [OF this, of "registration\<lparr>url_param := \<lambda>name. Code rm\<rparr>"] run
  show ?thesis by auto
qed

lemma currentUser_InrE:
  assumes "currentUser r w = (Inr u, w1)"
  obtains "ctx_user r = Some u" "w1 = w"
  using assms by (auto simp: currentUser_def panic_def raise_run ret_run split: option.splits)

lemma Store_Attachment_InrE:
  assumes "Store_Attachment aid w = (Inr item, w1)"
  obtains a where "row_with a_id aid (t_attachments (w_db w)) = Some a" "item = as_attachment a"
    "w_db w1 = w_db w" "x_now w1 = x_now w"
  using assms unfolding Store_Attachment_def attachments_Get_def
  by (auto elim!: map_error_InrE andThen_InrE select_clock_InrE simp: raise_run ret_run split: option.splits)

lemma IsGroupMember_InrE:
  assumes "IsGroupMember g u w = (Inr True, w1)"
  obtains "group_member_of g u (w_db w)" "w_db w1 = w_db w" "x_now w1 = x_now w"
  using assms unfolding IsGroupMember_def group_member_of_def
  by (auto elim!: andThen_InrE select_clock_InrE simp: ret_run count_rows_def filter_empty_conv list_ex_iff)

text \<open>
  C4: A file is only sent to a member of the group its message is in, and only before it
  expires: whoever gets one is a user whose membership the database holds, and the file is
  the one of the row that was asked for. Sending it changes nothing in the database.
\<close>

theorem Download_members_only:
  assumes "Download r w = (Inr resp, w1)" "payload resp = FileBody path"
  shows "\<exists>a u. ctx_user r = Some u \<and> row_with a_id (url_param r ''id'') (t_attachments (w_db w)) = Some a
    \<and> a_path a = path \<and> group_member_of (a_group_id a) (user_ID u) (w_db w)
    \<and> x_now w < of_unix (a_expires_at a) \<and> status resp = 200 \<and> w_db w1 = w_db w"
proof -
  have kept: "keeps (\<lambda>d. d = w_db w) (Download r)" by (rule keeps_intros)
  have same: "w_db w1 = w_db w"
    using keeps_resultD [OF kept assms(1)] by simp
  show ?thesis
    using assms same unfolding Download_def
    by (auto elim!: andThen_InrE attempt_InrE now_InrE currentUser_InrE Store_Attachment_InrE IsGroupMember_InrE
        simp: ret_run as_attachment_def split: sum.splits if_splits)
qed

definition fetch :: request where
  "fetch = registration\<lparr>url_param := \<lambda>name. ''att_1'', ctx_user := Some (no_user\<lparr>user_ID := ''u2''\<rparr>)\<rparr>"

definition photo_world :: group_world where
  "photo_world = (groups_on (club_db\<lparr>t_attachments := [photo]\<rparr>) minute [])
     \<lparr>s_files := [''/a/at/att_1''], s_dirs := [''/a'', ''/a/at'']\<rparr>"

lemma fetched:
  "case fst (Download fetch photo_world) of
     Inl _ \<Rightarrow> False
   | Inr resp \<Rightarrow> (case payload resp of FileBody p \<Rightarrow> p = ''/a/at/att_1'' | _ \<Rightarrow> False)"
  by code_simp

lemma Download_members_only_witness:
  "group_member_of ''g'' ''u2'' (w_db photo_world) \<and> status (projr (fst (Download fetch photo_world))) = 200"
proof -
  obtain resp where ok: "fst (Download fetch photo_world) = Inr resp" "payload resp = FileBody ''/a/at/att_1''"
    using fetched by (auto split: sum.splits payload.splits)
  then have run: "Download fetch photo_world = (Inr resp, snd (Download fetch photo_world))"
    by (metis prod.collapse)
  have "url_param fetch ''id'' = ''att_1''" "ctx_user fetch = Some (no_user\<lparr>user_ID := ''u2''\<rparr>)"
    "t_attachments (w_db photo_world) = [photo]"
    by (simp_all add: fetch_def registration_def photo_world_def)
  with Download_members_only [OF run ok(2)] show ?thesis
    by (auto simp: ok(1) photo_def)
qed

section \<open>The cookie of a new account\<close>

lemma readAuth_refusal: "readAuth f r = Inl resp \<Longrightarrow> status resp = 400 \<or> status resp = 413"
  by (auto simp: readAuth_def Let_def split: sum.splits json_error.splits if_splits)

lemma users_register_result:
  fixes w :: "'z group_world_scheme"
  assumes "users_register h r w = (Inr resp, w1)" "status resp = 201"
  obtains email password acc w0 where "Register (api_crypto h) (api_service h) email password w = (Inr acc, w0)"
    "cookies resp = [\<lparr>c_Value = SessionToken acc, c_Secure = api_cookie_secure h,
       c_MaxAge = in_seconds (sessionTTL (api_service h)), c_Expires = x_now w0 + sessionTTL (api_service h)\<rparr>]"
    "payload resp = UserBody (OwnUser (account acc))" "w_db w1 = w_db w0"
proof -
  obtain email password where read: "readAuth (api_front h) r = Inr (email, password)"
    using assms readAuth_refusal [of "api_front h" r]
    by (cases "readAuth (api_front h) r") (auto simp: users_register_def with_read_def ret_run)
  have refused: "status (writeAppError e) \<noteq> 201" for e
    by (cases e rule: writeAppError.cases) simp_all
  obtain reg w0 where register: "Register (api_crypto h) (api_service h) email password w = (reg, w0)"
    by (cases "Register (api_crypto h) (api_service h) email password w")
  then obtain acc where "reg = Inr acc" "writeAuth h 201 acc w0 = (Inr resp, w1)"
    using assms refused unfolding users_register_def read with_read_def with_app_def
    by (cases reg) (auto simp: andThen_run attempt_run ret_run raise_run split: if_splits)
  with register that show thesis
    by (auto simp: writeAuth_def setSessionCookie_def Let_def run_simps)
qed

text \<open>
  C26: Registration works over HTTP. A browser that stores the cookie of the answer 201 and
  sends it back, at any instant before the absolute and the idle limit of the session, passes
  the check of the session and is shown the account it was answered with; only the instant of
  creation is cut to seconds.
\<close>

theorem register_opens_session:
  fixes w w2 :: "'z group_world_scheme"
  assumes wf: "wf_db (w_db w)" and run: "users_register h r w = (Inr resp, w1)" "status resp = 201"
    and later: "w_db w2 = w_db w1" "quiet w2"
    and limits: "unix (x_now w2) < unix (x_now w + sessionTTL (api_service h))"
      "unix (x_now w2 - sessionIdleTTL (api_service h)) < unix (x_now w)"
    and browser: "cookie r2 sessionCookieName = Some (c_Value (hd (cookies resp)))" "bearerToken r2 = []"
  shows "\<exists>su. payload resp = UserBody su \<and>
    fst (authenticate (api_crypto h) (api_service h) users_me r2 w2) =
      Inr (no_store (writeJSON 200 (UserBody (su\<lparr>su_CreatedAt := of_unix (unix (x_now w))\<rparr>))))"
proof -
  let ?c = "api_crypto h" and ?s = "api_service h"
  obtain email password acc w0 where acc: "Register ?c ?s email password w = (Inr acc, w0)"
    and cookie: "c_Value (hd (cookies resp)) = SessionToken acc"
    and body: "payload resp = UserBody (OwnUser (account acc))" and same: "w_db w1 = w_db w0"
    using run by (rule users_register_result) simp
  have token: "sessionToken r2 = SessionToken acc"
    using browser cookie by (simp add: sessionToken_def)
  obtain st where auth: "fst (Authenticate ?c ?s (SessionToken acc) w2) =
      Inr ((account acc)\<lparr>user_CreatedAt := of_unix (unix (x_now w)), Security := Some st\<rparr>)"
    using Register_authenticates [OF wf acc _ later(2) limits] later(1) same by auto
  have "SessionToken acc \<noteq> []"
    using auth by (auto simp: Authenticate_def raise_run)
  then have "fst (authenticate ?c ?s users_me r2 w2) =
      Inr (no_store (writeJSON 200 (UserBody (OwnUser ((account acc)\<lparr>user_CreatedAt := of_unix (unix (x_now w))\<rparr>)))))"
    using auth by (cases "Authenticate ?c ?s (SessionToken acc) w2")
      (simp add: authenticate_def token with_app_def users_me_def currentUser_def run_simps OwnUser_def)
  then show ?thesis using body by (simp add: OwnUser_def)
qed

definition plain_server :: "(unit, unit, group_world) api" where
  "plain_server = plain_api\<lparr>api_crypto := plain_crypto, api_service := small_service\<rparr>"

definition fresh_world :: group_world where
  "fresh_world = (groups_on empty_db hour (replicate 48 7))\<lparr>a_salts := [''$'']\<rparr>"

lemma registered:
  "\<exists>resp w1. users_register plain_server registration fresh_world = (Inr resp, w1) \<and> status resp = 201 \<and> quiet w1"
proof -
  have "readAuth plain_front registration = Inr (''a@b.c'', ''long enough'')" by code_simp
  moreover have "\<exists>acc w1. Register plain_crypto small_service ''a@b.c'' ''long enough'' fresh_world = (Inr acc, w1) \<and> quiet w1"
    by (simp add: Register_def random_bytes_def read_full_def GenerateFromPassword_def newSessionToken_def
        Let_def CreateUserWithSession_def transaction_quiet run_simps fresh_world_def groups_on_def plain_crypto_def quiet_def
        ticked_def insert_user_def insert_session_def guarded_def has_user_def empty_db_def)
  ultimately show ?thesis
    by (auto simp: users_register_def with_read_def with_app_def plain_server_def plain_api_def main_api_def
        plain_platform_def writeAuth_def setSessionCookie_def Let_def run_simps)
qed

lemma register_opens_session_witness:
  "\<exists>resp w1 su. users_register plain_server registration fresh_world = (Inr resp, w1) \<and> payload resp = UserBody su
   \<and> fst (authenticate plain_crypto small_service users_me
        (registration\<lparr>cookie := \<lambda>name. Some (c_Value (hd (cookies resp)))\<rparr>) (w1\<lparr>x_now := 2 * hour\<rparr>)) =
      Inr (no_store (writeJSON 200 (UserBody (su\<lparr>su_CreatedAt := hour\<rparr>))))"
proof -
  obtain resp w1 where run: "users_register plain_server registration fresh_world = (Inr resp, w1)" "status resp = 201"
    and quiet: "quiet w1"
    using registered by blast
  let ?r = "registration\<lparr>cookie := \<lambda>name. Some (c_Value (hd (cookies resp)))\<rparr>" and ?w2 = "w1\<lparr>x_now := 2 * hour\<rparr>"
  have parts: "api_service plain_server = small_service" "api_crypto plain_server = plain_crypto"
    "w_db fresh_world = empty_db" "x_now fresh_world = hour"
    by (simp_all add: plain_server_def fresh_world_def)
  have limits: "unix (2 * hour) < unix (hour + sessionTTL small_service)"
    "unix (2 * hour - sessionIdleTTL small_service) < unix hour" "of_unix (unix hour) = hour"
    by code_simp+
  have "bearerToken registration = []" by code_simp
  then have "bearerToken ?r = []" by (simp add: bearerToken_def)
  moreover have "quiet ?w2" using quiet by (simp add: quiet_def)
  ultimately have "\<exists>su. payload resp = UserBody su \<and> fst (authenticate plain_crypto small_service users_me ?r ?w2) =
      Inr (no_store (writeJSON 200 (UserBody (su\<lparr>su_CreatedAt := hour\<rparr>))))"
    using register_opens_session [OF _ run, of ?w2 ?r] limits by (simp add: parts empty_db_wf)
  with run(1) show ?thesis by blast
qed

end
