(* ===== verification/Spec2Isabelle.thy ===== *)
theory Spec2Isabelle
  imports Limiter GroupLaws CleanupLaws AppLaws UploadLaws SendLaws Program WebLaws
begin

text \<open>
  The backend of Threaden, \<^verbatim>\<open>src/backend\<close>, a server for groups with text messages, voice rooms
  and temporary rooms, written in Go over SQLite.

  \<^bold>\<open>The parts.\<close> A request passes the middleware and reaches a handler
  (\<^verbatim>\<open>internal/httpapi\<close>); the handler calls one of two services, \<^verbatim>\<open>internal/app\<close> for accounts,
  sessions and temporary rooms and \<^verbatim>\<open>internal/groups\<close> for groups, or the storage of attachments
  (\<^verbatim>\<open>internal/attachments\<close>); the services use the store (\<^verbatim>\<open>internal/store\<close>), the guard
  (\<^verbatim>\<open>internal/antispam\<close>), the limiter (\<^verbatim>\<open>internal/abuse\<close>), the hub that tells subscribers
  (\<^verbatim>\<open>internal/groups/hub\<close>), and the voice gateway. Beside the requests run the cleanup of every
  minute, the cleanup of groups and a watch over the disk (\<^verbatim>\<open>cmd/api/main.go\<close>).

  \<^bold>\<open>The state.\<close> Every operation is a function from a world to a result, an error or a value, and
  a new world (\<open>action\<close> in \<open>Sql\<close>). The world of the store is the database, one list of row
  records per table, and a schedule of the failures to come: any call of the database driver
  may fail, and every theorem that does not ask for a \<open>quiet\<close> world holds for every schedule.
  \<open>Runtime\<close> adds the clock with the ticks to come, the random bytes to come and the calls of the
  voice gateway with their failures; \<open>Storage\<close> the files, the failures of the operating system
  and the bytes reserved by uploads; \<open>Welcome\<close>, \<open>Antispam\<close> and \<open>GroupService\<close> what the services
  keep in memory: the cached counts, the warnings and the hub. The worlds extend each other as
  records, so an operation of the store runs unchanged in the world of a service. A transaction
  that fails restores the database. Instants and durations are integers in nanoseconds, rows
  hold seconds as the columns do; byte counts are words of 64 bits where the code has them.

  \<^bold>\<open>The theories.\<close>
  \<^item> \<open>Prelude\<close>: time, tables as lists of rows, generic lemmas. \<open>Utf8\<close>: bytes and runes.
    \<open>Paths\<close>: \<^verbatim>\<open>path/filepath\<close>, \<^verbatim>\<open>SanitizeName\<close>, \<^verbatim>\<open>unsafeName\<close>.
  \<^item> \<open>Schema\<close>, \<open>Integrity\<close>: the tables of \<^verbatim>\<open>store/schema\<close> after the last migration, with keys,
    checks, references and cascades, and that every insertion and deletion keeps them.
    \<open>Sql\<close>: the monad of the store with its transactions; the locale \<open>implementation\<close> relates a
    transaction to the pure function on databases it implements, and is interpreted for the
    transactions of \<open>Rooms\<close>, \<open>VoiceRooms\<close> and \<open>GroupStore\<close>. \<open>Model\<close>: \<^verbatim>\<open>model/model.go\<close>.
  \<^item> The store: \<open>Rate\<close> (\<^verbatim>\<open>store/rate\<close>; the locale \<open>metered\<close> bounds what a bucket grants and is
    interpreted for the store here and for the limiter in \<open>Limiter\<close>), \<open>Rooms\<close>, \<open>VoiceRooms\<close>,
    \<open>Users\<close>, \<open>Welcome\<close>, \<open>Messages\<close>, \<open>GroupStore\<close> with \<open>GroupLaws\<close>, \<open>AttachmentStore\<close>.
  \<^item> The services: \<open>App\<close> with \<open>AppLaws\<close> (\<^verbatim>\<open>internal/app\<close>), \<open>GroupService\<close> with \<open>GroupAccess\<close>
    and \<open>SendLaws\<close> (\<^verbatim>\<open>internal/groups\<close>), \<open>Hub\<close>, \<open>Views\<close> (\<^verbatim>\<open>publicview\<close>), \<open>Similarity\<close> and
    \<open>Antispam\<close>, \<open>Avatar\<close>, \<open>Limiter\<close> (\<^verbatim>\<open>internal/abuse\<close>), \<open>Enforcer\<close> (\<^verbatim>\<open>httpapi/ban\<close>).
    \<open>Frames\<close>: the locale \<open>frame\<close> shows once for every operation of the groups that it leaves
    alone what the store, clock, gateway and guard leave alone; it is interpreted for the
    reservations of uploads and for the hub.
  \<^item> Attachments: \<open>Detect\<close>, \<open>Archive\<close>, \<open>Processor\<close> (from the upload to the stored file), \<open>Storage\<close>
    with \<open>StorageLaws\<close>, \<open>UploadLaws\<close> and \<open>CleanupLaws\<close> (reservations, batches, cleanup).
  \<^item> The server: \<open>Clientip\<close>, \<open>Config\<close>, \<open>Http\<close> (requests, responses and what they share),
    \<open>Middleware\<close>, \<open>Requests\<close> (what is read and tested), \<open>Handlers\<close>, \<open>Router\<close> (the table of routes and
    the order of the middleware), \<open>Program\<close> (\<^verbatim>\<open>cmd/api/main.go\<close>).
  \<^item> \<open>Invariant\<close>, \<open>KeepLaws\<close>, \<open>ServerLaws\<close>: the invariant \<open>sound\<close> of the whole database, that every
    statement, operation and handler keeps it; \<open>Program\<close> concludes it for every reachable
    state. \<open>WebLaws\<close>: what the HTTP layer promises its clients.

  \<^bold>\<open>The theorems.\<close> Authorisation (who is authenticated, who sees, joins, deletes, downloads),
  limits (buckets, quotas, members, sizes), that nothing is lost or left behind (messages are
  read back as sent and sent once, reservations are returned, temporary files removed, no file
  of a live attachment deleted), recovery (the cleanup catches up), the order in which
  subscribers hear of events, and the invariant of the database.

  \<^bold>\<open>Termination and bounds.\<close> Every definition is total and no fuel is used: loops are structural
  or have a measure (the sizes and qualities of a picture, the digits of a number, groups of an
  address). The ten passes of an emergency cleanup and the attempts at a room code are the
  numbers of the code. Loops that run as long as the server does are steps of \<open>reachable\<close>.

  \<^bold>\<open>Interleaving.\<close> An operation runs as one sequence of statements. The invariant is kept by every
  single statement outside a transaction and by every transaction, so it holds as well when
  operations of several requests interleave; the other theorems are about one operation at a
  time, and about sequences of operations where they say so.

  \<^bold>\<open>What is outside.\<close> Parameters of the definitions are: SHA-256, bcrypt, the tokens of LiveKit
  (\<open>crypto\<close>), the classes of Unicode, the syntax of JSON, mail addresses, durations and multipart
  forms (\<open>front\<close>), image codecs, archive readers, the sniffing of \<^verbatim>\<open>net/http\<close>, ffmpeg, the names of
  temporary files, the free bytes of the disk, and the pattern matching of the router chi
  (\<open>mux\<close>).

  \<^bold>\<open>Not modelled.\<close> Logging and request identifiers, the connection settings of SQLite and the
  steps between versions of the schema (\<^verbatim>\<open>store.Open\<close>, \<^verbatim>\<open>store/schema\<close>), the HTTP calls of the
  gateway (\<^verbatim>\<open>internal/livekit\<close>), the system call of \<^verbatim>\<open>internal/disk\<close>, the frames of the event
  stream and byte ranges of downloads, listening and shutdown, and the frontend: they are
  input and output or keep no state of their own.
\<close>

end
